(* ===== verification/Json.thy ===== *)
theory Json
  imports Prelude
begin

text \<open>
  JSON values and Python's \<open>json.dumps(value, sort_keys=True, separators=(",", ":"))\<close>, the text
  every fingerprint and signed payload of the repository is computed from.  A number is an integer,
  or a float given by the text \<open>float.__repr__\<close> has for it.  \<open>ensure_ascii\<close> is on, so every character outside the
  printable ASCII range is escaped.
\<close>

datatype json =
    JNull
  | JBool bool
  | JInt int
  | JFloat string
  | JStr string
  | JArr "json list"
  | JObj "(string \<times> json) list"

definition hex_digit :: "nat \<Rightarrow> char" where
  "hex_digit n = (if n < 10 then char_of (48 + n) else char_of (87 + n))"

definition json_escape_char :: "char \<Rightarrow> string" where
  "json_escape_char c =
     (if code c = 34 then [char_of (92::nat), char_of (34::nat)]
      else if code c = 92 then [char_of (92::nat), char_of (92::nat)]
      else if code c = 10 then [char_of (92::nat), CHR ''n'']
      else if code c = 13 then [char_of (92::nat), CHR ''r'']
      else if code c = 9 then [char_of (92::nat), CHR ''t'']
      else if code c = 12 then [char_of (92::nat), CHR ''f'']
      else if code c = 8 then [char_of (92::nat), CHR ''b'']
      else if 32 \<le> code c \<and> code c \<le> 126 then [c]
      else [char_of (92::nat), CHR ''u'', CHR ''0'', CHR ''0'',
            hex_digit (code c div 16), hex_digit (code c mod 16)])"

definition json_quote :: "string \<Rightarrow> string" where
  "json_quote s =
     char_of (34::nat) # concat (map json_escape_char s) @ [char_of (34::nat)]"

fun json_dumps :: "json \<Rightarrow> string" where
  "json_dumps JNull = ''null''"
| "json_dumps (JBool b) = (if b then ''true'' else ''false'')"
| "json_dumps (JInt i) = str_of_int i"
| "json_dumps (JFloat s) = s"
| "json_dumps (JStr s) = json_quote s"
| "json_dumps (JArr xs) = ''['' @ join '','' (map json_dumps xs) @ '']''"
| "json_dumps (JObj kvs) =
     ''{'' @ join '','' (map snd (sort_key fst
        (map (\<lambda>(k, v). (k, json_quote k @ '':'' @ json_dumps v)) kvs))) @ ''}''"

definition JOptStr :: "string option \<Rightarrow> json" where
  "JOptStr m = (case m of None \<Rightarrow> JNull | Some s \<Rightarrow> JStr s)"

definition JStrs :: "string list \<Rightarrow> json" where
  "JStrs ss = JArr (map JStr ss)"

lemma json_escape_char_ne [simp]: "json_escape_char c \<noteq> []"
  by (simp add: json_escape_char_def)

end
