(* ===== verification/Events.thy ===== *)
theory Events
  imports Json
begin

text \<open>
  Source-control events as \<open>repository/scm.py\<close> builds them: the validated records (the state after
  \<open>__post_init__\<close>, whose timestamps are points in time) and the keys derived from them.
  \<open>scope_key\<close> names the resource whose jobs are serialised, \<open>idempotency_key\<close> the revision and
  trigger a job is enqueued for at most once.  SHA-256 is a parameter \<open>sha256\<close> (it maps a text to
  its hexadecimal digest).
\<close>

type_synonym time = int \<comment> \<open>microseconds since the epoch\<close>

definition seconds :: "int \<Rightarrow> time" where
  "seconds n = n * 1000000"

datatype trigger_kind = Automatic | Manual

datatype pull_request_state = Pr_open | Pr_closed | Pr_merged

fun trigger_kind_text :: "trigger_kind \<Rightarrow> string" where
  "trigger_kind_text Automatic = ''automatic''"
| "trigger_kind_text Manual = ''manual''"

fun state_text :: "pull_request_state \<Rightarrow> string" where
  "state_text Pr_open = ''open''"
| "state_text Pr_closed = ''closed''"
| "state_text Pr_merged = ''merged''"

section \<open>Pull-request events\<close>

record pull_request_event =
  ev_provider :: string
  ev_scm_base_url :: string
  ev_api_base_url :: string
  ev_repo_full_name :: string
  ev_number :: nat
  ev_web_url :: string
  ev_action :: string
  ev_head_sha :: string
  ev_base_sha :: string
  ev_updated_at :: time
  ev_delivery_id :: string
  ev_github_repository_id :: nat
  ev_author :: string
  ev_base_branch :: string
  ev_head_branch :: string
  ev_is_draft :: bool
  ev_labels :: "string list"
  ev_title :: string
  ev_description :: string
  ev_trigger_kind :: trigger_kind
  ev_trigger_id :: string
  ev_metadata_complete :: bool
  ev_changed_file_count :: nat
  ev_state :: pull_request_state
  ev_source_created_at :: "time option"
  ev_source_closed_at :: "time option"
  ev_source_merged_at :: "time option"
  ev_additions :: nat
  ev_deletions :: nat

definition repository_identity :: "nat \<Rightarrow> string \<Rightarrow> string" where
  "repository_identity github_id full_name =
     (if github_id \<noteq> 0 then ''github_repository:'' @ str_of_nat github_id else full_name)"

definition pr_scope_key :: "pull_request_event \<Rightarrow> string" where
  "pr_scope_key e =
     ev_provider e @ '':'' @ ev_scm_base_url e @ '':''
       @ repository_identity (ev_github_repository_id e) (ev_repo_full_name e)
       @ '':pull_request:'' @ str_of_nat (ev_number e)"

text \<open>\<open>isofmt\<close> prints a point in time as \<open>datetime.isoformat\<close> does; an absent one is \<open>""\<close>.\<close>

definition isofmt_or_empty :: "(time \<Rightarrow> string) \<Rightarrow> time option \<Rightarrow> string" where
  "isofmt_or_empty isofmt m = (case m of None \<Rightarrow> '''' | Some t \<Rightarrow> isofmt t)"

definition trigger_fingerprint ::
  "(string \<Rightarrow> string) \<Rightarrow> (time \<Rightarrow> string) \<Rightarrow> pull_request_event \<Rightarrow> string" where
  "trigger_fingerprint sha256 isofmt e = sha256 (json_dumps (JObj
     [(''action'', JStr (ev_action e)),
      (''author'', JStr (ev_author e)),
      (''base_branch'', JStr (ev_base_branch e)),
      (''head_branch'', JStr (ev_head_branch e)),
      (''is_draft'', JBool (ev_is_draft e)),
      (''labels'', JStrs (ev_labels e)),
      (''title'', JStr (ev_title e)),
      (''description'', JStr (ev_description e)),
      (''trigger_kind'', JStr (trigger_kind_text (ev_trigger_kind e))),
      (''trigger_id'', JStr (ev_trigger_id e)),
      (''metadata_complete'', JBool (ev_metadata_complete e)),
      (''changed_file_count'', JInt (int (ev_changed_file_count e))),
      (''state'', JStr (state_text (ev_state e))),
      (''source_created_at'', JStr (isofmt_or_empty isofmt (ev_source_created_at e))),
      (''source_closed_at'', JStr (isofmt_or_empty isofmt (ev_source_closed_at e))),
      (''source_merged_at'', JStr (isofmt_or_empty isofmt (ev_source_merged_at e))),
      (''additions'', JInt (int (ev_additions e))),
      (''deletions'', JInt (int (ev_deletions e)))]))"

definition pr_idempotency_key ::
  "(string \<Rightarrow> string) \<Rightarrow> (time \<Rightarrow> string) \<Rightarrow> pull_request_event \<Rightarrow> string" where
  "pr_idempotency_key sha256 isofmt e =
     pr_scope_key e @ '':'' @ ev_base_sha e @ '':'' @ ev_head_sha e @ '':''
       @ trigger_fingerprint sha256 isofmt e"

definition lifecycle_at :: "pull_request_event \<Rightarrow> time" where
  "lifecycle_at e =
     (case (ev_state e, ev_source_merged_at e, ev_source_closed_at e, ev_source_created_at e) of
        (Pr_merged, Some t, _, _) \<Rightarrow> t
      | (Pr_closed, _, Some t, _) \<Rightarrow> t
      | (_, _, _, Some t) \<Rightarrow>
          if ev_action e \<in> {''open'', ''opened''} then t else ev_updated_at e
      | _ \<Rightarrow> ev_updated_at e)"

section \<open>Push events\<close>

record push_event =
  pu_provider :: string
  pu_scm_base_url :: string
  pu_api_base_url :: string
  pu_repo_full_name :: string
  pu_ref_name :: string
  pu_default_branch :: string
  pu_before_sha :: string
  pu_after_sha :: string
  pu_pushed_at :: time
  pu_delivery_id :: string
  pu_github_repository_id :: nat

definition push_scope_key :: "push_event \<Rightarrow> string" where
  "push_scope_key e =
     pu_provider e @ '':'' @ pu_scm_base_url e @ '':''
       @ repository_identity (pu_github_repository_id e) (pu_repo_full_name e)
       @ '':repository_index:'' @ pu_ref_name e"

definition push_idempotency_key :: "push_event \<Rightarrow> string" where
  "push_idempotency_key e = push_scope_key e @ '':'' @ pu_after_sha e"

end
