(* ===== verification/Rows.thy ===== *)
theory Rows
  imports Prelude
begin

text \<open>
  A table as the list of its rows in order of insertion, with the statement \<open>UPDATE \<dots> SET f WHERE p\<close>,
  its row count and \<open>SELECT \<dots> LIMIT 1\<close>, and the contract of a table whose rows only ever evolve: an order on row
  versions that every update and insert follows.
\<close>

definition update_where :: "('r \<Rightarrow> bool) \<Rightarrow> ('r \<Rightarrow> 'r) \<Rightarrow> 'r list \<Rightarrow> 'r list" where
  "update_where P f rows = map (\<lambda>r. if P r then f r else r) rows"

definition select_one :: "('r \<Rightarrow> bool) \<Rightarrow> 'r list \<Rightarrow> 'r option" where
  "select_one P rows = find P rows"

text \<open>With the row count.\<close>

definition update_counted :: "('r \<Rightarrow> bool) \<Rightarrow> ('r \<Rightarrow> 'r) \<Rightarrow> 'r list \<Rightarrow> nat \<times> 'r list" where
  "update_counted p f rows = (length (filter p rows), update_where p f rows)"

lemma length_update_where [simp]: "length (update_where P f rows) = length rows"
  by (simp add: update_where_def)

lemma set_update_where: "set (update_where P f rows) = (\<lambda>r. if P r then f r else r) ` set rows"
  by (simp add: update_where_def)

lemma in_update_whereE:
  assumes "r' \<in> set (update_where P f rows)"
  obtains r where "r \<in> set rows" "r' = (if P r then f r else r)"
  using assms by (auto simp: set_update_where)

lemma in_update_whereI: "r \<in> set rows \<Longrightarrow> (if P r then f r else r) \<in> set (update_where P f rows)"
  by (auto simp: set_update_where)

lemma ball_update_where:
  "(\<forall>r \<in> set (update_where P f rows). Q r) \<longleftrightarrow>
   (\<forall>r \<in> set rows. (P r \<longrightarrow> Q (f r)) \<and> (\<not> P r \<longrightarrow> Q r))"
  by (auto simp: set_update_where)

lemma map_update_where_same:
  "(\<And>r. g (f r) = g r) \<Longrightarrow> map g (update_where P f rows) = map g rows"
  by (simp add: update_where_def)

lemma update_where_none: "\<forall>r \<in> set rows. \<not> P r \<Longrightarrow> update_where P f rows = rows"
  by (simp add: update_where_def map_idI)

lemma update_where_append:
  "update_where P f (xs @ ys) = update_where P f xs @ update_where P f ys"
  by (simp add: update_where_def)

lemma select_one_SomeD: "select_one P rows = Some r \<Longrightarrow> r \<in> set rows \<and> P r"
  by (auto simp: select_one_def find_Some_iff)

lemma select_one_None_iff: "select_one P rows = None \<longleftrightarrow> (\<forall>r \<in> set rows. \<not> P r)"
  by (auto simp: select_one_def find_None_iff)

lemma select_one_unique:
  "\<lbrakk>r \<in> set rows; P r; \<And>r'. r' \<in> set rows \<Longrightarrow> P r' \<Longrightarrow> r' = r\<rbrakk> \<Longrightarrow> select_one P rows = Some r"
  by (metis option.exhaust select_one_None_iff select_one_SomeD)

lemma update_counted_rows [simp]: "snd (update_counted p f rows) = update_where p f rows"
  by (simp add: update_counted_def)

lemma update_where_keys:
  "(\<And>r. p r \<Longrightarrow> k (f r) = k r) \<Longrightarrow> map k (update_where p f rows) = map k rows"
  by (simp add: update_where_def comp_def if_distrib[of k])

lemma filter_key_single:
  assumes "distinct (map k rows)" "r \<in> set rows" "p r" "\<And>s. p s \<Longrightarrow> k s = k r"
  shows "filter p rows = [r]"
  using assms
proof (induction rows)
  case (Cons s rows)
  show ?case
  proof (cases "s = r")
    case True
    then have "k r \<notin> k ` set rows" using Cons.prems(1) by simp
    then have "\<forall>x \<in> set rows. \<not> p x" using Cons.prems(4) by (metis imageI)
    then show ?thesis using True Cons.prems(3) by simp
  next
    case False
    then have r: "r \<in> set rows" using Cons.prems(2) by simp
    then have "k s \<noteq> k r" using Cons.prems(1) by force
    then have "\<not> p s" using Cons.prems(4) by blast
    moreover have "distinct (map k rows)" using Cons.prems(1) by simp
    ultimately show ?thesis using Cons.IH[OF _ r Cons.prems(3,4)] by simp
  qed
qed simp

lemma update_counted_none: "\<forall>r \<in> set rows. \<not> p r \<Longrightarrow> update_counted p f rows = (0, rows)"
  by (simp add: update_counted_def update_where_none filter_empty_conv)

locale evolving_rows =
  fixes evolves :: "'r \<Rightarrow> 'r \<Rightarrow> bool"
  assumes evolves_refl: "evolves r r"
    and evolves_trans: "evolves r s \<Longrightarrow> evolves s t \<Longrightarrow> evolves r t"
begin

definition table_evolves :: "'r list \<Rightarrow> 'r list \<Rightarrow> bool" where
  "table_evolves rows rows' \<longleftrightarrow> (\<exists>xs ys. rows' = xs @ ys \<and> list_all2 evolves rows xs)"

lemma table_insert: "table_evolves rows (rows @ new)"
  by (auto simp: table_evolves_def intro: list_all2_refl evolves_refl)

lemma table_refl [simp]: "table_evolves rows rows"
  using table_insert[of rows "[]"] by simp

lemma table_trans:
  assumes "table_evolves a b" "table_evolves b c"
  shows "table_evolves a c"
proof -
  from assms obtain b1 b2 c1 c2 where b: "b = b1 @ b2" "list_all2 evolves a b1"
    and c: "c = c1 @ c2" "list_all2 evolves b c1" by (auto simp: table_evolves_def)
  from c(2) b(1) obtain d e where d: "c1 = d @ e" "list_all2 evolves b1 d"
    by (auto simp: list_all2_append1)
  have "list_all2 evolves a d"
    using list_all2_trans[of evolves evolves evolves a b1] b(2) d(2) evolves_trans by blast
  then show ?thesis using c(1) d(1) by (auto simp: table_evolves_def)
qed

lemma table_update:
  assumes "\<And>r. r \<in> set rows \<Longrightarrow> p r \<Longrightarrow> evolves r (f r)"
  shows "table_evolves rows (update_where p f rows)"
proof -
  have "list_all2 evolves rows (update_where p f rows)"
    using assms by (auto simp: update_where_def list_all2_conv_all_nth evolves_refl)
  then show ?thesis by (auto simp: table_evolves_def)
qed

lemma table_member:
  assumes "table_evolves rows rows'" "r \<in> set rows"
  shows "\<exists>r' \<in> set rows'. evolves r r'"
proof -
  from assms(1) obtain xs ys where rows': "rows' = xs @ ys" and all: "list_all2 evolves rows xs"
    by (auto simp: table_evolves_def)
  from assms(2) obtain n where n: "n < length rows" "r = rows ! n" by (auto simp: in_set_conv_nth)
  have "evolves r (xs ! n)" using all n by (simp add: list_all2_nthD)
  moreover have "xs ! n \<in> set rows'" using all n rows' by (simp add: list_all2_lengthD)
  ultimately show ?thesis ..
qed

end

end
