(* ===== verification/Queue_State.thy ===== *)
theory Queue_State
  imports Events Rows
begin

text \<open>
  The tables behind the workflow queue (\<open>migrations/schema.sql\<close>) and the SQL the queue runs on them.

  A table is the list of its rows, a \<open>BIGSERIAL\<close> key the next value of its sequence.  The columns
  are those the queue reads or writes; \<open>created_at\<close> and \<open>updated_at\<close> are never read by it and are
  left out.  A transaction is a function from the state to a result and the new state, its \<open>now()\<close>
  a parameter that is fixed for the whole transaction, as in PostgreSQL; an exception rolls the
  transaction back, so an error result carries no state.
\<close>

datatype job_type =
    Review_pull_request | Answer_review_comment | Sync_review_feedback
  | Generate_suggested_rules | Index_repository

datatype job_status = Queued | Running | Succeeded | Failed | Dead | Cancelled | Superseded

datatype attempt_status = A_running | A_succeeded | A_failed | A_lease_expired

datatype payload = Pull_request_payload pull_request_event | Push_payload push_event

record job =
  j_id :: nat
  j_repository_id :: nat
  j_pull_request_id :: "nat option"
  j_type :: job_type
  j_key :: string
  j_scope :: string
  j_base_revision :: string
  j_revision :: string
  j_status :: job_status
  j_payload :: payload
  j_priority :: int
  j_attempt_count :: nat
  j_max_attempts :: nat
  j_available_at :: time
  j_leased_by :: "string option"
  j_lease_expires_at :: "time option"
  j_last_error_code :: "string option"
  j_completed_at :: "time option"

record attempt =
  a_job_id :: nat
  a_number :: nat
  a_worker_id :: string
  a_status :: attempt_status
  a_error_code :: "string option"
  a_finished_at :: "time option"

record repository =
  r_id :: nat
  r_provider :: string
  r_base_url :: string
  r_full_name :: string
  r_default_branch :: "string option"
  r_clone_url :: "string option"
  r_enabled :: bool
  r_auto_review :: bool
  r_github_repository_id :: "nat option"

record pull_request =
  p_id :: nat
  p_repository_id :: nat
  p_number :: nat
  p_web_url :: string
  p_base_sha :: string
  p_head_sha :: string
  p_author :: string
  p_base_branch :: string
  p_head_branch :: string
  p_is_draft :: bool
  p_labels :: "string list"
  p_title :: string
  p_description :: string
  p_state :: pull_request_state
  p_changed_file_count :: nat
  p_additions :: nat
  p_deletions :: nat
  p_source_created_at :: "time option"
  p_source_closed_at :: "time option"
  p_source_merged_at :: "time option"
  p_latest_event_at :: time

record repository_ref =
  f_id :: nat
  f_repository_id :: nat
  f_ref_name :: string
  f_commit_sha :: string
  f_latest_event_at :: time

record delivery =
  d_id :: nat
  d_provider :: string
  d_base_url :: string
  d_delivery_id :: string
  d_event_name :: string
  d_payload_sha256 :: string
  d_job_id :: "nat option"

record lifecycle_event =
  l_pull_request_id :: nat
  l_delivery_id :: nat
  l_action :: string
  l_state :: pull_request_state
  l_source_event_at :: time
  l_source_created_at :: "time option"
  l_source_closed_at :: "time option"
  l_source_merged_at :: "time option"

record audit_event =
  au_actor_label :: string
  au_repository_id :: nat
  au_previous_full_name :: string
  au_full_name :: string
  au_github_repository_id :: nat

record db =
  jobs :: "job list"
  next_job :: nat
  attempts :: "attempt list"
  repositories :: "repository list"
  pulls :: "pull_request list"
  next_pull :: nat
  refs :: "repository_ref list"
  next_ref :: nat
  deliveries :: "delivery list"
  next_delivery :: nat
  lifecycle :: "lifecycle_event list"
  audit :: "audit_event list"

datatype queue_error =
    Value_error
  | Repository_not_onboarded string
  | Repository_identity_conflict
  | Repository_ambiguous
  | Delivery_conflict string
  | Event_order_conflict string
  | Unique_violation

section \<open>Table operations\<close>

definition is_terminal :: "job_status \<Rightarrow> bool" where
  "is_terminal s \<longleftrightarrow> s = Dead \<or> s = Failed"

definition is_outstanding :: "job_status \<Rightarrow> bool" where
  "is_outstanding s \<longleftrightarrow> s = Queued \<or> s = Running"


end
