(* ===== verification/Lease.thy ===== *)
theory Lease
  imports Queue_State
begin

text \<open>
  The worker's side of the queue (\<open>review/workflow.py\<close>): the lease sweep and the claim of the next
  job, the heartbeat, the currency checks and the three ways a worker ends an attempt.  Every
  operation of a worker on a job it has claimed is guarded by the lease: the row must be running,
  leased by this worker, with a lease that has not expired.
\<close>

section \<open>The lease sweep\<close>

definition lease_expired :: "time \<Rightarrow> job \<Rightarrow> bool" where
  "lease_expired now j \<longleftrightarrow>
     j_status j = Running \<and> (case j_lease_expires_at j of None \<Rightarrow> False | Some t \<Rightarrow> t < now)"

definition expire_attempts :: "time \<Rightarrow> db \<Rightarrow> db" where
  "expire_attempts now st = st\<lparr>attempts := update_where
     (\<lambda>a. a_status a = A_running \<and>
          (\<exists>j \<in> set (jobs st).
             a_job_id a = j_id j \<and> a_number a = j_attempt_count j \<and> lease_expired now j))
     (\<lambda>a. a\<lparr>a_status := A_lease_expired, a_error_code := Some ''lease_expired'',
            a_finished_at := Some now\<rparr>)
     (attempts st)\<rparr>"

definition expiry_delay :: "int \<Rightarrow> int \<Rightarrow> nat \<Rightarrow> int" where
  "expiry_delay base_delay max_delay count =
     (if count > 1 then min max_delay (base_delay * 2 ^ (count - 2)) else 0)"

definition expire_job :: "time \<Rightarrow> int \<Rightarrow> int \<Rightarrow> job \<Rightarrow> job" where
  "expire_job now base_delay max_delay j =
     j\<lparr>j_status := (if j_attempt_count j \<ge> j_max_attempts j then Dead else Queued),
       j_available_at := now + seconds (expiry_delay base_delay max_delay (j_attempt_count j)),
       j_leased_by := None,
       j_lease_expires_at := None,
       j_last_error_code := Some ''lease_expired'',
       j_completed_at := (if j_attempt_count j \<ge> j_max_attempts j then Some now else None)\<rparr>"

definition expire_jobs :: "time \<Rightarrow> int \<Rightarrow> int \<Rightarrow> db \<Rightarrow> db" where
  "expire_jobs now base_delay max_delay st = st\<lparr>jobs :=
     update_where (lease_expired now) (expire_job now base_delay max_delay) (jobs st)\<rparr>"

definition sweep :: "time \<Rightarrow> int \<Rightarrow> int \<Rightarrow> db \<Rightarrow> db" where
  "sweep now base_delay max_delay st =
     expire_jobs now base_delay max_delay (expire_attempts now st)"

section \<open>Claiming\<close>

definition repository_enabled :: "db \<Rightarrow> nat \<Rightarrow> bool" where
  "repository_enabled st rid \<longleftrightarrow> (\<exists>r \<in> set (repositories st). r_id r = rid \<and> r_enabled r)"

definition claimable :: "time \<Rightarrow> db \<Rightarrow> job \<Rightarrow> bool" where
  "claimable now st q \<longleftrightarrow>
     j_status q = Queued \<and> repository_enabled st (j_repository_id q) \<and> j_available_at q \<le> now \<and>
     \<not> (\<exists>e \<in> set (jobs st). j_scope e = j_scope q \<and> j_id e < j_id q \<and> is_outstanding (j_status e)) \<and>
     \<not> (\<exists>r \<in> set (jobs st). j_scope r = j_scope q \<and> j_status r = Running)"

definition claim_order :: "job \<Rightarrow> int \<times> time \<times> nat" where
  "claim_order j = (- j_priority j, j_available_at j, j_id j)"

text \<open>
  \<open>FOR UPDATE SKIP LOCKED LIMIT 1\<close>: rows that a concurrent transaction has locked are passed over;
  \<open>locked\<close> holds their ids.
\<close>

definition next_claim :: "time \<Rightarrow> nat list \<Rightarrow> db \<Rightarrow> job option" where
  "next_claim now locked st =
     (case sort_key claim_order
             (filter (\<lambda>j. claimable now st j \<and> j_id j \<notin> set locked) (jobs st)) of
        [] \<Rightarrow> None
      | j # _ \<Rightarrow> Some j)"

definition start_job :: "time \<Rightarrow> string \<Rightarrow> int \<Rightarrow> job \<Rightarrow> job" where
  "start_job now worker lease j =
     j\<lparr>j_status := Running,
       j_attempt_count := j_attempt_count j + 1,
       j_leased_by := Some worker,
       j_lease_expires_at := Some (now + seconds lease),
       j_last_error_code := None\<rparr>"

record workflow_job =
  w_id :: nat
  w_repository_id :: nat
  w_pull_request_id :: "nat option"
  w_job_type :: job_type
  w_scope_key :: string
  w_base_revision :: string
  w_revision :: string
  w_payload :: payload
  w_attempt_count :: nat
  w_max_attempts :: nat

definition workflow_job_of :: "job \<Rightarrow> workflow_job" where
  "workflow_job_of j =
     \<lparr>w_id = j_id j, w_repository_id = j_repository_id j,
      w_pull_request_id = j_pull_request_id j, w_job_type = j_type j, w_scope_key = j_scope j,
      w_base_revision = j_base_revision j, w_revision = j_revision j, w_payload = j_payload j,
      w_attempt_count = j_attempt_count j, w_max_attempts = j_max_attempts j\<rparr>"

definition begin_attempt :: "time \<Rightarrow> string \<Rightarrow> int \<Rightarrow> job \<Rightarrow> db \<Rightarrow> db" where
  "begin_attempt now worker lease j st = st\<lparr>
     jobs := update_where (\<lambda>r. j_id r = j_id j) (start_job now worker lease) (jobs st),
     attempts := attempts st @
       [\<lparr>a_job_id = j_id j, a_number = j_attempt_count j + 1, a_worker_id = worker,
         a_status = A_running, a_error_code = None, a_finished_at = None\<rparr>]\<rparr>"

definition claim_workflow_job ::
  "time \<Rightarrow> nat list \<Rightarrow> string \<Rightarrow> int \<Rightarrow> int \<Rightarrow> int \<Rightarrow> db
   \<Rightarrow> queue_error + (workflow_job option \<times> db)" where
  "claim_workflow_job now locked worker lease base_delay max_delay st =
     (if strip worker = [] then Inl Value_error
      else if lease \<le> 0 then Inl Value_error
      else if base_delay \<le> 0 \<or> max_delay \<le> 0 then Inl Value_error
      else
        (let swept = sweep now base_delay max_delay st in
         case next_claim now locked swept of
           None \<Rightarrow> Inr (None, swept)
         | Some j \<Rightarrow> Inr (Some (workflow_job_of (start_job now worker lease j)),
                          begin_attempt now worker lease j swept)))"

section \<open>Operations under a lease\<close>

definition holds_lease :: "time \<Rightarrow> nat \<Rightarrow> string \<Rightarrow> job \<Rightarrow> bool" where
  "holds_lease now job_id worker j \<longleftrightarrow>
     j_id j = job_id \<and> j_status j = Running \<and> j_leased_by j = Some worker \<and>
     (case j_lease_expires_at j of None \<Rightarrow> False | Some t \<Rightarrow> t > now)"

definition heartbeat_workflow_job ::
  "time \<Rightarrow> nat \<Rightarrow> string \<Rightarrow> int \<Rightarrow> db \<Rightarrow> queue_error + (bool \<times> db)" where
  "heartbeat_workflow_job now job_id worker lease st =
     (if lease \<le> 0 then Inl Value_error
      else Inr (length (filter (holds_lease now job_id worker) (jobs st)) = 1,
                st\<lparr>jobs := update_where (holds_lease now job_id worker)
                     (\<lambda>j. j\<lparr>j_lease_expires_at := Some (now + seconds lease)\<rparr>) (jobs st)\<rparr>))"

definition finish_attempt ::
  "time \<Rightarrow> nat \<Rightarrow> nat \<Rightarrow> attempt_status \<Rightarrow> string option \<Rightarrow> db \<Rightarrow> db" where
  "finish_attempt now job_id number outcome error st = st\<lparr>attempts := update_where
     (\<lambda>a. a_job_id a = job_id \<and> a_number a = number \<and> a_status a = A_running)
     (\<lambda>a. a\<lparr>a_status := outcome,
            a_error_code := (case error of None \<Rightarrow> a_error_code a | Some c \<Rightarrow> Some c),
            a_finished_at := Some now\<rparr>)
     (attempts st)\<rparr>"

definition close_job :: "time \<Rightarrow> job_status \<Rightarrow> job \<Rightarrow> job" where
  "close_job now status j =
     j\<lparr>j_status := status, j_leased_by := None, j_lease_expires_at := None,
       j_completed_at := Some now\<rparr>"

definition complete_workflow_job :: "time \<Rightarrow> nat \<Rightarrow> string \<Rightarrow> db \<Rightarrow> bool \<times> db" where
  "complete_workflow_job now job_id worker st =
     (case select_one (holds_lease now job_id worker) (jobs st) of
        None \<Rightarrow> (False, st)
      | Some j \<Rightarrow>
          (True, finish_attempt now job_id (j_attempt_count j) A_succeeded None
                   (st\<lparr>jobs := update_where (holds_lease now job_id worker)
                                 (close_job now Succeeded) (jobs st)\<rparr>)))"

definition supersede_workflow_job :: "time \<Rightarrow> nat \<Rightarrow> string \<Rightarrow> db \<Rightarrow> bool \<times> db" where
  "supersede_workflow_job now job_id worker st =
     (case select_one (holds_lease now job_id worker) (jobs st) of
        None \<Rightarrow> (False, st)
      | Some j \<Rightarrow>
          (True, finish_attempt now job_id (j_attempt_count j) A_failed (Some ''superseded'')
                   (st\<lparr>jobs := update_where (holds_lease now job_id worker)
                                 (close_job now Superseded) (jobs st)\<rparr>)))"

definition valid_error_code :: "string \<Rightarrow> bool" where
  "valid_error_code s \<longleftrightarrow>
     1 \<le> length s \<and> length s \<le> 64 \<and>
     (\<forall>c \<in> set s. is_lower_alpha c \<or> is_digit c \<or> code c = 95)"

definition retry_delay :: "int \<Rightarrow> int \<Rightarrow> nat \<Rightarrow> int" where
  "retry_delay base_delay max_delay count = min max_delay (base_delay * 2 ^ (count - 1))"

definition settle_failure :: "time \<Rightarrow> string \<Rightarrow> bool \<Rightarrow> int \<Rightarrow> int \<Rightarrow> job \<Rightarrow> job" where
  "settle_failure now error retryable base_delay max_delay j =
     (let should_retry = retryable \<and> j_attempt_count j < j_max_attempts j in
      j\<lparr>j_status := (if should_retry then Queued else if retryable then Dead else Failed),
        j_available_at :=
          (if should_retry then now + seconds (retry_delay base_delay max_delay (j_attempt_count j))
           else j_available_at j),
        j_leased_by := None,
        j_lease_expires_at := None,
        j_last_error_code := Some error,
        j_completed_at := (if should_retry then None else Some now)\<rparr>)"

definition fail_workflow_job ::
  "time \<Rightarrow> nat \<Rightarrow> string \<Rightarrow> string \<Rightarrow> bool \<Rightarrow> int \<Rightarrow> int \<Rightarrow> db
   \<Rightarrow> queue_error + (job_status option \<times> db)" where
  "fail_workflow_job now job_id worker error retryable base_delay max_delay st =
     (if \<not> valid_error_code error then Inl Value_error
      else if base_delay \<le> 0 \<or> max_delay \<le> 0 then Inl Value_error
      else
        (case select_one (holds_lease now job_id worker) (jobs st) of
           None \<Rightarrow> Inr (None, st)
         | Some j \<Rightarrow>
             Inr (Some (j_status (settle_failure now error retryable base_delay max_delay j)),
               (finish_attempt now job_id (j_attempt_count j) A_failed (Some error) st)\<lparr>jobs :=
                  update_where (\<lambda>r. j_id r = job_id)
                    (settle_failure now error retryable base_delay max_delay) (jobs st)\<rparr>)))"

section \<open>Currency checks and depth\<close>

definition newer_outstanding :: "db \<Rightarrow> job \<Rightarrow> bool" where
  "newer_outstanding st j \<longleftrightarrow>
     (\<exists>n \<in> set (jobs st). j_scope n = j_scope j \<and> j_id n > j_id j \<and> is_outstanding (j_status n))"

definition workflow_job_is_current :: "time \<Rightarrow> nat \<Rightarrow> string \<Rightarrow> db \<Rightarrow> bool" where
  "workflow_job_is_current now job_id worker st \<longleftrightarrow>
     (\<exists>j \<in> set (jobs st). \<exists>p \<in> set (pulls st).
        holds_lease now job_id worker j \<and> j_pull_request_id j = Some (p_id p) \<and>
        repository_enabled st (j_repository_id j) \<and>
        p_state p = Pr_open \<and> p_base_sha p = j_base_revision j \<and> p_head_sha p = j_revision j \<and>
        \<not> newer_outstanding st j)"

definition workflow_job_is_latest :: "time \<Rightarrow> nat \<Rightarrow> string \<Rightarrow> db \<Rightarrow> bool" where
  "workflow_job_is_latest now job_id worker st \<longleftrightarrow>
     (\<exists>j \<in> set (jobs st).
        holds_lease now job_id worker j \<and> repository_enabled st (j_repository_id j) \<and>
        \<not> newer_outstanding st j)"

record workflow_queue_depth =
  q_queued :: nat
  q_running :: nat
  q_dead :: nat
  q_failed :: nat
  q_retrying :: nat

definition workflow_queue_depth :: "time \<Rightarrow> db \<Rightarrow> workflow_queue_depth" where
  "workflow_queue_depth now st =
     (let count = (\<lambda>P. length (filter P (jobs st))) in
      \<lparr>q_queued = count (\<lambda>j. j_status j = Queued),
       q_running = count (\<lambda>j. j_status j = Running),
       q_dead = count (\<lambda>j. j_status j = Dead),
       q_failed = count (\<lambda>j. j_status j = Failed),
       q_retrying = count (\<lambda>j. j_status j = Queued \<and> j_attempt_count j > 0 \<and>
                                j_available_at j > now)\<rparr>)"

end
