(* ===== verification/Registry.thy ===== *)
theory Registry
  imports Queue_State
begin

text \<open>
  The repository registry (\<open>repository/registry.py\<close>) as far as the queue uses it: the name checks of
  \<open>repository/scm.py\<close> and the resolution of a signed GitHub identity, which binds legacy rows to
  their GitHub id and follows renames.  The base URL of an event has been normalised by the event's
  constructor, so a second normalisation returns it unchanged and is not repeated here; for such a
  URL the clone URL is the base, the name and \<open>.git\<close>.
\<close>

definition is_name_char :: "char \<Rightarrow> bool" where
  "is_name_char c \<longleftrightarrow>
     is_upper_alpha c \<or> is_lower_alpha c \<or> is_digit c \<or> c \<in> set ''_.-''"

definition valid_repository_name :: "string \<Rightarrow> bool" where
  "valid_repository_name value \<longleftrightarrow>
     (case split_on CHR ''/'' value of
        [own, name] \<Rightarrow> own \<noteq> [] \<and> name \<noteq> [] \<and> list_all is_name_char (own @ name)
      | _ \<Rightarrow> False) \<and>
     \<not> list_ex (\<lambda>part. part \<in> {''.'', ''..''}) (split_on CHR ''/'' value) \<and>
     length value \<le> 512"

definition is_alnum :: "char \<Rightarrow> bool" where
  "is_alnum c \<longleftrightarrow> is_upper_alpha c \<or> is_lower_alpha c \<or> is_digit c"

definition valid_branch_name :: "string \<Rightarrow> bool" where
  "valid_branch_name value \<longleftrightarrow>
     (value \<noteq> [] \<and> is_alnum (hd value) \<and> length value \<le> 255 \<and>
      list_all (\<lambda>c. is_alnum c \<or> c \<in> set ''._/-'') value) \<and>
     \<not> contains_str ''..'' value \<and>
     \<not> contains_str [CHR 0x40, CHR 0x7B] value \<and>
     \<not> contains_str ''//'' value \<and>
     \<not> (endswith value ''/'' \<or> endswith value ''.'' \<or> endswith value ''.lock'') \<and>
     \<not> list_ex (\<lambda>part. part \<in> {'''', ''.'', ''..''}) (split_on CHR ''/'' value)"

definition repository_clone_url :: "string \<Rightarrow> string \<Rightarrow> string" where
  "repository_clone_url base_url name = base_url @ ''/'' @ name @ ''.git''"

definition get_repository_by_full_name ::
  "string \<Rightarrow> string \<Rightarrow> db \<Rightarrow> queue_error + repository option" where
  "get_repository_by_full_name full_name base_url st =
     (if \<not> valid_repository_name full_name then Inl Value_error
      else
        (case sort_key (\<lambda>r. (r_provider r, r_base_url r))
                (filter (\<lambda>r. r_full_name r = full_name \<and> r_base_url r = base_url \<and>
                             r_clone_url r \<noteq> None \<and> r_default_branch r \<noteq> None)
                   (repositories st)) of
           [] \<Rightarrow> Inr None
         | [r] \<Rightarrow> Inr (Some r)
         | _ \<Rightarrow> Inl Repository_ambiguous))"

definition bind_identity ::
  "nat \<Rightarrow> string \<Rightarrow> string \<Rightarrow> string option \<Rightarrow> repository \<Rightarrow> repository" where
  "bind_identity github_id base_url name branch r =
     r\<lparr>r_github_repository_id := Some github_id,
       r_full_name := name,
       r_clone_url := Some (repository_clone_url base_url name),
       r_default_branch := (case branch of None \<Rightarrow> r_default_branch r | Some b \<Rightarrow> Some b)\<rparr>"

definition find_identity :: "nat \<Rightarrow> string \<Rightarrow> string \<Rightarrow> db \<Rightarrow> repository option" where
  "find_identity github_id base_url name st =
     (case select_one (\<lambda>r. r_provider r = ''github'' \<and> r_base_url r = base_url \<and>
                           r_github_repository_id r = Some github_id) (repositories st) of
        Some r \<Rightarrow> Some r
      | None \<Rightarrow>
          select_one (\<lambda>r. r_provider r = ''github'' \<and> r_base_url r = base_url \<and>
                          r_full_name r = name \<and> r_github_repository_id r = None)
            (repositories st))"

definition name_taken :: "string \<Rightarrow> string \<Rightarrow> nat option \<Rightarrow> db \<Rightarrow> bool" where
  "name_taken base_url name except st \<longleftrightarrow>
     (\<exists>r \<in> set (repositories st).
        r_provider r = ''github'' \<and> r_base_url r = base_url \<and> r_full_name r = name \<and>
        (case except of None \<Rightarrow> True | Some i \<Rightarrow> r_id r \<noteq> i))"

definition resolve_github_repository ::
  "string \<Rightarrow> nat \<Rightarrow> string \<Rightarrow> string option \<Rightarrow> db \<Rightarrow> queue_error + (repository option \<times> db)" where
  "resolve_github_repository base_url github_id full_name branch st =
     (if github_id = 0 then
        bind_result (get_repository_by_full_name full_name base_url st) (\<lambda>r. Inr (r, st))
      else if \<not> valid_repository_name full_name then Inl Value_error
      else if (case branch of None \<Rightarrow> False | Some b \<Rightarrow> b \<noteq> [] \<and> \<not> valid_branch_name b)
      then Inl Value_error
      else
        (let new_branch = (case branch of None \<Rightarrow> None | Some b \<Rightarrow> if b = [] then None else Some b) in
         case find_identity github_id base_url full_name st of
           None \<Rightarrow>
             if name_taken base_url full_name None st then Inl Repository_identity_conflict
             else Inr (None, st)
         | Some r \<Rightarrow>
             if name_taken base_url full_name (Some (r_id r)) st
             then Inl Repository_identity_conflict
             else
               (let r' = bind_identity github_id base_url full_name new_branch r in
                Inr (Some r',
                  st\<lparr>repositories := update_where (\<lambda>x. r_id x = r_id r)
                       (bind_identity github_id base_url full_name new_branch) (repositories st),
                     audit := audit st @
                       (if r_full_name r \<noteq> full_name then
                          [\<lparr>au_actor_label = ''github-webhook'', au_repository_id = r_id r,
                            au_previous_full_name = r_full_name r, au_full_name = full_name,
                            au_github_repository_id = github_id\<rparr>]
                        else [])\<rparr>))))"

end
