(* ===== verification/Enqueue.thy ===== *)
theory Enqueue
  imports Registry
begin

text \<open>
  The webhook side of the queue (\<open>review/workflow.py\<close>): recording a delivery once, keeping the
  pull request (or the branch ref) at its latest event, and enqueueing at most one job per revision
  and trigger, with the jobs a new revision replaces superseded and the wait of a burst of pushes
  inherited.  The result's \<open>state\<close> is a datatype whose text is \<open>enqueue_state_text\<close>.
\<close>

datatype enqueue_state =
    S_queued
  | S_duplicate_delivery "job_status option"
  | S_auto_review_disabled
  | S_stale_delivery
  | S_pull_request pull_request_state
  | S_duplicate_revision job_status

fun job_status_text :: "job_status \<Rightarrow> string" where
  "job_status_text Queued = ''queued''"
| "job_status_text Running = ''running''"
| "job_status_text Succeeded = ''succeeded''"
| "job_status_text Failed = ''failed''"
| "job_status_text Dead = ''dead''"
| "job_status_text Cancelled = ''cancelled''"
| "job_status_text Superseded = ''superseded''"

fun enqueue_state_text :: "enqueue_state \<Rightarrow> string" where
  "enqueue_state_text S_queued = ''queued''"
| "enqueue_state_text (S_duplicate_delivery m) =
     ''duplicate_delivery:'' @
       (case m of None \<Rightarrow> ''recorded'' | Some s \<Rightarrow> job_status_text s)"
| "enqueue_state_text S_auto_review_disabled = ''auto_review_disabled''"
| "enqueue_state_text S_stale_delivery = ''stale_delivery''"
| "enqueue_state_text (S_pull_request s) = ''pull_request_'' @ state_text s"
| "enqueue_state_text (S_duplicate_revision s) = ''duplicate_revision:'' @ job_status_text s"

record enqueue_result =
  er_job_id :: "nat option"
  er_state :: enqueue_state

definition accepted :: "enqueue_result \<Rightarrow> bool" where
  "accepted r \<longleftrightarrow> enqueue_state_text (er_state r) = ''queued''"

section \<open>The debounce setting\<close>

text \<open>\<open>int(raw)\<close>: an optional sign, then digits with single underscores between them.\<close>

fun int_literal_ok :: "string \<Rightarrow> bool" where
  "int_literal_ok [] = False"
| "int_literal_ok [c] = is_digit c"
| "int_literal_ok (c # d # cs) =
     (is_digit c \<and> (if d = CHR ''_'' then int_literal_ok cs else int_literal_ok (d # cs)))"

definition py_int :: "string \<Rightarrow> int option" where
  "py_int raw =
     (let s = strip raw;
          neg = startswith s ''-'';
          body = (if startswith s ''-'' \<or> startswith s ''+'' then tl s else s) in
      if int_literal_ok body
      then Some ((if neg then - 1 else 1) * int (nat_of_digits (filter is_digit body)))
      else None)"

definition default_update_debounce_seconds :: int where
  "default_update_debounce_seconds = 60"

definition review_update_debounce_seconds :: "string option \<Rightarrow> queue_error + int" where
  "review_update_debounce_seconds env =
     (let raw = strip (case env of None \<Rightarrow> str_of_int default_update_debounce_seconds
                                 | Some v \<Rightarrow> v) in
      if raw = [] then Inr default_update_debounce_seconds
      else (case py_int raw of
              None \<Rightarrow> Inl Value_error
            | Some n \<Rightarrow> if n < 0 then Inl Value_error else Inr n))"

section \<open>Steps shared by the enqueue operations\<close>

definition valid_sha256 :: "string \<Rightarrow> bool" where
  "valid_sha256 s \<longleftrightarrow> length s = 64 \<and> list_all is_hex_lower s"

text \<open>
  \<open>INSERT ... ON CONFLICT DO NOTHING RETURNING id\<close>, and the row in the way when there is one.  The
  sequence is advanced either way.
\<close>

definition record_delivery ::
  "string \<Rightarrow> string \<Rightarrow> string \<Rightarrow> string \<Rightarrow> string \<Rightarrow> db \<Rightarrow> (delivery + nat) \<times> db" where
  "record_delivery provider base_url delivery_id event_name sha st =
     (case select_one (\<lambda>d. d_provider d = provider \<and> d_base_url d = base_url \<and>
                           d_delivery_id d = delivery_id) (deliveries st) of
        Some d \<Rightarrow> (Inl d, st\<lparr>next_delivery := next_delivery st + 1\<rparr>)
      | None \<Rightarrow>
          (Inr (next_delivery st),
           st\<lparr>deliveries := deliveries st @
                [\<lparr>d_id = next_delivery st, d_provider = provider, d_base_url = base_url,
                  d_delivery_id = delivery_id, d_event_name = event_name,
                  d_payload_sha256 = sha, d_job_id = None\<rparr>],
              next_delivery := next_delivery st + 1\<rparr>))"

definition job_status_of :: "db \<Rightarrow> nat option \<Rightarrow> job_status option" where
  "job_status_of st m =
     (case m of None \<Rightarrow> None
      | Some i \<Rightarrow> map_option j_status (select_one (\<lambda>j. j_id j = i) (jobs st)))"

definition duplicate_delivery ::
  "delivery \<Rightarrow> string \<Rightarrow> db \<Rightarrow> queue_error + (enqueue_result \<times> db)" where
  "duplicate_delivery d sha st =
     (if d_payload_sha256 d \<noteq> sha then Inl (Delivery_conflict (d_delivery_id d))
      else Inr (\<lparr>er_job_id = d_job_id d,
                 er_state = S_duplicate_delivery (job_status_of st (d_job_id d))\<rparr>, st))"

definition retired_key :: "job \<Rightarrow> string" where
  "retired_key j = j_key j @ ''#retired-'' @ str_of_nat (j_id j)"

definition retire_terminal_job :: "job option \<Rightarrow> db \<Rightarrow> queue_error + (bool \<times> db)" where
  "retire_terminal_job existing st =
     (case existing of
        None \<Rightarrow> Inr (False, st)
      | Some j \<Rightarrow>
          if \<not> is_terminal (j_status j) then Inr (False, st)
          else if retired_key j \<in> j_key ` set (jobs st) then Inl Unique_violation
          else Inr (True, st\<lparr>jobs := update_where (\<lambda>r. j_id r = j_id j)
                                (\<lambda>r. r\<lparr>j_key := retired_key r\<rparr>) (jobs st)\<rparr>))"

definition link_delivery :: "nat \<Rightarrow> nat \<Rightarrow> db \<Rightarrow> db" where
  "link_delivery did job_id st = st\<lparr>deliveries :=
     update_where (\<lambda>d. d_id d = did) (\<lambda>d. d\<lparr>d_job_id := Some job_id\<rparr>) (deliveries st)\<rparr>"

definition close_queued :: "time \<Rightarrow> job_status \<Rightarrow> (job \<Rightarrow> bool) \<Rightarrow> db \<Rightarrow> db" where
  "close_queued now status P st = st\<lparr>jobs :=
     update_where (\<lambda>j. P j \<and> j_status j = Queued)
       (\<lambda>j. j\<lparr>j_status := status, j_completed_at := Some now\<rparr>) (jobs st)\<rparr>"

definition new_job ::
  "nat \<Rightarrow> nat \<Rightarrow> nat option \<Rightarrow> job_type \<Rightarrow> string \<Rightarrow> string \<Rightarrow> string \<Rightarrow> string \<Rightarrow> payload \<Rightarrow> time \<Rightarrow> job"
where
  "new_job i rid pid type key scope base revision load available =
     \<lparr>j_id = i, j_repository_id = rid, j_pull_request_id = pid, j_type = type, j_key = key,
      j_scope = scope, j_base_revision = base, j_revision = revision, j_status = Queued,
      j_payload = load, j_priority = 0, j_attempt_count = 0, j_max_attempts = 5,
      j_available_at = available, j_leased_by = None, j_lease_expires_at = None,
      j_last_error_code = None, j_completed_at = None\<rparr>"

definition insert_job :: "(nat \<Rightarrow> job) \<Rightarrow> db \<Rightarrow> queue_error + (nat \<times> db)" where
  "insert_job mk st =
     (let j = mk (next_job st) in
      if j_key j \<in> j_key ` set (jobs st) then Inl Unique_violation
      else Inr (next_job st, st\<lparr>jobs := jobs st @ [j], next_job := next_job st + 1\<rparr>))"

section \<open>Pull-request events\<close>

definition record_pull_request_lifecycle ::
  "nat \<Rightarrow> nat \<Rightarrow> pull_request_event \<Rightarrow> db \<Rightarrow> db" where
  "record_pull_request_lifecycle pid did e st = st\<lparr>lifecycle := lifecycle st @
     [\<lparr>l_pull_request_id = pid, l_delivery_id = did, l_action = ev_action e,
       l_state = ev_state e, l_source_event_at = lifecycle_at e,
       l_source_created_at = ev_source_created_at e,
       l_source_closed_at = ev_source_closed_at e,
       l_source_merged_at = ev_source_merged_at e\<rparr>]\<rparr>"

definition coalesce :: "'a option \<Rightarrow> 'a option \<Rightarrow> 'a option" where
  "coalesce a b = (case a of None \<Rightarrow> b | Some x \<Rightarrow> Some x)"

definition refresh_pull_request :: "pull_request_event \<Rightarrow> pull_request \<Rightarrow> pull_request" where
  "refresh_pull_request e p =
     p\<lparr>p_web_url := ev_web_url e, p_base_sha := ev_base_sha e, p_head_sha := ev_head_sha e,
       p_author := ev_author e, p_base_branch := ev_base_branch e,
       p_head_branch := ev_head_branch e, p_is_draft := ev_is_draft e, p_labels := ev_labels e,
       p_title := ev_title e, p_description := ev_description e, p_state := ev_state e,
       p_changed_file_count := ev_changed_file_count e, p_additions := ev_additions e,
       p_deletions := ev_deletions e,
       p_source_created_at := coalesce (ev_source_created_at e) (p_source_created_at p),
       p_source_closed_at := ev_source_closed_at e,
       p_source_merged_at := ev_source_merged_at e,
       p_latest_event_at := ev_updated_at e\<rparr>"

definition new_pull_request :: "nat \<Rightarrow> nat \<Rightarrow> pull_request_event \<Rightarrow> pull_request" where
  "new_pull_request i rid e =
     \<lparr>p_id = i, p_repository_id = rid, p_number = ev_number e, p_web_url = ev_web_url e,
      p_base_sha = ev_base_sha e, p_head_sha = ev_head_sha e, p_author = ev_author e,
      p_base_branch = ev_base_branch e, p_head_branch = ev_head_branch e,
      p_is_draft = ev_is_draft e, p_labels = ev_labels e, p_title = ev_title e,
      p_description = ev_description e, p_state = ev_state e,
      p_changed_file_count = ev_changed_file_count e, p_additions = ev_additions e,
      p_deletions = ev_deletions e, p_source_created_at = ev_source_created_at e,
      p_source_closed_at = ev_source_closed_at e, p_source_merged_at = ev_source_merged_at e,
      p_latest_event_at = ev_updated_at e\<rparr>"

definition note_stale_pull_request ::
  "nat \<Rightarrow> nat \<Rightarrow> pull_request_event \<Rightarrow> db \<Rightarrow> db" where
  "note_stale_pull_request pid did e st =
     (let st' = record_pull_request_lifecycle pid did e st in
      case ev_source_created_at e of
        None \<Rightarrow> st'
      | Some t \<Rightarrow> st'\<lparr>pulls := update_where (\<lambda>p. p_id p = pid)
          (\<lambda>p. p\<lparr>p_source_created_at := coalesce (p_source_created_at p) (Some t)\<rparr>) (pulls st')\<rparr>)"

text \<open>The pull request's id after the event, or \<open>None\<close> for an event older than the recorded one.\<close>

definition upsert_pull_request ::
  "nat \<Rightarrow> nat \<Rightarrow> pull_request_event \<Rightarrow> db \<Rightarrow> queue_error + (nat option \<times> db)" where
  "upsert_pull_request rid did e st =
     (case select_one (\<lambda>p. p_repository_id p = rid \<and> p_number p = ev_number e) (pulls st) of
        Some p \<Rightarrow>
          if ev_updated_at e < p_latest_event_at p
          then Inr (None, note_stale_pull_request (p_id p) did e st)
          else if ev_updated_at e = p_latest_event_at p \<and> ev_head_sha e \<noteq> p_head_sha p
          then Inl (Event_order_conflict (pr_scope_key e))
          else Inr (Some (p_id p),
                 st\<lparr>pulls := update_where (\<lambda>r. p_id r = p_id p) (refresh_pull_request e) (pulls st)\<rparr>)
      | None \<Rightarrow>
          Inr (Some (next_pull st),
               st\<lparr>pulls := pulls st @ [new_pull_request (next_pull st) rid e],
                  next_pull := next_pull st + 1\<rparr>))"

definition pending_deadlines :: "string \<Rightarrow> db \<Rightarrow> time list" where
  "pending_deadlines scope st =
     map j_available_at (filter (\<lambda>j. j_scope j = scope \<and> j_status j = Queued) (jobs st))"

definition review_available_at :: "time \<Rightarrow> int \<Rightarrow> time list \<Rightarrow> time" where
  "review_available_at now debounce pending =
     (if debounce \<noteq> 0 \<and> pending \<noteq> [] then min (now + seconds debounce) (min_list pending)
      else now + seconds debounce)"

definition enqueue_review_job ::
  "(string \<Rightarrow> string) \<Rightarrow> (time \<Rightarrow> string) \<Rightarrow> time \<Rightarrow> string option \<Rightarrow> nat \<Rightarrow> nat \<Rightarrow> nat
   \<Rightarrow> pull_request_event \<Rightarrow> db \<Rightarrow> queue_error + (enqueue_result \<times> db)" where
  "enqueue_review_job sha256 isofmt now debounce_env rid pid did e st =
     bind_result
       (if ev_action e = ''synchronize'' then review_update_debounce_seconds debounce_env
        else Inr 0)
       (\<lambda>debounce.
         bind_result
           (insert_job
              (\<lambda>i. new_job i rid (Some pid) Review_pull_request
                     (pr_idempotency_key sha256 isofmt e) (pr_scope_key e) (ev_base_sha e)
                     (ev_head_sha e) (Pull_request_payload e)
                     (review_available_at now debounce (pending_deadlines (pr_scope_key e) st)))
              (close_queued now Superseded (\<lambda>j. j_scope j = pr_scope_key e) st))
           (\<lambda>(i, st'). Inr (\<lparr>er_job_id = Some i, er_state = S_queued\<rparr>, link_delivery did i st')))"

definition enqueue_review_revision ::
  "(string \<Rightarrow> string) \<Rightarrow> (time \<Rightarrow> string) \<Rightarrow> time \<Rightarrow> string option \<Rightarrow> nat \<Rightarrow> nat \<Rightarrow> nat
   \<Rightarrow> pull_request_event \<Rightarrow> db \<Rightarrow> queue_error + (enqueue_result \<times> db)" where
  "enqueue_review_revision sha256 isofmt now debounce_env rid pid did e st =
     (let st1 = record_pull_request_lifecycle pid did e st in
      if ev_state e \<noteq> Pr_open then
        Inr (\<lparr>er_job_id = None, er_state = S_pull_request (ev_state e)\<rparr>,
             close_queued now Cancelled (\<lambda>j. j_scope j = pr_scope_key e) st1)
      else
        (let existing =
               select_one (\<lambda>j. j_key j = pr_idempotency_key sha256 isofmt e) (jobs st1) in
         bind_result (retire_terminal_job existing st1)
           (\<lambda>(retired, st2).
             case (if retired then None else existing) of
               Some j \<Rightarrow>
                 Inr (\<lparr>er_job_id = Some (j_id j), er_state = S_duplicate_revision (j_status j)\<rparr>,
                      link_delivery did (j_id j) st2)
             | None \<Rightarrow> enqueue_review_job sha256 isofmt now debounce_env rid pid did e st2)))"

definition enqueue_review_event ::
  "(string \<Rightarrow> string) \<Rightarrow> (time \<Rightarrow> string) \<Rightarrow> time \<Rightarrow> string option \<Rightarrow> pull_request_event \<Rightarrow> string
   \<Rightarrow> db \<Rightarrow> queue_error + (enqueue_result \<times> db)" where
  "enqueue_review_event sha256 isofmt now debounce_env e sha st =
     (if \<not> valid_sha256 sha then Inl Value_error
      else
        bind_result
          (resolve_github_repository (ev_scm_base_url e) (ev_github_repository_id e)
             (ev_repo_full_name e) None st)
          (\<lambda>(repo, st1).
            case repo of
              None \<Rightarrow> Inl (Repository_not_onboarded (ev_repo_full_name e))
            | Some r \<Rightarrow>
                if \<not> r_enabled r then Inl (Repository_not_onboarded (ev_repo_full_name e))
                else
                  (case record_delivery (ev_provider e) (ev_scm_base_url e) (ev_delivery_id e)
                          ''pull_request'' sha st1 of
                     (Inl d, st2) \<Rightarrow> duplicate_delivery d sha st2
                   | (Inr did, st2) \<Rightarrow>
                       if ev_trigger_kind e = Automatic \<and> \<not> r_auto_review r
                       then Inr (\<lparr>er_job_id = None, er_state = S_auto_review_disabled\<rparr>, st2)
                       else
                         bind_result (upsert_pull_request (r_id r) did e st2)
                           (\<lambda>(pid, st3).
                             case pid of
                               None \<Rightarrow>
                                 Inr (\<lparr>er_job_id = None, er_state = S_stale_delivery\<rparr>, st3)
                             | Some p \<Rightarrow>
                                 enqueue_review_revision sha256 isofmt now debounce_env (r_id r) p
                                   did e st3))))"

section \<open>Push events\<close>

text \<open>True when the branch ref now stands at this event, False when the event is stale.\<close>

definition upsert_repository_ref ::
  "nat \<Rightarrow> push_event \<Rightarrow> db \<Rightarrow> queue_error + (bool \<times> db)" where
  "upsert_repository_ref rid e st =
     (case select_one (\<lambda>f. f_repository_id f = rid \<and> f_ref_name f = pu_ref_name e) (refs st) of
        Some f \<Rightarrow>
          if pu_pushed_at e < f_latest_event_at f then Inr (False, st)
          else if pu_pushed_at e = f_latest_event_at f \<and> pu_after_sha e \<noteq> f_commit_sha f
          then Inl (Event_order_conflict (push_scope_key e))
          else Inr (True, st\<lparr>refs := update_where (\<lambda>r. f_id r = f_id f)
                 (\<lambda>r. r\<lparr>f_commit_sha := pu_after_sha e, f_latest_event_at := pu_pushed_at e\<rparr>)
                 (refs st)\<rparr>)
      | None \<Rightarrow>
          Inr (True,
            st\<lparr>refs := refs st @
                 [\<lparr>f_id = next_ref st, f_repository_id = rid, f_ref_name = pu_ref_name e,
                   f_commit_sha = pu_after_sha e, f_latest_event_at = pu_pushed_at e\<rparr>],
               next_ref := next_ref st + 1\<rparr>))"

definition enqueue_index_job ::
  "time \<Rightarrow> nat \<Rightarrow> nat \<Rightarrow> push_event \<Rightarrow> db \<Rightarrow> queue_error + (enqueue_result \<times> db)" where
  "enqueue_index_job now rid did e st =
     (let existing = select_one (\<lambda>j. j_key j = push_idempotency_key e) (jobs st) in
      bind_result (retire_terminal_job existing st)
        (\<lambda>(retired, st2).
          case (if retired then None else existing) of
            Some j \<Rightarrow>
              Inr (\<lparr>er_job_id = Some (j_id j), er_state = S_duplicate_revision (j_status j)\<rparr>,
                   link_delivery did (j_id j) st2)
          | None \<Rightarrow>
              bind_result
                (insert_job
                   (\<lambda>i. new_job i rid None Index_repository (push_idempotency_key e)
                          (push_scope_key e) (pu_after_sha e) (pu_after_sha e) (Push_payload e) now)
                   (close_queued now Superseded
                      (\<lambda>j. j_scope j = push_scope_key e \<and> j_revision j \<noteq> pu_after_sha e) st2))
                (\<lambda>(i, st'). Inr (\<lparr>er_job_id = Some i, er_state = S_queued\<rparr>,
                                  link_delivery did i st'))))"

definition enqueue_repository_index_event ::
  "time \<Rightarrow> push_event \<Rightarrow> string \<Rightarrow> db \<Rightarrow> queue_error + (enqueue_result \<times> db)" where
  "enqueue_repository_index_event now e sha st =
     (if \<not> valid_sha256 sha then Inl Value_error
      else
        bind_result
          (resolve_github_repository (pu_scm_base_url e) (pu_github_repository_id e)
             (pu_repo_full_name e) (Some (pu_default_branch e)) st)
          (\<lambda>(repo, st1).
            case repo of
              None \<Rightarrow> Inl (Repository_not_onboarded (pu_repo_full_name e))
            | Some r \<Rightarrow>
                if \<not> r_enabled r \<or> r_clone_url r \<in> {None, Some ''''}
                then Inl (Repository_not_onboarded (pu_repo_full_name e))
                else
                  (case record_delivery (pu_provider e) (pu_scm_base_url e) (pu_delivery_id e)
                          ''push'' sha st1 of
                     (Inl d, st2) \<Rightarrow> duplicate_delivery d sha st2
                   | (Inr did, st2) \<Rightarrow>
                       bind_result (upsert_repository_ref (r_id r) e st2)
                         (\<lambda>(fresh, st3).
                           if \<not> fresh
                           then Inr (\<lparr>er_job_id = None, er_state = S_stale_delivery\<rparr>, st3)
                           else enqueue_index_job now (r_id r) did e st3))))"

section \<open>Operator switches\<close>

definition set_repository_enabled :: "time \<Rightarrow> nat \<Rightarrow> bool \<Rightarrow> db \<Rightarrow> bool \<times> db" where
  "set_repository_enabled now rid value st =
     (let changed = (length (filter (\<lambda>r. r_id r = rid) (repositories st)) = 1);
          st1 = st\<lparr>repositories := update_where (\<lambda>r. r_id r = rid)
                     (\<lambda>r. r\<lparr>r_enabled := value\<rparr>) (repositories st)\<rparr> in
      (changed,
       if changed \<and> \<not> value
       then close_queued now Cancelled (\<lambda>j. j_repository_id j = rid) st1 else st1))"

definition set_repository_auto_review :: "nat \<Rightarrow> bool \<Rightarrow> db \<Rightarrow> bool \<times> db" where
  "set_repository_auto_review rid value st =
     (length (filter (\<lambda>r. r_id r = rid) (repositories st)) = 1,
      st\<lparr>repositories := update_where (\<lambda>r. r_id r = rid)
           (\<lambda>r. r\<lparr>r_auto_review := value\<rparr>) (repositories st)\<rparr>)"

end
