(* ===== verification/Queue_Inv.thy ===== *)
theory Queue_Inv
  imports Lease Enqueue
begin

text \<open>
  The invariant of the queue's tables and its preservation by every transaction.  \<open>job_ok\<close> ties a
  row's status to its attempt counter, lease and completion time; \<open>key_ok\<close> says what an
  idempotency key can look like, which is why retiring a key never collides; \<open>scope_exclusive\<close> is
  the serialisation of a scope; \<open>attempts_ok\<close> relates the attempt history to the jobs.
\<close>

definition job_ok :: "job \<Rightarrow> bool" where
  "job_ok j \<longleftrightarrow>
     (case j_status j of
        Queued \<Rightarrow> j_attempt_count j < j_max_attempts j \<and> j_leased_by j = None \<and>
                  j_lease_expires_at j = None \<and> j_completed_at j = None
      | Running \<Rightarrow> 1 \<le> j_attempt_count j \<and> j_attempt_count j \<le> j_max_attempts j \<and>
                   j_leased_by j \<noteq> None \<and> j_lease_expires_at j \<noteq> None \<and> j_completed_at j = None
      | _ \<Rightarrow> j_attempt_count j \<le> j_max_attempts j \<and> j_leased_by j = None \<and>
             j_lease_expires_at j = None \<and> j_completed_at j \<noteq> None)"

definition retired_form :: "string \<Rightarrow> nat \<Rightarrow> string" where
  "retired_form k i = k @ ''#retired-'' @ str_of_nat i"

definition key_ok :: "job \<Rightarrow> bool" where
  "key_ok j \<longleftrightarrow>
     CHR ''#'' \<notin> set (j_key j) \<or>
     (is_terminal (j_status j) \<and>
      (\<exists>k. CHR ''#'' \<notin> set k \<and> j_key j = retired_form k (j_id j)))"

definition jobs_ok :: "job list \<Rightarrow> nat \<Rightarrow> bool" where
  "jobs_ok js n \<longleftrightarrow>
     distinct (map j_id js) \<and> distinct (map j_key js) \<and>
     (\<forall>j \<in> set js. j_id j < n \<and> job_ok j \<and> key_ok j)"

definition scope_exclusive :: "job list \<Rightarrow> bool" where
  "scope_exclusive js \<longleftrightarrow>
     (\<forall>j \<in> set js. \<forall>k \<in> set js.
        j_status j = Running \<longrightarrow> j_status k = Running \<longrightarrow> j_scope j = j_scope k \<longrightarrow>
        j_id j = j_id k)"

definition attempt_ok :: "job list \<Rightarrow> attempt \<Rightarrow> bool" where
  "attempt_ok js a \<longleftrightarrow>
     (\<exists>j \<in> set js. j_id j = a_job_id a \<and> 1 \<le> a_number a \<and> a_number a \<le> j_attempt_count j \<and>
        (a_status a = A_running \<longrightarrow>
           j_status j = Running \<and> a_number a = j_attempt_count j \<and>
           j_leased_by j = Some (a_worker_id a)))"

definition has_attempt :: "attempt list \<Rightarrow> job \<Rightarrow> bool" where
  "has_attempt as j \<longleftrightarrow>
     (\<exists>a \<in> set as. a_job_id a = j_id j \<and> a_number a = j_attempt_count j \<and> a_status a = A_running)"

definition attempts_ok :: "job list \<Rightarrow> attempt list \<Rightarrow> bool" where
  "attempts_ok js as \<longleftrightarrow>
     distinct (map (\<lambda>a. (a_job_id a, a_number a)) as) \<and>
     (\<forall>a \<in> set as. attempt_ok js a) \<and>
     (\<forall>j \<in> set js. j_status j = Running \<longrightarrow> has_attempt as j)"

definition queue_inv :: "db \<Rightarrow> bool" where
  "queue_inv st \<longleftrightarrow>
     jobs_ok (jobs st) (next_job st) \<and> scope_exclusive (jobs st) \<and>
     attempts_ok (jobs st) (attempts st)"

section \<open>Reading the invariant\<close>

lemma queue_invI [wf_intros]:
  "\<lbrakk>jobs_ok (jobs st) (next_job st); scope_exclusive (jobs st);
    attempts_ok (jobs st) (attempts st)\<rbrakk> \<Longrightarrow> queue_inv st"
  by (simp add: queue_inv_def)

lemma queue_inv_cong:
  "\<lbrakk>jobs st' = jobs st; next_job st' = next_job st; attempts st' = attempts st\<rbrakk>
   \<Longrightarrow> queue_inv st' = queue_inv st"
  by (simp add: queue_inv_def)

lemma jobs_ok_inj:
  "\<lbrakk>jobs_ok js n; j \<in> set js; k \<in> set js; j_id j = j_id k\<rbrakk> \<Longrightarrow> j = k"
  by (auto simp: jobs_ok_def distinct_map inj_on_def)

lemma jobs_ok_key_inj:
  "\<lbrakk>jobs_ok js n; j \<in> set js; k \<in> set js; j_key j = j_key k\<rbrakk> \<Longrightarrow> j = k"
  by (auto simp: jobs_ok_def distinct_map inj_on_def)

lemma jobs_ok_job_ok: "jobs_ok js n \<Longrightarrow> j \<in> set js \<Longrightarrow> job_ok j"
  by (simp add: jobs_ok_def)

lemma holds_leaseD:
  "holds_lease now i w j \<Longrightarrow> j_id j = i \<and> j_status j = Running \<and> j_leased_by j = Some w"
  by (simp add: holds_lease_def)

lemma holds_lease_unique:
  "\<lbrakk>jobs_ok js n; j \<in> set js; k \<in> set js; holds_lease now i w j; holds_lease now i w k\<rbrakk> \<Longrightarrow> k = j"
  by (auto dest: holds_leaseD intro: jobs_ok_inj)

section \<open>Updates of rows\<close>

text \<open>An update that keeps identity, key and scope keeps the table well formed when it keeps each row
  well formed, and keeps a scope exclusive when it starts no job.\<close>

lemma jobs_ok_update:
  assumes "jobs_ok js n"
    and "\<And>j. j \<in> set js \<Longrightarrow> P j \<Longrightarrow> j_id (f j) = j_id j \<and> j_key (f j) = j_key j"
    and "\<And>j. j \<in> set js \<Longrightarrow> P j \<Longrightarrow> job_ok j \<Longrightarrow> job_ok (f j)"
    and "\<And>j. j \<in> set js \<Longrightarrow> P j \<Longrightarrow> \<not> is_terminal (j_status j)"
  shows "jobs_ok (update_where P f js) n"
proof -
  have ids: "map j_id (update_where P f js) = map j_id js"
    and keys: "map j_key (update_where P f js) = map j_key js"
    using assms(2) by (auto simp: update_where_def)
  have "j_id (f j) < n \<and> job_ok (f j) \<and> key_ok (f j)" if "j \<in> set js" "P j" for j
    using assms(1) assms(2-4)[OF that] that by (auto simp: jobs_ok_def key_ok_def)
  then show ?thesis
    using assms(1) ids keys by (auto simp: jobs_ok_def ball_update_where)
qed

lemma scope_exclusive_update:
  assumes "scope_exclusive js"
    and "\<And>j. j \<in> set js \<Longrightarrow> P j \<Longrightarrow> j_status (f j) = Running \<Longrightarrow>
           j_status j = Running \<and> j_id (f j) = j_id j \<and> j_scope (f j) = j_scope j"
  shows "scope_exclusive (update_where P f js)"
  unfolding scope_exclusive_def
proof (intro ballI impI)
  fix j' k'
  assume "j' \<in> set (update_where P f js)" "k' \<in> set (update_where P f js)"
    and run: "j_status j' = Running" "j_status k' = Running" "j_scope j' = j_scope k'"
  then obtain j k where j: "j \<in> set js" "j' = (if P j then f j else j)"
    and k: "k \<in> set js" "k' = (if P k then f k else k)"
    by (metis in_update_whereE)
  have "j_status j = Running \<and> j_id j' = j_id j \<and> j_scope j' = j_scope j"
    using assms(2)[of j] j run by (cases "P j") auto
  moreover have "j_status k = Running \<and> j_id k' = j_id k \<and> j_scope k' = j_scope k"
    using assms(2)[of k] k run by (cases "P k") auto
  ultimately show "j_id j' = j_id k'"
    using assms(1) j(1) k(1) run(3) unfolding scope_exclusive_def by metis
qed

text \<open>Ending the running attempts of a set of jobs together with the jobs' own runs.\<close>

lemma attempts_ok_settle:
  assumes ok: "attempts_ok js as" and P: "\<And>j. j \<in> set js \<Longrightarrow> P j \<longleftrightarrow> j_id j \<in> S"
    and f: "\<And>j. j \<in> set js \<Longrightarrow> P j \<Longrightarrow>
              j_id (f j) = j_id j \<and> j_attempt_count (f j) = j_attempt_count j \<and> j_status (f j) \<noteq> Running"
    and Q: "\<And>a. a \<in> set as \<Longrightarrow> Q a \<longleftrightarrow> a_status a = A_running \<and> a_job_id a \<in> S"
    and g: "\<And>a. a_job_id (g a) = a_job_id a \<and> a_number (g a) = a_number a \<and> a_status (g a) \<noteq> A_running"
  shows "attempts_ok (update_where P f js) (update_where Q g as)"
proof -
  have d: "map (\<lambda>a. (a_job_id a, a_number a)) (update_where Q g as) =
           map (\<lambda>a. (a_job_id a, a_number a)) as"
    using g by (auto simp: update_where_def)
  have a: "attempt_ok (update_where P f js) (if Q a then g a else a)" if a_in: "a \<in> set as" for a
  proof -
    from ok a_in have "attempt_ok js a" by (simp add: attempts_ok_def)
    then obtain j where j: "j \<in> set js" "j_id j = a_job_id a" "1 \<le> a_number a"
      "a_number a \<le> j_attempt_count j"
      "a_status a = A_running \<longrightarrow> j_status j = Running \<and> a_number a = j_attempt_count j \<and>
         j_leased_by j = Some (a_worker_id a)"
      by (auto simp: attempt_ok_def)
    let ?j = "if P j then f j else j"
    have "?j \<in> set (update_where P f js)" using j(1) by (rule in_update_whereI)
    moreover have "j_id ?j = a_job_id a" "j_attempt_count ?j = j_attempt_count j"
      using f[OF j(1)] j(2) by auto
    moreover have "\<not> Q a \<Longrightarrow> a_status a = A_running \<Longrightarrow> \<not> P j"
      using Q[OF a_in] P[OF j(1)] j(2) by simp
    ultimately show ?thesis
      unfolding attempt_ok_def using j(3-5) g[of a] by (intro bexI[of _ ?j]) auto
  qed
  have r: "has_attempt (update_where Q g as) j" if "j \<in> set js" "\<not> P j" "j_status j = Running" for j
  proof -
    from ok that obtain a where "a \<in> set as" "a_job_id a = j_id j"
      "a_number a = j_attempt_count j" "a_status a = A_running"
      by (auto simp: attempts_ok_def has_attempt_def)
    moreover from this that have "\<not> Q a" using P Q by auto
    ultimately show ?thesis
      unfolding has_attempt_def using in_update_whereI[of a as Q g] by auto
  qed
  have "\<forall>b \<in> set as. (Q b \<longrightarrow> attempt_ok (update_where P f js) (g b)) \<and>
                     (\<not> Q b \<longrightarrow> attempt_ok (update_where P f js) b)"
    using a by (metis (full_types))
  then show ?thesis
    unfolding attempts_ok_def d ball_update_where
    using ok r f by (auto simp: attempts_ok_def)
qed

text \<open>An update that leaves id, counter, status and holder alone, or only touches jobs that do not
  run, leaves the attempt history as it is.\<close>

lemma attempts_ok_frame:
  assumes ok: "attempts_ok js as"
    and f: "\<And>j. j \<in> set js \<Longrightarrow> P j \<Longrightarrow> j_id (f j) = j_id j \<and> j_attempt_count (f j) = j_attempt_count j \<and>
              (j_status (f j) = Running \<longleftrightarrow> j_status j = Running) \<and>
              (j_status j = Running \<longrightarrow> j_leased_by (f j) = j_leased_by j)"
  shows "attempts_ok (update_where P f js) as"
proof -
  have "attempt_ok (update_where P f js) a" if "a \<in> set as" for a
  proof -
    from ok that obtain j where j: "j \<in> set js" "j_id j = a_job_id a" "1 \<le> a_number a"
      "a_number a \<le> j_attempt_count j"
      "a_status a = A_running \<longrightarrow> j_status j = Running \<and> a_number a = j_attempt_count j \<and>
         j_leased_by j = Some (a_worker_id a)"
      by (auto simp: attempts_ok_def attempt_ok_def)
    let ?j = "if P j then f j else j"
    have "?j \<in> set (update_where P f js)" using j(1) by (rule in_update_whereI)
    then show ?thesis
      unfolding attempt_ok_def using j f[OF j(1)] by (intro bexI[of _ ?j]) auto
  qed
  moreover have "has_attempt as (f j)" if "j \<in> set js" "P j" "j_status (f j) = Running" for j
    using ok that f[OF that(1,2)] by (auto simp: attempts_ok_def has_attempt_def)
  ultimately show ?thesis
    using ok by (auto simp: attempts_ok_def ball_update_where)
qed

text \<open>What the invariant says of one job, in the words of its consequences.\<close>

lemma queue_inv_reading:
  assumes "queue_inv st" and "j \<in> set (jobs st)"
  shows "j_attempt_count j \<le> j_max_attempts j"
    and "j_status j = Running \<Longrightarrow>
         (\<forall>k \<in> set (jobs st). j_status k = Running \<longrightarrow> j_scope k = j_scope j \<longrightarrow> k = j) \<and>
         (\<exists>a \<in> set (attempts st). a_job_id a = j_id j \<and> a_number a = j_attempt_count j \<and>
            a_status a = A_running \<and> j_leased_by j = Some (a_worker_id a))"
proof -
  have jok: "jobs_ok (jobs st) (next_job st)" and sx: "scope_exclusive (jobs st)"
    and aok: "attempts_ok (jobs st) (attempts st)"
    using assms(1) by (auto simp: queue_inv_def)
  show "j_attempt_count j \<le> j_max_attempts j"
    using jobs_ok_job_ok[OF jok assms(2)] by (auto simp: job_ok_def split: job_status.splits)
  assume run: "j_status j = Running"
  have "k = j" if "k \<in> set (jobs st)" "j_status k = Running" "j_scope k = j_scope j" for k
    using sx that assms(2) run jobs_ok_inj[OF jok that(1) assms(2)]
    unfolding scope_exclusive_def by metis
  moreover obtain a where a: "a \<in> set (attempts st)" "a_job_id a = j_id j"
      "a_number a = j_attempt_count j" "a_status a = A_running"
    using aok assms(2) run unfolding attempts_ok_def has_attempt_def by blast
  moreover have "j_leased_by j = Some (a_worker_id a)"
  proof -
    from aok a(1) have "attempt_ok (jobs st) a" by (simp add: attempts_ok_def)
    then obtain k where "k \<in> set (jobs st)" "j_id k = a_job_id a" "j_leased_by k = Some (a_worker_id a)"
      using a(4) unfolding attempt_ok_def by blast
    then show ?thesis using jobs_ok_inj[OF jok _ assms(2)] a(2) by metis
  qed
  ultimately show
    "(\<forall>k \<in> set (jobs st). j_status k = Running \<longrightarrow> j_scope k = j_scope j \<longrightarrow> k = j) \<and>
     (\<exists>a \<in> set (attempts st). a_job_id a = j_id j \<and> a_number a = j_attempt_count j \<and>
        a_status a = A_running \<and> j_leased_by j = Some (a_worker_id a))"
    by blast
qed

end
