(* ===== verification/Queue.thy ===== *)
theory Queue
  imports Queue_Inv
begin

text \<open>
  Every transaction of the queue keeps \<open>queue_inv\<close>, one lemma per operation, then the queue as a
  transition system: \<open>queue_apply\<close> runs one transaction (an error rolls back) and
  \<open>guarded_system\<close> is the interface under which runs of transactions are reasoned about.
\<close>

section \<open>Worker operations keep the invariant\<close>

lemma running_attempt_number:
  "\<lbrakk>queue_inv st; a \<in> set (attempts st); a_status a = A_running; j \<in> set (jobs st);
    j_id j = a_job_id a\<rbrakk> \<Longrightarrow> a_number a = j_attempt_count j \<and> j_status j = Running"
  unfolding queue_inv_def attempts_ok_def attempt_ok_def
  by (metis jobs_ok_inj)

lemma sweep_inv:
  assumes inv: "queue_inv st"
  shows "queue_inv (sweep now base_delay max_delay st)"
proof (rule queue_invI)
  let ?f = "expire_job now base_delay max_delay"
  let ?S = "j_id ` {j \<in> set (jobs st). lease_expired now j}"
  let ?st = "sweep now base_delay max_delay st"
  have js: "jobs ?st = update_where (lease_expired now) ?f (jobs st)" and n: "next_job ?st = next_job st"
    by (simp_all add: sweep_def expire_jobs_def expire_attempts_def)
  have jok: "jobs_ok (jobs st) (next_job st)" using inv by (simp add: queue_inv_def)
  show "jobs_ok (jobs ?st) (next_job ?st)"
    unfolding js n
    by (rule jobs_ok_update[OF jok])
       (auto simp: expire_job_def job_ok_def lease_expired_def is_terminal_def)
  show "scope_exclusive (jobs ?st)"
    unfolding js using inv
    by (intro scope_exclusive_update) (auto simp: queue_inv_def expire_job_def split: if_splits)
  have P: "lease_expired now j \<longleftrightarrow> j_id j \<in> ?S" if "j \<in> set (jobs st)" for j
    using that jobs_ok_inj[OF jok] by blast
  have as: "attempts ?st = update_where
     (\<lambda>a. a_status a = A_running \<and>
          (\<exists>j \<in> set (jobs st).
             a_job_id a = j_id j \<and> a_number a = j_attempt_count j \<and> lease_expired now j))
     (\<lambda>a. a\<lparr>a_status := A_lease_expired, a_error_code := Some ''lease_expired'',
            a_finished_at := Some now\<rparr>) (attempts st)"
    by (simp add: sweep_def expire_jobs_def expire_attempts_def)
  have Q: "a_status a = A_running \<and>
           (\<exists>j \<in> set (jobs st).
              a_job_id a = j_id j \<and> a_number a = j_attempt_count j \<and> lease_expired now j)
           \<longleftrightarrow> a_status a = A_running \<and> a_job_id a \<in> ?S" if "a \<in> set (attempts st)" for a
  proof
    assume R: "a_status a = A_running \<and> a_job_id a \<in> ?S"
    then obtain j where j: "j \<in> set (jobs st)" "lease_expired now j" "j_id j = a_job_id a" by auto
    with running_attempt_number[OF inv that _ j(1,3)] R
    show "a_status a = A_running \<and> (\<exists>j \<in> set (jobs st).
            a_job_id a = j_id j \<and> a_number a = j_attempt_count j \<and> lease_expired now j)"
      by (intro conjI bexI[of _ j]) auto
  qed auto
  show "attempts_ok (jobs ?st) (attempts ?st)"
    unfolding js as
  proof (rule attempts_ok_settle[where S = ?S])
    show "attempts_ok (jobs st) (attempts st)" using inv by (simp add: queue_inv_def)
  qed (use P Q in \<open>auto simp: expire_job_def\<close>)
qed

lemma sweep_frame [simp]:
  "repositories (sweep now bd md st) = repositories st"
  "next_job (sweep now bd md st) = next_job st"
  "pulls (sweep now bd md st) = pulls st"
  by (simp_all add: sweep_def expire_jobs_def expire_attempts_def)

lemma jobs_sweep:
  "jobs (sweep now bd md st) = update_where (lease_expired now) (expire_job now bd md) (jobs st)"
  by (simp add: sweep_def expire_jobs_def expire_attempts_def)

lemma next_claim_SomeD:
  assumes "next_claim now locked st = Some j"
  shows "j \<in> set (jobs st)" "claimable now st j" "j_id j \<notin> set locked"
    "\<And>k. \<lbrakk>k \<in> set (jobs st); claimable now st k; j_id k \<notin> set locked\<rbrakk> \<Longrightarrow>
       claim_order j \<le> claim_order k"
proof -
  let ?F = "filter (\<lambda>j. claimable now st j \<and> j_id j \<notin> set locked) (jobs st)"
  from assms obtain js where s: "sort_key claim_order ?F = j # js"
    by (auto simp: next_claim_def split: list.splits)
  have "set (j # js) = set ?F" unfolding s[symmetric] by simp
  then show "j \<in> set (jobs st)" "claimable now st j" "j_id j \<notin> set locked" by auto
  have "sorted (map claim_order (j # js))" unfolding s[symmetric] by simp
  then have le: "\<forall>k \<in> set (j # js). claim_order j \<le> claim_order k" by auto
  show "claim_order j \<le> claim_order k"
    if "k \<in> set (jobs st)" "claimable now st k" "j_id k \<notin> set locked" for k
    using le that \<open>set (j # js) = set ?F\<close> by auto
qed

lemma next_claim_None_iff:
  "next_claim now locked st = None \<longleftrightarrow>
   (\<forall>j \<in> set (jobs st). claimable now st j \<longrightarrow> j_id j \<in> set locked)"
proof -
  let ?F = "filter (\<lambda>j. claimable now st j \<and> j_id j \<notin> set locked) (jobs st)"
  have "next_claim now locked st = None \<longleftrightarrow> sort_key claim_order ?F = []"
    unfolding next_claim_def by (cases "sort_key claim_order ?F") simp_all
  then show ?thesis by (auto simp: filter_empty_conv)
qed

lemma begin_attempt_inv:
  assumes inv: "queue_inv st" and j: "j \<in> set (jobs st)" and c: "claimable now st j"
  shows "queue_inv (begin_attempt now' worker lease j st)"
proof (rule queue_invI)
  let ?P = "\<lambda>r. j_id r = j_id j"
  let ?f = "start_job now' worker lease"
  let ?js = "update_where ?P ?f (jobs st)"
  let ?a = "\<lparr>a_job_id = j_id j, a_number = j_attempt_count j + 1, a_worker_id = worker,
         a_status = A_running, a_error_code = None, a_finished_at = None\<rparr>"
  have jok: "jobs_ok (jobs st) (next_job st)" and aok: "attempts_ok (jobs st) (attempts st)"
    and sx: "scope_exclusive (jobs st)"
    using inv by (auto simp: queue_inv_def)
  have only: "r = j" if "r \<in> set (jobs st)" "?P r" for r using jobs_ok_inj[OF jok that(1) j that(2)] .
  have q: "j_status j = Queued" using c by (simp add: claimable_def)
  have jobs: "jobs (begin_attempt now' worker lease j st) = ?js"
    and n: "next_job (begin_attempt now' worker lease j st) = next_job st"
    and as: "attempts (begin_attempt now' worker lease j st) = attempts st @ [?a]"
    by (simp_all add: begin_attempt_def)
  show "jobs_ok (jobs (begin_attempt now' worker lease j st))
          (next_job (begin_attempt now' worker lease j st))"
    unfolding jobs n using q
    by (intro jobs_ok_update[OF jok]) (auto simp: start_job_def job_ok_def is_terminal_def dest!: only)
  have run: "\<not> (r \<in> set (jobs st) \<and> j_scope r = j_scope j \<and> j_status r = Running)" for r
    using c by (auto simp: claimable_def)
  show "scope_exclusive (jobs (begin_attempt now' worker lease j st))"
    unfolding jobs scope_exclusive_def
  proof (intro ballI impI)
    fix x y
    assume xin: "x \<in> set ?js" and yin: "y \<in> set ?js"
      and r: "j_status x = Running" "j_status y = Running" "j_scope x = j_scope y"
    from xin obtain x0 where x: "x0 \<in> set (jobs st)" "x = (if ?P x0 then ?f x0 else x0)"
      by (rule in_update_whereE)
    from yin obtain y0 where y: "y0 \<in> set (jobs st)" "y = (if ?P y0 then ?f y0 else y0)"
      by (rule in_update_whereE)
    show "j_id x = j_id y"
    proof (cases "?P x0 \<or> ?P y0")
      case True
      then show ?thesis
        using x y r run[of x0] run[of y0] only[of x0] only[of y0]
        by (auto simp: start_job_def split: if_splits)
    next
      case False
      then have "x = x0" "y = y0" using x y by simp_all
      then show ?thesis using x(1) y(1) r sx unfolding scope_exclusive_def by blast
    qed
  qed
  have idle: "a_status a \<noteq> A_running \<and> a_number a \<le> j_attempt_count j"
    if "a \<in> set (attempts st)" "a_job_id a = j_id j" for a
  proof -
    from aok that(1) have "attempt_ok (jobs st) a" by (simp add: attempts_ok_def)
    then obtain k where k: "k \<in> set (jobs st)" "j_id k = a_job_id a" "a_number a \<le> j_attempt_count k"
      "a_status a = A_running \<longrightarrow> j_status k = Running"
      by (auto simp: attempt_ok_def)
    have "k = j" using only[OF k(1)] k(2) that(2) by simp
    with k q show ?thesis by auto
  qed
  have old: "attempt_ok ?js a" if a: "a \<in> set (attempts st)" for a
  proof -
    from aok a obtain k where k: "k \<in> set (jobs st)" "j_id k = a_job_id a" "1 \<le> a_number a"
      "a_number a \<le> j_attempt_count k"
      "a_status a = A_running \<longrightarrow> j_status k = Running \<and> a_number a = j_attempt_count k \<and>
         j_leased_by k = Some (a_worker_id a)"
      by (auto simp: attempts_ok_def attempt_ok_def)
    let ?k = "if ?P k then ?f k else k"
    have "?k \<in> set ?js" using k(1) by (rule in_update_whereI)
    then show ?thesis
      unfolding attempt_ok_def using k idle[OF a]
      by (intro bexI[of _ ?k]) (auto simp: start_job_def)
  qed
  have new: "attempt_ok ?js ?a"
    unfolding attempt_ok_def using in_update_whereI[OF j, of ?P ?f]
    by (intro bexI[of _ "?f j"]) (auto simp: start_job_def)
  have fresh: "(j_id j, j_attempt_count j + 1) \<notin> (\<lambda>a. (a_job_id a, a_number a)) ` set (attempts st)"
    using idle by fastforce
  have hold: "has_attempt (attempts st @ [?a]) k" if "k \<in> set ?js" "j_status k = Running" for k
  proof -
    from that(1) obtain k0 where k0: "k0 \<in> set (jobs st)" "k = (if ?P k0 then ?f k0 else k0)"
      by (rule in_update_whereE)
    show ?thesis
    proof (cases "?P k0")
      case True
      then show ?thesis using k0 only[OF k0(1)] by (auto simp: has_attempt_def start_job_def)
    next
      case False
      then show ?thesis using k0 aok that(2) by (auto simp: attempts_ok_def has_attempt_def)
    qed
  qed
  show "attempts_ok (jobs (begin_attempt now' worker lease j st))
          (attempts (begin_attempt now' worker lease j st))"
    unfolding jobs as attempts_ok_def
    using aok old new fresh hold by (auto simp: attempts_ok_def)
qed

lemma claim_inv:
  assumes "queue_inv st"
    and "claim_workflow_job now locked worker lease base_delay max_delay st = Inr (r, st')"
  shows "queue_inv st'"
proof -
  let ?sw = "sweep now base_delay max_delay st"
  have sw: "queue_inv ?sw" using assms(1) by (rule sweep_inv)
  show ?thesis
  proof (cases "next_claim now locked ?sw")
    case None
    then show ?thesis
      using assms(2) sw by (auto simp: claim_workflow_job_def Let_def split: if_splits)
  next
    case (Some j)
    have "queue_inv (begin_attempt now worker lease j ?sw)"
      by (rule begin_attempt_inv[OF sw next_claim_SomeD(1,2)[OF Some]])
    then show ?thesis
      using assms(2) Some by (auto simp: claim_workflow_job_def Let_def split: if_splits)
  qed
qed

lemma heartbeat_inv:
  assumes "queue_inv st" and "heartbeat_workflow_job now i w lease st = Inr (b, st')"
  shows "queue_inv st'"
proof -
  let ?f = "\<lambda>j. j\<lparr>j_lease_expires_at := Some (now + seconds lease)\<rparr>"
  let ?js = "update_where (holds_lease now i w) ?f (jobs st)"
  have "jobs_ok ?js (next_job st)"
    using assms(1) by (intro jobs_ok_update)
      (auto simp: queue_inv_def job_ok_def is_terminal_def holds_lease_def split: job_status.splits)
  moreover have "scope_exclusive ?js"
    using assms(1) by (intro scope_exclusive_update) (auto simp: queue_inv_def)
  moreover have "attempts_ok ?js (attempts st)"
    using assms(1) by (intro attempts_ok_frame) (auto simp: queue_inv_def)
  moreover have "st' = st\<lparr>jobs := ?js\<rparr>"
    using assms(2) by (auto simp: heartbeat_workflow_job_def split: if_splits)
  ultimately show ?thesis by (simp add: queue_inv_def)
qed

text \<open>Settling the one job a worker holds, together with its running attempt.\<close>

lemma settle_inv:
  assumes inv: "queue_inv st" and sel: "j \<in> set (jobs st)" "holds_lease now i w j"
    and P: "\<And>r. r \<in> set (jobs st) \<Longrightarrow> P r \<longleftrightarrow> r = j"
    and f: "j_id (f j) = i" "j_key (f j) = j_key j" "j_scope (f j) = j_scope j"
           "j_attempt_count (f j) = j_attempt_count j" "j_status (f j) \<noteq> Running"
    and ok: "job_ok j \<Longrightarrow> job_ok (f j)" and out: "outcome \<noteq> A_running"
  shows "queue_inv ((finish_attempt now i (j_attempt_count j) outcome err st)
           \<lparr>jobs := update_where P f (jobs st)\<rparr>)" (is "queue_inv ?st")
proof (rule queue_invI)
  have jok: "jobs_ok (jobs st) (next_job st)" and aok: "attempts_ok (jobs st) (attempts st)"
    using inv by (auto simp: queue_inv_def)
  have ji: "j_id j = i" "j_status j = Running" using holds_leaseD[OF sel(2)] by auto
  have js: "jobs ?st = update_where P f (jobs st)" "next_job ?st = next_job st"
    by (simp_all add: finish_attempt_def)
  show "jobs_ok (jobs ?st) (next_job ?st)"
    unfolding js using f ok ji
    by (intro jobs_ok_update[OF jok]) (auto simp: P is_terminal_def)
  show "scope_exclusive (jobs ?st)"
    unfolding js using inv f by (intro scope_exclusive_update) (auto simp: P queue_inv_def)
  have Pi: "P r \<longleftrightarrow> j_id r \<in> {i}" if "r \<in> set (jobs st)" for r
    using P[OF that] ji jobs_ok_inj[OF jok that sel(1)] by auto
  have Q: "(a_job_id a = i \<and> a_number a = j_attempt_count j \<and> a_status a = A_running) \<longleftrightarrow>
           (a_status a = A_running \<and> a_job_id a \<in> {i})" if "a \<in> set (attempts st)" for a
    using running_attempt_number[OF inv that _ sel(1)] ji by auto
  show "attempts_ok (jobs ?st) (attempts ?st)"
    unfolding js finish_attempt_def
    by (simp, rule attempts_ok_settle[OF aok, where S = "{i}"])
       (use Pi Q f ji P out in auto)
qed

lemma holds_lease_only:
  assumes "queue_inv st" "select_one (holds_lease now i w) (jobs st) = Some j"
  shows "j \<in> set (jobs st)" "holds_lease now i w j"
    "\<And>r. r \<in> set (jobs st) \<Longrightarrow> holds_lease now i w r \<longleftrightarrow> r = j"
    "\<And>r. r \<in> set (jobs st) \<Longrightarrow> j_id r = i \<longleftrightarrow> r = j"
proof -
  show j: "j \<in> set (jobs st)" and h: "holds_lease now i w j"
    using select_one_SomeD[OF assms(2)] by auto
  have jok: "jobs_ok (jobs st) (next_job st)" using assms(1) by (simp add: queue_inv_def)
  show "r \<in> set (jobs st) \<Longrightarrow> holds_lease now i w r \<longleftrightarrow> r = j" for r
    using holds_lease_unique[OF jok j _ h, of r] h by auto
  show "r \<in> set (jobs st) \<Longrightarrow> j_id r = i \<longleftrightarrow> r = j" for r
    using jobs_ok_inj[OF jok _ j, of r] holds_leaseD[OF h] by auto
qed

lemma complete_inv: "queue_inv st \<Longrightarrow> queue_inv (snd (complete_workflow_job now i w st))"
proof (cases "select_one (holds_lease now i w) (jobs st)")
  case (Some j)
  assume inv: "queue_inv st"
  note only = holds_lease_only[OF inv Some]
  have "queue_inv ((finish_attempt now i (j_attempt_count j) A_succeeded None st)
      \<lparr>jobs := update_where (holds_lease now i w) (close_job now Succeeded) (jobs st)\<rparr>)"
    by (rule settle_inv[OF inv only(1,2,3)])
       (use holds_leaseD[OF only(2)] in \<open>auto simp: close_job_def job_ok_def\<close>)
  then show ?thesis
    by (simp add: complete_workflow_job_def Some finish_attempt_def queue_inv_def)
qed (simp add: complete_workflow_job_def)

lemma supersede_inv: "queue_inv st \<Longrightarrow> queue_inv (snd (supersede_workflow_job now i w st))"
proof (cases "select_one (holds_lease now i w) (jobs st)")
  case (Some j)
  assume inv: "queue_inv st"
  note only = holds_lease_only[OF inv Some]
  have "queue_inv ((finish_attempt now i (j_attempt_count j) A_failed (Some ''superseded'') st)
      \<lparr>jobs := update_where (holds_lease now i w) (close_job now Superseded) (jobs st)\<rparr>)"
    by (rule settle_inv[OF inv only(1,2,3)])
       (use holds_leaseD[OF only(2)] in \<open>auto simp: close_job_def job_ok_def\<close>)
  then show ?thesis
    by (simp add: supersede_workflow_job_def Some finish_attempt_def queue_inv_def)
qed (simp add: supersede_workflow_job_def)

lemma fail_inv:
  assumes inv: "queue_inv st" and r: "fail_workflow_job now i w err rt bd md st = Inr (s, st')"
  shows "queue_inv st'"
proof (cases "select_one (holds_lease now i w) (jobs st)")
  case None
  then show ?thesis using assms by (auto simp: fail_workflow_job_def split: if_splits)
next
  case (Some j)
  note only = holds_lease_only[OF inv Some]
  have "queue_inv ((finish_attempt now i (j_attempt_count j) A_failed (Some err) st)
      \<lparr>jobs := update_where (\<lambda>r. j_id r = i) (settle_failure now err rt bd md) (jobs st)\<rparr>)"
    by (rule settle_inv[OF inv only(1,2,4)])
       (use holds_leaseD[OF only(2)] in \<open>auto simp: settle_failure_def Let_def job_ok_def\<close>)
  then show ?thesis using r Some by (auto simp: fail_workflow_job_def split: if_splits)
qed

end
