(* ===== verification/Queue_Enqueue.thy ===== *)
theory Queue_Enqueue
  imports Queue
begin

text \<open>
  The webhook operations keep the invariant.  Most of their steps leave the queue's own tables
  alone (\<open>queue_part\<close>); what is left is closing queued jobs, retiring a key and inserting a job.
\<close>

definition queue_part :: "db \<Rightarrow> job list \<times> nat \<times> attempt list" where
  "queue_part st = (jobs st, next_job st, attempts st)"

lemma queue_inv_part: "queue_part st' = queue_part st \<Longrightarrow> queue_inv st' \<longleftrightarrow> queue_inv st"
  by (rule queue_inv_cong) (auto simp: queue_part_def)

lemma queue_part_simps [simp]:
  "queue_part (st\<lparr>repositories := a\<rparr>) = queue_part st"
  "queue_part (st\<lparr>audit := b\<rparr>) = queue_part st"
  "queue_part (st\<lparr>pulls := c\<rparr>) = queue_part st"
  "queue_part (st\<lparr>next_pull := d\<rparr>) = queue_part st"
  "queue_part (st\<lparr>refs := e\<rparr>) = queue_part st"
  "queue_part (st\<lparr>next_ref := f\<rparr>) = queue_part st"
  "queue_part (st\<lparr>deliveries := g\<rparr>) = queue_part st"
  "queue_part (st\<lparr>next_delivery := h\<rparr>) = queue_part st"
  "queue_part (st\<lparr>lifecycle := l\<rparr>) = queue_part st"
  by (simp_all add: queue_part_def)

lemma resolve_part:
  "resolve_github_repository u gid name br st = Inr (r, st') \<Longrightarrow> queue_part st' = queue_part st"
  by (auto simp: resolve_github_repository_def Let_def bind_result_Inr_iff
      split: if_splits option.splits)

lemma record_delivery_part: "queue_part (snd (record_delivery p u i n sha st)) = queue_part st"
  by (simp add: record_delivery_def split: option.splits)

lemma lifecycle_part [simp]: "queue_part (record_pull_request_lifecycle pid did e st) = queue_part st"
  by (simp add: record_pull_request_lifecycle_def)

lemma link_delivery_part [simp]: "queue_part (link_delivery did i st) = queue_part st"
  by (simp add: link_delivery_def)

lemma note_stale_part [simp]: "queue_part (note_stale_pull_request pid did e st) = queue_part st"
  by (simp add: note_stale_pull_request_def Let_def split: option.splits)

lemma upsert_pull_request_part:
  "upsert_pull_request rid did e st = Inr (m, st') \<Longrightarrow> queue_part st' = queue_part st"
  by (auto simp: upsert_pull_request_def split: option.splits if_splits)

lemma upsert_ref_part:
  "upsert_repository_ref rid e st = Inr (m, st') \<Longrightarrow> queue_part st' = queue_part st"
  by (auto simp: upsert_repository_ref_def split: option.splits if_splits)

lemma duplicate_delivery_part:
  "duplicate_delivery d sha st = Inr (r, st') \<Longrightarrow> st' = st"
  by (auto simp: duplicate_delivery_def split: if_splits)

section \<open>Elimination of an accepted event\<close>

definition early_state :: "enqueue_state \<Rightarrow> bool" where
  "early_state s \<longleftrightarrow>
     (case s of S_duplicate_delivery _ \<Rightarrow> True | S_auto_review_disabled \<Rightarrow> True
      | S_stale_delivery \<Rightarrow> True | _ \<Rightarrow> False)"

lemma early_state_simps [simp]:
  "early_state (S_duplicate_delivery m)" "early_state S_auto_review_disabled"
  "early_state S_stale_delivery" "\<not> early_state S_queued" "\<not> early_state (S_pull_request s)"
  "\<not> early_state (S_duplicate_revision s')"
  by (simp_all add: early_state_def)

text \<open>Either the queue's tables are untouched, or the event reaches the job part of the operation.\<close>

lemma enqueue_review_eventE:
  assumes "enqueue_review_event sha256 isofmt now env e sha st = Inr (r, st')"
  obtains (untouched) "queue_part st' = queue_part st" "early_state (er_state r)"
  | (revision) rid p did st3 where "queue_part st3 = queue_part st"
      "enqueue_review_revision sha256 isofmt now env rid p did e st3 = Inr (r, st')"
proof -
  from assms obtain repo st1 rp where
      res: "resolve_github_repository (ev_scm_base_url e) (ev_github_repository_id e)
             (ev_repo_full_name e) None st = Inr (repo, st1)" and repo: "repo = Some rp"
    by (auto simp: enqueue_review_event_def bind_result_Inr_iff split: if_splits option.splits)
  obtain x st2 where rd: "record_delivery (ev_provider e) (ev_scm_base_url e) (ev_delivery_id e)
      ''pull_request'' sha st1 = (x, st2)" by fastforce
  have q1: "queue_part st1 = queue_part st" by (rule resolve_part[OF res])
  have q2: "queue_part st2 = queue_part st"
    using record_delivery_part[of "ev_provider e" "ev_scm_base_url e" "ev_delivery_id e"
        "''pull_request''" sha st1] rd q1 by simp
  show ?thesis
  proof (cases x)
    case (Inl d)
    with assms res repo rd have "duplicate_delivery d sha st2 = Inr (r, st')"
      by (auto simp: enqueue_review_event_def split: if_splits)
    then have "st' = st2" "early_state (er_state r)"
      by (auto simp: duplicate_delivery_def split: if_splits)
    with q2 show ?thesis by (intro untouched) auto
  next
    case (Inr did)
    show ?thesis
    proof (cases "ev_trigger_kind e = Automatic \<and> \<not> r_auto_review rp")
      case True
      with assms res repo rd Inr have "st' = st2" "early_state (er_state r)"
        by (auto simp: enqueue_review_event_def split: if_splits)
      with q2 show ?thesis by (intro untouched) auto
    next
      case False
      with assms res repo rd Inr obtain pid st3 where
        up: "upsert_pull_request (r_id rp) did e st2 = Inr (pid, st3)"
        and k: "(case pid of None \<Rightarrow> Inr (\<lparr>er_job_id = None, er_state = S_stale_delivery\<rparr>, st3)
                 | Some p \<Rightarrow> enqueue_review_revision sha256 isofmt now env (r_id rp) p did e st3)
                = Inr (r, st')"
        by (auto simp: enqueue_review_event_def bind_result_Inr_iff split: if_splits)
      have q3: "queue_part st3 = queue_part st" using upsert_pull_request_part[OF up] q2 by simp
      show ?thesis
      proof (cases pid)
        case None
        with k q3 show ?thesis by (intro untouched) auto
      next
        case (Some p)
        with k q3 show ?thesis by (intro revision) auto
      qed
    qed
  qed
qed

lemma enqueue_indexE:
  assumes "enqueue_repository_index_event now e sha st = Inr (r, st')"
  obtains (untouched) "queue_part st' = queue_part st" "early_state (er_state r)"
  | (revision) rid did st3 where "queue_part st3 = queue_part st"
      "enqueue_index_job now rid did e st3 = Inr (r, st')"
proof -
  from assms obtain repo st1 rp where
      res: "resolve_github_repository (pu_scm_base_url e) (pu_github_repository_id e)
             (pu_repo_full_name e) (Some (pu_default_branch e)) st = Inr (repo, st1)"
      and repo: "repo = Some rp"
    by (auto simp: enqueue_repository_index_event_def bind_result_Inr_iff
        split: if_splits option.splits)
  obtain x st2 where rd: "record_delivery (pu_provider e) (pu_scm_base_url e) (pu_delivery_id e)
      ''push'' sha st1 = (x, st2)" by fastforce
  have q2: "queue_part st2 = queue_part st"
    using record_delivery_part[of "pu_provider e" "pu_scm_base_url e" "pu_delivery_id e"
        "''push''" sha st1] rd resolve_part[OF res] by simp
  show ?thesis
  proof (cases x)
    case (Inl d)
    with assms res repo rd have "duplicate_delivery d sha st2 = Inr (r, st')"
      by (auto simp: enqueue_repository_index_event_def split: if_splits)
    then have "st' = st2" "early_state (er_state r)"
      by (auto simp: duplicate_delivery_def split: if_splits)
    with q2 show ?thesis by (intro untouched) auto
  next
    case (Inr did)
    with assms res repo rd obtain fresh st3 where
      up: "upsert_repository_ref (r_id rp) e st2 = Inr (fresh, st3)"
      and k: "(if \<not> fresh then Inr (\<lparr>er_job_id = None, er_state = S_stale_delivery\<rparr>, st3)
               else enqueue_index_job now (r_id rp) did e st3) = Inr (r, st')"
      by (auto simp: enqueue_repository_index_event_def bind_result_Inr_iff split: if_splits)
    have q3: "queue_part st3 = queue_part st" using upsert_ref_part[OF up] q2 by simp
    show ?thesis using k q3 by (cases fresh) (auto intro: untouched revision)
  qed
qed

section \<open>The job part keeps the invariant\<close>

lemma jobs_close_queued:
  "jobs (close_queued now s P st) = update_where (\<lambda>j. P j \<and> j_status j = Queued)
     (\<lambda>j. j\<lparr>j_status := s, j_completed_at := Some now\<rparr>) (jobs st)"
  "next_job (close_queued now s P st) = next_job st"
  "attempts (close_queued now s P st) = attempts st"
  by (simp_all add: close_queued_def)

lemma close_queued_inv:
  assumes "queue_inv st" and s: "s = Cancelled \<or> s = Superseded"
  shows "queue_inv (close_queued now s P st)"
proof (rule queue_invI; unfold jobs_close_queued)
  let ?P = "\<lambda>j. P j \<and> j_status j = Queued"
  let ?f = "\<lambda>j. j\<lparr>j_status := s, j_completed_at := Some now\<rparr>"
  show "jobs_ok (update_where ?P ?f (jobs st)) (next_job st)"
    using assms by (intro jobs_ok_update) (auto simp: queue_inv_def job_ok_def is_terminal_def)
  show "scope_exclusive (update_where ?P ?f (jobs st))"
    using assms by (intro scope_exclusive_update) (auto simp: queue_inv_def)
  show "attempts_ok (update_where ?P ?f (jobs st)) (attempts st)"
    using assms by (intro attempts_ok_frame) (auto simp: queue_inv_def)
qed

lemma hash_split:
  assumes "CHR ''#'' \<notin> set k" "CHR ''#'' \<notin> set k'" "k @ CHR ''#'' # u = k' @ CHR ''#'' # v"
  shows "k = k' \<and> u = v"
  using assms
proof (induction k arbitrary: k')
  case Nil
  then show ?case by (cases k') auto
next
  case (Cons c k)
  then show ?case by (cases k') auto
qed

text \<open>A retired key determines the job it was retired from, so no two rows ever share one.\<close>

lemma retired_form_inj:
  assumes "CHR ''#'' \<notin> set k" "CHR ''#'' \<notin> set k'" "retired_form k i = retired_form k' i'"
  shows "k = k' \<and> i = i'"
  using hash_split[OF assms(1,2), of "''retired-'' @ str_of_nat i" "''retired-'' @ str_of_nat i'"]
    assms(3) by (auto simp: retired_form_def)

lemma hash_in_retired_form: "CHR ''#'' \<in> set (retired_form k i)"
  by (simp add: retired_form_def)

lemma retired_key_fresh:
  assumes ok: "jobs_ok js n" and j: "j \<in> set js" and key: "CHR ''#'' \<notin> set (j_key j)"
  shows "retired_key j \<notin> j_key ` set js"
proof
  assume "retired_key j \<in> j_key ` set js"
  then obtain k where k: "k \<in> set js" "j_key k = retired_form (j_key j) (j_id j)"
    by (auto simp: retired_key_def retired_form_def)
  have "key_ok k" using ok k(1) by (simp add: jobs_ok_def)
  then obtain b where b: "CHR ''#'' \<notin> set b" "j_key k = retired_form b (j_id k)"
    using k(2) hash_in_retired_form by (auto simp: key_ok_def)
  then have "j_id k = j_id j"
    using retired_form_inj[OF key b(1), of "j_id j" "j_id k"] k(2) by simp
  then have "k = j" by (rule jobs_ok_inj[OF ok k(1) j])
  then show False using key k(2) hash_in_retired_form by metis
qed

lemma retire_inv:
  assumes inv: "queue_inv st" and sel: "select_one (\<lambda>j. j_key j = key) (jobs st) = existing"
    and key: "CHR ''#'' \<notin> set key"
  obtains b st' where "retire_terminal_job existing st = Inr (b, st')" "queue_inv st'"
    "b \<or> existing = None \<Longrightarrow> key \<notin> j_key ` set (jobs st')"
proof (cases "\<exists>j. existing = Some j \<and> is_terminal (j_status j)")
  case False
  then have "retire_terminal_job existing st = Inr (False, st)"
    by (cases existing) (auto simp: retire_terminal_job_def)
  moreover have "existing = None \<Longrightarrow> key \<notin> j_key ` set (jobs st)"
    using sel select_one_None_iff[of "\<lambda>j. j_key j = key" "jobs st"] by auto
  ultimately show ?thesis using inv that by blast
next
  case True
  then obtain j where e: "existing = Some j" and t: "is_terminal (j_status j)" by blast
  have jk: "j \<in> set (jobs st)" "j_key j = key" using select_one_SomeD[of _ _ j] sel e by auto
  have jok: "jobs_ok (jobs st) (next_job st)" using inv by (simp add: queue_inv_def)
  have fresh: "retired_key j \<notin> j_key ` set (jobs st)"
    using retired_key_fresh[OF jok jk(1)] jk(2) key by simp
  let ?P = "\<lambda>r. j_id r = j_id j" and ?f = "\<lambda>r. r\<lparr>j_key := retired_key r\<rparr>"
  let ?st = "st\<lparr>jobs := update_where ?P ?f (jobs st)\<rparr>"
  have only: "?P r \<longleftrightarrow> r = j" if "r \<in> set (jobs st)" for r
    using jobs_ok_inj[OF jok that jk(1)] by auto
  have keys: "j_key (if ?P r then ?f r else r) = (if r = j then retired_key j else j_key r)"
    if "r \<in> set (jobs st)" for r using only[OF that] by simp
  have inj: "inj_on (\<lambda>r. j_key (if ?P r then ?f r else r)) (set (jobs st))"
  proof (rule inj_onI)
    fix x y
    assume xy: "x \<in> set (jobs st)" "y \<in> set (jobs st)"
      "j_key (if ?P x then ?f x else x) = j_key (if ?P y then ?f y else y)"
    then show "x = y"
      unfolding keys[OF xy(1)] keys[OF xy(2)]
      using fresh jobs_ok_key_inj[OF jok xy(1,2)] xy(1,2)
      by (metis image_eqI)
  qed
  have "distinct (jobs st)" using jok by (simp add: jobs_ok_def distinct_map)
  then have dk: "distinct (map j_key (update_where ?P ?f (jobs st)))"
    using inj by (simp add: update_where_def distinct_map comp_def)
  have di: "map j_id (update_where ?P ?f (jobs st)) = map j_id (jobs st)"
    by (auto simp: update_where_def)
  have kk: "key_ok (?f j)" using t jk(2) key by (auto simp: key_ok_def retired_key_def retired_form_def)
  have "\<forall>r \<in> set (jobs st). (?P r \<longrightarrow> j_id (?f r) < next_job st \<and> job_ok (?f r) \<and> key_ok (?f r)) \<and>
          (\<not> ?P r \<longrightarrow> j_id r < next_job st \<and> job_ok r \<and> key_ok r)"
  proof (intro ballI)
    fix r
    assume r: "r \<in> set (jobs st)"
    then have "j_id r < next_job st \<and> job_ok r \<and> key_ok r" using jok by (simp add: jobs_ok_def)
    moreover from this have "job_ok (?f r)" by (cases "j_status r") (simp_all add: job_ok_def)
    ultimately show "(?P r \<longrightarrow> j_id (?f r) < next_job st \<and> job_ok (?f r) \<and> key_ok (?f r)) \<and>
          (\<not> ?P r \<longrightarrow> j_id r < next_job st \<and> job_ok r \<and> key_ok r)"
      using only[OF r] kk by auto
  qed
  then have "jobs_ok (jobs ?st) (next_job ?st)"
    unfolding jobs_ok_def using dk di jok by (simp add: ball_update_where jobs_ok_def)
  moreover have "scope_exclusive (jobs ?st)"
    using inv by (simp, intro scope_exclusive_update) (auto simp: queue_inv_def)
  moreover have "attempts_ok (jobs ?st) (attempts ?st)"
    using inv by (simp, intro attempts_ok_frame) (auto simp: queue_inv_def)
  ultimately have i: "queue_inv ?st" by (rule queue_invI)
  have r: "retire_terminal_job existing st = Inr (True, ?st)"
    using e t fresh by (simp add: retire_terminal_job_def)
  have "key \<notin> j_key ` set (jobs ?st)"
  proof
    assume "key \<in> j_key ` set (jobs ?st)"
    then obtain x where x: "x \<in> set (update_where ?P ?f (jobs st))" and k: "key = j_key x" by auto
    from x obtain r where r: "r \<in> set (jobs st)" and xr: "x = (if ?P r then ?f r else r)"
      by (rule in_update_whereE)
    have kr: "key = (if r = j then retired_key j else j_key r)" 
      using trans[OF k[unfolded xr] keys[OF r]] .
    show False
    proof (cases "r = j")
      case True
      then have "CHR ''#'' \<in> set key" using kr by (simp add: retired_key_def)
      then show False using key by simp
    next
      case False
      have "j_key r = j_key j" using kr unfolding if_not_P[OF False] jk(2) by (rule sym)
      then show False using False jobs_ok_key_inj[OF jok r jk(1)] by blast
    qed
  qed
  with r i that show ?thesis by blast
qed

lemma attempts_ok_append_idle:
  assumes "attempts_ok js as" "j_status j \<noteq> Running"
  shows "attempts_ok (js @ [j]) as"
  using assms by (auto simp: attempts_ok_def attempt_ok_def)

lemma scope_exclusive_append_idle:
  assumes "scope_exclusive js" "j_status j \<noteq> Running"
  shows "scope_exclusive (js @ [j])"
  unfolding scope_exclusive_def
proof (intro ballI impI)
  fix x y
  assume "x \<in> set (js @ [j])" "y \<in> set (js @ [j])"
    and r: "j_status x = Running" "j_status y = Running" "j_scope x = j_scope y"
  then have "x \<in> set js" "y \<in> set js" using assms(2) by auto
  then show "j_id x = j_id y" using assms(1) r unfolding scope_exclusive_def by blast
qed

lemma insert_job_inv:
  assumes inv: "queue_inv st" and key: "CHR ''#'' \<notin> set key" "key \<notin> j_key ` set (jobs st)"
  shows "\<exists>st'. insert_job (\<lambda>i. new_job i rid pid ty key scope base revn load av) st
           = Inr (next_job st, st') \<and> queue_inv st'"
proof -
  define j where "j = new_job (next_job st) rid pid ty key scope base revn load av"
  let ?st = "st\<lparr>jobs := jobs st @ [j], next_job := next_job st + 1\<rparr>"
  have j: "j_id j = next_job st" "j_key j = key" "j_status j = Queued" "job_ok j" "key_ok j"
    using key by (simp_all add: j_def new_job_def job_ok_def key_ok_def)
  have jok: "jobs_ok (jobs st) (next_job st)" using inv by (simp add: queue_inv_def)
  then have "\<forall>k \<in> set (jobs st). j_id k < next_job st \<and> job_ok k \<and> key_ok k"
    by (simp add: jobs_ok_def)
  then have "next_job st \<notin> j_id ` set (jobs st)"
    "\<forall>k \<in> set (jobs st). j_id k < Suc (next_job st) \<and> job_ok k \<and> key_ok k" by auto
  with jok j key have "jobs_ok (jobs ?st) (next_job ?st)" by (simp add: jobs_ok_def)
  moreover have "scope_exclusive (jobs ?st)"
    using inv j(3) by (simp add: queue_inv_def scope_exclusive_append_idle)
  moreover have "attempts_ok (jobs ?st) (attempts ?st)"
    using inv j(3) by (simp add: queue_inv_def attempts_ok_append_idle)
  ultimately have "queue_inv ?st" by (rule queue_invI)
  then show ?thesis using key(2) j(2) by (simp add: insert_job_def Let_def flip: j_def)
qed

lemma close_queued_keys: "j_key ` set (jobs (close_queued now s P st)) = j_key ` set (jobs st)"
proof -
  have "map j_key (jobs (close_queued now s P st)) = map j_key (jobs st)"
    unfolding jobs_close_queued by (rule map_update_where_same) simp
  then show ?thesis by (metis set_map)
qed

lemma insert_after_close:
  assumes "queue_inv st" "s = Cancelled \<or> s = Superseded"
    and "CHR ''#'' \<notin> set key" "key \<notin> j_key ` set (jobs st)"
  shows "\<exists>st'. insert_job (\<lambda>i. new_job i rid pid ty key scope base revn load av)
           (close_queued now s P st) = Inr (next_job st, st') \<and> queue_inv st'"
proof -
  have "key \<notin> j_key ` set (jobs (close_queued now s P st))"
    using assms(4) by (simp add: close_queued_keys)
  from insert_job_inv[OF close_queued_inv[OF assms(1,2)] assms(3) this]
  show ?thesis by (simp add: jobs_close_queued(2))
qed

lemma insert_after_closeD:
  assumes "insert_job (\<lambda>i. new_job i rid pid ty key scope base revn load av)
             (close_queued now s P st) = Inr (i, st')"
    and "queue_inv st" "s = Cancelled \<or> s = Superseded"
    and "CHR ''#'' \<notin> set key" "key \<notin> j_key ` set (jobs st)"
  shows "queue_inv st'"
  using insert_after_close[OF assms(2-5), of rid pid ty scope base revn load av now P] assms(1)
  by auto

text \<open>The job part of a pull-request event, and of a push, keeps the invariant; its only error is a
  malformed debounce setting.\<close>

lemma enqueue_review_revision_inv:
  assumes inv: "queue_inv st" and key: "CHR ''#'' \<notin> set (pr_idempotency_key sha256 isofmt e)"
    and r: "enqueue_review_revision sha256 isofmt now env rid p did e st = Inr (r, st')"
  shows "queue_inv st'"
proof -
  let ?st1 = "record_pull_request_lifecycle p did e st"
  have i1: "queue_inv ?st1" using inv queue_inv_part[OF lifecycle_part] by blast
  show ?thesis
  proof (cases "ev_state e = Pr_open")
    case False
    then show ?thesis using r close_queued_inv[OF i1] by (auto simp: enqueue_review_revision_def Let_def)
  next
    case True
    define ex where "ex = select_one (\<lambda>j. j_key j = pr_idempotency_key sha256 isofmt e) (jobs ?st1)"
    from retire_inv[OF i1 ex_def[symmetric] key] obtain b st2 where
      rt: "retire_terminal_job ex ?st1 = Inr (b, st2)" and i2: "queue_inv st2"
      and fr: "b \<or> ex = None \<Longrightarrow> pr_idempotency_key sha256 isofmt e \<notin> j_key ` set (jobs st2)" by blast
    have r2: "(case (if b then None else ex) of
               Some j \<Rightarrow>
                 Inr (\<lparr>er_job_id = Some (j_id j), er_state = S_duplicate_revision (j_status j)\<rparr>,
                      link_delivery did (j_id j) st2)
             | None \<Rightarrow> enqueue_review_job sha256 isofmt now env rid p did e st2) = Inr (r, st')"
      using r True rt unfolding ex_def
      by (simp add: enqueue_review_revision_def Let_def split del: if_split)
    show ?thesis
    proof (cases "if b then None else ex")
      case (Some j)
      then show ?thesis using r2 i2 queue_inv_part[OF link_delivery_part] by auto
    next
      case None
      then have "b \<or> ex = None" by (auto split: if_splits)
      note fresh = fr[OF this]
      from r2 None obtain d where
        d: "bind_result
           (insert_job
              (\<lambda>i. new_job i rid (Some p) Review_pull_request
                     (pr_idempotency_key sha256 isofmt e) (pr_scope_key e) (ev_base_sha e)
                     (ev_head_sha e) (Pull_request_payload e)
                     (review_available_at now d (pending_deadlines (pr_scope_key e) st2)))
              (close_queued now Superseded (\<lambda>j. j_scope j = pr_scope_key e) st2))
           (\<lambda>(i, st'). Inr (\<lparr>er_job_id = Some i, er_state = S_queued\<rparr>, link_delivery did i st'))
           = Inr (r, st')"
        by (auto simp: enqueue_review_job_def bind_result_Inr_iff split: if_splits)
      then show ?thesis
        using queue_inv_part[OF link_delivery_part] insert_after_closeD[OF _ i2 _ key fresh]
        by (auto simp: bind_result_Inr_iff)
    qed
  qed
qed

lemma enqueue_index_job_inv:
  assumes inv: "queue_inv st" and key: "CHR ''#'' \<notin> set (push_idempotency_key e)"
    and r: "enqueue_index_job now rid did e st = Inr (r, st')"
  shows "queue_inv st'"
proof -
  define ex where "ex = select_one (\<lambda>j. j_key j = push_idempotency_key e) (jobs st)"
  from retire_inv[OF inv ex_def[symmetric] key] obtain b st2 where
    rt: "retire_terminal_job ex st = Inr (b, st2)" and i2: "queue_inv st2"
    and fr: "b \<or> ex = None \<Longrightarrow> push_idempotency_key e \<notin> j_key ` set (jobs st2)" by blast
  show ?thesis
  proof (cases "if b then None else ex")
    case (Some j)
    then show ?thesis
      using r rt i2 queue_inv_part[OF link_delivery_part] unfolding ex_def
      by (auto simp: enqueue_index_job_def Let_def split: if_splits)
  next
    case None
    then have "b \<or> ex = None" by (auto split: if_splits)
    note fresh = fr[OF this]
    show ?thesis
      using r rt None queue_inv_part[OF link_delivery_part] insert_after_closeD[OF _ i2 _ key fresh]
      unfolding ex_def
      by (auto simp: enqueue_index_job_def Let_def bind_result_Inr_iff split: if_splits)
  qed
qed

end
