(* ===== verification/Queue_Runs.thy ===== *)
theory Queue_Runs
  imports Queue_Enqueue
begin

text \<open>
  Runs of the queue.  A \<open>guarded_system\<close> is a client's view of a store whose operations keep an
  invariant as long as their guard holds, an \<open>audited_system\<close> one whose operations also only move
  the store forward in a preorder; both are interpreted on the queue's transactions.  The preorder
  is the life of a job: identity and revision never change, the status follows \<open>status_step\<close>, the
  attempt counter only grows.
\<close>

section \<open>Interfaces\<close>

locale guarded_system =
  fixes guard :: "'op \<Rightarrow> bool" and apply_op :: "'op \<Rightarrow> 's \<Rightarrow> 's" and inv :: "'s \<Rightarrow> bool"
  assumes inv_apply: "guard x \<Longrightarrow> inv s \<Longrightarrow> inv (apply_op x s)"
begin

lemma inv_run: "\<forall>x \<in> set xs. guard x \<Longrightarrow> inv s \<Longrightarrow> inv (fold apply_op xs s)"
  by (induction xs arbitrary: s) (auto intro: inv_apply)

end

locale audited_system = guarded_system guard apply_op inv
  for guard :: "'op \<Rightarrow> bool" and apply_op :: "'op \<Rightarrow> 's \<Rightarrow> 's" and inv :: "'s \<Rightarrow> bool" +
  fixes forward :: "'s \<Rightarrow> 's \<Rightarrow> bool"
  assumes forward_refl: "forward s s"
    and forward_trans: "forward s t \<Longrightarrow> forward t u \<Longrightarrow> forward s u"
    and forward_apply: "guard x \<Longrightarrow> inv s \<Longrightarrow> forward s (apply_op x s)"
begin

lemma forward_run: "\<forall>x \<in> set xs. guard x \<Longrightarrow> inv s \<Longrightarrow> forward s (fold apply_op xs s)"
proof (induction xs arbitrary: s)
  case Nil
  then show ?case by (simp add: forward_refl)
next
  case (Cons x xs)
  then have "forward s (apply_op x s)" "inv (apply_op x s)"
    by (auto intro: forward_apply inv_apply)
  then show ?case using Cons by (auto intro: forward_trans)
qed

end

section \<open>Transactions as operations\<close>

datatype queue_op =
    Op_review time "string option" pull_request_event string
  | Op_push time push_event string
  | Op_claim time "nat list" string int int int
  | Op_heartbeat time nat string int
  | Op_complete time nat string
  | Op_supersede time nat string
  | Op_fail time nat string string bool int int
  | Op_enable time nat bool
  | Op_auto_review nat bool

definition committed :: "db \<Rightarrow> 'e + ('r \<times> db) \<Rightarrow> db" where
  "committed st r = (case r of Inl _ \<Rightarrow> st | Inr (_, st') \<Rightarrow> st')"

fun queue_apply :: "(string \<Rightarrow> string) \<Rightarrow> (time \<Rightarrow> string) \<Rightarrow> queue_op \<Rightarrow> db \<Rightarrow> db" where
  "queue_apply sha256 isofmt (Op_review now env e sha) st =
     committed st (enqueue_review_event sha256 isofmt now env e sha st)"
| "queue_apply sha256 isofmt (Op_push now e sha) st =
     committed st (enqueue_repository_index_event now e sha st)"
| "queue_apply sha256 isofmt (Op_claim now locked w lease bd md) st =
     committed st (claim_workflow_job now locked w lease bd md st)"
| "queue_apply sha256 isofmt (Op_heartbeat now i w lease) st =
     committed st (heartbeat_workflow_job now i w lease st)"
| "queue_apply sha256 isofmt (Op_complete now i w) st = snd (complete_workflow_job now i w st)"
| "queue_apply sha256 isofmt (Op_supersede now i w) st = snd (supersede_workflow_job now i w st)"
| "queue_apply sha256 isofmt (Op_fail now i w err rt bd md) st =
     committed st (fail_workflow_job now i w err rt bd md st)"
| "queue_apply sha256 isofmt (Op_enable now rid v) st = snd (set_repository_enabled now rid v st)"
| "queue_apply sha256 isofmt (Op_auto_review rid v) st = snd (set_repository_auto_review rid v st)"

text \<open>The only thing asked of an operation: the key an event enqueues under carries no number sign.\<close>

fun plain_key :: "(string \<Rightarrow> string) \<Rightarrow> (time \<Rightarrow> string) \<Rightarrow> queue_op \<Rightarrow> bool" where
  "plain_key sha256 isofmt (Op_review now env e sha) \<longleftrightarrow>
     CHR ''#'' \<notin> set (pr_idempotency_key sha256 isofmt e)"
| "plain_key sha256 isofmt (Op_push now e sha) \<longleftrightarrow> CHR ''#'' \<notin> set (push_idempotency_key e)"
| "plain_key sha256 isofmt _ \<longleftrightarrow> True"

section \<open>The life of a job\<close>

inductive status_step :: "job_status \<Rightarrow> job_status \<Rightarrow> bool" where
  claim: "status_step Queued Running"
| cancel: "status_step Queued Cancelled"
| replace: "status_step Queued Superseded"
| requeue: "status_step Running Queued"
| succeed: "status_step Running Succeeded"
| give_up: "status_step Running Superseded"
| kill: "status_step Running Dead"
| reject: "status_step Running Failed"

inductive_cases status_step_from: "status_step s t"

inductive_simps status_step_simps [simp]:
  "status_step Succeeded t" "status_step Failed t" "status_step Dead t"
  "status_step Cancelled t" "status_step Superseded t"

lemma settled_stays:
  assumes "status_step\<^sup>*\<^sup>* s t" "\<not> is_outstanding s"
  shows "t = s"
  using assms(1) assms(2)
proof (induction rule: converse_rtranclp_induct)
  case (step y z)
  then show ?case by (cases y) (auto simp: is_outstanding_def)
qed simp

definition job_evolves :: "job \<Rightarrow> job \<Rightarrow> bool" where
  "job_evolves j k \<longleftrightarrow>
     j_id k = j_id j \<and> j_scope k = j_scope j \<and> j_type k = j_type j \<and>
     j_revision k = j_revision j \<and> j_payload k = j_payload j \<and>
     j_max_attempts k = j_max_attempts j \<and>
     status_step\<^sup>*\<^sup>* (j_status j) (j_status k) \<and>
     j_attempt_count j \<le> j_attempt_count k \<and>
     (\<not> is_outstanding (j_status j) \<longrightarrow> j_attempt_count k = j_attempt_count j)"

lemma job_evolves_refl [simp]: "job_evolves j j"
  by (simp add: job_evolves_def)

lemma job_evolves_trans: "job_evolves j k \<Longrightarrow> job_evolves k l \<Longrightarrow> job_evolves j l"
  by (auto simp: job_evolves_def dest: settled_stays)

interpretation queued_jobs: evolving_rows job_evolves
  by unfold_locales (rule job_evolves_refl, rule job_evolves_trans)

abbreviation jobs_evolve :: "job list \<Rightarrow> job list \<Rightarrow> bool" where
  "jobs_evolve \<equiv> queued_jobs.table_evolves"

lemmas jobs_evolve_refl = queued_jobs.table_refl
lemmas jobs_evolve_append = queued_jobs.table_insert
lemmas jobs_evolve_trans = queued_jobs.table_trans
lemmas jobs_evolve_update = queued_jobs.table_update
lemmas jobs_evolveD = queued_jobs.table_member

section \<open>Every operation moves jobs forward\<close>

lemma committed_evolves:
  "(\<And>r st'. x = Inr (r, st') \<Longrightarrow> jobs_evolve (jobs st) (jobs st')) \<Longrightarrow>
   jobs_evolve (jobs st) (jobs (committed st x))"
  by (auto simp: committed_def split: sum.splits prod.splits)

lemma committed_inv:
  "\<lbrakk>\<And>r st'. x = Inr (r, st') \<Longrightarrow> queue_inv st'; queue_inv st\<rbrakk> \<Longrightarrow> queue_inv (committed st x)"
  by (auto simp: committed_def split: sum.splits prod.splits)

lemma sweep_evolves: "jobs_evolve (jobs st) (jobs (sweep now bd md st))"
  unfolding jobs_sweep
proof (rule jobs_evolve_update)
  fix j
  assume "lease_expired now j"
  then have "j_status j = Running" by (simp add: lease_expired_def)
  then show "job_evolves j (expire_job now bd md j)"
    by (auto simp: job_evolves_def expire_job_def is_outstanding_def
        intro: status_step.intros r_into_rtranclp)
qed

lemma claim_evolves:
  assumes inv: "queue_inv st"
    and r: "claim_workflow_job now locked w lease bd md st = Inr (m, st')"
  shows "jobs_evolve (jobs st) (jobs st')"
proof (cases "next_claim now locked (sweep now bd md st)")
  case None
  then show ?thesis
    using r sweep_evolves by (auto simp: claim_workflow_job_def Let_def split: if_splits)
next
  case (Some j)
  let ?sw = "sweep now bd md st"
  have j: "j \<in> set (jobs ?sw)" "j_status j = Queued"
    using next_claim_SomeD[OF Some] by (auto simp: claimable_def)
  have jok: "jobs_ok (jobs ?sw) (next_job ?sw)"
    using sweep_inv[OF inv] by (simp add: queue_inv_def)
  have "jobs_evolve (jobs ?sw) (update_where (\<lambda>r. j_id r = j_id j) (start_job now w lease) (jobs ?sw))"
  proof (rule jobs_evolve_update)
    fix k
    assume "k \<in> set (jobs ?sw)" "j_id k = j_id j"
    then have "k = j" by (rule jobs_ok_inj[OF jok _ j(1)])
    then show "job_evolves k (start_job now w lease k)"
      using j(2) by (auto simp: job_evolves_def start_job_def is_outstanding_def
          intro: status_step.intros r_into_rtranclp)
  qed
  then show ?thesis
    using r Some sweep_evolves[of st now bd md]
    by (auto simp: claim_workflow_job_def Let_def begin_attempt_def split: if_splits
        intro: jobs_evolve_trans)
qed

lemma close_evolves:
  assumes "holds_lease now i w j" "s = Succeeded \<or> s = Superseded"
  shows "job_evolves j (close_job now s j)"
  using holds_leaseD[OF assms(1)] assms(2)
  by (auto simp: job_evolves_def close_job_def is_outstanding_def
      intro: status_step.intros r_into_rtranclp)

lemma settle_failure_evolves:
  assumes "j_status j = Running"
  shows "job_evolves j (settle_failure now err rt bd md j)"
  using assms by (auto simp: job_evolves_def settle_failure_def Let_def is_outstanding_def
      intro: status_step.intros r_into_rtranclp)

lemma fail_evolves:
  assumes inv: "queue_inv st" and r: "fail_workflow_job now i w err rt bd md st = Inr (s, st')"
  shows "jobs_evolve (jobs st) (jobs st')"
proof (cases "select_one (holds_lease now i w) (jobs st)")
  case None
  then show ?thesis using r by (auto simp: fail_workflow_job_def split: if_splits)
next
  case (Some j)
  note only = holds_lease_only[OF inv Some]
  have "jobs st' = update_where (\<lambda>r. j_id r = i) (settle_failure now err rt bd md) (jobs st)"
    using r Some by (auto simp: fail_workflow_job_def split: if_splits)
  then show ?thesis
    using only holds_leaseD[OF only(2)]
    by (auto intro!: jobs_evolve_update settle_failure_evolves)
qed

lemma close_queued_evolves:
  "s = Cancelled \<or> s = Superseded \<Longrightarrow> jobs_evolve (jobs st) (jobs (close_queued now s P st))"
  unfolding jobs_close_queued
  by (rule jobs_evolve_update)
     (auto simp: job_evolves_def is_outstanding_def intro: status_step.intros r_into_rtranclp)

lemma insert_job_evolves:
  "insert_job mk st = Inr (i, st') \<Longrightarrow> jobs_evolve (jobs st) (jobs st')"
  by (auto simp: insert_job_def Let_def jobs_evolve_append split: if_splits)

lemma retire_evolves:
  "retire_terminal_job m st = Inr (b, st') \<Longrightarrow> jobs_evolve (jobs st) (jobs st')"
  by (auto simp: retire_terminal_job_def job_evolves_def split: option.splits if_splits
      intro!: jobs_evolve_update)

lemma insert_after_close_evolves:
  assumes "insert_job mk (close_queued now Superseded P st) = Inr (i, st')"
  shows "jobs_evolve (jobs st) (jobs st')"
  using close_queued_evolves[of Superseded st now P] insert_job_evolves[OF assms]
  by (auto intro: jobs_evolve_trans)

lemma link_jobs [simp]: "jobs (link_delivery did i st) = jobs st"
  by (simp add: link_delivery_def)

lemma review_evolves:
  assumes "enqueue_review_event sha256 isofmt now env e sha st = Inr (r, st')"
  shows "jobs_evolve (jobs st) (jobs st')"
  using assms
proof (cases rule: enqueue_review_eventE)
  case untouched
  then show ?thesis by (simp add: queue_part_def)
next
  case (revision rid p did st3)
  let ?st1 = "record_pull_request_lifecycle p did e st3"
  have j1: "jobs ?st1 = jobs st" using revision(1) by (simp add: record_pull_request_lifecycle_def queue_part_def)
  show ?thesis
    using revision(2) j1
    by (auto simp: enqueue_review_revision_def enqueue_review_job_def Let_def bind_result_Inr_iff
        simp flip: j1 split: if_splits option.splits
        intro: close_queued_evolves dest!: retire_evolves insert_after_close_evolves
        elim!: jobs_evolve_trans)
qed

lemma push_evolves:
  assumes "enqueue_repository_index_event now e sha st = Inr (r, st')"
  shows "jobs_evolve (jobs st) (jobs st')"
  using assms
proof (cases rule: enqueue_indexE)
  case untouched
  then show ?thesis by (simp add: queue_part_def)
next
  case (revision rid did st3)
  have j1: "jobs st3 = jobs st" using revision(1) by (simp add: queue_part_def)
  show ?thesis
    using revision(2)
    by (auto simp: enqueue_index_job_def Let_def bind_result_Inr_iff simp flip: j1
        split: if_splits option.splits dest!: retire_evolves insert_after_close_evolves
        elim!: jobs_evolve_trans)
qed

lemma apply_evolves:
  assumes inv: "queue_inv st"
  shows "jobs_evolve (jobs st) (jobs (queue_apply sha256 isofmt x st))"
proof (cases x)
  case (Op_review now env e sha)
  then show ?thesis by (simp, intro committed_evolves) (erule review_evolves)
next
  case (Op_push now e sha)
  then show ?thesis by (simp, intro committed_evolves) (erule push_evolves)
next
  case (Op_claim now locked w lease bd md)
  then show ?thesis by (simp, intro committed_evolves) (erule claim_evolves[OF inv])
next
  case (Op_heartbeat now i w lease)
  then show ?thesis
    by (auto simp: heartbeat_workflow_job_def job_evolves_def split: if_splits
        intro!: committed_evolves jobs_evolve_update)
next
  case (Op_complete now i w)
  then show ?thesis
    by (auto simp: complete_workflow_job_def finish_attempt_def split: option.splits
        intro!: jobs_evolve_update close_evolves)
next
  case (Op_supersede now i w)
  then show ?thesis
    by (auto simp: supersede_workflow_job_def finish_attempt_def split: option.splits
        intro!: jobs_evolve_update close_evolves)
next
  case (Op_fail now i w err rt bd md)
  then show ?thesis by (simp, intro committed_evolves) (erule fail_evolves[OF inv])
next
  case (Op_enable now rid v)
  then show ?thesis
    using close_queued_evolves[of Cancelled "st\<lparr>repositories := _\<rparr>"]
    by (auto simp: set_repository_enabled_def Let_def)
next
  case (Op_auto_review rid v)
  then show ?thesis by (simp add: set_repository_auto_review_def)
qed

lemma apply_inv:
  assumes g: "plain_key sha256 isofmt x" and inv: "queue_inv st"
  shows "queue_inv (queue_apply sha256 isofmt x st)"
proof (cases x)
  case (Op_review now env e sha)
  have "queue_inv st'" if "enqueue_review_event sha256 isofmt now env e sha st = Inr (r, st')" for r st'
    using that
  proof (cases rule: enqueue_review_eventE)
    case untouched
    then show ?thesis using inv queue_inv_part by blast
  next
    case (revision rid p did st3)
    have "queue_inv st3" using inv revision(1) queue_inv_part by blast
    from enqueue_review_revision_inv[OF this _ revision(2)] show ?thesis using g Op_review by simp
  qed
  then show ?thesis using Op_review inv by (auto intro!: committed_inv)
next
  case (Op_push now e sha)
  have "queue_inv st'" if "enqueue_repository_index_event now e sha st = Inr (r, st')" for r st'
    using that
  proof (cases rule: enqueue_indexE)
    case untouched
    then show ?thesis using inv queue_inv_part by blast
  next
    case (revision rid did st3)
    have "queue_inv st3" using inv revision(1) queue_inv_part by blast
    from enqueue_index_job_inv[OF this _ revision(2)] show ?thesis using g Op_push by simp
  qed
  then show ?thesis using Op_push inv by (auto intro!: committed_inv)
next
  case (Op_claim now locked w lease bd md)
  then show ?thesis using claim_inv[OF inv] inv by (auto intro!: committed_inv)
next
  case (Op_heartbeat now i w lease)
  then show ?thesis using heartbeat_inv[OF inv] inv by (auto intro!: committed_inv)
next
  case (Op_complete now i w)
  then show ?thesis using complete_inv[OF inv] by simp
next
  case (Op_supersede now i w)
  then show ?thesis using supersede_inv[OF inv] by simp
next
  case (Op_fail now i w err rt bd md)
  then show ?thesis using fail_inv[OF inv] inv by (auto intro!: committed_inv)
next
  case (Op_enable now rid v)
  then show ?thesis
    using inv queue_inv_part[of "st\<lparr>repositories := _\<rparr>" st] close_queued_inv
    by (auto simp: set_repository_enabled_def Let_def)
next
  case (Op_auto_review rid v)
  then show ?thesis
    using inv queue_inv_part[of "st\<lparr>repositories := _\<rparr>" st]
    by (auto simp: set_repository_auto_review_def)
qed

interpretation workflow: guarded_system "plain_key sha256 isofmt" "queue_apply sha256 isofmt" queue_inv
  for sha256 isofmt
  by unfold_locales (rule apply_inv)

interpretation life: audited_system "plain_key sha256 isofmt" "queue_apply sha256 isofmt" queue_inv
    "\<lambda>st st'. jobs_evolve (jobs st) (jobs st')"
  for sha256 isofmt
  by unfold_locales (auto intro: jobs_evolve_trans apply_evolves)

end
