(* ===== verification/Queue_Props.thy ===== *)
theory Queue_Props
  imports Queue_Runs
begin

text \<open>
  The promises of the queue: what an arbitrary run of transactions keeps, which job a claim hands
  out, and what a worker may still do to a job.  The queue of the witnesses holds two jobs of one
  pull request (the older one running) and one of another repository.
\<close>

definition sample_repository :: "nat \<Rightarrow> string \<Rightarrow> repository" where
  "sample_repository i name =
     \<lparr>r_id = i, r_provider = ''github'', r_base_url = ''https://github.com'', r_full_name = name,
      r_default_branch = Some ''main'', r_clone_url = Some (''https://github.com/'' @ name @ ''.git''),
      r_enabled = True, r_auto_review = True, r_github_repository_id = Some (100 + i)\<rparr>"

definition sample_push :: "nat \<Rightarrow> string \<Rightarrow> string \<Rightarrow> time \<Rightarrow> push_event" where
  "sample_push i name sha t =
     \<lparr>pu_provider = ''github'', pu_scm_base_url = ''https://github.com'',
      pu_api_base_url = ''https://api.github.com'', pu_repo_full_name = name,
      pu_ref_name = ''refs/heads/main'', pu_default_branch = ''main'', pu_before_sha = ''0'',
      pu_after_sha = sha, pu_pushed_at = t, pu_delivery_id = sha,
      pu_github_repository_id = 100 + i\<rparr>"

definition sample_job :: "nat \<Rightarrow> nat \<Rightarrow> string \<Rightarrow> string \<Rightarrow> job" where
  "sample_job i rid scope key =
     new_job i rid None Index_repository key scope ''s'' ''s''
       (Push_payload (sample_push rid ''a/b'' ''s'' 0)) 0"

definition sample_running :: job where
  "sample_running = start_job 0 ''w1'' 60 (sample_job 1 1 ''a'' ''k1'')"

definition sample_db :: db where
  "sample_db =
     \<lparr>jobs = [sample_running, sample_job 2 1 ''a'' ''k2'', sample_job 3 2 ''b'' ''k3''], next_job = 4,
      attempts = [\<lparr>a_job_id = 1, a_number = 1, a_worker_id = ''w1'', a_status = A_running,
                   a_error_code = None, a_finished_at = None\<rparr>],
      repositories = [sample_repository 1 ''a/b'', sample_repository 2 ''c/d''],
      pulls = [], next_pull = 1, refs = [], next_ref = 1, deliveries = [], next_delivery = 1,
      lifecycle = [], audit = []\<rparr>"

lemmas sample_defs =
  sample_db_def sample_running_def sample_job_def sample_push_def sample_repository_def
  start_job_def new_job_def seconds_def

lemma sample_inv: "queue_inv sample_db"
  by (simp add: sample_defs queue_inv_def jobs_ok_def job_ok_def key_ok_def scope_exclusive_def
      attempts_ok_def attempt_ok_def has_attempt_def)

section \<open>Runs of transactions\<close>

text \<open>C1: Whatever sequence of webhook events, claims, heartbeats, completions, failures and operator
  switches the queue has run, its invariant still holds; in particular two running jobs never share
  a scope, no job is started more often than its attempt limit, and a running job has exactly the
  lease holder recorded in its running attempt.\<close>

theorem runs_keep_queue_inv:
  assumes "queue_inv st" and "\<forall>x \<in> set ops. plain_key sha256 isofmt x"
  shows "queue_inv (fold (queue_apply sha256 isofmt) ops st) \<and>
    (\<forall>j \<in> set (jobs (fold (queue_apply sha256 isofmt) ops st)).
       j_attempt_count j \<le> j_max_attempts j \<and>
       (j_status j = Running \<longrightarrow>
          (\<forall>k \<in> set (jobs (fold (queue_apply sha256 isofmt) ops st)).
             j_status k = Running \<longrightarrow> j_scope k = j_scope j \<longrightarrow> k = j) \<and>
          (\<exists>a \<in> set (attempts (fold (queue_apply sha256 isofmt) ops st)).
             a_job_id a = j_id j \<and> a_number a = j_attempt_count j \<and> a_status a = A_running \<and>
             j_leased_by j = Some (a_worker_id a))))"
proof -
  have inv: "queue_inv (fold (queue_apply sha256 isofmt) ops st)"
    using workflow.inv_run assms by blast
  from inv queue_inv_reading[OF inv] show ?thesis by blast
qed

definition sample_ops :: "queue_op list" where
  "sample_ops = [Op_claim 5 [] ''w2'' 60 10 100, Op_complete 6 1 ''w1'', Op_enable 7 2 False]"

theorem runs_keep_queue_inv_witness:
  "queue_inv (fold (queue_apply (\<lambda>s. s) str_of_int) sample_ops sample_db)"
  using runs_keep_queue_inv[OF sample_inv, of sample_ops "\<lambda>s. s" str_of_int]
  by (simp add: sample_ops_def)

text \<open>C2: A job that has been settled (succeeded, failed, dead, cancelled or superseded) keeps its
  status, revision and attempt count for ever, whatever the queue runs afterwards; and an
  outstanding job only moves along the legal transitions and is never lost.\<close>

theorem settled_jobs_stay_settled:
  assumes "queue_inv st" and "\<forall>x \<in> set ops. plain_key sha256 isofmt x" and "j \<in> set (jobs st)"
  shows "\<exists>k \<in> set (jobs (fold (queue_apply sha256 isofmt) ops st)).
    j_id k = j_id j \<and> j_scope k = j_scope j \<and> j_revision k = j_revision j \<and>
    j_payload k = j_payload j \<and> status_step\<^sup>*\<^sup>* (j_status j) (j_status k) \<and>
    j_attempt_count j \<le> j_attempt_count k \<and>
    (\<not> is_outstanding (j_status j) \<longrightarrow>
       j_status k = j_status j \<and> j_attempt_count k = j_attempt_count j)"
proof -
  have "jobs_evolve (jobs st) (jobs (fold (queue_apply sha256 isofmt) ops st))"
    using life.forward_run assms(1,2) by blast
  from jobs_evolveD[OF this assms(3)] show ?thesis
    by (auto simp: job_evolves_def dest: settled_stays)
qed

theorem settled_jobs_stay_settled_witness:
  "\<exists>k \<in> set (jobs (fold (queue_apply (\<lambda>s. s) str_of_int) sample_ops sample_db)).
     j_id k = j_id sample_running \<and> status_step\<^sup>*\<^sup>* Running (j_status k)"
  using settled_jobs_stay_settled[OF sample_inv, of sample_ops "\<lambda>s. s" str_of_int sample_running]
  by (auto simp: sample_ops_def sample_db_def sample_running_def start_job_def)

section \<open>Claims\<close>

lemma claim_ok_unfold:
  "\<lbrakk>strip worker \<noteq> []; 0 < lease; 0 < bd; 0 < md\<rbrakk> \<Longrightarrow>
   claim_workflow_job now locked worker lease bd md st =
     (case next_claim now locked (sweep now bd md st) of
        None \<Rightarrow> Inr (None, sweep now bd md st)
      | Some j \<Rightarrow> Inr (Some (workflow_job_of (start_job now worker lease j)),
                       begin_attempt now worker lease j (sweep now bd md st)))"
  by (simp add: claim_workflow_job_def Let_def)

lemma claim_InrD:
  "claim_workflow_job now locked worker lease bd md st = Inr x \<Longrightarrow>
   strip worker \<noteq> [] \<and> 0 < lease \<and> 0 < bd \<and> 0 < md"
  by (auto simp: claim_workflow_job_def split: if_splits)

lemma begin_attempt_jobs:
  assumes "queue_inv st" "j \<in> set (jobs st)"
  shows "k \<in> set (jobs (begin_attempt now worker lease j st)) \<longleftrightarrow>
         k = start_job now worker lease j \<or> (k \<in> set (jobs st) \<and> k \<noteq> j)"
proof -
  have jok: "jobs_ok (jobs st) (next_job st)" using assms(1) by (simp add: queue_inv_def)
  have same: "j_id r = j_id j \<longleftrightarrow> r = j" if "r \<in> set (jobs st)" for r
    using jobs_ok_inj[OF jok that assms(2)] by auto
  have "set (jobs (begin_attempt now worker lease j st)) =
        (\<lambda>r. if r = j then start_job now worker lease j else r) ` set (jobs st)"
    using same by (force simp: begin_attempt_def set_update_where)
  then show ?thesis using assms(2) by auto
qed

text \<open>C3: A claim that hands out a job hands out one that was queued and due in an enabled repository,
  with no older outstanding job and no running job in its scope, and of the jobs no other worker
  has locked the first by priority, due time and id.  In the new state exactly that job has become
  running, leased to the worker until the lease ends, with its counter raised by one and a new
  running attempt; every other job is as the lease sweep left it.\<close>

theorem claim_hands_out_the_next_job:
  assumes "queue_inv st"
    and "claim_workflow_job now locked worker lease bd md st = Inr (Some w, st')"
  shows "\<exists>j \<in> set (jobs (sweep now bd md st)).
    w = workflow_job_of (start_job now worker lease j) \<and>
    j_status j = Queued \<and> j_available_at j \<le> now \<and>
    repository_enabled st (j_repository_id j) \<and> j_id j \<notin> set locked \<and>
    (\<forall>k \<in> set (jobs (sweep now bd md st)). j_scope k = j_scope j \<longrightarrow>
       j_status k \<noteq> Running \<and> (is_outstanding (j_status k) \<longrightarrow> j_id j \<le> j_id k)) \<and>
    (\<forall>k \<in> set (jobs (sweep now bd md st)).
       claimable now (sweep now bd md st) k \<longrightarrow> j_id k \<notin> set locked \<longrightarrow>
       claim_order j \<le> claim_order k) \<and>
    (\<forall>k. k \<in> set (jobs st') \<longleftrightarrow>
       k = start_job now worker lease j \<or> (k \<in> set (jobs (sweep now bd md st)) \<and> k \<noteq> j)) \<and>
    attempts st' = attempts (sweep now bd md st) @
      [\<lparr>a_job_id = w_id w, a_number = w_attempt_count w, a_worker_id = worker,
        a_status = A_running, a_error_code = None, a_finished_at = None\<rparr>]"
proof -
  let ?sw = "sweep now bd md st"
  have "strip worker \<noteq> [] \<and> 0 < lease \<and> 0 < bd \<and> 0 < md" by (rule claim_InrD[OF assms(2)])
  with assms(2) obtain j where n: "next_claim now locked ?sw = Some j"
    and w: "w = workflow_job_of (start_job now worker lease j)"
    and st': "st' = begin_attempt now worker lease j ?sw"
    by (auto simp: claim_ok_unfold split: option.splits)
  note j = next_claim_SomeD[OF n]
  have frame: "repository_enabled ?sw rid = repository_enabled st rid" for rid
    by (simp add: repository_enabled_def)
  show ?thesis
  proof (intro bexI[OF _ j(1)] conjI)
    show "\<forall>k \<in> set (jobs ?sw). j_scope k = j_scope j \<longrightarrow>
       j_status k \<noteq> Running \<and> (is_outstanding (j_status k) \<longrightarrow> j_id j \<le> j_id k)"
      using j(2) by (auto simp: claimable_def not_less[symmetric])
    show "\<forall>k. k \<in> set (jobs st') \<longleftrightarrow>
       k = start_job now worker lease j \<or> (k \<in> set (jobs ?sw) \<and> k \<noteq> j)"
      unfolding st' using begin_attempt_jobs[OF sweep_inv[OF assms(1)] j(1)] by blast
  qed (use j w st' frame in \<open>auto simp: claimable_def begin_attempt_def workflow_job_of_def start_job_def\<close>)
qed

theorem claim_hands_out_the_next_job_witness:
  "\<exists>w st'. claim_workflow_job 100000000 [] ''w2'' 60 10 100 sample_db = Inr (Some w, st') \<and>
     w_id w = 3 \<and> (\<exists>j \<in> set (jobs (sweep 100000000 10 100 sample_db)).
       w = workflow_job_of (start_job 100000000 ''w2'' 60 j))"
proof -
  have c: "\<exists>w st'. claim_workflow_job 100000000 [] ''w2'' 60 10 100 sample_db = Inr (Some w, st') \<and> w_id w = 3"
  proof -
    have "case claim_workflow_job 100000000 [] ''w2'' 60 10 100 sample_db of
            Inr (Some w, st') \<Rightarrow> w_id w = 3 | _ \<Rightarrow> False"
      by code_simp
    then show ?thesis by (rule case_some_result)
  qed
  then obtain w st' where w: "claim_workflow_job 100000000 [] ''w2'' 60 10 100 sample_db = Inr (Some w, st')"
    "w_id w = 3" by (elim exE conjE)
  show ?thesis
    using w claim_hands_out_the_next_job[OF sample_inv w(1)]
    by (intro exI[of _ w] exI[of _ st'] conjI) (simp_all only:, elim bexE conjE, rule bexI)
qed

text \<open>C4: A claim with valid parameters never fails, and it comes back empty handed only when every
  claimable job is locked by another worker.  The queue never deadlocks on a scope: when a scope
  has queued jobs, all of them due and in enabled repositories and none locked, and the scope runs
  nothing after the sweep, the claim hands out a job.\<close>

theorem claim_makes_progress:
  assumes "strip worker \<noteq> []" "0 < lease" "0 < bd" "0 < md"
  shows "\<exists>m st'. claim_workflow_job now locked worker lease bd md st = Inr (m, st') \<and>
    (m = None \<longleftrightarrow>
       (\<forall>j \<in> set (jobs (sweep now bd md st)).
          claimable now (sweep now bd md st) j \<longrightarrow> j_id j \<in> set locked)) \<and>
    (\<forall>s. (\<exists>j \<in> set (jobs (sweep now bd md st)). j_scope j = s \<and> j_status j = Queued) \<longrightarrow>
         (\<forall>j \<in> set (jobs (sweep now bd md st)). j_scope j = s \<longrightarrow> j_status j \<noteq> Running \<and>
            (j_status j = Queued \<longrightarrow> j_available_at j \<le> now \<and> j_id j \<notin> set locked \<and>
               repository_enabled st (j_repository_id j))) \<longrightarrow>
         m \<noteq> None)"
proof -
  let ?sw = "sweep now bd md st"
  obtain m st' where r: "claim_workflow_job now locked worker lease bd md st = Inr (m, st')"
    and m: "m = None \<longleftrightarrow> next_claim now locked ?sw = None"
    using assms by (cases "next_claim now locked ?sw") (auto simp: claim_ok_unfold)
  have none: "m = None \<longleftrightarrow> (\<forall>j \<in> set (jobs ?sw). claimable now ?sw j \<longrightarrow> j_id j \<in> set locked)"
    unfolding m by (rule next_claim_None_iff)
  have frame: "repository_enabled ?sw rid = repository_enabled st rid" for rid
    by (simp add: repository_enabled_def)
  have live: "m \<noteq> None"
    if q: "\<exists>j \<in> set (jobs ?sw). j_scope j = s \<and> j_status j = Queued"
      and all: "\<forall>j \<in> set (jobs ?sw). j_scope j = s \<longrightarrow> j_status j \<noteq> Running \<and>
            (j_status j = Queued \<longrightarrow> j_available_at j \<le> now \<and> j_id j \<notin> set locked \<and>
               repository_enabled st (j_repository_id j))" for s
  proof -
    let ?Q = "{j \<in> set (jobs ?sw). j_scope j = s \<and> j_status j = Queued}"
    have fin: "finite ?Q" "?Q \<noteq> {}" using q by auto
    obtain j where j: "j \<in> ?Q" "\<forall>k \<in> ?Q. j_id j \<le> j_id k"
      using ex_min_finite[OF fin, of j_id] by blast
    have old: "\<not> (\<exists>e \<in> set (jobs ?sw). j_scope e = j_scope j \<and> j_id e < j_id j \<and> is_outstanding (j_status e))"
    proof
      assume "\<exists>e \<in> set (jobs ?sw). j_scope e = j_scope j \<and> j_id e < j_id j \<and> is_outstanding (j_status e)"
      then obtain e where e: "e \<in> set (jobs ?sw)" "j_scope e = s" "j_id e < j_id j"
        "is_outstanding (j_status e)" using j(1) by auto
      then have "j_status e = Queued" using all by (auto simp: is_outstanding_def)
      then have "j_id j \<le> j_id e" using j(2) e by blast
      then show False using e(3) by simp
    qed
    have "claimable now ?sw j"
      unfolding claimable_def frame using old j(1) all by auto
    then show ?thesis using none j(1) all by blast
  qed
  show ?thesis
    by (intro exI[of _ m] exI[of _ st'] conjI r none allI impI) (erule (1) live)
qed

theorem claim_makes_progress_witness:
  "\<exists>m st'. claim_workflow_job 5 [3] ''w2'' 60 10 100 sample_db = Inr (m, st') \<and>
     (m = None \<longleftrightarrow> (\<forall>j \<in> set (jobs (sweep 5 10 100 sample_db)).
        claimable 5 (sweep 5 10 100 sample_db) j \<longrightarrow> j_id j \<in> set [3]))"
proof -
  have s: "strip ''w2'' \<noteq> []" by code_simp
  show ?thesis using claim_makes_progress[OF s, of 60 10 100 5 "[3]" sample_db] by auto
qed

text \<open>Every claim first recovers the jobs whose lease has run out: each comes back as queued after
  its backoff (none after the first attempt, never more than the maximum), or as dead when it has
  used its attempts, without a lease and with its running attempt marked expired; jobs with a live
  lease are untouched, and after any successful claim no expired lease is left.\<close>

lemma claim_recovers_expired_leases:
  assumes "queue_inv st"
    and "claim_workflow_job now locked worker lease bd md st = Inr (m, st')"
  shows "(\<forall>j \<in> set (jobs st'). \<not> lease_expired now j) \<and>
    jobs (sweep now bd md st) =
      map (\<lambda>j. if lease_expired now j then expire_job now bd md j else j) (jobs st) \<and>
    (\<forall>j \<in> set (jobs st). lease_expired now j \<longrightarrow>
       (j_attempt_count j < j_max_attempts j \<longrightarrow>
          j_status (expire_job now bd md j) = Queued \<and>
          now \<le> j_available_at (expire_job now bd md j) \<and>
          j_available_at (expire_job now bd md j) \<le> now + seconds md \<and>
          (j_attempt_count j = 1 \<longrightarrow> j_available_at (expire_job now bd md j) = now)) \<and>
       (j_attempt_count j = j_max_attempts j \<longrightarrow>
          j_status (expire_job now bd md j) = Dead) \<and>
       j_leased_by (expire_job now bd md j) = None \<and>
       (\<forall>a \<in> set (attempts (sweep now bd md st)).
          a_job_id a = j_id j \<longrightarrow> a_status a \<noteq> A_running))"
proof (intro conjI ballI impI)
  let ?sw = "sweep now bd md st"
  note par = claim_InrD[OF assms(2)]
  have live: "\<not> lease_expired now j" if "j \<in> set (jobs ?sw)" for j
  proof -
    from that obtain k where "j = (if lease_expired now k then expire_job now bd md k else k)"
      unfolding jobs_sweep by (rule in_update_whereE)
    then show ?thesis by (cases "lease_expired now k") (simp_all add: expire_job_def lease_expired_def)
  qed
  show "\<not> lease_expired now j" if "j \<in> set (jobs st')" for j
  proof (cases "next_claim now locked ?sw")
    case None
    with assms(2) par have "st' = ?sw" by (simp add: claim_ok_unfold)
    with that live show ?thesis by simp
  next
    case (Some q)
    with assms(2) par have st': "st' = begin_attempt now worker lease q ?sw"
      by (auto simp: claim_ok_unfold)
    have "j = start_job now worker lease q \<or> j \<in> set (jobs ?sw)"
      using begin_attempt_jobs[OF sweep_inv[OF assms(1)] next_claim_SomeD(1)[OF Some]] that
      unfolding st' by blast
    then show ?thesis using live par by (auto simp: start_job_def lease_expired_def seconds_def)
  qed
  show "jobs ?sw = map (\<lambda>j. if lease_expired now j then expire_job now bd md j else j) (jobs st)"
    by (simp add: jobs_sweep update_where_def)
  fix j
  assume j: "j \<in> set (jobs st)" and e: "lease_expired now j"
  have del: "0 \<le> expiry_delay bd md c" "expiry_delay bd md c \<le> md" for c
    using par by (auto simp: expiry_delay_def)
  show "now \<le> j_available_at (expire_job now bd md j)"
       "j_available_at (expire_job now bd md j) \<le> now + seconds md"
    using del[of "j_attempt_count j"] by (auto simp: expire_job_def seconds_def)
  show "j_leased_by (expire_job now bd md j) = None" by (simp add: expire_job_def)
  fix a
  assume a: "a \<in> set (attempts ?sw)" "a_job_id a = j_id j"
  have "j_status (expire_job now bd md j) \<noteq> Running" by (simp add: expire_job_def)
  moreover have "expire_job now bd md j \<in> set (jobs ?sw)"
    using in_update_whereI[OF j, of "lease_expired now" "expire_job now bd md"] e
    by (simp add: jobs_sweep)
  moreover have "j_id (expire_job now bd md j) = j_id j" by (simp add: expire_job_def)
  ultimately show "a_status a \<noteq> A_running"
    using running_attempt_number[OF sweep_inv[OF assms(1)] a(1)] a(2) by metis
qed (simp_all add: expire_job_def expiry_delay_def seconds_def)

theorem claim_recovers_expired_leases_witness:
  "\<exists>w st'. claim_workflow_job 100000000 [] ''w2'' 60 10 100 sample_db = Inr (Some w, st') \<and>
     (\<forall>j \<in> set (jobs st'). \<not> lease_expired 100000000 j) \<and>
     j_status (expire_job 100000000 10 100 sample_running) = Queued \<and>
     j_available_at (expire_job 100000000 10 100 sample_running) = 100000000"
proof -
  have "case claim_workflow_job 100000000 [] ''w2'' 60 10 100 sample_db of
          Inr (Some w, st') \<Rightarrow> w_id w = 3 | _ \<Rightarrow> False"
    by code_simp
  from case_some_result[OF this] obtain w st' where
    w: "claim_workflow_job 100000000 [] ''w2'' 60 10 100 sample_db = Inr (Some w, st')" by (elim exE conjE)
  have s: "sample_running \<in> set (jobs sample_db)" by (simp add: sample_db_def)
  have e: "lease_expired 100000000 sample_running" "j_attempt_count sample_running = 1"
    "j_attempt_count sample_running < j_max_attempts sample_running"
    by (simp_all add: lease_expired_def sample_defs)
  note c = claim_recovers_expired_leases[OF sample_inv w]
  show ?thesis
    using w conjunct1[OF c] bspec[OF conjunct2[OF conjunct2[OF c]] s] e
    by (intro exI[of _ w] exI[of _ st']) simp
qed

section \<open>Working under a lease\<close>

lemma no_lease_select:
  "\<forall>j \<in> set (jobs st). \<not> holds_lease now i w j \<Longrightarrow> select_one (holds_lease now i w) (jobs st) = None"
  by (simp add: select_one_None_iff)

text \<open>C5: A worker whose lease has expired, or whose job another worker has taken over, or that never
  held the job, changes nothing any more: its heartbeat, completion, supersession and failure are
  all refused and leave every table as it is, and both currency checks tell it to stop.\<close>

theorem stale_worker_is_fenced:
  assumes "\<forall>j \<in> set (jobs st). j_id j = i \<longrightarrow>
      j_status j \<noteq> Running \<or> j_leased_by j \<noteq> Some w \<or>
      (\<forall>t. j_lease_expires_at j = Some t \<longrightarrow> t \<le> now)"
    and "0 < lease" "valid_error_code err" "0 < bd" "0 < md"
  shows "heartbeat_workflow_job now i w lease st = Inr (False, st) \<and>
    complete_workflow_job now i w st = (False, st) \<and>
    supersede_workflow_job now i w st = (False, st) \<and>
    fail_workflow_job now i w err rt bd md st = Inr (None, st) \<and>
    \<not> workflow_job_is_current now i w st \<and> \<not> workflow_job_is_latest now i w st"
proof -
  have no: "\<forall>j \<in> set (jobs st). \<not> holds_lease now i w j"
    using assms(1) by (auto simp: holds_lease_def split: option.splits)
  have "heartbeat_workflow_job now i w lease st = Inr (False, st)"
    using no assms(2) by (simp add: heartbeat_workflow_job_def update_where_none filter_empty_conv)
  then show ?thesis
    using no no_lease_select[OF no] assms
    by (auto simp: complete_workflow_job_def supersede_workflow_job_def fail_workflow_job_def
        workflow_job_is_current_def workflow_job_is_latest_def)
qed

theorem stale_worker_is_fenced_witness:
  "complete_workflow_job 100000000 1 ''w1'' sample_db = (False, sample_db) \<and>
   fail_workflow_job 100000000 1 ''w1'' ''provider_error'' True 10 100 sample_db = Inr (None, sample_db)"
proof -
  have e: "valid_error_code ''provider_error''" by code_simp
  show ?thesis
    using stale_worker_is_fenced[OF _ _ e, of sample_db 1 "''w1''" 100000000 60 10 100 True]
    by (simp add: sample_defs)
qed

text \<open>While a worker holds a live lease its completion succeeds: exactly its job becomes succeeded,
  gives up its lease and is stamped, every other job is untouched, its running attempt is closed as
  succeeded, and a second completion (or a failure reported later) is refused.\<close>

lemma completion_settles_the_held_job:
  assumes "queue_inv st" and "j \<in> set (jobs st)" and "holds_lease now i w j"
  shows "\<exists>st'. complete_workflow_job now i w st = (True, st') \<and>
    (\<forall>k. k \<in> set (jobs st') \<longleftrightarrow>
       k = j\<lparr>j_status := Succeeded, j_leased_by := None, j_lease_expires_at := None,
             j_completed_at := Some now\<rparr> \<or> (k \<in> set (jobs st) \<and> k \<noteq> j)) \<and>
    (\<forall>a \<in> set (attempts st'). a_job_id a = i \<longrightarrow> a_status a \<noteq> A_running) \<and>
    complete_workflow_job later i w' st' = (False, st') \<and>
    supersede_workflow_job later i w' st' = (False, st')"
proof -
  have jok: "jobs_ok (jobs st) (next_job st)" using assms(1) by (simp add: queue_inv_def)
  have sel: "select_one (holds_lease now i w) (jobs st) = Some j"
    by (rule select_one_unique[where P = "holds_lease now i w", OF assms(2,3)])
       (rule holds_lease_unique[OF jok assms(2) _ assms(3)])
  note only = holds_lease_only[OF assms(1) sel]
  obtain st' where r: "complete_workflow_job now i w st = (True, st')"
    and js: "jobs st' = update_where (holds_lease now i w) (close_job now Succeeded) (jobs st)"
    by (auto simp: complete_workflow_job_def sel finish_attempt_def)
  have inv: "queue_inv st'" using complete_inv[OF assms(1), of now i w] r by simp
  let ?j = "close_job now Succeeded j"
  have set: "k \<in> set (jobs st') \<longleftrightarrow> k = ?j \<or> (k \<in> set (jobs st) \<and> k \<noteq> j)" for k
  proof -
    have "set (jobs st') = (\<lambda>r. if r = j then ?j else r) ` set (jobs st)"
      unfolding js set_update_where using only(3) by (intro image_cong) auto
    then show ?thesis using assms(2) by auto
  qed
  have i: "j_id j = i" "j_id ?j = i" using holds_leaseD[OF assms(3)] by (simp_all add: close_job_def)
  have idle: "j_status k \<noteq> Running" if "k \<in> set (jobs st')" "j_id k = i" for k
    using that set[of k] only(4) by (auto simp: close_job_def)
  have no: "\<forall>k \<in> set (jobs st'). \<not> holds_lease later i w' k"
    using idle by (auto dest: holds_leaseD)
  have "a_status a \<noteq> A_running" if a: "a \<in> set (attempts st')" "a_job_id a = i" for a
  proof
    assume run: "a_status a = A_running"
    have "?j \<in> set (jobs st')" using set by blast
    from running_attempt_number[OF inv a(1) run this] a(2) i idle[OF this] show False by simp
  qed
  then show ?thesis
    using r set no_lease_select[OF no]
    by (intro exI[of _ st'])
       (simp add: complete_workflow_job_def supersede_workflow_job_def close_job_def)
qed

theorem completion_settles_the_held_job_witness:
  "\<exists>st'. complete_workflow_job 5 1 ''w1'' sample_db = (True, st') \<and>
     complete_workflow_job 6 1 ''w1'' st' = (False, st')"
proof -
  have "sample_running \<in> set (jobs sample_db)" "holds_lease 5 1 ''w1'' sample_running"
    by (simp_all add: holds_lease_def sample_defs)
  from completion_settles_the_held_job[OF sample_inv this, of 6 "''w1''"] show ?thesis by blast
qed

text \<open>C6: A failure reported under a live lease is retried exactly when it is retryable and the job has
  attempts left; the retry waits for at least one second and at most the maximum delay, doubling
  from the base delay.  Otherwise the job ends: dead after its last attempt, failed at once when
  the error is not retryable.  The error code is recorded, the lease given up and the running
  attempt closed as failed.\<close>

theorem failure_is_retried_or_ends_the_job:
  assumes "queue_inv st" and "j \<in> set (jobs st)" and "holds_lease now i w j"
    and "valid_error_code err" "0 < bd" "0 < md"
  shows "\<exists>st' k. k \<in> set (jobs st') \<and> j_id k = i \<and>
    fail_workflow_job now i w err rt bd md st = Inr (Some (j_status k), st') \<and>
    j_status k =
      (if rt \<and> j_attempt_count j < j_max_attempts j then Queued else if rt then Dead else Failed) \<and>
    (j_status k = Queued \<longrightarrow>
       j_available_at k = now + seconds (min md (bd * 2 ^ (j_attempt_count j - 1))) \<and>
       now + seconds 1 \<le> j_available_at k \<and> j_available_at k \<le> now + seconds md \<and>
       j_completed_at k = None) \<and>
    (j_status k \<noteq> Queued \<longrightarrow> j_completed_at k = Some now) \<and>
    j_last_error_code k = Some err \<and> j_leased_by k = None \<and>
    j_attempt_count k = j_attempt_count j \<and>
    (\<forall>a \<in> set (attempts st'). a_job_id a = i \<longrightarrow> a_status a \<noteq> A_running) \<and>
    (\<forall>m \<in> set (jobs st). j_id m \<noteq> i \<longrightarrow> m \<in> set (jobs st'))"
proof -
  have jok: "jobs_ok (jobs st) (next_job st)" using assms(1) by (simp add: queue_inv_def)
  have sel: "select_one (holds_lease now i w) (jobs st) = Some j"
    by (rule select_one_unique[where P = "holds_lease now i w", OF assms(2,3)])
       (rule holds_lease_unique[OF jok assms(2) _ assms(3)])
  let ?f = "settle_failure now err rt bd md"
  obtain st' where r: "fail_workflow_job now i w err rt bd md st = Inr (Some (j_status (?f j)), st')"
    and js: "jobs st' = update_where (\<lambda>r. j_id r = i) ?f (jobs st)"
    using assms(4-6) by (simp add: fail_workflow_job_def sel)
  have i: "j_id j = i" "j_id (?f j) = i"
    using holds_leaseD[OF assms(3)] by (simp_all add: settle_failure_def Let_def)
  have inv: "queue_inv st'" using fail_inv[OF assms(1) r] .
  have k: "?f j \<in> set (jobs st')" using in_update_whereI[OF assms(2), of "\<lambda>r. j_id r = i" ?f] i js by simp
  have idle: "j_status (?f j) \<noteq> Running" by (simp add: settle_failure_def Let_def)
  have att: "a_status a \<noteq> A_running" if a: "a \<in> set (attempts st')" "a_job_id a = i" for a
    using running_attempt_number[OF inv a(1) _ k] a(2) i idle by auto
  have frame: "m \<in> set (jobs st')" if "m \<in> set (jobs st)" "j_id m \<noteq> i" for m
    using in_update_whereI[OF that(1), of "\<lambda>r. j_id r = i" ?f] that(2) js by simp
  have "1 \<le> bd * 2 ^ (j_attempt_count j - 1)" using assms(5) mult_mono[of 1 bd 1] by simp
  then have "1 \<le> min md (bd * 2 ^ (j_attempt_count j - 1))" using assms(6) by simp
  then show ?thesis
    using r k i att frame
    by (intro exI[of _ st'] exI[of _ "?f j"])
       (auto simp: settle_failure_def Let_def retry_delay_def seconds_def)
qed

theorem failure_is_retried_or_ends_the_job_witness:
  "\<exists>st' k. k \<in> set (jobs st') \<and>
     fail_workflow_job 5 1 ''w1'' ''provider_error'' True 10 100 sample_db = Inr (Some (j_status k), st') \<and>
     j_status k = Queued"
proof -
  have h: "sample_running \<in> set (jobs sample_db)" "holds_lease 5 1 ''w1'' sample_running"
    by (simp_all add: holds_lease_def sample_defs)
  have e: "valid_error_code ''provider_error''" by code_simp
  have "j_attempt_count sample_running < j_max_attempts sample_running" by (simp add: sample_defs)
  then show ?thesis
    using failure_is_retried_or_ends_the_job[OF sample_inv h e, of 10 100 True] by auto
qed

text \<open>Disabling a repository cancels its queued jobs at once and keeps any further one from being
  claimed: whatever a later claim hands out belongs to an enabled repository.  Jobs of other
  repositories and jobs already running are left alone, and a running job of the repository is no
  longer the latest, so its worker stops.\<close>

lemma disabling_stops_a_repository:
  assumes "length (filter (\<lambda>r. r_id r = rid) (repositories st)) = 1"
  shows "\<exists>st'. set_repository_enabled now rid False st = (True, st') \<and>
    \<not> repository_enabled st' rid \<and>
    (\<forall>j \<in> set (jobs st'). j_repository_id j = rid \<longrightarrow> j_status j \<noteq> Queued) \<and>
    (\<forall>j \<in> set (jobs st). j_repository_id j \<noteq> rid \<or> j_status j \<noteq> Queued \<longrightarrow> j \<in> set (jobs st')) \<and>
    (\<forall>t i w. (\<forall>j \<in> set (jobs st'). j_id j = i \<longrightarrow> j_repository_id j = rid) \<longrightarrow>
       \<not> workflow_job_is_latest t i w st' \<and> \<not> workflow_job_is_current t i w st') \<and>
    (\<forall>t locked w lease bd md m st''.
       claim_workflow_job t locked w lease bd md st' = Inr (Some m, st'') \<longrightarrow>
       w_repository_id m \<noteq> rid)"
proof -
  let ?P = "\<lambda>j. j_repository_id j = rid"
  obtain st' where r: "set_repository_enabled now rid False st = (True, st')"
    and js: "jobs st' = update_where (\<lambda>j. ?P j \<and> j_status j = Queued)
               (\<lambda>j. j\<lparr>j_status := Cancelled, j_completed_at := Some now\<rparr>) (jobs st)"
    and rs: "repositories st' = update_where (\<lambda>r. r_id r = rid) (\<lambda>r. r\<lparr>r_enabled := False\<rparr>) (repositories st)"
    using assms by (simp add: set_repository_enabled_def close_queued_def Let_def)
  have off: "\<not> repository_enabled st' rid"
  proof
    assume "repository_enabled st' rid"
    then obtain r where q: "r \<in> set (repositories st')" "r_id r = rid" "r_enabled r"
      by (auto simp: repository_enabled_def)
    from q(1) obtain p where "r = (if r_id p = rid then p\<lparr>r_enabled := False\<rparr> else p)"
      unfolding rs by (rule in_update_whereE)
    then show False using q by (cases "r_id p = rid") auto
  qed
  have none: "j_status j \<noteq> Queued" if "j \<in> set (jobs st')" "?P j" for j
  proof -
    from that(1) obtain p where "j = (if ?P p \<and> j_status p = Queued
        then p\<lparr>j_status := Cancelled, j_completed_at := Some now\<rparr> else p)"
      unfolding js by (rule in_update_whereE)
    then show ?thesis using that(2) by (cases "?P p \<and> j_status p = Queued") auto
  qed
  have keep: "j \<in> set (jobs st')" if "j \<in> set (jobs st)" "\<not> ?P j \<or> j_status j \<noteq> Queued" for j
    using that unfolding js set_update_where by (auto intro!: image_eqI[of _ _ j])
  have claim: "w_repository_id m \<noteq> rid"
    if c: "claim_workflow_job t locked w lease bd md st' = Inr (Some m, st'')" for t locked w lease bd md m st''
  proof -
    from c claim_InrD[OF c] obtain j where n: "next_claim t locked (sweep t bd md st') = Some j"
      and m: "m = workflow_job_of (start_job t w lease j)"
      by (auto simp: claim_ok_unfold split: option.splits)
    have "repository_enabled st' (j_repository_id j)"
      using next_claim_SomeD(2)[OF n] by (simp add: claimable_def repository_enabled_def)
    then show ?thesis using off m by (auto simp: workflow_job_of_def start_job_def)
  qed
  have stop: "\<not> workflow_job_is_latest t i w st' \<and> \<not> workflow_job_is_current t i w st'"
    if "\<forall>j \<in> set (jobs st'). j_id j = i \<longrightarrow> ?P j" for t i w
    using that off
    by (auto simp: workflow_job_is_latest_def workflow_job_is_current_def dest!: holds_leaseD)
  show ?thesis
    by (intro exI[of _ st'] conjI allI ballI impI)
       (fact r, fact off, erule (1) none, erule (1) keep, drule stop, erule conjunct1,
        drule stop, erule conjunct2, erule claim)
qed

theorem disabling_stops_a_repository_witness:
  "\<exists>st'. set_repository_enabled 5 2 False sample_db = (True, st') \<and>
     (\<forall>j \<in> set (jobs st'). j_repository_id j = 2 \<longrightarrow> j_status j \<noteq> Queued)"
proof -
  have "length (filter (\<lambda>r. r_id r = 2) (repositories sample_db)) = 1" by (simp add: sample_defs)
  from disabling_stops_a_repository[OF this, of 5] show ?thesis by blast
qed

end
