(* ===== verification/Enqueue_Props.thy ===== *)
theory Enqueue_Props
  imports Queue_Props
begin

text \<open>
  The promises of the webhook side: what a queued review replaces and how long it waits, the one
  job per revision and trigger, the effect of a repeated and of a late delivery, and the identity
  a signed event is bound to.
\<close>

definition rekey :: "(job \<Rightarrow> string) \<Rightarrow> job \<Rightarrow> job" where
  "rekey g j = j\<lparr>j_key := g j\<rparr>"

lemma rekey_simps [simp]:
  "j_id (rekey g j) = j_id j" "j_scope (rekey g j) = j_scope j" "j_status (rekey g j) = j_status j"
  "j_available_at (rekey g j) = j_available_at j"
  by (simp_all add: rekey_def)

lemma retire_rekeys:
  assumes "retire_terminal_job ex st = Inr (b, st2)"
  obtains g where "jobs st2 = map (rekey g) (jobs st)" "next_job st2 = next_job st"
proof (cases "\<exists>j. ex = Some j \<and> is_terminal (j_status j)")
  case True
  then obtain j where "ex = Some j" "is_terminal (j_status j)" by blast
  with assms have st2: "jobs st2 = update_where (\<lambda>r. j_id r = j_id j) (\<lambda>r. r\<lparr>j_key := retired_key r\<rparr>) (jobs st)"
    "next_job st2 = next_job st"
    by (auto simp: retire_terminal_job_def split: if_splits)
  let ?g = "\<lambda>r. if j_id r = j_id j then retired_key r else j_key r"
  have "jobs st2 = map (rekey ?g) (jobs st)"
    unfolding st2 update_where_def by (auto simp: rekey_def)
  then show ?thesis using that st2(2) by blast
next
  case False
  then have "st2 = st" using assms by (auto simp: retire_terminal_job_def split: option.splits if_splits)
  then have "jobs st2 = map (rekey j_key) (jobs st)" "next_job st2 = next_job st"
    by (simp_all add: rekey_def map_idI)
  then show ?thesis using that by blast
qed

lemma pending_deadlines_rekey:
  "jobs st2 = map (rekey g) (jobs st) \<Longrightarrow> pending_deadlines scope st2 = pending_deadlines scope st"
  by (simp add: pending_deadlines_def filter_map comp_def)

text \<open>The job table after an event that queued a review.\<close>

lemma review_queued_jobs:
  assumes ev: "enqueue_review_event sha256 isofmt now env e sha st = Inr (r, st')"
    and q: "er_state r = S_queued"
  obtains g d rid p where "er_job_id r = Some (next_job st)" "ev_state e = Pr_open"
    "(if ev_action e = ''synchronize'' then review_update_debounce_seconds env else Inr 0) = Inr d"
    "jobs st' =
       update_where (\<lambda>j. j_scope j = pr_scope_key e \<and> j_status j = Queued)
         (\<lambda>j. j\<lparr>j_status := Superseded, j_completed_at := Some now\<rparr>) (map (rekey g) (jobs st)) @
       [new_job (next_job st) rid (Some p) Review_pull_request (pr_idempotency_key sha256 isofmt e)
          (pr_scope_key e) (ev_base_sha e) (ev_head_sha e) (Pull_request_payload e)
          (review_available_at now d (pending_deadlines (pr_scope_key e) st))]"
  using ev
proof (cases rule: enqueue_review_eventE)
  case untouched
  then show ?thesis using q by simp
next
  case (revision rid p did st3)
  let ?st1 = "record_pull_request_lifecycle p did e st3"
  define ex where "ex = select_one (\<lambda>j. j_key j = pr_idempotency_key sha256 isofmt e) (jobs ?st1)"
  have part: "queue_part ?st1 = queue_part st" using revision(1) by simp
  then have s1: "jobs ?st1 = jobs st" "next_job ?st1 = next_job st" by (simp_all add: queue_part_def)
  from revision(2) q have opn: "ev_state e = Pr_open"
    by (auto simp: enqueue_review_revision_def Let_def split: if_splits)
  with revision(2) obtain b st2 where rt: "retire_terminal_job ex ?st1 = Inr (b, st2)"
    and k: "(case (if b then None else ex) of
               Some j \<Rightarrow>
                 Inr (\<lparr>er_job_id = Some (j_id j), er_state = S_duplicate_revision (j_status j)\<rparr>,
                      link_delivery did (j_id j) st2)
             | None \<Rightarrow> enqueue_review_job sha256 isofmt now env rid p did e st2) = Inr (r, st')"
    unfolding ex_def
    by (simp add: enqueue_review_revision_def Let_def bind_result_Inr_iff split del: if_split) blast
  from k q have "enqueue_review_job sha256 isofmt now env rid p did e st2 = Inr (r, st')"
    by (cases "if b then None else ex") auto
  then obtain d i st4 where
    d: "(if ev_action e = ''synchronize'' then review_update_debounce_seconds env else Inr 0) = Inr d"
    and ins: "insert_job (\<lambda>i. new_job i rid (Some p) Review_pull_request
            (pr_idempotency_key sha256 isofmt e) (pr_scope_key e) (ev_base_sha e) (ev_head_sha e)
            (Pull_request_payload e) (review_available_at now d (pending_deadlines (pr_scope_key e) st2)))
          (close_queued now Superseded (\<lambda>j. j_scope j = pr_scope_key e) st2) = Inr (i, st4)"
    and r: "r = \<lparr>er_job_id = Some i, er_state = S_queued\<rparr>" "st' = link_delivery did i st4"
    by (auto simp: enqueue_review_job_def bind_result_Inr_iff split del: if_split)
  obtain g where g: "jobs st2 = map (rekey g) (jobs st)" "next_job st2 = next_job st"
    using retire_rekeys[OF rt] s1 by metis
  have "i = next_job st" and "jobs st4 = update_where (\<lambda>j. j_scope j = pr_scope_key e \<and> j_status j = Queued)
         (\<lambda>j. j\<lparr>j_status := Superseded, j_completed_at := Some now\<rparr>) (map (rekey g) (jobs st)) @
       [new_job (next_job st) rid (Some p) Review_pull_request (pr_idempotency_key sha256 isofmt e)
          (pr_scope_key e) (ev_base_sha e) (ev_head_sha e) (Pull_request_payload e)
          (review_available_at now d (pending_deadlines (pr_scope_key e) st))]"
    using ins g pending_deadlines_rekey[OF g(1)]
    by (auto simp: insert_job_def Let_def close_queued_def split: if_splits)
  then show ?thesis using that d opn r by (simp add: link_delivery_def)
qed

section \<open>Witness data\<close>

definition sample_event :: "string \<Rightarrow> string \<Rightarrow> string \<Rightarrow> time \<Rightarrow> pull_request_event" where
  "sample_event delivery action head t =
     \<lparr>ev_provider = ''github'', ev_scm_base_url = ''https://github.com'', ev_api_base_url = ''https://api.github.com'',
      ev_repo_full_name = ''a/b'', ev_number = 7, ev_web_url = ''u'', ev_action = action,
      ev_head_sha = head, ev_base_sha = ''b0'', ev_updated_at = t, ev_delivery_id = delivery,
      ev_github_repository_id = 101, ev_author = ''o'', ev_base_branch = ''main'',
      ev_head_branch = ''f'', ev_is_draft = False, ev_labels = [], ev_title = ''t'',
      ev_description = [], ev_trigger_kind = Automatic, ev_trigger_id = [],
      ev_metadata_complete = True, ev_changed_file_count = 1, ev_state = Pr_open,
      ev_source_created_at = None, ev_source_closed_at = None, ev_source_merged_at = None,
      ev_additions = 1, ev_deletions = 0\<rparr>"

definition sample_sha :: "nat \<Rightarrow> string" where
  "sample_sha n = replicate 63 CHR ''a'' @ str_of_nat (n mod 10)"

definition after_open :: db where
  "after_open = committed sample_db (enqueue_review_event (\<lambda>s. []) str_of_int 10 None
     (sample_event ''d1'' ''opened'' ''h1'' 100) (sample_sha 1) sample_db)"

lemma after_open_ok:
  "\<exists>r st'. enqueue_review_event (\<lambda>s. []) str_of_int 10 None
     (sample_event ''d1'' ''opened'' ''h1'' 100) (sample_sha 1) sample_db = Inr (r, st') \<and>
     er_state r = S_queued"
  by (rule case_result) code_simp

lemma after_open_inv: "queue_inv after_open"
proof -
  have "CHR ''#'' \<notin> set (pr_idempotency_key (\<lambda>s. []) str_of_int (sample_event ''d1'' ''opened'' ''h1'' 100))"
    by code_simp
  then have "plain_key (\<lambda>s. []) str_of_int
      (Op_review 10 None (sample_event ''d1'' ''opened'' ''h1'' 100) (sample_sha 1))"
    by simp
  from apply_inv[OF this sample_inv] show ?thesis by (simp add: after_open_def)
qed

section \<open>Queueing a review\<close>

lemma in_rekeyed_update:
  assumes "x \<in> set (update_where P f (map (rekey g) js))"
  obtains j where "j \<in> set js" "x = (if P (rekey g j) then f (rekey g j) else rekey g j)"
  using assms by (auto elim!: in_update_whereE)

text \<open>C7: An event that queues a review leaves exactly one queued job in the pull request's scope, the
  new one, for the event's own revision and payload and with no attempt spent.  The jobs it found
  queued there are superseded; every other job, a running one of the same scope included, keeps
  its status.\<close>

theorem queued_review_replaces_its_scope:
  assumes "enqueue_review_event sha256 isofmt now env e sha st = Inr (r, st')"
    and "er_state r = S_queued"
  shows "\<exists>k \<in> set (jobs st'). er_job_id r = Some (j_id k) \<and> j_id k = next_job st \<and>
    j_status k = Queued \<and> j_attempt_count k = 0 \<and> j_scope k = pr_scope_key e \<and>
    j_base_revision k = ev_base_sha e \<and> j_revision k = ev_head_sha e \<and>
    j_payload k = Pull_request_payload e \<and> j_key k = pr_idempotency_key sha256 isofmt e \<and>
    (\<forall>j \<in> set (jobs st'). j_scope j = pr_scope_key e \<longrightarrow> j_status j = Queued \<longrightarrow> j = k) \<and>
    (\<forall>j \<in> set (jobs st). \<exists>j' \<in> set (jobs st'). j_id j' = j_id j \<and>
       j_status j' = (if j_scope j = pr_scope_key e \<and> j_status j = Queued then Superseded
                      else j_status j))"
  using assms
proof (rule review_queued_jobs)
  fix g d rid p
  let ?P = "\<lambda>j. j_scope j = pr_scope_key e \<and> j_status j = Queued"
  let ?f = "\<lambda>j. j\<lparr>j_status := Superseded, j_completed_at := Some now\<rparr>"
  let ?k = "new_job (next_job st) rid (Some p) Review_pull_request (pr_idempotency_key sha256 isofmt e)
          (pr_scope_key e) (ev_base_sha e) (ev_head_sha e) (Pull_request_payload e)
          (review_available_at now d (pending_deadlines (pr_scope_key e) st))"
  assume i: "er_job_id r = Some (next_job st)"
    and js: "jobs st' = update_where ?P ?f (map (rekey g) (jobs st)) @ [?k]"
  have one: "j = ?k" if j: "j \<in> set (jobs st')" "?P j" for j
  proof (rule ccontr)
    assume "j \<noteq> ?k"
    then have "j \<in> set (update_where ?P ?f (map (rekey g) (jobs st)))" using j(1) js by simp
    then obtain x where "j = (if ?P (rekey g x) then ?f (rekey g x) else rekey g x)"
      by (rule in_rekeyed_update)
    then show False using j(2) by (cases "?P (rekey g x)") auto
  qed
  have old: "\<exists>j' \<in> set (jobs st'). j_id j' = j_id j \<and>
       j_status j' = (if ?P j then Superseded else j_status j)" if "j \<in> set (jobs st)" for j
    using in_update_whereI[of "rekey g j" "map (rekey g) (jobs st)" ?P ?f] that js
    by (intro bexI[of _ "if ?P (rekey g j) then ?f (rekey g j) else rekey g j"]) auto
  have k: "?k \<in> set (jobs st')" using js by simp
  show ?thesis
    by (rule bexI[OF _ k]) (use i one old in \<open>simp add: new_job_def\<close>)
qed

theorem queued_review_replaces_its_scope_witness:
  "\<exists>r st'. enqueue_review_event (\<lambda>s. []) str_of_int 20 None
       (sample_event ''d2'' ''synchronize'' ''h2'' 200) (sample_sha 2) after_open = Inr (r, st') \<and>
     (\<exists>k \<in> set (jobs st'). er_job_id r = Some (j_id k) \<and> j_revision k = ''h2'' \<and>
        (\<forall>j \<in> set (jobs st'). j_scope j = j_scope k \<longrightarrow> j_status j = Queued \<longrightarrow> j = k))"
proof -
  have "case enqueue_review_event (\<lambda>s. []) str_of_int 20 None
       (sample_event ''d2'' ''synchronize'' ''h2'' 200) (sample_sha 2) after_open of
     Inl e \<Rightarrow> False | Inr (r, st') \<Rightarrow> er_state r = S_queued"
    by code_simp
  from case_result[OF this] obtain r st' where
    ev: "enqueue_review_event (\<lambda>s. []) str_of_int 20 None
       (sample_event ''d2'' ''synchronize'' ''h2'' 200) (sample_sha 2) after_open = Inr (r, st')"
    and q: "er_state r = S_queued" by (elim exE conjE)
  from queued_review_replaces_its_scope[OF ev q] obtain k where k: "k \<in> set (jobs st')"
    "er_job_id r = Some (j_id k)" "j_scope k = pr_scope_key (sample_event ''d2'' ''synchronize'' ''h2'' 200)"
    "j_revision k = ev_head_sha (sample_event ''d2'' ''synchronize'' ''h2'' 200)"
    "\<forall>j \<in> set (jobs st'). j_scope j = pr_scope_key (sample_event ''d2'' ''synchronize'' ''h2'' 200)
       \<longrightarrow> j_status j = Queued \<longrightarrow> j = k" by (elim bexE conjE)
  have "j_revision k = ''h2''" using k(4) by (simp add: sample_event_def)
  moreover have "\<forall>j \<in> set (jobs st'). j_scope j = j_scope k \<longrightarrow> j_status j = Queued \<longrightarrow> j = k"
    unfolding k(3) by (rule k(5))
  ultimately show ?thesis
    by (intro exI[of _ r] exI[of _ st'] conjI ev bexI[OF _ k(1)] k(2))
qed

text \<open>How long a queued review waits.  Anything but a push to the pull request is due at once.
  A push waits for the configured debounce, but never longer than a job that was already queued
  for the scope would have waited: a burst of pushes cannot postpone the review for ever.\<close>

lemma debounce_is_bounded_and_inherited:
  assumes "enqueue_review_event sha256 isofmt now env e sha st = Inr (r, st')"
    and "er_state r = S_queued" and "k \<in> set (jobs st')" and "er_job_id r = Some (j_id k)"
    and "\<forall>j \<in> set (jobs st). j_id j < next_job st"
  shows "(ev_action e \<noteq> ''synchronize'' \<longrightarrow> j_available_at k = now) \<and>
    (ev_action e = ''synchronize'' \<longrightarrow> (\<exists>d \<ge> 0. review_update_debounce_seconds env = Inr d \<and>
       now \<le> now + seconds d \<and> j_available_at k \<le> now + seconds d \<and>
       (d \<noteq> 0 \<longrightarrow> (\<forall>j \<in> set (jobs st). j_scope j = pr_scope_key e \<longrightarrow> j_status j = Queued \<longrightarrow>
                    j_available_at k \<le> j_available_at j)) \<and>
       (j_available_at k = now + seconds d \<or>
        (\<exists>j \<in> set (jobs st). j_scope j = pr_scope_key e \<and> j_status j = Queued \<and>
           j_available_at k = j_available_at j))))"
  using assms(1,2)
proof (rule review_queued_jobs)
  fix g d rid p
  let ?P = "\<lambda>j. j_scope j = pr_scope_key e \<and> j_status j = Queued"
  let ?f = "\<lambda>j. j\<lparr>j_status := Superseded, j_completed_at := Some now\<rparr>"
  let ?D = "pending_deadlines (pr_scope_key e) st"
  let ?k = "new_job (next_job st) rid (Some p) Review_pull_request (pr_idempotency_key sha256 isofmt e)
          (pr_scope_key e) (ev_base_sha e) (ev_head_sha e) (Pull_request_payload e)
          (review_available_at now d ?D)"
  assume i: "er_job_id r = Some (next_job st)"
    and js: "jobs st' = update_where ?P ?f (map (rekey g) (jobs st)) @ [?k]"
    and d: "(if ev_action e = ''synchronize'' then review_update_debounce_seconds env else Inr 0) = Inr d"
  have "k = ?k"
  proof (rule ccontr)
    assume "k \<noteq> ?k"
    then have "k \<in> set (update_where ?P ?f (map (rekey g) (jobs st)))" using assms(3) js by simp
    then obtain x where x: "x \<in> set (jobs st)" "k = (if ?P (rekey g x) then ?f (rekey g x) else rekey g x)"
      by (rule in_rekeyed_update)
    then have "j_id k = j_id x" by (cases "?P (rekey g x)") auto
    then show False using assms(4,5) i x(1) by auto
  qed
  then have av: "j_available_at k = review_available_at now d ?D" by (simp add: new_job_def)
  have D: "set ?D = j_available_at ` {j \<in> set (jobs st). ?P j}" by (auto simp: pending_deadlines_def)
  show ?thesis
  proof (cases "ev_action e = ''synchronize''")
    case False
    then show ?thesis using d av by (simp add: review_available_at_def seconds_def)
  next
    case True
    have set: "review_update_debounce_seconds env = Inr d" using d True by simp
    have pos: "0 \<le> d"
      using set by (auto simp: review_update_debounce_seconds_def Let_def
          default_update_debounce_seconds_def split: if_splits option.splits)
    have up: "j_available_at k \<le> now + seconds d" unfolding av by (simp add: review_available_at_def)
    have lo: "d \<noteq> 0 \<longrightarrow> (\<forall>j \<in> set (jobs st). j_scope j = pr_scope_key e \<longrightarrow> j_status j = Queued \<longrightarrow>
                    j_available_at k \<le> j_available_at j)"
    proof (intro impI ballI)
      fix j assume "d \<noteq> 0" "j \<in> set (jobs st)" "j_scope j = pr_scope_key e" "j_status j = Queued"
      then have "j_available_at j \<in> set ?D" unfolding D by blast
      then have ne: "?D \<noteq> []" and "Min (set ?D) \<le> j_available_at j"
        by auto
      then have "min_list ?D \<le> j_available_at j" by (simp add: min_list_Min)
      with ne show "j_available_at k \<le> j_available_at j"
        unfolding av using \<open>d \<noteq> 0\<close> by (simp add: review_available_at_def)
    qed
    have "j_available_at k \<in> insert (now + seconds d) (set ?D)"
    proof (cases "d \<noteq> 0 \<and> ?D \<noteq> []")
      case True
      then have "min_list ?D \<in> set ?D" by (simp add: min_list_Min)
      then show ?thesis unfolding av by (auto simp: review_available_at_def min_def)
    next
      case False
      then show ?thesis unfolding av by (auto simp: review_available_at_def)
    qed
    then have "j_available_at k = now + seconds d \<or>
        (\<exists>j \<in> set (jobs st). ?P j \<and> j_available_at k = j_available_at j)"
      unfolding D by auto
    then show ?thesis using True set pos up lo by (auto simp: seconds_def)
  qed
qed

theorem debounce_is_bounded_and_inherited_witness:
  "\<exists>r st'. enqueue_review_event (\<lambda>s. []) str_of_int 20 None
       (sample_event ''d2'' ''synchronize'' ''h2'' 200) (sample_sha 2) after_open = Inr (r, st') \<and>
     (\<exists>k \<in> set (jobs st'). j_id k = 5 \<and> j_available_at k \<le> 20 + seconds 60)"
proof -
  have "case enqueue_review_event (\<lambda>s. []) str_of_int 20 None
       (sample_event ''d2'' ''synchronize'' ''h2'' 200) (sample_sha 2) after_open of
     Inl e \<Rightarrow> False | Inr (r, st') \<Rightarrow> er_state r = S_queued \<and> er_job_id r = Some 5 \<and>
       list_ex (\<lambda>k. j_id k = 5) (jobs st')"
    by code_simp
  from case_result[OF this] obtain r st' where
    ev: "enqueue_review_event (\<lambda>s. []) str_of_int 20 None
       (sample_event ''d2'' ''synchronize'' ''h2'' 200) (sample_sha 2) after_open = Inr (r, st')"
    and q: "er_state r = S_queued" and i: "er_job_id r = Some 5"
    and ex: "list_ex (\<lambda>k. j_id k = 5) (jobs st')" by (elim exE conjE)
  from ex obtain k where k: "k \<in> set (jobs st')" "j_id k = 5" by (auto simp: list_ex_iff)
  have ids: "\<forall>j \<in> set (jobs after_open). j_id j < next_job after_open"
    unfolding list_all_iff[symmetric] by code_simp
  have env: "review_update_debounce_seconds None = Inr 60" by code_simp
  have act: "ev_action (sample_event ''d2'' ''synchronize'' ''h2'' 200) = ''synchronize''"
    by (simp add: sample_event_def)
  have "er_job_id r = Some (j_id k)" using i k by simp
  from debounce_is_bounded_and_inherited[OF ev q k(1) this ids] env act
  have "j_available_at k \<le> 20 + seconds 60" by auto
  then show ?thesis using ev k by blast
qed

end
