(* ===== verification/Enqueue_Safety.thy ===== *)
theory Enqueue_Safety
  imports Enqueue_Props
begin

text \<open>
  What a webhook delivery can and cannot do: it never fails on a key collision, it queues one job
  per revision and trigger, a redelivery has no effect, and an event that arrives late changes
  neither the pull request's head nor the queue.
\<close>

section \<open>Keys never collide\<close>

lemma resolve_no_unique:
  "resolve_github_repository u gid name br st \<noteq> Inl Unique_violation"
  by (auto simp: resolve_github_repository_def get_repository_by_full_name_def Let_def
      bind_result_Inl_iff split: if_splits option.splits list.splits)

lemma upsert_pull_no_unique: "upsert_pull_request rid did e st \<noteq> Inl Unique_violation"
  by (auto simp: upsert_pull_request_def split: option.splits if_splits)

lemma upsert_ref_no_unique: "upsert_repository_ref rid e st \<noteq> Inl Unique_violation"
  by (auto simp: upsert_repository_ref_def split: option.splits if_splits)

lemma debounce_no_unique: "review_update_debounce_seconds env \<noteq> Inl Unique_violation"
  by (auto simp: review_update_debounce_seconds_def Let_def split: if_splits option.splits)

lemma duplicate_no_unique: "duplicate_delivery d sha st \<noteq> Inl Unique_violation"
  by (auto simp: duplicate_delivery_def split: if_splits)

section \<open>The steps before the job table\<close>

definition review_rest ::
  "(string \<Rightarrow> string) \<Rightarrow> (time \<Rightarrow> string) \<Rightarrow> time \<Rightarrow> string option \<Rightarrow> pull_request_event \<Rightarrow> string
   \<Rightarrow> repository \<Rightarrow> (delivery + nat) \<times> db \<Rightarrow> queue_error + (enqueue_result \<times> db)" where
  "review_rest sha256 isofmt now env e sha rp x =
     (case x of
        (Inl d, st2) \<Rightarrow> duplicate_delivery d sha st2
      | (Inr did, st2) \<Rightarrow>
          if ev_trigger_kind e = Automatic \<and> \<not> r_auto_review rp
          then Inr (\<lparr>er_job_id = None, er_state = S_auto_review_disabled\<rparr>, st2)
          else
            bind_result (upsert_pull_request (r_id rp) did e st2)
              (\<lambda>(pid, st3).
                case pid of
                  None \<Rightarrow> Inr (\<lparr>er_job_id = None, er_state = S_stale_delivery\<rparr>, st3)
                | Some p \<Rightarrow>
                    enqueue_review_revision sha256 isofmt now env (r_id rp) p did e st3))"

lemma review_reach:
  assumes "enqueue_review_event sha256 isofmt now env e sha st = y"
  obtains (bad) err where "y = Inl err" "err \<noteq> Unique_violation"
  | (go) rp st1 where "valid_sha256 sha" "r_enabled rp"
      "resolve_github_repository (ev_scm_base_url e) (ev_github_repository_id e)
         (ev_repo_full_name e) None st = Inr (Some rp, st1)"
      "y = review_rest sha256 isofmt now env e sha rp
             (record_delivery (ev_provider e) (ev_scm_base_url e) (ev_delivery_id e)
                ''pull_request'' sha st1)"
proof (cases "resolve_github_repository (ev_scm_base_url e) (ev_github_repository_id e)
         (ev_repo_full_name e) None st")
  case (Inl err)
  then have "err \<noteq> Unique_violation" using resolve_no_unique by metis
  then show ?thesis
    using assms bad Inl by (cases "valid_sha256 sha") (auto simp: enqueue_review_event_def)
next
  case (Inr z)
  show ?thesis
  proof (cases "valid_sha256 sha \<and> fst z \<noteq> None \<and> r_enabled (the (fst z))")
    case True
    then obtain rp st1 where z: "z = (Some rp, st1)" "r_enabled rp" by (cases z) auto
    then show ?thesis
      using go[of rp st1] True Inr assms by (simp add: enqueue_review_event_def review_rest_def)
  next
    case False
    obtain m st1 where z: "z = (m, st1)" by (cases z)
    have "y = Inl Value_error \<or> y = Inl (Repository_not_onboarded (ev_repo_full_name e))"
      using False Inr assms z by (cases m) (auto simp: enqueue_review_event_def)
    then show ?thesis using bad by auto
  qed
qed

definition push_rest ::
  "time \<Rightarrow> push_event \<Rightarrow> string \<Rightarrow> repository \<Rightarrow> (delivery + nat) \<times> db
   \<Rightarrow> queue_error + (enqueue_result \<times> db)" where
  "push_rest now e sha rp x =
     (case x of
        (Inl d, st2) \<Rightarrow> duplicate_delivery d sha st2
      | (Inr did, st2) \<Rightarrow>
          bind_result (upsert_repository_ref (r_id rp) e st2)
            (\<lambda>(fresh, st3).
              if \<not> fresh then Inr (\<lparr>er_job_id = None, er_state = S_stale_delivery\<rparr>, st3)
              else enqueue_index_job now (r_id rp) did e st3))"

lemma push_reach:
  assumes "enqueue_repository_index_event now e sha st = y"
  obtains (bad) err where "y = Inl err" "err \<noteq> Unique_violation"
  | (go) rp st1 where "valid_sha256 sha" "r_enabled rp"
      "resolve_github_repository (pu_scm_base_url e) (pu_github_repository_id e)
         (pu_repo_full_name e) (Some (pu_default_branch e)) st = Inr (Some rp, st1)"
      "y = push_rest now e sha rp
             (record_delivery (pu_provider e) (pu_scm_base_url e) (pu_delivery_id e) ''push'' sha st1)"
proof (cases "resolve_github_repository (pu_scm_base_url e) (pu_github_repository_id e)
         (pu_repo_full_name e) (Some (pu_default_branch e)) st")
  case (Inl err)
  then have "err \<noteq> Unique_violation" using resolve_no_unique by metis
  then show ?thesis
    using assms bad Inl by (cases "valid_sha256 sha") (auto simp: enqueue_repository_index_event_def)
next
  case (Inr z)
  show ?thesis
  proof (cases "valid_sha256 sha \<and> fst z \<noteq> None \<and> r_enabled (the (fst z)) \<and>
                r_clone_url (the (fst z)) \<notin> {None, Some ''''}")
    case True
    then obtain rp st1 where z: "z = (Some rp, st1)" "r_enabled rp" by (cases z) auto
    then show ?thesis
      using go[of rp st1] True Inr assms
      by (auto simp: enqueue_repository_index_event_def push_rest_def)
  next
    case False
    obtain m st1 where z: "z = (m, st1)" by (cases z)
    have "y = Inl Value_error \<or> y = Inl (Repository_not_onboarded (pu_repo_full_name e))"
      using False Inr assms z by (cases m) (auto simp: enqueue_repository_index_event_def)
    then show ?thesis using bad by auto
  qed
qed

section \<open>A job's key is free when it is inserted\<close>

lemma review_job_no_unique:
  assumes "queue_inv st" "CHR ''#'' \<notin> set (pr_idempotency_key sha256 isofmt e)"
    and "pr_idempotency_key sha256 isofmt e \<notin> j_key ` set (jobs st)"
  shows "enqueue_review_job sha256 isofmt now env rid p did e st \<noteq> Inl Unique_violation"
proof -
  have "\<exists>st'. insert_job (\<lambda>i. new_job i rid (Some p) Review_pull_request
            (pr_idempotency_key sha256 isofmt e) (pr_scope_key e) (ev_base_sha e) (ev_head_sha e)
            (Pull_request_payload e) (review_available_at now d (pending_deadlines (pr_scope_key e) st)))
          (close_queued now Superseded (\<lambda>j. j_scope j = pr_scope_key e) st) = Inr (next_job st, st')" for d
    using insert_after_close[OF assms(1) _ assms(2,3)] by blast
  then have "insert_job (\<lambda>i. new_job i rid (Some p) Review_pull_request
            (pr_idempotency_key sha256 isofmt e) (pr_scope_key e) (ev_base_sha e) (ev_head_sha e)
            (Pull_request_payload e) (review_available_at now d (pending_deadlines (pr_scope_key e) st)))
          (close_queued now Superseded (\<lambda>j. j_scope j = pr_scope_key e) st) \<noteq> Inl x" for d x
    by (metis Inl_Inr_False)
  then show ?thesis
    using debounce_no_unique by (auto simp: enqueue_review_job_def bind_result_Inl_iff split: if_splits)
qed

lemma review_revision_no_unique:
  assumes inv: "queue_inv st" and key: "CHR ''#'' \<notin> set (pr_idempotency_key sha256 isofmt e)"
  shows "enqueue_review_revision sha256 isofmt now env rid p did e st \<noteq> Inl Unique_violation"
proof -
  let ?st1 = "record_pull_request_lifecycle p did e st"
  have i1: "queue_inv ?st1" using inv queue_inv_part[OF lifecycle_part] by blast
  define ex where "ex = select_one (\<lambda>j. j_key j = pr_idempotency_key sha256 isofmt e) (jobs ?st1)"
  from retire_inv[OF i1 ex_def[symmetric] key] obtain b st2 where
    rt: "retire_terminal_job ex ?st1 = Inr (b, st2)" and i2: "queue_inv st2"
    and fr: "b \<or> ex = None \<Longrightarrow> pr_idempotency_key sha256 isofmt e \<notin> j_key ` set (jobs st2)" by blast
  show ?thesis
  proof (cases "if b then None else ex")
    case (Some j)
    then show ?thesis
      using rt unfolding ex_def
      by (auto simp: enqueue_review_revision_def Let_def split: if_splits)
  next
    case None
    then have "b \<or> ex = None" by (auto split: if_splits)
    from review_job_no_unique[OF i2 key fr[OF this]] show ?thesis
      using rt None unfolding ex_def
      by (auto simp: enqueue_review_revision_def Let_def split: if_splits)
  qed
qed

lemma index_job_no_unique:
  assumes inv: "queue_inv st" and key: "CHR ''#'' \<notin> set (push_idempotency_key e)"
  shows "enqueue_index_job now rid did e st \<noteq> Inl Unique_violation"
proof -
  define ex where "ex = select_one (\<lambda>j. j_key j = push_idempotency_key e) (jobs st)"
  from retire_inv[OF inv ex_def[symmetric] key] obtain b st2 where
    rt: "retire_terminal_job ex st = Inr (b, st2)" and i2: "queue_inv st2"
    and fr: "b \<or> ex = None \<Longrightarrow> push_idempotency_key e \<notin> j_key ` set (jobs st2)" by blast
  show ?thesis
  proof (cases "if b then None else ex")
    case (Some j)
    then show ?thesis
      using rt unfolding ex_def by (auto simp: enqueue_index_job_def Let_def split: if_splits)
  next
    case None
    then have "b \<or> ex = None" by (auto split: if_splits)
    note fresh = fr[OF this]
    have "\<exists>st'. insert_job (\<lambda>i. new_job i rid None Index_repository (push_idempotency_key e)
                          (push_scope_key e) (pu_after_sha e) (pu_after_sha e) (Push_payload e) now)
            (close_queued now Superseded
               (\<lambda>j. j_scope j = push_scope_key e \<and> j_revision j \<noteq> pu_after_sha e) st2)
          = Inr (next_job st2, st')"
      using insert_after_close[OF i2 _ key fresh] by blast
    then show ?thesis
      using rt None unfolding ex_def
      by (auto simp: enqueue_index_job_def Let_def bind_result_Inl_iff split: if_splits)
  qed
qed

text \<open>C8: Renaming the key of a dead or failed job always frees the key and never runs into another
  row: in a queue that satisfies its invariant no pull-request event and no push event fails on
  the table's unique key.\<close>

theorem webhook_never_violates_the_key:
  assumes "queue_inv st"
  shows "(CHR ''#'' \<notin> set (pr_idempotency_key sha256 isofmt e) \<longrightarrow>
            enqueue_review_event sha256 isofmt now env e sha st \<noteq> Inl Unique_violation) \<and>
         (CHR ''#'' \<notin> set (push_idempotency_key u) \<longrightarrow>
            enqueue_repository_index_event now u sha st \<noteq> Inl Unique_violation)"
proof (intro conjI impI notI)
  assume key: "CHR ''#'' \<notin> set (pr_idempotency_key sha256 isofmt e)"
    and u: "enqueue_review_event sha256 isofmt now env e sha st = Inl Unique_violation"
  from u show False
  proof (cases rule: review_reach)
    case (go rp st1)
    let ?x = "record_delivery (ev_provider e) (ev_scm_base_url e) (ev_delivery_id e) ''pull_request'' sha st1"
    obtain x st2 where x: "?x = (x, st2)" by fastforce
    from go(4) obtain did pid st3 where
      c: "upsert_pull_request (r_id rp) did e st2 = Inr (Some pid, st3)"
      and d: "enqueue_review_revision sha256 isofmt now env (r_id rp) pid did e st3 = Inl Unique_violation"
      unfolding x using upsert_pull_no_unique duplicate_no_unique
      by (auto simp: review_rest_def dest!: sym[of "Inl Unique_violation"] simp: bind_result_Inl_iff
          split: sum.splits if_splits option.splits)
    have "queue_part st3 = queue_part st"
      using upsert_pull_request_part[OF c] resolve_part[OF go(3)]
        record_delivery_part[of "ev_provider e" "ev_scm_base_url e" "ev_delivery_id e"
          "''pull_request''" sha st1] x by simp
    then have "queue_inv st3" using assms queue_inv_part by blast
    from review_revision_no_unique[OF this key] d show False by blast
  qed simp
next
  assume key: "CHR ''#'' \<notin> set (push_idempotency_key u)"
    and u: "enqueue_repository_index_event now u sha st = Inl Unique_violation"
  from u show False
  proof (cases rule: push_reach)
    case (go rp st1)
    let ?x = "record_delivery (pu_provider u) (pu_scm_base_url u) (pu_delivery_id u) ''push'' sha st1"
    obtain x st2 where x: "?x = (x, st2)" by fastforce
    from go(4) obtain did st3 where
      c: "upsert_repository_ref (r_id rp) u st2 = Inr (True, st3)"
      and d: "enqueue_index_job now (r_id rp) did u st3 = Inl Unique_violation"
      unfolding x using upsert_ref_no_unique duplicate_no_unique
      by (auto simp: push_rest_def dest!: sym[of "Inl Unique_violation"] simp: bind_result_Inl_iff
          split: sum.splits if_splits option.splits)
    have "queue_part st3 = queue_part st"
      using upsert_ref_part[OF c] resolve_part[OF go(3)]
        record_delivery_part[of "pu_provider u" "pu_scm_base_url u" "pu_delivery_id u"
          "''push''" sha st1] x by simp
    then have "queue_inv st3" using assms queue_inv_part by blast
    from index_job_no_unique[OF this key] d show False by blast
  qed simp
qed

theorem webhook_never_violates_the_key_witness:
  "enqueue_review_event (\<lambda>s. []) str_of_int 10 None (sample_event ''d1'' ''opened'' ''h1'' 100)
     (sample_sha 1) sample_db \<noteq> Inl Unique_violation"
proof -
  have "CHR ''#'' \<notin> set (pr_idempotency_key (\<lambda>s. []) str_of_int (sample_event ''d1'' ''opened'' ''h1'' 100))"
    by code_simp
  then show ?thesis using webhook_never_violates_the_key[OF sample_inv] by blast
qed

section \<open>One job per revision and trigger\<close>

text \<open>C9: A revision and trigger that already has a job is not queued again while that job is queued,
  running, succeeded, cancelled or superseded: the event answers with the existing job and the
  open pull request's job table is unchanged.  Only a dead or failed job gives way, and then its
  row survives under a retired key.\<close>

theorem one_job_per_revision:
  assumes "queue_inv st" and "CHR ''#'' \<notin> set (pr_idempotency_key sha256 isofmt e)"
    and "enqueue_review_event sha256 isofmt now env e sha st = Inr (r, st')"
    and "j \<in> set (jobs st)" and "j_key j = pr_idempotency_key sha256 isofmt e"
  shows "(er_state r = S_queued \<longrightarrow> is_terminal (j_status j) \<and>
            (\<exists>j' \<in> set (jobs st'). j_id j' = j_id j \<and> j_status j' = j_status j \<and>
               j_key j' = retired_form (pr_idempotency_key sha256 isofmt e) (j_id j))) \<and>
         (\<not> is_terminal (j_status j) \<and> ev_state e = Pr_open \<longrightarrow> jobs st' = jobs st) \<and>
         (\<forall>s. er_state r = S_duplicate_revision s \<longrightarrow>
            er_job_id r = Some (j_id j) \<and> s = j_status j \<and> \<not> is_terminal s)"
  using assms(3)
proof (cases rule: enqueue_review_eventE)
  case untouched
  then show ?thesis by (auto simp: queue_part_def)
next
  case (revision rid p did st3)
  let ?key = "pr_idempotency_key sha256 isofmt e"
  let ?st1 = "record_pull_request_lifecycle p did e st3"
  have part: "queue_part ?st1 = queue_part st" using revision(1) by simp
  then have s1: "jobs ?st1 = jobs st" by (simp add: queue_part_def)
  have jok: "jobs_ok (jobs st) (next_job st)" using assms(1) by (simp add: queue_inv_def)
  have sel: "select_one (\<lambda>j. j_key j = ?key) (jobs ?st1) = Some j"
    unfolding s1
    by (rule select_one_unique[where P = "\<lambda>j. j_key j = ?key", OF assms(4,5)])
       (rule jobs_ok_key_inj[OF jok _ assms(4)], assumption, simp only: assms(5))
  show ?thesis
  proof (cases "ev_state e = Pr_open")
    case False
    then have "er_state r = S_pull_request (ev_state e)"
      using revision(2) by (auto simp: enqueue_review_revision_def Let_def)
    then show ?thesis using False by simp
  next
    case open_state: True
    show ?thesis
    proof (cases "is_terminal (j_status j)")
      case False
      then have "r = \<lparr>er_job_id = Some (j_id j), er_state = S_duplicate_revision (j_status j)\<rparr>"
        "jobs st' = jobs st"
        using revision(2) open_state sel s1
        by (auto simp: enqueue_review_revision_def Let_def retire_terminal_job_def link_delivery_def)
      then show ?thesis using False by simp
    next
      case True
      have nodup: "er_state r \<noteq> S_duplicate_revision s" for s
        using revision(2) open_state sel True
        by (auto simp: enqueue_review_revision_def Let_def retire_terminal_job_def
            enqueue_review_job_def bind_result_Inr_iff split: if_splits)
      have "\<exists>j' \<in> set (jobs st'). j_id j' = j_id j \<and> j_status j' = j_status j \<and>
               j_key j' = retired_form ?key (j_id j)"
      proof -
        let ?j = "j\<lparr>j_key := retired_key j\<rparr>"
        let ?st2 = "?st1\<lparr>jobs := update_where (\<lambda>r. j_id r = j_id j) (\<lambda>r. r\<lparr>j_key := retired_key r\<rparr>) (jobs ?st1)\<rparr>"
        have in2: "?j \<in> set (jobs ?st2)"
          using in_update_whereI[OF assms(4), of "\<lambda>r. j_id r = j_id j" "\<lambda>r. r\<lparr>j_key := retired_key r\<rparr>"] s1
          by simp
        obtain d i st4 where
          "insert_job (\<lambda>i. new_job i rid (Some p) Review_pull_request ?key (pr_scope_key e)
             (ev_base_sha e) (ev_head_sha e) (Pull_request_payload e)
             (review_available_at now d (pending_deadlines (pr_scope_key e) ?st2)))
             (close_queued now Superseded (\<lambda>j. j_scope j = pr_scope_key e) ?st2) = Inr (i, st4)"
          "st' = link_delivery did i st4"
          using revision(2) open_state sel True
          by (auto simp: enqueue_review_revision_def Let_def retire_terminal_job_def
              enqueue_review_job_def bind_result_Inr_iff split: if_splits)
        then have "set (jobs (close_queued now Superseded (\<lambda>j. j_scope j = pr_scope_key e) ?st2))
                   \<subseteq> set (jobs st')"
          by (auto simp: insert_job_def Let_def link_delivery_def split: if_splits)
        moreover have "?j \<in> set (jobs (close_queued now Superseded (\<lambda>j. j_scope j = pr_scope_key e) ?st2))"
          unfolding jobs_close_queued(1)
          using in_update_whereI[OF in2, of "\<lambda>j. j_scope j = pr_scope_key e \<and> j_status j = Queued"
              "\<lambda>j. j\<lparr>j_status := Superseded, j_completed_at := Some now\<rparr>"] True
          by (auto simp: is_terminal_def)
        ultimately show ?thesis
          using assms(5) by (intro bexI[of _ ?j]) (auto simp: retired_key_def retired_form_def)
      qed
      then show ?thesis using nodup True by blast
    qed
  qed
qed

theorem one_job_per_revision_witness:
  "\<exists>r st'. enqueue_review_event (\<lambda>s. []) str_of_int 20 None
       (sample_event ''d2'' ''opened'' ''h1'' 100) (sample_sha 2) after_open = Inr (r, st') \<and>
     jobs st' = jobs after_open \<and> er_job_id r = Some 4"
proof -
  have "case enqueue_review_event (\<lambda>s. []) str_of_int 20 None
       (sample_event ''d2'' ''opened'' ''h1'' 100) (sample_sha 2) after_open of
     Inl e \<Rightarrow> False | Inr (r, st') \<Rightarrow> er_state r = S_duplicate_revision Queued"
    by code_simp
  from case_result[OF this] obtain r st' where
    ev: "enqueue_review_event (\<lambda>s. []) str_of_int 20 None
       (sample_event ''d2'' ''opened'' ''h1'' 100) (sample_sha 2) after_open = Inr (r, st')"
    and q: "er_state r = S_duplicate_revision Queued" by (elim exE conjE)
  let ?e = "sample_event ''d2'' ''opened'' ''h1'' 100"
  have key: "CHR ''#'' \<notin> set (pr_idempotency_key (\<lambda>s. []) str_of_int ?e)" by code_simp
  have "list_ex (\<lambda>j. j_key j = pr_idempotency_key (\<lambda>s. []) str_of_int ?e \<and> j_id j = 4) (jobs after_open)"
    by code_simp
  then obtain j where j: "j \<in> set (jobs after_open)"
    "j_key j = pr_idempotency_key (\<lambda>s. []) str_of_int ?e" "j_id j = 4" by (auto simp: list_ex_iff)
  have op: "ev_state ?e = Pr_open" by (simp add: sample_event_def)
  note one = one_job_per_revision[OF after_open_inv key ev j(1,2)]
  have dup: "er_job_id r = Some (j_id j)" "Queued = j_status j"
    using mp[OF spec[OF conjunct2[OF conjunct2[OF one]], of Queued] q] by simp_all
  then have "\<not> is_terminal (j_status j)" by (metis is_terminal_def job_status.distinct(5,7))
  then have "jobs st' = jobs after_open" by (intro mp[OF conjunct1[OF conjunct2[OF one]]] conjI op)
  then show ?thesis using dup(1) j(3) by (intro exI[of _ r] exI[of _ st'] conjI ev) simp_all
qed

end
