(* ===== verification/Redelivery.thy ===== *)
theory Redelivery
  imports Enqueue_Safety
begin

text \<open>
  Repeated and late deliveries.  A delivery that was accepted once is recognised whatever it did the
  first time, because the repository it named resolves to the same row again and its delivery row
  carries the job it was linked to.  A pull request's recorded event time only moves forward over
  any run of the queue.
\<close>

section \<open>Resolving a repository twice\<close>

lemma select_one_update:
  assumes "\<And>x. P (f x) = P x"
  shows "select_one P (update_where Q f rows) =
         map_option (\<lambda>x. if Q x then f x else x) (select_one P rows)"
  using assms by (induction rows) (auto simp: select_one_def update_where_def)

lemma select_one_append:
  "select_one P (xs @ ys) = (case select_one P xs of None \<Rightarrow> select_one P ys | Some x \<Rightarrow> Some x)"
  by (induction xs) (auto simp: select_one_def)

lemma select_one_after_bind:
  assumes d: "distinct (map r_id rows)" and r: "r \<in> set rows" and p: "P (f r)"
    and first: "select_one P rows = Some r \<or> select_one P rows = None"
  shows "select_one P (update_where (\<lambda>x. r_id x = r_id r) f rows) = Some (f r)"
proof -
  from split_list_first[OF r] obtain xs ys where rows: "rows = xs @ r # ys" and r_new: "r \<notin> set xs"
    by blast
  have same: "update_where (\<lambda>x. r_id x = r_id r) f xs = xs"
  proof (rule update_where_none, intro ballI notI)
    fix x assume "x \<in> set xs" "r_id x = r_id r"
    then have "r_id r \<in> r_id ` set xs" by (metis imageI)
    then show False using d unfolding rows by simp
  qed
  have none: "select_one P xs = None"
  proof (rule ccontr)
    assume "select_one P xs \<noteq> None"
    then obtain q where q: "select_one P xs = Some q" by auto
    then have "select_one P rows = Some q" by (simp add: rows select_one_append)
    with first have "q = r" by auto
    with select_one_SomeD[OF q] r_new show False by blast
  qed
  have "update_where (\<lambda>x. r_id x = r_id r) f rows =
        xs @ f r # update_where (\<lambda>x. r_id x = r_id r) f ys"
    unfolding rows update_where_append same by (simp add: update_where_def)
  then show ?thesis using none p by (simp add: select_one_append) (simp add: select_one_def)
qed

lemma resolve_again:
  assumes d: "distinct (map r_id (repositories st))"
    and r: "resolve_github_repository u gid name None st = Inr (Some rp, st1)"
    and s: "repositories st' = repositories st1"
  shows "resolve_github_repository u gid name None st' = Inr (Some rp, st')"
proof (cases "gid = 0")
  case True
  then have "st1 = st" "get_repository_by_full_name name u st = Inr (Some rp)"
    using r by (auto simp: resolve_github_repository_def bind_result_Inr_iff)
  moreover have "get_repository_by_full_name name u st' = get_repository_by_full_name name u st1"
    unfolding get_repository_by_full_name_def s ..
  ultimately show ?thesis using True by (simp add: resolve_github_repository_def)
next
  case False
  let ?f = "bind_identity gid u name None"
  let ?I = "\<lambda>x. r_provider x = ''github'' \<and> r_base_url x = u \<and> r_github_repository_id x = Some gid"
  from r False obtain q where valid: "valid_repository_name name"
    and q: "find_identity gid u name st = Some q" and free: "\<not> name_taken u name (Some (r_id q)) st"
    and rp: "rp = ?f q"
    and rs: "repositories st1 = update_where (\<lambda>x. r_id x = r_id q) ?f (repositories st)"
    by (auto simp: resolve_github_repository_def Let_def split: if_splits option.splits)
  have qin: "q \<in> set (repositories st)" and qg: "r_provider q = ''github''" "r_base_url q = u"
    and first: "select_one ?I (repositories st) = Some q \<or> select_one ?I (repositories st) = None"
    using q by (auto simp: find_identity_def split: option.splits dest!: select_one_SomeD)
  have rp_id: "r_id rp = r_id q" "r_provider rp = ''github''" "r_base_url rp = u"
    "r_full_name rp = name" "?f rp = rp"
    using qg by (simp_all add: rp bind_identity_def)
  have "select_one ?I (repositories st1) = Some (?f q)"
    unfolding rs
    by (rule select_one_after_bind[OF d qin _ first]) (simp add: bind_identity_def qg)
  then have find: "find_identity gid u name st' = Some rp"
    by (simp add: find_identity_def s rp)
  have taken: "\<not> name_taken u name (Some (r_id rp)) st'"
  proof
    assume "name_taken u name (Some (r_id rp)) st'"
    then obtain x where x: "x \<in> set (repositories st1)" "r_provider x = ''github''" "r_base_url x = u"
      "r_full_name x = name" "r_id x \<noteq> r_id q"
      by (auto simp: name_taken_def s rp_id(1))
    from x(1) obtain y where y: "y \<in> set (repositories st)"
      "x = (if r_id y = r_id q then ?f y else y)"
      unfolding rs by (rule in_update_whereE)
    have "r_id (?f y) = r_id y" by (simp add: bind_identity_def)
    then have "x = y" using x(5) y(2) by (cases "r_id y = r_id q") auto
    then show False using free x y(1) by (auto simp: name_taken_def)
  qed
  have same: "update_where (\<lambda>x. r_id x = r_id rp) ?f (repositories st') = repositories st'"
  proof -
    have "?f y = y" if "y \<in> set (repositories st1)" "r_id y = r_id q" for y
    proof -
      from that(1) obtain z where z: "z \<in> set (repositories st)" "y = (if r_id z = r_id q then ?f z else z)"
        unfolding rs by (rule in_update_whereE)
      have "y = ?f z" using z(2) that(2) by (cases "r_id z = r_id q") auto
      then show ?thesis by (simp add: bind_identity_def)
    qed
    then show ?thesis unfolding s rp_id(1) by (auto simp: update_where_def intro: map_idI)
  qed
  show ?thesis
    using False valid find taken same rp_id
    by (simp add: resolve_github_repository_def Let_def)
qed

section \<open>The delivery row\<close>

lemma revision_frame:
  assumes "enqueue_review_revision sha256 isofmt now env rid p did e st = Inr (r, st')"
  shows "repositories st' = repositories st \<and>
    ((er_job_id r = None \<and> deliveries st' = deliveries st) \<or>
     (\<exists>i. er_job_id r = Some i \<and> deliveries st' =
        update_where (\<lambda>d. d_id d = did) (\<lambda>d. d\<lparr>d_job_id := Some i\<rparr>) (deliveries st)))"
  using assms
  by (auto simp: enqueue_review_revision_def enqueue_review_job_def retire_terminal_job_def Let_def
      bind_result_Inr_iff record_pull_request_lifecycle_def close_queued_def link_delivery_def
      insert_job_def split: if_splits option.splits)

lemma upsert_pull_frame:
  "upsert_pull_request rid did e st = Inr (m, st') \<Longrightarrow>
   repositories st' = repositories st \<and> deliveries st' = deliveries st"
  by (auto simp: upsert_pull_request_def note_stale_pull_request_def Let_def
      record_pull_request_lifecycle_def split: if_splits option.splits)

definition delivery_key :: "pull_request_event \<Rightarrow> delivery \<Rightarrow> bool" where
  "delivery_key e d \<longleftrightarrow> d_provider d = ev_provider e \<and> d_base_url d = ev_scm_base_url e \<and>
                        d_delivery_id d = ev_delivery_id e"

lemma accepted_delivery:
  assumes y: "Inr (r, st') = review_rest sha256 isofmt now env e sha rp
      (record_delivery (ev_provider e) (ev_scm_base_url e) (ev_delivery_id e) ''pull_request'' sha st1)"
  shows "repositories st' = repositories st1 \<and>
    (\<exists>d. select_one (delivery_key e) (deliveries st') = Some d \<and> d_payload_sha256 d = sha \<and>
         d_job_id d = er_job_id r)"
proof -
  have key: "delivery_key e = (\<lambda>d. d_provider d = ev_provider e \<and> d_base_url d = ev_scm_base_url e \<and>
                        d_delivery_id d = ev_delivery_id e)"
    by (auto simp: delivery_key_def)
  show ?thesis
  proof (cases "select_one (delivery_key e) (deliveries st1)")
    case (Some d)
    then show ?thesis
      using y by (auto simp: record_delivery_def review_rest_def duplicate_delivery_def key
          split: if_splits)
  next
    case None
    let ?n = "\<lparr>d_id = next_delivery st1, d_provider = ev_provider e, d_base_url = ev_scm_base_url e,
               d_delivery_id = ev_delivery_id e, d_event_name = ''pull_request'',
               d_payload_sha256 = sha, d_job_id = None\<rparr>"
    let ?st2 = "st1\<lparr>deliveries := deliveries st1 @ [?n], next_delivery := next_delivery st1 + 1\<rparr>"
    have rec: "record_delivery (ev_provider e) (ev_scm_base_url e) (ev_delivery_id e)
        ''pull_request'' sha st1 = (Inr (next_delivery st1), ?st2)"
      using None by (simp add: record_delivery_def key)
    have sel: "select_one (delivery_key e) (deliveries ?st2) = Some ?n"
      using None by (simp add: select_one_append) (simp add: select_one_def delivery_key_def)
    have "(repositories st' = repositories st1 \<and> deliveries st' = deliveries ?st2 \<and> er_job_id r = None) \<or>
      (repositories st' = repositories st1 \<and> (\<exists>i. er_job_id r = Some i \<and> deliveries st' =
         update_where (\<lambda>d. d_id d = next_delivery st1) (\<lambda>d. d\<lparr>d_job_id := Some i\<rparr>) (deliveries ?st2)))"
    proof (cases "ev_trigger_kind e = Automatic \<and> \<not> r_auto_review rp")
      case True
      then show ?thesis using y rec by (simp add: review_rest_def)
    next
      case False
      then obtain m st3 where u: "upsert_pull_request (r_id rp) (next_delivery st1) e ?st2 = Inr (m, st3)"
        and k: "(case m of None \<Rightarrow> Inr (\<lparr>er_job_id = None, er_state = S_stale_delivery\<rparr>, st3)
                 | Some p \<Rightarrow> enqueue_review_revision sha256 isofmt now env (r_id rp) p (next_delivery st1) e st3)
                = Inr (r, st')"
        using y rec by (auto simp: review_rest_def bind_result_Inr_iff dest!: sym[of "Inr (r, st')"])
      have f: "repositories st3 = repositories st1" "deliveries st3 = deliveries ?st2"
        using upsert_pull_frame[OF u] by simp_all
      show ?thesis
      proof (cases m)
        case None
        then show ?thesis using k f by auto
      next
        case (Some p)
        then have "enqueue_review_revision sha256 isofmt now env (r_id rp) p (next_delivery st1) e st3 = Inr (r, st')"
          using k by simp
        from revision_frame[OF this] f show ?thesis by auto
      qed
    qed
    then show ?thesis
    proof (elim disjE conjE exE)
      fix i
      assume "er_job_id r = Some i" "repositories st' = repositories st1" and
        d: "deliveries st' = update_where (\<lambda>d. d_id d = next_delivery st1)
              (\<lambda>d. d\<lparr>d_job_id := Some i\<rparr>) (deliveries ?st2)"
      moreover have "select_one (delivery_key e) (deliveries st') = Some (?n\<lparr>d_job_id := Some i\<rparr>)"
        unfolding d by (subst select_one_update) (simp_all only: sel, simp_all add: delivery_key_def)
      ultimately show ?thesis by simp
    qed (use sel in simp)
  qed
qed

section \<open>Deliveries are never rewritten\<close>

definition deliveries_ok :: "db \<Rightarrow> bool" where
  "deliveries_ok st \<longleftrightarrow> (\<forall>d \<in> set (deliveries st). d_id d < next_delivery st)"

definition deliveries_kept :: "db \<Rightarrow> db \<Rightarrow> bool" where
  "deliveries_kept st st' \<longleftrightarrow> (\<exists>ds. deliveries st' = deliveries st @ ds)"

definition delivery_part :: "db \<Rightarrow> delivery list \<times> nat" where
  "delivery_part st = (deliveries st, next_delivery st)"

lemma deliveries_kept_refl: "deliveries_kept st st"
  by (simp add: deliveries_kept_def)

lemma deliveries_kept_trans: "deliveries_kept st st' \<Longrightarrow> deliveries_kept st' st'' \<Longrightarrow> deliveries_kept st st''"
  by (auto simp: deliveries_kept_def)

lemma delivery_part_ok:
  "delivery_part st' = delivery_part st \<Longrightarrow> deliveries_ok st \<Longrightarrow> deliveries_ok st' \<and> deliveries_kept st st'"
  by (simp add: delivery_part_def deliveries_ok_def deliveries_kept_def)

lemma resolve_delivery_part:
  "resolve_github_repository u gid name br st = Inr (r, st') \<Longrightarrow> delivery_part st' = delivery_part st"
  by (auto simp: resolve_github_repository_def Let_def bind_result_Inr_iff delivery_part_def
      split: if_splits option.splits)

lemma link_fresh:
  assumes "deliveries_ok st" "d_id n = next_delivery st"
  shows "update_where (\<lambda>d. d_id d = next_delivery st) f (deliveries st @ [n]) = deliveries st @ [f n]"
proof -
  have "update_where (\<lambda>d. d_id d = next_delivery st) f (deliveries st) = deliveries st"
    using assms(1) by (intro update_where_none) (auto simp: deliveries_ok_def)
  then show ?thesis using assms(2) by (simp add: update_where_append) (simp add: update_where_def)
qed

text \<open>What follows the recording of a new delivery links that delivery at most, and no other.\<close>

lemma record_then_link:
  assumes ok: "deliveries_ok st" and rec: "record_delivery p u i n sha st = (Inr did, st2)"
    and seq: "next_delivery st' = next_delivery st2"
    and link: "deliveries st' = deliveries st2 \<or>
      (\<exists>f. deliveries st' = update_where (\<lambda>d. d_id d = did) f (deliveries st2) \<and> (\<forall>d. d_id (f d) = d_id d))"
  shows "deliveries_ok st' \<and> deliveries_kept st st'"
proof -
  have "did = next_delivery st \<and> next_delivery st2 = next_delivery st + 1 \<and>
      (\<exists>x. deliveries st2 = deliveries st @ [x] \<and> d_id x = next_delivery st)"
    using rec by (auto simp: record_delivery_def split: option.splits)
  then obtain x where x: "did = next_delivery st" "d_id x = next_delivery st" "deliveries st2 = deliveries st @ [x]"
    "next_delivery st2 = next_delivery st + 1" by blast
  obtain y where y: "deliveries st' = deliveries st @ [y]" "d_id y = next_delivery st"
    using link link_fresh[OF ok x(2)] x(1,2,3) by auto
  have "\<forall>d \<in> set (deliveries st'). d_id d < next_delivery st'"
    using ok y(2) unfolding y(1) seq x(4) deliveries_ok_def by auto
  then show ?thesis using y(1) by (auto simp: deliveries_ok_def deliveries_kept_def)
qed

lemma revision_next_delivery:
  "enqueue_review_revision sha256 isofmt now env rid p did e st = Inr (r, st') \<Longrightarrow> next_delivery st' = next_delivery st"
  by (auto simp: enqueue_review_revision_def enqueue_review_job_def retire_terminal_job_def Let_def
      bind_result_Inr_iff record_pull_request_lifecycle_def close_queued_def link_delivery_def
      insert_job_def split: if_splits option.splits)

lemma upsert_next_delivery:
  "upsert_pull_request rid did e st = Inr (m, st') \<Longrightarrow> next_delivery st' = next_delivery st"
  by (auto simp: upsert_pull_request_def note_stale_pull_request_def Let_def
      record_pull_request_lifecycle_def split: if_splits option.splits)

lemma index_frame:
  assumes "enqueue_index_job now rid did e st = Inr (r, st')"
  shows "next_delivery st' = next_delivery st \<and> (deliveries st' = deliveries st \<or>
     (\<exists>i. deliveries st' = update_where (\<lambda>d. d_id d = did) (\<lambda>d. d\<lparr>d_job_id := Some i\<rparr>) (deliveries st)))"
  using assms
  by (auto simp: enqueue_index_job_def retire_terminal_job_def Let_def bind_result_Inr_iff
      close_queued_def link_delivery_def insert_job_def split: if_splits option.splits)

lemma upsert_ref_delivery_part:
  "upsert_repository_ref rid e st = Inr (b, st') \<Longrightarrow> delivery_part st' = delivery_part st"
  by (auto simp: upsert_repository_ref_def delivery_part_def split: if_splits option.splits)

lemma repeated_record:
  assumes "record_delivery p u i n sha st = (Inl d, st2)" "deliveries_ok st"
  shows "deliveries_ok st2 \<and> deliveries_kept st st2"
  using assms by (auto simp: record_delivery_def deliveries_ok_def deliveries_kept_def less_Suc_eq split: option.splits)

lemma review_deliveries:
  assumes ok: "deliveries_ok st" and ev: "enqueue_review_event sha256 isofmt now env e sha st = Inr (r, st')"
  shows "deliveries_ok st' \<and> deliveries_kept st st'"
  using ev
proof (cases rule: review_reach)
  case (go rp st1)
  note p1 = resolve_delivery_part[OF go(3)]
  have ok1: "deliveries_ok st1" and k: "deliveries st1 = deliveries st"
    using delivery_part_ok[OF p1 ok] p1 by (simp_all add: delivery_part_def)
  obtain x st2 where x: "record_delivery (ev_provider e) (ev_scm_base_url e) (ev_delivery_id e)
      ''pull_request'' sha st1 = (x, st2)" by fastforce
  have "deliveries_ok st' \<and> deliveries_kept st1 st'"
  proof (cases x)
    case (Inl d)
    then have "st' = st2" using go(4) x by (auto simp: review_rest_def duplicate_delivery_def split: if_splits)
    then show ?thesis using repeated_record[OF x[unfolded Inl] ok1] by simp
  next
    case (Inr did)
    have "next_delivery st' = next_delivery st2 \<and> (deliveries st' = deliveries st2 \<or>
      (\<exists>i. deliveries st' = update_where (\<lambda>d. d_id d = did) (\<lambda>d. d\<lparr>d_job_id := Some i\<rparr>) (deliveries st2)))"
    proof (cases "ev_trigger_kind e = Automatic \<and> \<not> r_auto_review rp")
      case True
      then show ?thesis using go(4) unfolding x Inr by (simp add: review_rest_def)
    next
      case False
      then obtain m st3 where u: "upsert_pull_request (r_id rp) did e st2 = Inr (m, st3)"
        and k: "(case m of None \<Rightarrow> Inr (\<lparr>er_job_id = None, er_state = S_stale_delivery\<rparr>, st3)
                 | Some p \<Rightarrow> enqueue_review_revision sha256 isofmt now env (r_id rp) p did e st3) = Inr (r, st')"
        using go(4) unfolding x Inr
        by (auto simp: review_rest_def bind_result_Inr_iff dest!: sym[of "Inr (r, st')"])
      have f: "next_delivery st3 = next_delivery st2" "deliveries st3 = deliveries st2"
        using upsert_next_delivery[OF u] upsert_pull_frame[OF u] by simp_all
      show ?thesis
      proof (cases m)
        case None
        then show ?thesis using k f by simp
      next
        case (Some p)
        then have "enqueue_review_revision sha256 isofmt now env (r_id rp) p did e st3 = Inr (r, st')" using k by simp
        from revision_next_delivery[OF this] revision_frame[OF this] f show ?thesis by auto
      qed
    qed
    then show ?thesis by (intro record_then_link[OF ok1 x[unfolded Inr]]) auto
  qed
  then show ?thesis using k by (simp add: deliveries_kept_def)
qed simp

lemma push_deliveries:
  assumes ok: "deliveries_ok st" and ev: "enqueue_repository_index_event now e sha st = Inr (r, st')"
  shows "deliveries_ok st' \<and> deliveries_kept st st'"
  using ev
proof (cases rule: push_reach)
  case (go rp st1)
  note p1 = resolve_delivery_part[OF go(3)]
  have ok1: "deliveries_ok st1" and k: "deliveries st1 = deliveries st"
    using delivery_part_ok[OF p1 ok] p1 by (simp_all add: delivery_part_def)
  obtain x st2 where x: "record_delivery (pu_provider e) (pu_scm_base_url e) (pu_delivery_id e) ''push'' sha st1 = (x, st2)"
    by fastforce
  have "deliveries_ok st' \<and> deliveries_kept st1 st'"
  proof (cases x)
    case (Inl d)
    then have "st' = st2" using go(4) x by (auto simp: push_rest_def duplicate_delivery_def split: if_splits)
    then show ?thesis using repeated_record[OF x[unfolded Inl] ok1] by simp
  next
    case (Inr did)
    have "next_delivery st' = next_delivery st2 \<and> (deliveries st' = deliveries st2 \<or>
      (\<exists>i. deliveries st' = update_where (\<lambda>d. d_id d = did) (\<lambda>d. d\<lparr>d_job_id := Some i\<rparr>) (deliveries st2)))"
      using go(4) unfolding x Inr
      by (auto simp: push_rest_def bind_result_Inr_iff delivery_part_def split: if_splits dest!: sym[of "Inr (r, st')"]
          dest!: upsert_ref_delivery_part index_frame) blast
    then show ?thesis by (intro record_then_link[OF ok1 x[unfolded Inr]]) auto
  qed
  then show ?thesis using k by (simp add: deliveries_kept_def)
qed simp

lemma worker_delivery_part:
  "claim_workflow_job now locked w lease bd md st = Inr (m, st') \<Longrightarrow> delivery_part st' = delivery_part st"
  "heartbeat_workflow_job now i w lease st = Inr (b, st') \<Longrightarrow> delivery_part st' = delivery_part st"
  "fail_workflow_job now i w err rt bd md st = Inr (s, st') \<Longrightarrow> delivery_part st' = delivery_part st"
  "delivery_part (snd (complete_workflow_job now i w st)) = delivery_part st"
  "delivery_part (snd (supersede_workflow_job now i w st)) = delivery_part st"
  by (auto simp: claim_workflow_job_def heartbeat_workflow_job_def fail_workflow_job_def
      complete_workflow_job_def supersede_workflow_job_def finish_attempt_def delivery_part_def Let_def
      begin_attempt_def sweep_def expire_jobs_def expire_attempts_def split: if_splits option.splits)

lemma committed_deliveries:
  assumes "deliveries_ok st" and "\<And>r st'. x = Inr (r, st') \<Longrightarrow> deliveries_ok st' \<and> deliveries_kept st st'"
  shows "deliveries_ok (committed st x) \<and> deliveries_kept st (committed st x)"
  using assms deliveries_kept_refl[of st] by (auto simp: committed_def split: sum.splits prod.splits)

lemma apply_deliveries:
  assumes ok: "deliveries_ok st"
  shows "deliveries_ok (queue_apply sha256 isofmt x st) \<and> deliveries_kept st (queue_apply sha256 isofmt x st)"
proof (cases x)
  case (Op_review now env e sha)
  show ?thesis unfolding Op_review queue_apply.simps
    by (rule committed_deliveries[OF ok]) (rule review_deliveries[OF ok])
next
  case (Op_push now e sha)
  show ?thesis unfolding Op_push queue_apply.simps
    by (rule committed_deliveries[OF ok]) (rule push_deliveries[OF ok])
next
  case (Op_claim now locked w lease bd md)
  show ?thesis unfolding Op_claim queue_apply.simps
    by (rule committed_deliveries[OF ok]) (rule delivery_part_ok[OF worker_delivery_part(1) ok])
next
  case (Op_heartbeat now i w lease)
  show ?thesis unfolding Op_heartbeat queue_apply.simps
    by (rule committed_deliveries[OF ok]) (rule delivery_part_ok[OF worker_delivery_part(2) ok])
next
  case (Op_complete now i w)
  show ?thesis unfolding Op_complete queue_apply.simps by (rule delivery_part_ok[OF worker_delivery_part(4) ok])
next
  case (Op_supersede now i w)
  show ?thesis unfolding Op_supersede queue_apply.simps by (rule delivery_part_ok[OF worker_delivery_part(5) ok])
next
  case (Op_fail now i w err rt bd md)
  show ?thesis unfolding Op_fail queue_apply.simps
    by (rule committed_deliveries[OF ok]) (rule delivery_part_ok[OF worker_delivery_part(3) ok])
next
  case (Op_enable now rid v)
  show ?thesis unfolding Op_enable queue_apply.simps
    by (rule delivery_part_ok[OF _ ok]) (simp add: set_repository_enabled_def Let_def close_queued_def delivery_part_def)
next
  case (Op_auto_review rid v)
  show ?thesis unfolding Op_auto_review queue_apply.simps
    by (rule delivery_part_ok[OF _ ok]) (simp add: set_repository_auto_review_def delivery_part_def)
qed

interpretation ledger: audited_system "\<lambda>_. True" "queue_apply sha256 isofmt" deliveries_ok deliveries_kept
  for sha256 isofmt
  by unfold_locales
     (auto intro: deliveries_kept_refl deliveries_kept_trans simp: apply_deliveries)

section \<open>Redelivery\<close>

text \<open>The tables an event writes to, all but the repositories and their audit.\<close>

definition recorded_work :: "db \<Rightarrow> job list \<times> attempt list \<times> pull_request list \<times> lifecycle_event list \<times> repository_ref list \<times> delivery list" where
  "recorded_work st = (jobs st, attempts st, pulls st, lifecycle st, refs st, deliveries st)"

lemma resolve_recorded_work:
  "resolve_github_repository u gid name br st = Inr (r, st') \<Longrightarrow> recorded_work st' = recorded_work st"
  by (auto simp: resolve_github_repository_def Let_def bind_result_Inr_iff recorded_work_def
      split: if_splits option.splits)

lemma known_delivery:
  assumes d: "select_one (delivery_key e) (deliveries st) = Some d"
    and ev: "enqueue_review_event sha256 isofmt now env e sha st = Inr (r, st')"
  shows "sha = d_payload_sha256 d \<and> er_job_id r = d_job_id d \<and> (\<exists>m. er_state r = S_duplicate_delivery m) \<and>
    recorded_work st' = recorded_work st"
  using ev
proof (cases rule: review_reach)
  case (go rp st1)
  have w: "recorded_work st1 = recorded_work st" by (rule resolve_recorded_work[OF go(3)])
  then have "deliveries st1 = deliveries st" by (simp add: recorded_work_def)
  then have "record_delivery (ev_provider e) (ev_scm_base_url e) (ev_delivery_id e) ''pull_request'' sha st1 =
      (Inl d, st1\<lparr>next_delivery := next_delivery st1 + 1\<rparr>)"
    using d by (simp add: record_delivery_def delivery_key_def[abs_def])
  then show ?thesis using go(4) w
    by (auto simp: review_rest_def duplicate_delivery_def recorded_work_def split: if_splits)
qed simp



section \<open>Late events\<close>

definition pulls_ok :: "db \<Rightarrow> bool" where
  "pulls_ok st \<longleftrightarrow> distinct (map p_id (pulls st)) \<and> (\<forall>p \<in> set (pulls st). p_id p < next_pull st)"

definition pull_advances :: "pull_request \<Rightarrow> pull_request \<Rightarrow> bool" where
  "pull_advances p q \<longleftrightarrow>
     p_id q = p_id p \<and> p_repository_id q = p_repository_id p \<and> p_number q = p_number p \<and>
     p_latest_event_at p \<le> p_latest_event_at q \<and>
     (p_latest_event_at q = p_latest_event_at p \<longrightarrow> p_head_sha q = p_head_sha p)"

definition pulls_advance :: "db \<Rightarrow> db \<Rightarrow> bool" where
  "pulls_advance st st' \<longleftrightarrow> (\<forall>p \<in> set (pulls st). \<exists>q \<in> set (pulls st'). pull_advances p q)"

lemma pulls_advance_refl: "pulls st' = pulls st \<Longrightarrow> pulls_advance st st'"
  by (auto simp: pulls_advance_def pull_advances_def)

lemma pulls_advance_trans: "pulls_advance st st' \<Longrightarrow> pulls_advance st' st'' \<Longrightarrow> pulls_advance st st''"
  unfolding pulls_advance_def pull_advances_def by (metis order.trans order.antisym)

lemma pulls_ok_cong: "pulls st' = pulls st \<Longrightarrow> next_pull st' = next_pull st \<Longrightarrow> pulls_ok st' = pulls_ok st"
  by (simp add: pulls_ok_def)

lemma upsert_pull_advances:
  assumes ok: "pulls_ok st" and u: "upsert_pull_request rid did e st = Inr (m, st')"
  shows "pulls_ok st' \<and> pulls_advance st st'"
proof (cases "select_one (\<lambda>p. p_repository_id p = rid \<and> p_number p = ev_number e) (pulls st)")
  case None
  then have "pulls st' = pulls st @ [new_pull_request (next_pull st) rid e]" "next_pull st' = next_pull st + 1"
    using u by (auto simp: upsert_pull_request_def)
  moreover have "p_id (new_pull_request (next_pull st) rid e) = next_pull st" by (simp add: new_pull_request_def)
  ultimately show ?thesis
    using ok by (fastforce simp: pulls_ok_def pulls_advance_def pull_advances_def)
next
  case (Some p)
  note p = select_one_SomeD[OF Some]
  have only: "q = p" if "q \<in> set (pulls st)" "p_id q = p_id p" for q
    using ok that p by (auto simp: pulls_ok_def distinct_map inj_on_def)
  have key: "\<exists>f. pulls st' = update_where (\<lambda>q. p_id q = p_id p) f (pulls st) \<and> (\<forall>q. p_id (f q) = p_id q) \<and>
             next_pull st' = next_pull st \<and> pull_advances p (f p)"
  proof (cases "ev_updated_at e < p_latest_event_at p")
    case True
    then have st': "st' = note_stale_pull_request (p_id p) did e st"
      using u Some by (simp add: upsert_pull_request_def)
    show ?thesis
    proof (cases "ev_source_created_at e")
      case None
      then have "pulls st' = pulls st" "next_pull st' = next_pull st"
        by (simp_all add: st' note_stale_pull_request_def record_pull_request_lifecycle_def)
      then show ?thesis
        by (intro exI[of _ "\<lambda>q. q"]) (simp add: update_where_def pull_advances_def)
    next
      case (Some t)
      then show ?thesis
        by (intro exI[of _ "\<lambda>q. q\<lparr>p_source_created_at := coalesce (p_source_created_at q) (Some t)\<rparr>"])
           (simp add: st' note_stale_pull_request_def record_pull_request_lifecycle_def pull_advances_def)
    qed
  next
    case False
    then show ?thesis
      using u Some p
      by (intro exI[of _ "refresh_pull_request e"])
         (auto simp: upsert_pull_request_def pull_advances_def refresh_pull_request_def split: if_splits)
  qed
  then obtain f where f: "pulls st' = update_where (\<lambda>q. p_id q = p_id p) f (pulls st)"
    "\<And>q. p_id (f q) = p_id q" "next_pull st' = next_pull st" "pull_advances p (f p)" by blast
  have "map p_id (pulls st') = map p_id (pulls st)"
    unfolding f(1) by (rule map_update_where_same) (rule f(2))
  then have "pulls_ok st'"
    using ok f(3) unfolding pulls_ok_def by (metis (no_types, lifting) imageE imageI set_map)
  moreover have "\<exists>q' \<in> set (pulls st'). pull_advances q q'" if "q \<in> set (pulls st)" for q
  proof (cases "q = p")
    case True
    then show ?thesis
      using f(4) in_update_whereI[OF that, of "\<lambda>q. p_id q = p_id p" f] unfolding f(1) by auto
  next
    case False
    then have "p_id q \<noteq> p_id p" using only that by blast
    then have "q \<in> set (pulls st')"
      using in_update_whereI[OF that, of "\<lambda>q. p_id q = p_id p" f] unfolding f(1) by simp
    then show ?thesis by (auto simp: pull_advances_def)
  qed
  ultimately show ?thesis by (simp add: pulls_advance_def)
qed

definition pull_part :: "db \<Rightarrow> pull_request list \<times> nat" where
  "pull_part st = (pulls st, next_pull st)"

lemma pull_part_ok: "pull_part st' = pull_part st \<Longrightarrow> pulls_ok st \<Longrightarrow> pulls_ok st' \<and> pulls_advance st st'"
  using pulls_advance_refl[of st' st] pulls_ok_cong[of st' st] by (simp add: pull_part_def)

lemma resolve_pull_part:
  "resolve_github_repository u gid name br st = Inr (r, st') \<Longrightarrow> pull_part st' = pull_part st"
  by (auto simp: resolve_github_repository_def Let_def bind_result_Inr_iff pull_part_def
      split: if_splits option.splits)

lemma record_pull_part: "pull_part (snd (record_delivery p u i n sha st)) = pull_part st"
  by (simp add: record_delivery_def pull_part_def split: option.splits)

lemma revision_pull_part:
  "enqueue_review_revision sha256 isofmt now env rid p did e st = Inr (r, st') \<Longrightarrow> pull_part st' = pull_part st"
  by (auto simp: enqueue_review_revision_def enqueue_review_job_def retire_terminal_job_def Let_def
      bind_result_Inr_iff record_pull_request_lifecycle_def close_queued_def link_delivery_def
      insert_job_def pull_part_def split: if_splits option.splits)

lemma index_pull_part:
  "enqueue_index_job now rid did e st = Inr (r, st') \<Longrightarrow> pull_part st' = pull_part st"
  by (auto simp: enqueue_index_job_def retire_terminal_job_def Let_def bind_result_Inr_iff
      close_queued_def link_delivery_def insert_job_def pull_part_def split: if_splits option.splits)

lemma review_pulls:
  assumes ok: "pulls_ok st" and ev: "enqueue_review_event sha256 isofmt now env e sha st = Inr (r, st')"
  shows "pulls_ok st' \<and> pulls_advance st st'"
  using ev
proof (cases rule: review_reach)
  case (go rp st1)
  obtain x st2 where x: "record_delivery (ev_provider e) (ev_scm_base_url e) (ev_delivery_id e)
      ''pull_request'' sha st1 = (x, st2)" by fastforce
  have p2: "pull_part st2 = pull_part st"
    using record_pull_part[of "ev_provider e" "ev_scm_base_url e" "ev_delivery_id e" "''pull_request''" sha st1]
      x resolve_pull_part[OF go(3)] by simp
  note ok2 = pull_part_ok[OF p2 ok]
  from go(4) x consider (same) "st' = st2"
    | (up) did m st3 where "upsert_pull_request (r_id rp) did e st2 = Inr (m, st3)" "pull_part st' = pull_part st3"
    by (auto simp: review_rest_def duplicate_delivery_def bind_result_Inr_iff
        split: sum.splits if_splits option.splits dest!: sym[of "Inr (r, st')"] revision_pull_part)
  then show ?thesis
  proof cases
    case same
    then show ?thesis using ok2 by simp
  next
    case up
    note ok3 = upsert_pull_advances[OF conjunct1[OF ok2] up(1)]
    note ok4 = pull_part_ok[OF up(2) conjunct1[OF ok3]]
    show ?thesis
      using ok2 ok3 ok4 pulls_advance_trans by blast
  qed
qed simp

lemma push_pull_part:
  assumes ev: "enqueue_repository_index_event now e sha st = Inr (r, st')"
  shows "pull_part st' = pull_part st"
  using ev
proof (cases rule: push_reach)
  case (go rp st1)
  obtain x st2 where x: "record_delivery (pu_provider e) (pu_scm_base_url e) (pu_delivery_id e)
      ''push'' sha st1 = (x, st2)" by fastforce
  have p2: "pull_part st2 = pull_part st"
    using record_pull_part[of "pu_provider e" "pu_scm_base_url e" "pu_delivery_id e" "''push''" sha st1]
      x resolve_pull_part[OF go(3)] by simp
  have "pull_part st' = pull_part st2"
    using go(4) x
    by (auto simp: push_rest_def duplicate_delivery_def bind_result_Inr_iff upsert_repository_ref_def
        pull_part_def split: sum.splits if_splits option.splits dest!: sym[of "Inr (r, st')"]
        index_pull_part[unfolded pull_part_def])
  with p2 show ?thesis by simp
qed simp

lemma worker_pull_part:
  "claim_workflow_job now locked w lease bd md st = Inr (m, st') \<Longrightarrow> pull_part st' = pull_part st"
  "heartbeat_workflow_job now i w lease st = Inr (b, st') \<Longrightarrow> pull_part st' = pull_part st"
  "fail_workflow_job now i w err rt bd md st = Inr (s, st') \<Longrightarrow> pull_part st' = pull_part st"
  "pull_part (snd (complete_workflow_job now i w st)) = pull_part st"
  "pull_part (snd (supersede_workflow_job now i w st)) = pull_part st"
  by (auto simp: claim_workflow_job_def heartbeat_workflow_job_def fail_workflow_job_def
      complete_workflow_job_def supersede_workflow_job_def finish_attempt_def pull_part_def Let_def
      begin_attempt_def sweep_def expire_jobs_def expire_attempts_def split: if_splits option.splits)

lemma committed_pulls:
  assumes "pulls_ok st" and "\<And>r st'. x = Inr (r, st') \<Longrightarrow> pulls_ok st' \<and> pulls_advance st st'"
  shows "pulls_ok (committed st x) \<and> pulls_advance st (committed st x)"
  using assms pulls_advance_refl[of st st]
  by (auto simp: committed_def split: sum.splits prod.splits)

lemma apply_pulls:
  assumes ok: "pulls_ok st"
  shows "pulls_ok (queue_apply sha256 isofmt x st) \<and> pulls_advance st (queue_apply sha256 isofmt x st)"
proof (cases x)
  case (Op_review now env e sha)
  show ?thesis unfolding Op_review queue_apply.simps
    by (rule committed_pulls[OF ok]) (rule review_pulls[OF ok])
next
  case (Op_push now e sha)
  show ?thesis unfolding Op_push queue_apply.simps
    by (rule committed_pulls[OF ok]) (rule pull_part_ok[OF push_pull_part ok])
next
  case (Op_claim now locked w lease bd md)
  show ?thesis unfolding Op_claim queue_apply.simps
    by (rule committed_pulls[OF ok]) (rule pull_part_ok[OF worker_pull_part(1) ok])
next
  case (Op_heartbeat now i w lease)
  show ?thesis unfolding Op_heartbeat queue_apply.simps
    by (rule committed_pulls[OF ok]) (rule pull_part_ok[OF worker_pull_part(2) ok])
next
  case (Op_complete now i w)
  show ?thesis unfolding Op_complete queue_apply.simps by (rule pull_part_ok[OF worker_pull_part(4) ok])
next
  case (Op_supersede now i w)
  show ?thesis unfolding Op_supersede queue_apply.simps by (rule pull_part_ok[OF worker_pull_part(5) ok])
next
  case (Op_fail now i w err rt bd md)
  show ?thesis unfolding Op_fail queue_apply.simps
    by (rule committed_pulls[OF ok]) (rule pull_part_ok[OF worker_pull_part(3) ok])
next
  case (Op_enable now rid v)
  show ?thesis unfolding Op_enable queue_apply.simps
    by (rule pull_part_ok[OF _ ok]) (simp add: set_repository_enabled_def Let_def close_queued_def pull_part_def)
next
  case (Op_auto_review rid v)
  show ?thesis unfolding Op_auto_review queue_apply.simps
    by (rule pull_part_ok[OF _ ok]) (simp add: set_repository_auto_review_def pull_part_def)
qed

interpretation heads: audited_system "\<lambda>_. True" "queue_apply sha256 isofmt" pulls_ok pulls_advance
  for sha256 isofmt
  by unfold_locales
     (auto intro: pulls_advance_refl pulls_advance_trans simp: apply_pulls)

text \<open>C11: Over any run of the queue a known pull request keeps its identity, its latest event time
  never goes back, and as long as that time stands the recorded head is the same: events that
  arrive out of order cannot move a pull request back to an older head.\<close>

theorem heads_never_move_back:
  assumes "pulls_ok st" and "p \<in> set (pulls st)"
  shows "\<exists>q \<in> set (pulls (fold (queue_apply sha256 isofmt) ops st)).
    p_id q = p_id p \<and> p_repository_id q = p_repository_id p \<and> p_number q = p_number p \<and>
    p_latest_event_at p \<le> p_latest_event_at q \<and>
    (p_latest_event_at q = p_latest_event_at p \<longrightarrow> p_head_sha q = p_head_sha p)"
proof -
  have "pulls_advance st (fold (queue_apply sha256 isofmt) ops st)"
    using heads.forward_run[of ops st] assms(1) by blast
  then show ?thesis using assms(2) by (auto simp: pulls_advance_def pull_advances_def)
qed

definition sample_late_ops :: "queue_op list" where
  "sample_late_ops =
     [Op_review 20 None (sample_event ''d2'' ''synchronize'' ''h0'' 50) (sample_sha 2),
      Op_review 30 None (sample_event ''d3'' ''synchronize'' ''h3'' 300) (sample_sha 3)]"

theorem heads_never_move_back_witness:
  "\<exists>p \<in> set (pulls after_open).
     \<exists>q \<in> set (pulls (fold (queue_apply (\<lambda>s. []) str_of_int) sample_late_ops after_open)).
       p_id q = p_id p \<and> p_latest_event_at p \<le> p_latest_event_at q"
proof -
  have ok: "pulls_ok after_open"
    unfolding pulls_ok_def list_all_iff[symmetric] by code_simp
  have "list_ex (\<lambda>p. p_latest_event_at p = 100) (pulls after_open)" by code_simp
  then obtain p where p: "p \<in> set (pulls after_open)" by (auto simp: list_ex_iff)
  from heads_never_move_back[OF ok p, of "\<lambda>s. []" str_of_int sample_late_ops]
  show ?thesis using p by blast
qed

text \<open>An event older than the pull request's latest one is recorded in its history and nothing
  else: no job is queued or superseded, the pull request keeps its head, base, state and latest
  event time, and the answer says the delivery was stale.  An event with the same time but another
  head is refused and rolled back.\<close>

theorem stale_event_changes_no_head:
  assumes "pulls_ok st" and "p \<in> set (pulls st)" and "valid_sha256 sha"
    and "resolve_github_repository (ev_scm_base_url e) (ev_github_repository_id e)
           (ev_repo_full_name e) None st = Inr (Some rp, st1)" and "r_enabled rp"
    and "r_auto_review rp \<or> ev_trigger_kind e = Manual"
    and "p_repository_id p = r_id rp" "p_number p = ev_number e"
    and "\<forall>q \<in> set (pulls st). p_repository_id q = p_repository_id p \<and> p_number q = p_number p \<longrightarrow> q = p"
    and "\<forall>d \<in> set (deliveries st1). \<not> delivery_key e d"
  shows "(ev_updated_at e < p_latest_event_at p \<longrightarrow>
      (\<exists>st'. enqueue_review_event sha256 isofmt now env e sha st =
           Inr (\<lparr>er_job_id = None, er_state = S_stale_delivery\<rparr>, st') \<and>
         jobs st' = jobs st \<and> attempts st' = attempts st \<and>
         (\<exists>q \<in> set (pulls st'). p_id q = p_id p \<and> p_head_sha q = p_head_sha p \<and>
            p_base_sha q = p_base_sha p \<and> p_state q = p_state p \<and>
            p_latest_event_at q = p_latest_event_at p) \<and>
         (\<exists>l. lifecycle st' = lifecycle st @ [l] \<and> l_pull_request_id l = p_id p \<and>
            l_source_event_at l = lifecycle_at e))) \<and>
    (ev_updated_at e = p_latest_event_at p \<and> ev_head_sha e \<noteq> p_head_sha p \<longrightarrow>
      enqueue_review_event sha256 isofmt now env e sha st = Inl (Event_order_conflict (pr_scope_key e)))"
proof -
  have "select_one (delivery_key e) (deliveries st1) = None"
    using assms(10) by (simp add: select_one_None_iff)
  then obtain st2 where rec: "record_delivery (ev_provider e) (ev_scm_base_url e) (ev_delivery_id e)
        ''pull_request'' sha st1 = (Inr (next_delivery st1), st2)"
    and f2: "pulls st2 = pulls st1" "jobs st2 = jobs st1" "attempts st2 = attempts st1"
      "lifecycle st2 = lifecycle st1"
    by (simp add: record_delivery_def delivery_key_def[abs_def])
  have f1: "pulls st1 = pulls st" "jobs st1 = jobs st" "attempts st1 = attempts st"
      "lifecycle st1 = lifecycle st"
    using assms(4) by (auto simp: resolve_github_repository_def Let_def bind_result_Inr_iff
        split: if_splits option.splits)
  have sel: "select_one (\<lambda>q. p_repository_id q = r_id rp \<and> p_number q = ev_number e) (pulls st2) = Some p"
    unfolding f1 f2
  proof (rule select_one_unique)
    show "p \<in> set (pulls st)" "p_repository_id p = r_id rp \<and> p_number p = ev_number e"
      using assms(2,7,8) by simp_all
    show "q = p" if "q \<in> set (pulls st)" "p_repository_id q = r_id rp \<and> p_number q = ev_number e" for q
      using assms(7,8) bspec[OF assms(9) that(1)] that(2) by simp
  qed
  have manual: "\<not> (ev_trigger_kind e = Automatic \<and> \<not> r_auto_review rp)" using assms(6) by auto
  have enq: "enqueue_review_event sha256 isofmt now env e sha st =
     bind_result (upsert_pull_request (r_id rp) (next_delivery st1) e st2)
       (\<lambda>(pid, st3). case pid of
          None \<Rightarrow> Inr (\<lparr>er_job_id = None, er_state = S_stale_delivery\<rparr>, st3)
        | Some p \<Rightarrow> enqueue_review_revision sha256 isofmt now env (r_id rp) p (next_delivery st1) e st3)"
    using assms(3,4,5) rec manual by (auto simp: enqueue_review_event_def)
  have stale: "\<exists>st'. enqueue_review_event sha256 isofmt now env e sha st =
           Inr (\<lparr>er_job_id = None, er_state = S_stale_delivery\<rparr>, st') \<and>
         jobs st' = jobs st \<and> attempts st' = attempts st \<and>
         (\<exists>q \<in> set (pulls st'). p_id q = p_id p \<and> p_head_sha q = p_head_sha p \<and>
            p_base_sha q = p_base_sha p \<and> p_state q = p_state p \<and>
            p_latest_event_at q = p_latest_event_at p) \<and>
         (\<exists>l. lifecycle st' = lifecycle st @ [l] \<and> l_pull_request_id l = p_id p \<and>
            l_source_event_at l = lifecycle_at e)"
    if late: "ev_updated_at e < p_latest_event_at p"
  proof -
    let ?st' = "note_stale_pull_request (p_id p) (next_delivery st1) e st2"
    let ?f = "\<lambda>t p. p\<lparr>p_source_created_at := coalesce (p_source_created_at p) (Some t)\<rparr>"
    have "enqueue_review_event sha256 isofmt now env e sha st =
           Inr (\<lparr>er_job_id = None, er_state = S_stale_delivery\<rparr>, ?st')"
      unfolding enq by (simp add: upsert_pull_request_def sel late)
    moreover have "jobs ?st' = jobs st" "attempts ?st' = attempts st"
      using note_stale_part[of "p_id p" "next_delivery st1" e st2] f1 f2 by (simp_all add: queue_part_def)
    moreover have "\<exists>l. lifecycle ?st' = lifecycle st @ [l] \<and> l_pull_request_id l = p_id p \<and>
            l_source_event_at l = lifecycle_at e"
      using f1 f2 by (simp add: note_stale_pull_request_def record_pull_request_lifecycle_def Let_def
          split: option.split)
    moreover have "\<exists>q \<in> set (pulls ?st'). p_id q = p_id p \<and> p_head_sha q = p_head_sha p \<and>
            p_base_sha q = p_base_sha p \<and> p_state q = p_state p \<and>
            p_latest_event_at q = p_latest_event_at p"
    proof (cases "ev_source_created_at e")
      case None
      then show ?thesis
        using assms(2) f1 f2
        by (intro bexI[of _ p]) (simp_all add: note_stale_pull_request_def record_pull_request_lifecycle_def)
    next
      case (Some t)
      have "?f t p \<in> set (update_where (\<lambda>q. p_id q = p_id p) (?f t) (pulls st))"
        using in_update_whereI[OF assms(2), of "\<lambda>q. p_id q = p_id p" "?f t"] by simp
      then show ?thesis
        using Some f1 f2
        by (intro bexI[of _ "?f t p"])
           (simp_all add: note_stale_pull_request_def record_pull_request_lifecycle_def)
    qed
    ultimately show ?thesis by blast
  qed
  have conflict: "enqueue_review_event sha256 isofmt now env e sha st = Inl (Event_order_conflict (pr_scope_key e))"
    if "ev_updated_at e = p_latest_event_at p" "ev_head_sha e \<noteq> p_head_sha p"
    unfolding enq using that by (simp add: upsert_pull_request_def sel)
  show ?thesis using stale conflict by blast
qed

theorem stale_event_changes_no_head_witness:
  "\<exists>st'. enqueue_review_event (\<lambda>s. []) str_of_int 20 None
       (sample_event ''d2'' ''synchronize'' ''h0'' 50) (sample_sha 2) after_open =
     Inr (\<lparr>er_job_id = None, er_state = S_stale_delivery\<rparr>, st') \<and> jobs st' = jobs after_open"
proof -
  let ?e = "sample_event ''d2'' ''synchronize'' ''h0'' 50"
  have sha: "valid_sha256 (sample_sha 2)" by code_simp
  have ok: "pulls_ok after_open"
    unfolding pulls_ok_def list_all_iff[symmetric] by code_simp
  have "case resolve_github_repository (ev_scm_base_url ?e) (ev_github_repository_id ?e)
           (ev_repo_full_name ?e) None after_open of
     Inl x \<Rightarrow> False | Inr (m, st1) \<Rightarrow> (case m of None \<Rightarrow> False | Some rp \<Rightarrow>
       r_enabled rp \<and> r_auto_review rp \<and> r_id rp = 1)"
    by code_simp
  from case_some_result[OF this] obtain rp st1 where
    res: "resolve_github_repository (ev_scm_base_url ?e) (ev_github_repository_id ?e)
           (ev_repo_full_name ?e) None after_open = Inr (Some rp, st1)"
    and rp: "r_enabled rp" "r_auto_review rp" "r_id rp = 1" by (elim exE conjE)
  have "deliveries st1 = deliveries after_open"
    using res by (auto simp: resolve_github_repository_def Let_def bind_result_Inr_iff
        split: if_splits option.splits)
  moreover have "\<forall>d \<in> set (deliveries after_open). \<not> delivery_key ?e d"
    unfolding list_all_iff[symmetric] by code_simp
  ultimately have del: "\<forall>d \<in> set (deliveries st1). \<not> delivery_key ?e d" by simp
  obtain p where all: "pulls after_open = [p]" and
    p: "p_repository_id p = 1" "p_number p = 7" "p_latest_event_at p = 100"
  proof -
    have "case pulls after_open of [p] \<Rightarrow> p_repository_id p = 1 \<and> p_number p = 7 \<and> p_latest_event_at p = 100 | _ \<Rightarrow> False"
      by code_simp
    then show ?thesis using that by (auto split: list.splits)
  qed
  have pin: "p \<in> set (pulls after_open)" using all by simp
  have same: "p_repository_id p = r_id rp" "p_number p = ev_number ?e" "ev_updated_at ?e < p_latest_event_at p"
    using p rp by (simp_all add: sample_event_def)
  have one: "\<forall>q \<in> set (pulls after_open). p_repository_id q = p_repository_id p \<and> p_number q = p_number p \<longrightarrow> q = p"
    using all by simp
  have auto: "r_auto_review rp \<or> ev_trigger_kind ?e = Manual" using rp by simp
  from stale_event_changes_no_head[OF ok pin sha res rp(1) auto same(1,2) one del] same(3)
  show ?thesis by blast
qed

end
