(* ===== verification/Diff.thy ===== *)
theory Diff
  imports Prelude
begin

text \<open>
  Unified diffs (\<open>review/diff.py\<close>): parsing a diff into files, hunks and line numbers, the lines a
  comment may be placed on, the snippet around one, and packing files into prompt chunks.
  \<open>shlex.split\<close> is modelled for the quoted file names Git writes, as the POSIX tokenizer with
  \<open>whitespace_split\<close>; \<open>None\<close> is its \<open>ValueError\<close>.
\<close>

section \<open>Shell tokens\<close>

datatype shlex_state = Sx_space | Sx_word | Sx_quote char | Sx_escape "char option"

definition shlex_space :: "char \<Rightarrow> bool" where
  "shlex_space c \<longleftrightarrow> code c \<in> {9, 10, 13, 32}"

definition emit_token :: "string \<Rightarrow> bool \<Rightarrow> string list \<Rightarrow> string list" where
  "emit_token token quoted toks = (if token \<noteq> [] \<or> quoted then rev token # toks else toks)"

text \<open>\<open>shlex_run state token quoted s\<close>: the tokens of the rest \<open>s\<close>; \<open>token\<close> is built in reverse.\<close>

fun shlex_run :: "shlex_state \<Rightarrow> string \<Rightarrow> bool \<Rightarrow> string \<Rightarrow> string list option" where
  "shlex_run (Sx_quote q) token quoted [] = None"
| "shlex_run (Sx_escape q) token quoted [] = None"
| "shlex_run Sx_space token quoted [] = Some (emit_token token quoted [])"
| "shlex_run Sx_word token quoted [] = Some (emit_token token quoted [])"
| "shlex_run (Sx_quote q) token quoted (c # cs) =
     (if c = q then shlex_run Sx_word token True cs
      else if c = CHR 0x5C \<and> q = CHR 0x22 then shlex_run (Sx_escape (Some q)) token True cs
      else shlex_run (Sx_quote q) (c # token) True cs)"
| "shlex_run (Sx_escape q) token quoted (c # cs) =
     (case q of
        None \<Rightarrow> shlex_run Sx_word (c # token) quoted cs
      | Some d \<Rightarrow> shlex_run (Sx_quote d)
          (c # (if c \<noteq> CHR 0x5C \<and> c \<noteq> d then CHR 0x5C # token else token)) quoted cs)"
| "shlex_run Sx_space token quoted (c # cs) =
     (if shlex_space c then
        map_option (emit_token token quoted) (shlex_run Sx_space [] False cs)
      else if c = CHR 0x5C then shlex_run (Sx_escape None) token quoted cs
      else if c = CHR 0x27 \<or> c = CHR 0x22 then shlex_run (Sx_quote c) token quoted cs
      else shlex_run Sx_word (c # token) quoted cs)"
| "shlex_run Sx_word token quoted (c # cs) =
     (if shlex_space c then
        map_option (emit_token token quoted) (shlex_run Sx_space [] False cs)
      else if c = CHR 0x27 \<or> c = CHR 0x22 then shlex_run (Sx_quote c) token quoted cs
      else if c = CHR 0x5C then shlex_run (Sx_escape None) token quoted cs
      else shlex_run Sx_word (c # token) quoted cs)"

definition shlex_split :: "string \<Rightarrow> string list option" where
  "shlex_split s = shlex_run Sx_space [] False s"

section \<open>Paths and hunk headers\<close>

definition diff_path :: "string \<Rightarrow> string option" where
  "diff_path raw =
     (let value = strip raw in
      if value = ''/dev/null'' then None
      else
        (let unquoted =
               (if startswith value [CHR 0x22]
                then (case shlex_split value of Some (t # _) \<Rightarrow> Some t | _ \<Rightarrow> None)
                else Some value) in
         case unquoted of
           None \<Rightarrow> None
         | Some v \<Rightarrow>
             (let p = (if startswith v ''a/'' \<or> startswith v ''b/'' then drop 2 v else v) in
              if p = [] then None else Some p)))"

definition strip_prefix :: "string \<Rightarrow> string \<Rightarrow> string option" where
  "strip_prefix p s = (if startswith s p then Some (drop (length p) s) else None)"

definition digits_of :: "string \<Rightarrow> (nat \<times> string) option" where
  "digits_of s =
     (let ds = takeWhile is_digit s in
      if ds = [] then None else Some (nat_of_digits ds, dropWhile is_digit s))"

text \<open>\<open>\d+(?:,\d+)?\<close>: the number before the comma and the rest.\<close>

definition hunk_range :: "string \<Rightarrow> (nat \<times> string) option" where
  "hunk_range s =
     (case digits_of s of
        None \<Rightarrow> None
      | Some (n, rest) \<Rightarrow>
          (case strip_prefix '','' rest of
             None \<Rightarrow> Some (n, rest)
           | Some rest' \<Rightarrow>
               (case digits_of rest' of None \<Rightarrow> Some (n, rest) | Some (_, r) \<Rightarrow> Some (n, r))))"

definition hunk_header :: "string \<Rightarrow> (nat \<times> nat) option" where
  "hunk_header line =
     Option.bind (strip_prefix ''@@ -'' line) (\<lambda>s.
     Option.bind (hunk_range s) (\<lambda>(old, s).
     Option.bind (strip_prefix '' +'' s) (\<lambda>s.
     Option.bind (hunk_range s) (\<lambda>(new, s).
     Option.bind (strip_prefix '' @@'' s) (\<lambda>_. Some (old, new))))))"

section \<open>Files\<close>

record diff_entry =
  de_marker :: char
  de_text :: string
  de_old_line :: "nat option"
  de_new_line :: "nat option"

record diff_file =
  df_old_path :: "string option"
  df_new_path :: "string option"
  df_raw_text :: string
  df_entries :: "diff_entry list"
  df_left_lines :: "nat set"
  df_right_lines :: "nat set"

definition comment_path :: "diff_file \<Rightarrow> string option" where
  "comment_path f = (case df_new_path f of Some p \<Rightarrow> Some p | None \<Rightarrow> df_old_path f)"

definition file_contains :: "diff_file \<Rightarrow> string \<Rightarrow> nat \<Rightarrow> bool" where
  "file_contains f side line \<longleftrightarrow>
     line \<in> (if side = ''RIGHT'' then df_right_lines f else df_left_lines f)"

definition entry_line :: "string \<Rightarrow> diff_entry \<Rightarrow> nat option" where
  "entry_line side e = (if side = ''RIGHT'' then de_new_line e else de_old_line e)"

fun find_index :: "('a \<Rightarrow> bool) \<Rightarrow> 'a list \<Rightarrow> nat option" where
  "find_index P [] = None"
| "find_index P (x # xs) = (if P x then Some 0 else map_option Suc (find_index P xs))"

definition pad_left :: "nat \<Rightarrow> string \<Rightarrow> string" where
  "pad_left w s = replicate (w - length s) CHR '' '' @ s"

definition line_label :: "nat option \<Rightarrow> string" where
  "line_label m = (case m of None \<Rightarrow> ''-'' | Some n \<Rightarrow> str_of_nat n)"

definition snippet_line :: "diff_entry \<Rightarrow> string" where
  "snippet_line e =
     pad_left 6 (line_label (de_old_line e)) @ '' '' @ pad_left 6 (line_label (de_new_line e))
       @ '' '' @ [de_marker e] @ de_text e"

definition file_snippet :: "diff_file \<Rightarrow> string \<Rightarrow> nat \<Rightarrow> nat \<Rightarrow> string" where
  "file_snippet f side line radius =
     (case find_index (\<lambda>e. entry_line side e = Some line \<and> de_marker e \<in> {CHR ''+'', CHR ''-''})
             (df_entries f) of
        None \<Rightarrow> []
      | Some i \<Rightarrow>
          (let start = i - radius;
               stop = min (length (df_entries f)) (i + radius + 1) in
           join newline (map snippet_line (take (stop - start) (drop start (df_entries f))))))"

definition parsed_file :: "diff_file list \<Rightarrow> string \<Rightarrow> diff_file option" where
  "parsed_file files path = find (\<lambda>f. comment_path f = Some path) files"

definition is_commentable :: "diff_file list \<Rightarrow> string \<Rightarrow> string \<Rightarrow> nat \<Rightarrow> bool" where
  "is_commentable files path side line =
     (case parsed_file files path of None \<Rightarrow> False | Some f \<Rightarrow> file_contains f side line)"

definition parsed_snippet :: "diff_file list \<Rightarrow> string \<Rightarrow> string \<Rightarrow> nat \<Rightarrow> string" where
  "parsed_snippet files path side line =
     (case parsed_file files path of None \<Rightarrow> [] | Some f \<Rightarrow> file_snippet f side line 5)"

section \<open>Parsing\<close>

record parse_state =
  ps_old_path :: "string option"
  ps_new_path :: "string option"
  ps_entries :: "diff_entry list"
  ps_left :: "nat set"
  ps_right :: "nat set"
  ps_at :: "(nat \<times> nat) option" \<comment> \<open>\<open>old_line\<close> and \<open>new_line\<close>, which are set together\<close>

definition parse_start :: parse_state where
  "parse_start = \<lparr>ps_old_path = None, ps_new_path = None, ps_entries = [], ps_left = {},
     ps_right = {}, ps_at = None\<rparr>"

definition parse_body_line :: "nat \<Rightarrow> nat \<Rightarrow> char \<Rightarrow> string \<Rightarrow> parse_state \<Rightarrow> parse_state" where
  "parse_body_line old new marker text ps =
     (if marker = CHR ''+'' then
        ps\<lparr>ps_entries := ps_entries ps @
             [\<lparr>de_marker = marker, de_text = text, de_old_line = None, de_new_line = Some new\<rparr>],
           ps_right := insert new (ps_right ps), ps_at := Some (old, new + 1)\<rparr>
      else if marker = CHR ''-'' then
        ps\<lparr>ps_entries := ps_entries ps @
             [\<lparr>de_marker = marker, de_text = text, de_old_line = Some old, de_new_line = None\<rparr>],
           ps_left := insert old (ps_left ps), ps_at := Some (old + 1, new)\<rparr>
      else if marker = CHR '' '' then
        ps\<lparr>ps_entries := ps_entries ps @
             [\<lparr>de_marker = marker, de_text = text, de_old_line = Some old, de_new_line = Some new\<rparr>],
           ps_at := Some (old + 1, new + 1)\<rparr>
      else ps)"

definition parse_line :: "string \<Rightarrow> parse_state \<Rightarrow> parse_state" where
  "parse_line line ps =
     (if startswith line ''--- '' then ps\<lparr>ps_old_path := diff_path (drop 4 line)\<rparr>
      else if startswith line ''+++ '' then ps\<lparr>ps_new_path := diff_path (drop 4 line)\<rparr>
      else
        (case hunk_header line of
           Some (old, new) \<Rightarrow> ps\<lparr>ps_at := Some (old, new)\<rparr>
         | None \<Rightarrow>
             (case (ps_at ps, line) of
                (Some (old, new), marker # text) \<Rightarrow> parse_body_line old new marker text ps
              | _ \<Rightarrow> ps)))"

definition parse_file :: "string \<Rightarrow> diff_file" where
  "parse_file raw =
     (let ps = fold parse_line (splitlines raw) parse_start in
      \<lparr>df_old_path = ps_old_path ps, df_new_path = ps_new_path ps, df_raw_text = raw,
       df_entries = ps_entries ps, df_left_lines = ps_left ps, df_right_lines = ps_right ps\<rparr>)"

fun diff_sections :: "string list \<Rightarrow> string list \<Rightarrow> string list" where
  "diff_sections current [] = (if current = [] then [] else [join newline current])"
| "diff_sections current (line # lines) =
     (if startswith line ''diff --git '' then
        (if current = [] then [] else [join newline current]) @ diff_sections [line] lines
      else if current = [] then diff_sections [] lines
      else diff_sections (current @ [line]) lines)"

definition parse_unified_diff :: "string \<Rightarrow> diff_file list" where
  "parse_unified_diff diff =
     filter (\<lambda>f. comment_path f \<noteq> None) (map parse_file (diff_sections [] (splitlines diff)))"

section \<open>Packing\<close>

definition truncation_marker :: string where
  "truncation_marker =
     newline @ ''... file diff truncated by Diffuse review budget ...'' @ newline"

text \<open>\<open>s[-n:]\<close>, which is all of \<open>s\<close> when \<open>n\<close> is 0.\<close>

definition py_suffix :: "nat \<Rightarrow> string \<Rightarrow> string" where
  "py_suffix n s = (if n = 0 then s else drop (length s - n) s)"

definition pack_section :: "nat \<Rightarrow> string \<Rightarrow> string" where
  "pack_section max_chars section =
     (if length section > max_chars then
        (if max_chars \<le> length truncation_marker then take max_chars section
         else
           (let remaining = max_chars - length truncation_marker in
            take ((remaining + 1) div 2) section @ truncation_marker
              @ py_suffix (remaining div 2) section))
      else section)"

definition chunk_sep :: string where
  "chunk_sep = newline @ newline"

fun pack_loop ::
  "nat \<Rightarrow> nat \<Rightarrow> string list \<Rightarrow> string list \<Rightarrow> nat \<Rightarrow> string set \<Rightarrow> diff_file list
   \<Rightarrow> string list \<times> string list \<times> string set" where
  "pack_loop max_chars max_chunks chunks current len reviewed [] = (chunks, current, reviewed)"
| "pack_loop max_chars max_chunks chunks current len reviewed (f # fs) =
     (if length chunks \<ge> max_chunks then (chunks, current, reviewed)
      else
        (let section = pack_section max_chars (df_raw_text f);
             added = length section + (if current = [] then 0 else 2);
             reviewed' = (case comment_path f of None \<Rightarrow> reviewed | Some p \<Rightarrow> insert p reviewed) in
         if current \<noteq> [] \<and> len + added > max_chars then
           (let chunks' = chunks @ [join chunk_sep current] in
            if length chunks' \<ge> max_chunks then (chunks', [], reviewed)
            else pack_loop max_chars max_chunks chunks' [section] added reviewed' fs)
         else pack_loop max_chars max_chunks chunks (current @ [section]) (len + added) reviewed' fs))"

definition pack_diff_files ::
  "diff_file list \<Rightarrow> int \<Rightarrow> int \<Rightarrow> (string list \<times> string set) option" where
  "pack_diff_files files max_chars max_chunks =
     (if max_chars \<le> 0 \<or> max_chunks \<le> 0 then None
      else
        (case pack_loop (nat max_chars) (nat max_chunks) [] [] 0 {} files of
           (chunks, current, reviewed) \<Rightarrow>
             Some (if current \<noteq> [] \<and> length chunks < nat max_chunks
                   then chunks @ [join chunk_sep current] else chunks,
                   reviewed)))"

end
