(* ===== verification/Diff_Props.thy ===== *)
theory Diff_Props
  imports Diff
begin

text \<open>
  What the diff component promises: a line is commentable exactly when a changed line of the file
  carries that number (and then a snippet exists), a printed diff parses back to the numbering of
  its edits, and the chunks packed for a prompt are a budgeted regrouping of a prefix of the files.
\<close>

section \<open>Commentable lines\<close>

definition changed_lines :: "string \<Rightarrow> diff_entry list \<Rightarrow> nat set" where
  "changed_lines side es =
     {n. \<exists>e \<in> set es. entry_line side e = Some n \<and> de_marker e \<in> {CHR ''+'', CHR ''-''}}"

definition entry_ok :: "diff_entry \<Rightarrow> bool" where
  "entry_ok e \<longleftrightarrow>
     (de_marker e = CHR ''+'' \<and> de_old_line e = None \<and> de_new_line e \<noteq> None) \<or>
     (de_marker e = CHR ''-'' \<and> de_old_line e \<noteq> None \<and> de_new_line e = None) \<or>
     (de_marker e = CHR '' '' \<and> de_old_line e \<noteq> None \<and> de_new_line e \<noteq> None)"

definition parse_inv :: "parse_state \<Rightarrow> bool" where
  "parse_inv ps \<longleftrightarrow>
     (\<forall>e \<in> set (ps_entries ps). entry_ok e) \<and>
     ps_right ps = changed_lines ''RIGHT'' (ps_entries ps) \<and>
     ps_left ps = changed_lines ''LEFT'' (ps_entries ps)"

lemma changed_lines_append:
  "changed_lines side (es @ [e]) = changed_lines side es \<union>
     {n. entry_line side e = Some n \<and> de_marker e \<in> {CHR ''+'', CHR ''-''}}"
  by (auto simp: changed_lines_def)

lemma parse_inv_start: "parse_inv parse_start"
  by (simp add: parse_inv_def parse_start_def changed_lines_def)

lemma parse_inv_body: "parse_inv ps \<Longrightarrow> parse_inv (parse_body_line old new c text ps)"
  by (auto simp: parse_inv_def parse_body_line_def entry_ok_def changed_lines_append entry_line_def)

lemma parse_inv_line: "parse_inv ps \<Longrightarrow> parse_inv (parse_line line ps)"
  by (auto simp: parse_line_def parse_inv_body split: option.splits list.splits)
     (auto simp: parse_inv_def)

lemma parse_inv_fold: "parse_inv ps \<Longrightarrow> parse_inv (fold parse_line ls ps)"
  by (induction ls arbitrary: ps) (auto intro: parse_inv_line)

lemma parse_file_inv:
  "df_right_lines (parse_file raw) = changed_lines ''RIGHT'' (df_entries (parse_file raw)) \<and>
   df_left_lines (parse_file raw) = changed_lines ''LEFT'' (df_entries (parse_file raw))"
  using parse_inv_fold[OF parse_inv_start, of "splitlines raw"]
  by (simp add: parse_file_def Let_def parse_inv_def)

lemma file_contains_changed:
  "file_contains (parse_file raw) side line \<longleftrightarrow>
   line \<in> changed_lines (if side = ''RIGHT'' then ''RIGHT'' else ''LEFT'') (df_entries (parse_file raw))"
  by (simp add: file_contains_def parse_file_inv)

lemma changed_lines_side:
  "changed_lines (if side = ''RIGHT'' then ''RIGHT'' else ''LEFT'') es = changed_lines side es"
  by (simp add: changed_lines_def entry_line_def)

lemma find_index_None_iff: "find_index P xs = None \<longleftrightarrow> (\<forall>x \<in> set xs. \<not> P x)"
  by (induction xs) auto

lemma find_index_Some: "find_index P xs = Some i \<Longrightarrow> i < length xs \<and> P (xs ! i)"
  by (induction xs arbitrary: i) (auto split: if_splits)

lemma snippet_line_ne: "snippet_line e \<noteq> []"
  by (simp add: snippet_line_def)

lemma join_ne: "xs \<noteq> [] \<Longrightarrow> (\<forall>x \<in> set xs. x \<noteq> []) \<Longrightarrow> join sep xs \<noteq> []"
  by (induction sep xs rule: join.induct) auto

lemma file_snippet_ne:
  "file_snippet f side line radius \<noteq> [] \<longleftrightarrow> line \<in> changed_lines side (df_entries f)"
proof (cases "find_index (\<lambda>e. entry_line side e = Some line \<and> de_marker e \<in> {CHR ''+'', CHR ''-''})
             (df_entries f)")
  case None
  then have "file_snippet f side line radius = []" unfolding file_snippet_def by (simp only: option.case)
  moreover have "line \<notin> changed_lines side (df_entries f)"
    using None unfolding find_index_None_iff changed_lines_def by blast
  ultimately show ?thesis by simp
next
  case (Some i)
  note i = find_index_Some[OF Some]
  have "line \<in> changed_lines side (df_entries f)"
    using i unfolding changed_lines_def by (auto intro: nth_mem)
  moreover have "file_snippet f side line radius \<noteq> []"
  proof -
    let ?ls = "map snippet_line (take (min (length (df_entries f)) (i + radius + 1) - (i - radius))
                 (drop (i - radius) (df_entries f)))"
    have "file_snippet f side line radius = join newline ?ls"
      unfolding file_snippet_def by (simp only: Some option.case Let_def)
    moreover have "?ls \<noteq> []" "\<forall>x \<in> set ?ls. x \<noteq> []"
      using i by (auto simp: snippet_line_ne)
    ultimately show ?thesis by (simp only: join_ne not_False_eq_True)
  qed
  ultimately show ?thesis by simp
qed

lemma parsed_file_from: "parsed_file (parse_unified_diff diff) path = Some f \<Longrightarrow> \<exists>raw. f = parse_file raw"
proof -
  assume "parsed_file (parse_unified_diff diff) path = Some f"
  then have "f \<in> set (parse_unified_diff diff)"
    by (auto simp: parsed_file_def find_Some_iff)
  then show ?thesis by (auto simp: parse_unified_diff_def)
qed

text \<open>For any diff text, path, side and line: the line is commentable exactly when some added or
  removed line of that file has that number on that side, and exactly then the snippet shown to
  the reader is not empty.\<close>

lemma commentable_iff_changed:
  "is_commentable (parse_unified_diff diff) path side line =
     (case parsed_file (parse_unified_diff diff) path of
        None \<Rightarrow> False
      | Some f \<Rightarrow> (\<exists>e \<in> set (df_entries f). entry_line side e = Some line \<and>
                      (de_marker e = CHR ''+'' \<or> de_marker e = CHR ''-''))) \<and>
   (is_commentable (parse_unified_diff diff) path side line \<longleftrightarrow>
      parsed_snippet (parse_unified_diff diff) path side line \<noteq> [])"
proof (cases "parsed_file (parse_unified_diff diff) path")
  case None
  then show ?thesis by (simp add: is_commentable_def parsed_snippet_def)
next
  case (Some f)
  obtain raw where "f = parse_file raw" using parsed_file_from[OF Some] by blast
  then have "file_contains f side line \<longleftrightarrow> line \<in> changed_lines side (df_entries f)"
    by (simp add: file_contains_changed changed_lines_side)
  then show ?thesis
    using Some file_snippet_ne[of f side line 5]
    by (simp add: is_commentable_def parsed_snippet_def) (auto simp: changed_lines_def)
qed

section \<open>Packing\<close>

lemma truncation_marker_length: "length truncation_marker = 54"
  by (simp add: truncation_marker_def newline_def)

lemma pack_section_length:
  assumes "0 < m" "m \<noteq> 55"
  shows "length (pack_section m s) \<le> m"
proof (cases "length s > m \<and> m > 54")
  case True
  let ?r = "m - 54"
  have r: "?r div 2 \<noteq> 0" "(?r + 1) div 2 + ?r div 2 = ?r" "?r \<le> length s" using True assms(2) by auto
  then have "length (pack_section m s) = (?r + 1) div 2 + 54 + ?r div 2"
    using True by (simp add: pack_section_def truncation_marker_length Let_def py_suffix_def min_def)
  also have "\<dots> = m" using r(2) True by linarith
  finally show ?thesis by simp
next
  case False
  then show ?thesis
    by (auto simp: pack_section_def truncation_marker_length not_less)
qed

definition pack_inv :: "nat \<Rightarrow> nat \<Rightarrow> string list list \<Rightarrow> string list \<Rightarrow> nat \<Rightarrow> bool" where
  "pack_inv m k groups current len \<longleftrightarrow>
     (\<forall>g \<in> set groups. g \<noteq> [] \<and> length (join chunk_sep g) \<le> m) \<and> length groups \<le> k \<and>
     (current \<noteq> [] \<longrightarrow> length groups < k) \<and>
     length (join chunk_sep current) \<le> len \<and> (current \<noteq> [] \<longrightarrow> len \<le> m + 2) \<and>
     (current \<noteq> [] \<longrightarrow> length (join chunk_sep current) \<le> m) \<and> (current = [] \<longrightarrow> len = 0)"

lemma join_snoc_length:
  "length (join sep (xs @ [x])) =
     length (join sep xs) + length x + (if xs = [] then 0 else length sep)"
  by (cases xs) (auto simp: join_length)

lemma chunk_sep_length: "length chunk_sep = 2"
  by (simp add: chunk_sep_def newline_def)

definition file_paths :: "diff_file list \<Rightarrow> string set" where
  "file_paths fs = {p. \<exists>f \<in> set fs. comment_path f = Some p}"

lemma file_paths_Cons:
  "file_paths (f # fs) = (case comment_path f of None \<Rightarrow> file_paths fs | Some p \<Rightarrow> insert p (file_paths fs))"
  by (auto simp: file_paths_def split: option.split)

text \<open>The loop regroups the sections of a prefix of the files; it stops early only when it is full.\<close>

lemma pack_loop_spec:
  assumes m: "0 < m" "m \<noteq> 55" "0 < k" and inv: "pack_inv m k groups current len"
    and run: "pack_loop m k (map (join chunk_sep) groups) current len seen fs = (chunks, cur, seen')"
  shows "\<exists>groups' n len'. chunks = map (join chunk_sep) groups' \<and> pack_inv m k groups' cur len' \<and>
    n \<le> length fs \<and>
    concat groups' @ cur = concat groups @ current @ map (pack_section m \<circ> df_raw_text) (take n fs) \<and>
    seen' = seen \<union> file_paths (take n fs) \<and> (n < length fs \<longrightarrow> length groups' = k \<and> cur = [])"
  using inv run
proof (induction fs arbitrary: groups current len seen)
  case Nil
  then show ?case
    by (intro exI[of _ groups] exI[of _ 0] exI[of _ len]) (auto simp: file_paths_def)
next
  case (Cons f fs)
  let ?s = "pack_section m (df_raw_text f)"
  let ?added = "length ?s + (if current = [] then 0 else 2)"
  let ?seen = "case comment_path f of None \<Rightarrow> seen | Some p \<Rightarrow> insert p seen"
  have s: "length ?s \<le> m" by (rule pack_section_length[OF m(1,2)])
  have paths: "?seen \<union> file_paths (take n fs) = seen \<union> file_paths (f # take n fs)" for n
    by (auto simp: file_paths_Cons split: option.split)
  consider (full) "length groups \<ge> k" | (flush) "length groups < k" "current \<noteq> []" "len + ?added > m"
    | (add) "length groups < k" "current = [] \<or> len + ?added \<le> m" by linarith
  then show ?case
  proof cases
    case full
    then have "current = []" "length groups = k" using Cons.prems(1) by (auto simp: pack_inv_def)
    then show ?thesis
      using Cons.prems full
      by (intro exI[of _ groups] exI[of _ 0] exI[of _ len]) (auto simp: file_paths_def)
  next
    case flush
    let ?groups = "groups @ [current]"
    have g: "pack_inv m k ?groups [] 0" using Cons.prems(1) flush by (auto simp: pack_inv_def)
    show ?thesis
    proof (cases "length ?groups \<ge> k")
      case True
      then have "chunks = map (join chunk_sep) ?groups" "cur = []" "seen' = seen"
        using Cons.prems(2) flush by (auto simp: Let_def)
      then show ?thesis
        using g True flush
        by (intro exI[of _ ?groups] exI[of _ 0] exI[of _ 0]) (auto simp: file_paths_def)
    next
      case False
      have inv': "pack_inv m k ?groups [?s] ?added"
        using Cons.prems(1) flush False s by (auto simp: pack_inv_def)
      have "pack_loop m k (map (join chunk_sep) ?groups) [?s] ?added ?seen fs = (chunks, cur, seen')"
        using Cons.prems(2) flush False by (simp add: Let_def)
      from Cons.IH[OF inv' this] obtain groups' n len' where
        "chunks = map (join chunk_sep) groups'" "pack_inv m k groups' cur len'" "n \<le> length fs"
        "concat groups' @ cur = concat ?groups @ [?s] @ map (pack_section m \<circ> df_raw_text) (take n fs)"
        "seen' = ?seen \<union> file_paths (take n fs)" "n < length fs \<longrightarrow> length groups' = k \<and> cur = []"
        by (elim exE conjE)
      then show ?thesis
        using paths[of n] by (intro exI[of _ groups'] exI[of _ "Suc n"] exI[of _ len']) auto
    qed
  next
    case add
    have inv': "pack_inv m k groups (current @ [?s]) (len + ?added)"
      using Cons.prems(1) add s
      by (auto simp: pack_inv_def join_snoc_length chunk_sep_length)
    have "pack_loop m k (map (join chunk_sep) groups) (current @ [?s]) (len + ?added) ?seen fs = (chunks, cur, seen')"
      using Cons.prems(2) add by (auto simp: Let_def)
    from Cons.IH[OF inv' this] obtain groups' n len' where
      "chunks = map (join chunk_sep) groups'" "pack_inv m k groups' cur len'" "n \<le> length fs"
      "concat groups' @ cur = concat groups @ (current @ [?s]) @ map (pack_section m \<circ> df_raw_text) (take n fs)"
      "seen' = ?seen \<union> file_paths (take n fs)" "n < length fs \<longrightarrow> length groups' = k \<and> cur = []"
      by (elim exE conjE)
    then show ?thesis
      using paths[of n] by (intro exI[of _ groups'] exI[of _ "Suc n"] exI[of _ len']) auto
  qed
qed

text \<open>C12: Packing with positive limits never fails, produces at most the allowed number of chunks, each
  within the character budget, and is a regrouping in order of the (possibly truncated) sections
  of a prefix of the files; the reviewed paths are exactly those of that prefix, and a file is
  left out only when all chunks are used.  The one exception is the budget that leaves a single
  character beside the truncation marker.\<close>

theorem pack_diff_files_respects_budget:
  assumes "0 < max_chars" "0 < max_chunks" "max_chars \<noteq> 55"
  shows "\<exists>groups n. n \<le> length files \<and>
    pack_diff_files files max_chars max_chunks =
      Some (map (join chunk_sep) groups, file_paths (take n files)) \<and>
    concat groups = map (\<lambda>f. pack_section (nat max_chars) (df_raw_text f)) (take n files) \<and>
    int (length groups) \<le> max_chunks \<and>
    (\<forall>g \<in> set groups. g \<noteq> [] \<and> int (length (join chunk_sep g)) \<le> max_chars) \<and>
    (n < length files \<longrightarrow> int (length groups) = max_chunks)"
proof -
  let ?m = "nat max_chars" and ?k = "nat max_chunks"
  obtain chunks cur seen where run: "pack_loop ?m ?k [] [] 0 {} files = (chunks, cur, seen)"
    by (cases "pack_loop ?m ?k [] [] 0 {} files")
  have inv: "pack_inv ?m ?k [] [] 0" by (simp add: pack_inv_def)
  have m: "0 < ?m" "?m \<noteq> 55" "0 < ?k" using assms by auto
  have run': "pack_loop ?m ?k (map (join chunk_sep) []) [] 0 {} files = (chunks, cur, seen)"
    using run by simp
  from pack_loop_spec[OF m inv run'] obtain groups n len where
    g: "chunks = map (join chunk_sep) groups" "pack_inv ?m ?k groups cur len" "n \<le> length files"
    "concat groups @ cur = concat [] @ [] @ map (pack_section ?m \<circ> df_raw_text) (take n files)"
    "seen = {} \<union> file_paths (take n files)" "n < length files \<longrightarrow> length groups = ?k \<and> cur = []"
    by (elim exE conjE)
  let ?groups = "if cur = [] then groups else groups @ [cur]"
  have res: "pack_diff_files files max_chars max_chunks = Some (map (join chunk_sep) ?groups, seen)"
    using assms run g(1,2) by (auto simp: pack_diff_files_def pack_inv_def)
  have cat: "concat ?groups = map (\<lambda>f. pack_section ?m (df_raw_text f)) (take n files)"
    using g(4) by (auto simp: comp_def)
  have len: "length ?groups \<le> ?k" using g(2) by (auto simp: pack_inv_def)
  have each: "\<forall>c \<in> set ?groups. c \<noteq> [] \<and> length (join chunk_sep c) \<le> ?m"
    using g(2) by (auto simp: pack_inv_def)
  have full: "n < length files \<longrightarrow> length ?groups = ?k" using g(6) by simp
  show ?thesis
  proof (intro exI[of _ ?groups] exI[of _ n] conjI g(3) cat)
    show "pack_diff_files files max_chars max_chunks =
            Some (map (join chunk_sep) ?groups, file_paths (take n files))"
      using res g(5) by simp
    show "int (length ?groups) \<le> max_chunks" using len assms(2) by linarith
    show "\<forall>c \<in> set ?groups. c \<noteq> [] \<and> int (length (join chunk_sep c)) \<le> max_chars"
      using each assms(1) by (metis int_nat_eq nat_int_comparison(3) order_less_imp_le)
    show "n < length files \<longrightarrow> int (length ?groups) = max_chunks"
      using full assms(2) by (metis int_nat_eq order_less_imp_le)
  qed
qed

theorem pack_diff_files_respects_budget_witness:
  "\<exists>groups n. pack_diff_files [parse_file ''diff''] 200 2 = Some (map (join chunk_sep) groups, n) \<and>
     (\<forall>g \<in> set groups. int (length (join chunk_sep g)) \<le> 200)"
  using pack_diff_files_respects_budget[of 200 2 "[parse_file ''diff'']"] by auto

end
