(* ===== verification/Diff_Roundtrip.thy ===== *)
theory Diff_Roundtrip
  imports Diff_Props
begin

text \<open>
  The diffs Git prints, as data (modified, added, deleted and renamed files with their extended header
  lines, hunks, edits), and the proof that \<open>parse_unified_diff\<close> reads them back with the numbering the
  edits imply.  \<open>file_plain\<close> collects what is asked of a diff: names Git prints unquoted, none ending in
  white space; in no line a character besides the newline at which \<open>str.splitlines\<close> breaks (carriage
  return, vertical tab, form feed, the file, group and record separators, NEL); and no removed
  (inserted) line whose text makes it look like a \<open>---\<close> (\<open>+++\<close>) header; the last section shows what
  happens otherwise.
\<close>

section \<open>Lines\<close>

definition plain_line :: "string \<Rightarrow> bool" where
  "plain_line s \<longleftrightarrow> (\<forall>c \<in> set s. \<not> is_line_break c)"

lemma splitlines_step: "\<not> is_line_break c \<Longrightarrow> splitlines_acc acc (c # s) = splitlines_acc (c # acc) s"
  by (cases s) (auto simp: is_line_break_def)

lemma splitlines_newline: "splitlines_acc acc (newline @ s) = rev acc # splitlines_acc [] s"
  by (cases s) (auto simp: newline_def is_line_break_def)

lemma splitlines_plain: "plain_line l \<Longrightarrow> splitlines_acc acc (l @ s) = splitlines_acc (rev l @ acc) s"
  by (induction l arbitrary: acc) (auto simp: plain_line_def splitlines_step)

lemma splitlines_printed:
  assumes "\<forall>l \<in> set ls. plain_line l"
  shows "splitlines (concat (map (\<lambda>l. l @ newline) ls)) = ls"
proof -
  have "splitlines_acc [] (concat (map (\<lambda>l. l @ newline) ls)) = ls"
    using assms by (induction ls) (simp_all add: splitlines_plain splitlines_newline)
  then show ?thesis by (simp add: splitlines_def)
qed

lemma splitlines_join:
  assumes "\<forall>l \<in> set ls. plain_line l \<and> l \<noteq> []"
  shows "splitlines (join newline ls) = ls"
proof -
  have "splitlines_acc [] (join newline ls) = ls"
    using assms
  proof (induction "newline" ls rule: join.induct)
    case 1
    then show ?case by simp
  next
    case (2 x)
    then show ?case using splitlines_plain[of x "[]" "[]"] by simp
  next
    case (3 x y ys)
    then show ?case by (simp add: splitlines_plain splitlines_newline)
  qed
  then show ?thesis by (simp add: splitlines_def)
qed

section \<open>Printed diffs\<close>

datatype edit = Keep string | Insert string | Remove string | No_newline

record hunk =
  hk_old :: nat
  hk_new :: nat
  hk_edits :: "edit list"
  hk_context :: string

fun edit_line :: "edit \<Rightarrow> string" where
  "edit_line (Keep s) = CHR '' '' # s"
| "edit_line (Insert s) = CHR ''+'' # s"
| "edit_line (Remove s) = CHR ''-'' # s"
| "edit_line No_newline = CHR 0x5C # '' No newline at end of file''"

fun number_edits :: "nat \<Rightarrow> nat \<Rightarrow> edit list \<Rightarrow> diff_entry list" where
  "number_edits old new [] = []"
| "number_edits old new (Keep s # es) =
     \<lparr>de_marker = CHR '' '', de_text = s, de_old_line = Some old, de_new_line = Some new\<rparr>
       # number_edits (old + 1) (new + 1) es"
| "number_edits old new (Insert s # es) =
     \<lparr>de_marker = CHR ''+'', de_text = s, de_old_line = None, de_new_line = Some new\<rparr>
       # number_edits old (new + 1) es"
| "number_edits old new (Remove s # es) =
     \<lparr>de_marker = CHR ''-'', de_text = s, de_old_line = Some old, de_new_line = None\<rparr>
       # number_edits (old + 1) new es"
| "number_edits old new (No_newline # es) = number_edits old new es"

definition old_count :: "edit list \<Rightarrow> nat" where
  "old_count es = length (filter (\<lambda>e. case e of Keep _ \<Rightarrow> True | Remove _ \<Rightarrow> True | _ \<Rightarrow> False) es)"

definition new_count :: "edit list \<Rightarrow> nat" where
  "new_count es = length (filter (\<lambda>e. case e of Keep _ \<Rightarrow> True | Insert _ \<Rightarrow> True | _ \<Rightarrow> False) es)"

definition hunk_lines :: "hunk \<Rightarrow> string list" where
  "hunk_lines h =
     (''@@ -'' @ str_of_nat (hk_old h) @ '','' @ str_of_nat (old_count (hk_edits h)) @ '' +''
        @ str_of_nat (hk_new h) @ '','' @ str_of_nat (new_count (hk_edits h)) @ '' @@'' @ hk_context h)
     # map edit_line (hk_edits h)"

text \<open>
  A file: its old and its new path, of which an added or a deleted file has only one, its extended header
  lines (\<open>index\<close>, \<open>new file mode\<close>, \<open>rename from\<close>, \<dots>) and its hunks.  Git writes a tab behind a name that has a
  space in it.
\<close>

record printed_file =
  pf_old :: "string option"
  pf_new :: "string option"
  pf_header :: "string list"
  pf_hunks :: "hunk list"

definition side_line :: "char \<Rightarrow> string option \<Rightarrow> string" where
  "side_line side m =
     (case m of
        None \<Rightarrow> ''/dev/null''
      | Some p \<Rightarrow> side # CHR ''/'' # p @ (if CHR '' '' \<in> set p then [char_of (9::nat)] else []))"

definition name_in_header :: "string option \<Rightarrow> string option \<Rightarrow> string" where
  "name_in_header m k = (case m of Some p \<Rightarrow> p | None \<Rightarrow> (case k of Some p \<Rightarrow> p | None \<Rightarrow> []))"

definition file_diff :: "printed_file \<Rightarrow> string list" where
  "file_diff f =
     (''diff --git a/'' @ name_in_header (pf_old f) (pf_new f) @ '' b/'' @ name_in_header (pf_new f) (pf_old f))
     # pf_header f @ [''--- '' @ side_line (CHR ''a'') (pf_old f), ''+++ '' @ side_line (CHR ''b'') (pf_new f)]
     @ concat (map hunk_lines (pf_hunks f))"

definition diff_text :: "printed_file list \<Rightarrow> string" where
  "diff_text fs = concat (map (\<lambda>l. l @ newline) (concat (map file_diff fs)))"

fun edit_plain :: "edit \<Rightarrow> bool" where
  "edit_plain (Keep s) \<longleftrightarrow> plain_line s"
| "edit_plain (Insert s) \<longleftrightarrow> plain_line s \<and> \<not> startswith s ''++ ''"
| "edit_plain (Remove s) \<longleftrightarrow> plain_line s \<and> \<not> startswith s ''-- ''"
| "edit_plain No_newline \<longleftrightarrow> True"

definition path_plain :: "string \<Rightarrow> bool" where
  "path_plain p \<longleftrightarrow> p \<noteq> [] \<and> plain_line p \<and> \<not> is_space (last p)"

definition header_plain :: "string \<Rightarrow> bool" where
  "header_plain l \<longleftrightarrow> l \<noteq> [] \<and> plain_line l \<and> \<not> startswith l ''--- '' \<and> \<not> startswith l ''+++ '' \<and>
     \<not> startswith l ''@@ -'' \<and> \<not> startswith l ''diff --git ''"

definition file_plain :: "printed_file \<Rightarrow> bool" where
  "file_plain f \<longleftrightarrow>
     (pf_old f \<noteq> None \<or> pf_new f \<noteq> None) \<and>
     (\<forall>p \<in> set_option (pf_old f) \<union> set_option (pf_new f). path_plain p) \<and>
     (\<forall>l \<in> set (pf_header f). header_plain l) \<and>
     (\<forall>h \<in> set (pf_hunks f). plain_line (hk_context h) \<and> (\<forall>e \<in> set (hk_edits h). edit_plain e))"

section \<open>Reading the lines back\<close>

lemma digit_not_break: "is_digit c \<Longrightarrow> \<not> is_line_break c"
  by (auto simp: is_digit_def is_line_break_def)

lemma plain_line_append [simp]: "plain_line (a @ b) \<longleftrightarrow> plain_line a \<and> plain_line b"
  by (auto simp: plain_line_def)

lemma plain_line_Cons [simp]: "plain_line (c # s) \<longleftrightarrow> \<not> is_line_break c \<and> plain_line s"
  by (auto simp: plain_line_def)

lemma plain_line_Nil [simp]: "plain_line []"
  by (simp add: plain_line_def)

lemma plain_str_of_nat [simp]: "plain_line (str_of_nat n)"
  using str_of_nat_digits[of n] digit_not_break by (auto simp: plain_line_def)

lemma edit_line_plain: "edit_plain e \<Longrightarrow> plain_line (edit_line e) \<and> edit_line e \<noteq> []"
  by (cases e) (auto simp: is_line_break_def code_def)

lemma hunk_lines_plain:
  assumes "plain_line (hk_context h)" "\<forall>e \<in> set (hk_edits h). edit_plain e"
  shows "\<forall>l \<in> set (hunk_lines h). plain_line l \<and> l \<noteq> []"
  using assms edit_line_plain by (auto simp: hunk_lines_def is_line_break_def code_def)

lemma file_names_plain:
  assumes "file_plain f"
  shows "plain_line (name_in_header (pf_old f) (pf_new f))" "plain_line (name_in_header (pf_new f) (pf_old f))"
    "plain_line (side_line d (pf_old f)) \<longleftrightarrow> pf_old f = None \<or> \<not> is_line_break d"
    "plain_line (side_line d (pf_new f)) \<longleftrightarrow> pf_new f = None \<or> \<not> is_line_break d"
  using assms by (auto simp: file_plain_def path_plain_def name_in_header_def side_line_def is_line_break_def code_def
      split: option.splits)

lemma file_diff_plain:
  assumes "file_plain f"
  shows "\<forall>l \<in> set (file_diff f). plain_line l \<and> l \<noteq> []"
proof -
  have "\<forall>l \<in> set (concat (map hunk_lines (pf_hunks f))). plain_line l \<and> l \<noteq> []"
    using assms hunk_lines_plain by (fastforce simp: file_plain_def)
  moreover have "\<forall>l \<in> set (pf_header f). plain_line l \<and> l \<noteq> []"
    using assms by (auto simp: file_plain_def header_plain_def)
  ultimately show ?thesis
    using file_names_plain[OF assms] unfolding file_diff_def by (auto simp: is_line_break_def code_def)
qed

lemma strip_tail:
  assumes "a \<noteq> []" "\<not> is_space (hd a)" "\<not> is_space (last a)" "\<forall>c \<in> set t. is_space c"
  shows "strip (a @ t) = a"
proof -
  have "lstrip (rev t @ r) = lstrip r" for r using assms(4) by (induction t arbitrary: r) auto
  moreover have "lstrip (rev a) = rev a" by (rule lstrip_fixed) (use assms(1,3) in \<open>simp add: hd_rev\<close>)
  moreover have "lstrip (a @ t) = a @ t" by (rule lstrip_fixed) (use assms(1,2) in simp)
  ultimately show ?thesis by (simp add: strip_def)
qed

lemma diff_path_side:
  assumes "\<forall>p \<in> set_option m. path_plain p" "d = CHR ''a'' \<or> d = CHR ''b''"
  shows "diff_path (side_line d m) = m"
proof (cases m)
  case None
  have "diff_path ''/dev/null'' = None" by code_simp
  then show ?thesis using None by (simp add: side_line_def)
next
  case (Some p)
  let ?v = "d # CHR ''/'' # p"
  have p: "p \<noteq> []" "\<not> is_space (last p)" using assms(1) Some by (auto simp: path_plain_def)
  have hd: "\<not> is_space d" using assms(2) by (auto simp: is_space_def code_def)
  have "\<forall>c \<in> set (if CHR '' '' \<in> set p then [char_of (9::nat)] else []). is_space c" by (simp add: is_space_def code_def)
  then have "strip (?v @ (if CHR '' '' \<in> set p then [char_of (9::nat)] else [])) = ?v"
    by (intro strip_tail) (use p hd in auto)
  then have "strip (side_line d m) = ?v" using Some by (simp add: side_line_def)
  then show ?thesis
    using p(1) assms(2) Some by (auto simp: diff_path_def Let_def startswith_def)
qed

lemma digits_of_str:
  assumes "rest = [] \<or> \<not> is_digit (hd rest)"
  shows "digits_of (str_of_nat n @ rest) = Some (n, rest)"
proof -
  have "takeWhile is_digit (str_of_nat n @ rest) = str_of_nat n"
    using assms str_of_nat_digits[of n]
    by (subst takeWhile_append2) (auto simp: takeWhile_eq_Nil_iff)
  moreover have "dropWhile is_digit (str_of_nat n @ rest) = rest"
    using assms str_of_nat_digits[of n]
    by (subst dropWhile_append2) (auto simp: dropWhile_eq_self_iff)
  ultimately show ?thesis by (simp add: digits_of_def)
qed

lemma hunk_range_str:
  "r = [] \<or> \<not> is_digit (hd r) \<Longrightarrow>
   hunk_range (str_of_nat n @ '','' @ str_of_nat k @ r) = Some (n, r)"
  by (simp add: hunk_range_def digits_of_str is_digit_def code_def strip_prefix_def startswith_def)

lemma strip_prefix_append [simp]: "strip_prefix p (p @ s) = Some s"
  by (simp add: strip_prefix_def)

lemma hunk_header_printed:
  "hunk_header (''@@ -'' @ str_of_nat a @ '','' @ str_of_nat b @ '' +'' @ str_of_nat c @ '','' @
      str_of_nat d @ '' @@'' @ s) = Some (a, c)"
proof -
  have "hunk_range (str_of_nat c @ '','' @ str_of_nat d @ '' @@'' @ s) = Some (c, '' @@'' @ s)"
    by (rule hunk_range_str) (simp add: is_digit_def code_def)
  moreover have "hunk_range (str_of_nat a @ '','' @ str_of_nat b @ '' +'' @ t) = Some (a, '' +'' @ t)" for t
    by (rule hunk_range_str) (simp add: is_digit_def code_def)
  ultimately show ?thesis
    unfolding hunk_header_def by (simp only: strip_prefix_append Option.bind.simps prod.case)
qed

lemma parse_edit:
  assumes "edit_plain e" "ps_at ps = Some (old, new)"
  shows "parse_line (edit_line e) ps = parse_body_line old new (hd (edit_line e)) (tl (edit_line e)) ps"
proof -
  have "hunk_header (edit_line e) = None"
    by (cases e) (simp_all add: hunk_header_def strip_prefix_def startswith_def)
  moreover have "\<not> startswith (edit_line e) ''--- ''" "\<not> startswith (edit_line e) ''+++ ''"
    using assms(1) by (cases e; simp add: startswith_def)+
  ultimately show ?thesis using assms(2) by (cases e) (simp_all add: parse_line_def)
qed

lemma parse_edits:
  assumes "\<forall>e \<in> set es. edit_plain e" "ps_at ps = Some (old, new)"
  shows "ps_entries (fold parse_line (map edit_line es) ps) = ps_entries ps @ number_edits old new es \<and>
         ps_new_path (fold parse_line (map edit_line es) ps) = ps_new_path ps \<and>
         ps_old_path (fold parse_line (map edit_line es) ps) = ps_old_path ps"
  using assms
proof (induction es arbitrary: ps old new)
  case Nil
  then show ?case by simp
next
  case (Cons e es)
  have e: "parse_line (edit_line e) ps = parse_body_line old new (hd (edit_line e)) (tl (edit_line e)) ps"
    using Cons.prems by (intro parse_edit) auto
  show ?case
    using Cons.IH[of "parse_line (edit_line e) ps"] Cons.prems unfolding list.map fold_simps e
    by (cases e) (simp_all add: parse_body_line_def)
qed

definition hunk_entries :: "hunk \<Rightarrow> diff_entry list" where
  "hunk_entries h = number_edits (hk_old h) (hk_new h) (hk_edits h)"

lemma parse_hunk:
  assumes "\<forall>e \<in> set (hk_edits h). edit_plain e"
  shows "ps_entries (fold parse_line (hunk_lines h) ps) = ps_entries ps @ hunk_entries h \<and>
         ps_new_path (fold parse_line (hunk_lines h) ps) = ps_new_path ps \<and>
         ps_old_path (fold parse_line (hunk_lines h) ps) = ps_old_path ps"
proof -
  let ?head = "hd (hunk_lines h)"
  have "hunk_header ?head = Some (hk_old h, hk_new h)"
    unfolding hunk_lines_def by (simp only: list.sel hunk_header_printed)
  moreover have "\<not> startswith ?head ''--- ''" "\<not> startswith ?head ''+++ ''"
    by (simp_all add: hunk_lines_def startswith_def)
  ultimately have "parse_line ?head ps = ps\<lparr>ps_at := Some (hk_old h, hk_new h)\<rparr>"
    by (simp add: parse_line_def)
  moreover have "hunk_lines h = ?head # map edit_line (hk_edits h)" by (simp add: hunk_lines_def)
  ultimately have "fold parse_line (hunk_lines h) ps =
      fold parse_line (map edit_line (hk_edits h)) (ps\<lparr>ps_at := Some (hk_old h, hk_new h)\<rparr>)"
    by (metis fold_simps(2))
  then show ?thesis
    using parse_edits[OF assms, of "ps\<lparr>ps_at := Some (hk_old h, hk_new h)\<rparr>"] by (simp add: hunk_entries_def)
qed

lemma parse_hunks:
  assumes "\<forall>h \<in> set hs. \<forall>e \<in> set (hk_edits h). edit_plain e"
  shows "ps_entries (fold parse_line (concat (map hunk_lines hs)) ps) =
           ps_entries ps @ concat (map hunk_entries hs) \<and>
         ps_new_path (fold parse_line (concat (map hunk_lines hs)) ps) = ps_new_path ps \<and>
         ps_old_path (fold parse_line (concat (map hunk_lines hs)) ps) = ps_old_path ps"
  using assms
proof (induction hs arbitrary: ps)
  case (Cons h hs)
  then show ?case using parse_hunk[of h ps] Cons.IH[of "fold parse_line (hunk_lines h) ps"] by simp
qed simp

lemma parse_header:
  assumes "\<forall>l \<in> set ls. header_plain l"
  shows "fold parse_line ls parse_start = parse_start"
proof -
  have "parse_line l parse_start = parse_start" if "l \<in> set ls" for l
    using assms that
    by (auto simp: header_plain_def parse_line_def parse_start_def hunk_header_def strip_prefix_def)
  then show ?thesis by (induction ls) auto
qed

lemma parse_file_printed:
  assumes "file_plain f"
  shows "df_old_path (parse_file (join newline (file_diff f))) = pf_old f"
    "df_new_path (parse_file (join newline (file_diff f))) = pf_new f"
    "df_entries (parse_file (join newline (file_diff f))) = concat (map hunk_entries (pf_hunks f))"
proof -
  have lines: "splitlines (join newline (file_diff f)) = file_diff f"
    by (rule splitlines_join) (rule file_diff_plain[OF assms])
  let ?first = "''diff --git a/'' @ name_in_header (pf_old f) (pf_new f) @ '' b/'' @ name_in_header (pf_new f) (pf_old f)"
  have l1: "parse_line ?first parse_start = parse_start"
    by (simp add: parse_line_def parse_start_def startswith_def hunk_header_def strip_prefix_def)
  have lh: "fold parse_line (pf_header f) parse_start = parse_start"
    using assms by (intro parse_header) (simp add: file_plain_def)
  have paths: "diff_path (side_line (CHR ''a'') (pf_old f)) = pf_old f" "diff_path (side_line (CHR ''b'') (pf_new f)) = pf_new f"
    using assms by (intro diff_path_side; auto simp: file_plain_def)+
  have l2: "parse_line (''--- '' @ side_line (CHR ''a'') (pf_old f)) ps = ps\<lparr>ps_old_path := pf_old f\<rparr>" for ps
    using paths(1) by (simp add: parse_line_def startswith_def)
  have l3: "parse_line (''+++ '' @ side_line (CHR ''b'') (pf_new f)) ps = ps\<lparr>ps_new_path := pf_new f\<rparr>" for ps
    using paths(2) by (simp add: parse_line_def startswith_def)
  let ?ps = "parse_start\<lparr>ps_old_path := pf_old f, ps_new_path := pf_new f\<rparr>"
  have "fold parse_line (file_diff f) parse_start =
      fold parse_line (concat (map hunk_lines (pf_hunks f)))
        (parse_line (''+++ '' @ side_line (CHR ''b'') (pf_new f)) (parse_line (''--- '' @ side_line (CHR ''a'') (pf_old f))
          (fold parse_line (pf_header f) (parse_line ?first parse_start))))"
    unfolding file_diff_def by (simp only: fold_append fold_simps o_apply append.simps)
  then have "fold parse_line (file_diff f) parse_start = fold parse_line (concat (map hunk_lines (pf_hunks f))) ?ps"
    unfolding l1 lh l2 l3 .
  moreover have "\<forall>h \<in> set (pf_hunks f). \<forall>e \<in> set (hk_edits h). edit_plain e"
    using assms by (simp add: file_plain_def)
  note parse_hunks[OF this, of ?ps]
  ultimately show "df_old_path (parse_file (join newline (file_diff f))) = pf_old f"
    "df_new_path (parse_file (join newline (file_diff f))) = pf_new f"
    "df_entries (parse_file (join newline (file_diff f))) = concat (map hunk_entries (pf_hunks f))"
    by (simp_all add: parse_file_def lines Let_def parse_start_def)
qed

lemma diff_sections_body:
  assumes "\<forall>l \<in> set ls. \<not> startswith l ''diff --git ''" "cur \<noteq> []"
  shows "diff_sections cur (ls @ rest) = diff_sections (cur @ ls) rest"
  using assms by (induction ls arbitrary: cur) auto

lemma file_body_lines:
  assumes "file_plain f" "l \<in> set (tl (file_diff f))"
  shows "\<not> startswith l ''diff --git ''"
proof -
  have e: "\<not> startswith (edit_line e) ''diff --git ''" for e by (cases e) (simp_all add: startswith_def)
  have "\<not> startswith l ''diff --git ''" if "l \<in> set (hunk_lines h)" for h
    using that e by (auto simp: hunk_lines_def startswith_def)
  moreover have "\<forall>l \<in> set (pf_header f). \<not> startswith l ''diff --git ''"
    using assms(1) by (simp add: file_plain_def header_plain_def)
  moreover have "\<not> startswith (''--- '' @ t) ''diff --git ''" "\<not> startswith (''+++ '' @ t) ''diff --git ''" for t
    by (simp_all add: startswith_def)
  ultimately show ?thesis using assms(2) by (auto simp: file_diff_def simp del: append.simps)
qed

lemma diff_sections_printed:
  assumes "\<forall>f \<in> set fs. file_plain f"
  shows "diff_sections cur (concat (map file_diff fs)) =
     (if cur = [] then [] else [join newline cur]) @ map (\<lambda>f. join newline (file_diff f)) fs"
  using assms
proof (induction fs arbitrary: cur)
  case (Cons f fs)
  let ?h = "hd (file_diff f)"
  have split: "file_diff f = ?h # tl (file_diff f)" by (simp add: file_diff_def)
  have ne: "file_diff f \<noteq> []" by (simp add: file_diff_def)
  have rest: "\<forall>g \<in> set fs. file_plain g" using Cons.prems by simp
  have h: "startswith ?h ''diff --git ''" by (simp add: file_diff_def startswith_def)
  have "diff_sections cur (concat (map file_diff (f # fs))) =
        diff_sections cur (?h # tl (file_diff f) @ concat (map file_diff fs))"
    using split by (metis append_Cons concat.simps(2) list.simps(9))
  also have "\<dots> = (if cur = [] then [] else [join newline cur]) @
                 diff_sections [?h] (tl (file_diff f) @ concat (map file_diff fs))"
    using h by simp
  also have "diff_sections [?h] (tl (file_diff f) @ concat (map file_diff fs)) =
             diff_sections ([?h] @ tl (file_diff f)) (concat (map file_diff fs))"
    by (rule diff_sections_body) (use file_body_lines Cons.prems in auto)
  also have "[?h] @ tl (file_diff f) = file_diff f" using split by simp
  also have "diff_sections (file_diff f) (concat (map file_diff fs)) =
             join newline (file_diff f) # map (\<lambda>f. join newline (file_diff f)) fs"
    using Cons.IH[OF rest, of "file_diff f"] ne by simp
  finally show ?case by simp
qed simp


definition sample_printed :: "printed_file list" where
  "sample_printed =
     [\<lparr>pf_old = Some ''a b.py'', pf_new = Some ''a b.py'', pf_header = [''index 1..2 100644''],
       pf_hunks = [\<lparr>hk_old = 3, hk_new = 3, hk_edits = [Keep ''x'', Remove ''y'', Insert ''z'', No_newline], hk_context = []\<rparr>]\<rparr>,
      \<lparr>pf_old = Some ''old.c'', pf_new = None, pf_header = [''deleted file mode 100644''],
       pf_hunks = [\<lparr>hk_old = 1, hk_new = 0, hk_edits = [Remove ''w''], hk_context = []\<rparr>]\<rparr>]"


section \<open>Lines that look like headers\<close>

text \<open>The header test comes before the hunk test also inside a hunk: a removed line whose text
  starts with two dashes and a space (an SQL or Lua comment) is read as a file header.  It is not
  an entry, no line can be commented for it, it replaces the recorded old path, and every later
  old line number of the hunk is one too small; an inserted line starting with two plus signs and
  a space replaces the path comments are filed under.\<close>

theorem removed_comment_is_read_as_header:
  assumes "\<forall>e \<in> set es. edit_plain e" and "ps_at ps = Some (old, new)"
  shows "ps_entries (fold parse_line (map edit_line (Remove (''-- '' @ s) # es)) ps) =
           ps_entries ps @ number_edits old new es \<and>
         tl (number_edits old new (Remove (''-- '' @ s) # es)) = number_edits (old + 1) new es \<and>
         ps_old_path (parse_line (edit_line (Remove (''-- '' @ s))) ps) = diff_path s \<and>
         ps_new_path (parse_line (edit_line (Insert (''++ '' @ s))) ps) = diff_path s"
proof -
  have "parse_line (edit_line (Remove (''-- '' @ s))) ps = ps\<lparr>ps_old_path := diff_path s\<rparr>"
    and "parse_line (edit_line (Insert (''++ '' @ s))) ps = ps\<lparr>ps_new_path := diff_path s\<rparr>"
    by (simp_all add: parse_line_def startswith_def)
  then show ?thesis
    using parse_edits[OF assms(1), of "ps\<lparr>ps_old_path := diff_path s\<rparr>" old new] assms(2) by simp
qed

theorem removed_comment_is_read_as_header_witness:
  "ps_entries (fold parse_line (map edit_line [Remove (''-- '' @ ''old note''), Remove ''x''])
     (parse_start\<lparr>ps_at := Some (7, 7)\<rparr>)) = number_edits 7 7 [Remove ''x'']"
  using removed_comment_is_read_as_header
    [of "[Remove ''x'']" "parse_start\<lparr>ps_at := Some (7, 7)\<rparr>" 7 7 "''old note''"]
  by (simp add: is_line_break_def code_def startswith_def parse_start_def)

end
