(* ===== verification/Glob.thy ===== *)
theory Glob
  imports Prelude
begin

text \<open>
  Globs of the repository policy (\<open>repository/policy/resolve.py\<close>, 36 to 231): the two pattern
  parsers with their folding of adjacent wildcards, the matcher that advances a set of offsets one
  token at a time, and the scope tests built on it.  Offsets are natural numbers into the text, and
  a set of them is a set, as in the code.
\<close>

section \<open>Tokens and parsers\<close>

datatype glob_token =
    G_char char | G_single | G_segment | G_any | G_any_dir | G_choice "glob_token list list"

text \<open>\<open>_ABSORBED_WILDCARDS\<close>\<close>

fun absorbed_wildcard :: "glob_token \<Rightarrow> glob_token \<Rightarrow> glob_token option" where
  "absorbed_wildcard G_segment G_segment = Some G_segment"
| "absorbed_wildcard G_any G_any = Some G_any"
| "absorbed_wildcard G_any G_segment = Some G_any"
| "absorbed_wildcard G_segment G_any = Some G_any"
| "absorbed_wildcard G_any G_any_dir = Some G_any"
| "absorbed_wildcard G_any_dir G_any = Some G_any"
| "absorbed_wildcard G_any_dir G_any_dir = Some G_any_dir"
| "absorbed_wildcard _ _ = None"

definition append_token :: "glob_token list \<Rightarrow> glob_token \<Rightarrow> glob_token list" where
  "append_token tokens t =
     (if tokens = [] then [t]
      else (case absorbed_wildcard (last tokens) t of
              Some w \<Rightarrow> butlast tokens @ [w]
            | None \<Rightarrow> tokens @ [t]))"

fun parse_path_tokens :: "glob_token list \<Rightarrow> string \<Rightarrow> glob_token list" where
  "parse_path_tokens tokens [] = tokens"
| "parse_path_tokens tokens (c # p) =
     (if c = CHR ''*'' then
        (case p of
           d # p' \<Rightarrow>
             if d = CHR ''*'' then
               (case p' of
                  e # p'' \<Rightarrow>
                    if e = CHR ''/'' then parse_path_tokens (append_token tokens G_any_dir) p''
                    else parse_path_tokens (append_token tokens G_any) p'
                | [] \<Rightarrow> append_token tokens G_any)
             else parse_path_tokens (append_token tokens G_segment) p
         | [] \<Rightarrow> append_token tokens G_segment)
      else if c = CHR ''?'' then parse_path_tokens (append_token tokens G_single) p
      else parse_path_tokens (append_token tokens (G_char c)) p)"

definition parse_path_glob :: "string \<Rightarrow> glob_token list" where
  "parse_path_glob pattern = parse_path_tokens [] pattern"

text \<open>The choices of a brace group that starts after \<open>{\<close>, and what follows it.\<close>

definition brace_choices :: "string \<Rightarrow> (string list \<times> string) option" where
  "brace_choices p =
     (let body = takeWhile (\<lambda>c. c \<noteq> CHR 0x7D) p in
      if length body = length p then None
      else
        (let choices = split_on CHR '','' body in
         if 1 < length choices \<and> length choices \<le> 16 \<and> list_all (\<lambda>s. s \<noteq> []) choices
         then Some (choices, drop (length body + 1) p)
         else None))"

lemma split_on_length: "c \<in> set (split_on sep s) \<Longrightarrow> length c \<le> length s"
proof (induction s arbitrary: c)
  case (Cons x s)
  then show ?case by (cases "split_on sep s") (fastforce split: if_splits)+
qed simp

lemma brace_choices_length:
  assumes "brace_choices p = Some (choices, rest)"
  shows "c \<in> set choices \<Longrightarrow> length c \<le> length p" "length rest \<le> length p"
proof -
  have ch: "choices = split_on CHR '','' (takeWhile (\<lambda>c. c \<noteq> CHR 0x7D) p)"
    and rest: "rest = drop (length (takeWhile (\<lambda>c. c \<noteq> CHR 0x7D) p) + 1) p"
    using assms by (auto simp: brace_choices_def Let_def split: if_splits)
  have "length (takeWhile (\<lambda>c. c \<noteq> CHR 0x7D) p) \<le> length p" by (rule length_takeWhile_le)
  then show "c \<in> set choices \<Longrightarrow> length c \<le> length p"
    using split_on_length[of c "CHR '',''"] ch by fastforce
  show "length rest \<le> length p" by (simp add: rest)
qed

function parse_filter_tokens :: "glob_token list \<Rightarrow> string \<Rightarrow> glob_token list" where
  "parse_filter_tokens tokens [] = tokens"
| "parse_filter_tokens tokens (c # p) =
     (if c = CHR ''*'' then
        (if p \<noteq> [] \<and> hd p = CHR ''*'' then parse_filter_tokens (append_token tokens G_any) (tl p)
         else parse_filter_tokens (append_token tokens G_segment) p)
      else if c = CHR ''?'' then parse_filter_tokens (append_token tokens G_single) p
      else if c = CHR 0x7B then
        (case brace_choices p of
           Some (choices, rest) \<Rightarrow>
             parse_filter_tokens
               (append_token tokens (G_choice (map (parse_filter_tokens []) choices))) rest
         | None \<Rightarrow> parse_filter_tokens (append_token tokens (G_char CHR 0x7B)) p)
      else parse_filter_tokens (append_token tokens (G_char c)) p)"
  by pat_completeness auto
termination
  by (relation "measure (\<lambda>(_, p). length p)")
     (auto dest: brace_choices_length simp: less_Suc_eq_le)

definition parse_filter_glob :: "string \<Rightarrow> glob_token list" where
  "parse_filter_glob pattern = parse_filter_tokens [] pattern"

section \<open>The offset-set matcher\<close>

text \<open>\<open>*\<close> consumes anything up to, but never across, the next separator.\<close>

fun within_segment :: "string \<Rightarrow> nat set \<Rightarrow> bool \<Rightarrow> nat list \<Rightarrow> nat set" where
  "within_segment text reachable inside [] = {}"
| "within_segment text reachable inside (i # is) =
     (let inside' = (inside \<or> i \<in> reachable) in
      (if inside' then {i} else {}) \<union>
      within_segment text reachable
        (if i < length text \<and> text ! i = CHR ''/'' then False else inside') is)"

definition advance_within_segment :: "string \<Rightarrow> nat set \<Rightarrow> nat set" where
  "advance_within_segment text reachable =
     within_segment text reachable False [Min reachable ..< length text + 1]"

definition glob_char_eq :: "bool \<Rightarrow> char \<Rightarrow> char \<Rightarrow> bool" where
  "glob_char_eq ignore_case c d \<longleftrightarrow>
     (if ignore_case then lower_char c else c) = (if ignore_case then lower_char d else d)"

fun advance_token :: "bool \<Rightarrow> string \<Rightarrow> glob_token \<Rightarrow> nat set \<Rightarrow> nat set"
and advance_tokens :: "bool \<Rightarrow> string \<Rightarrow> glob_token list \<Rightarrow> nat set \<Rightarrow> nat set"
and advance_choices :: "bool \<Rightarrow> string \<Rightarrow> glob_token list list \<Rightarrow> nat set \<Rightarrow> nat set" where
  "advance_token ic text (G_char c) R =
     Suc ` {i \<in> R. i < length text \<and> glob_char_eq ic (text ! i) c}"
| "advance_token ic text G_single R = Suc ` {i \<in> R. i < length text \<and> text ! i \<noteq> CHR ''/''}"
| "advance_token ic text G_segment R = advance_within_segment text R"
| "advance_token ic text G_any R = {Min R ..< length text + 1}"
| "advance_token ic text G_any_dir R =
     R \<union> Suc ` {i \<in> {Min R ..< length text}. text ! i = CHR ''/''}"
| "advance_token ic text (G_choice bs) R = advance_choices ic text bs R"
| "advance_tokens ic text [] R = R"
| "advance_tokens ic text (t # ts) R =
     (if R = {} then R else advance_tokens ic text ts (advance_token ic text t R))"
| "advance_choices ic text [] R = {}"
| "advance_choices ic text (b # bs) R = advance_tokens ic text b R \<union> advance_choices ic text bs R"

definition path_matches :: "string \<Rightarrow> string \<Rightarrow> bool" where
  "path_matches pattern path \<longleftrightarrow>
     length path \<in> advance_tokens False path
       (parse_path_glob (if endswith pattern ''/'' then pattern @ ''**'' else pattern)) {0}"

definition filter_matches :: "string \<Rightarrow> string \<Rightarrow> bool" where
  "filter_matches pattern value \<longleftrightarrow>
     length value \<in> advance_tokens True value (parse_filter_glob pattern) {0}"

section \<open>Scopes\<close>

definition is_descendant :: "string \<Rightarrow> string \<Rightarrow> bool" where
  "is_descendant directory path \<longleftrightarrow>
     directory = [] \<or> path = directory \<or> startswith path (directory @ ''/'')"

definition relative_to :: "string \<Rightarrow> string \<Rightarrow> string" where
  "relative_to directory path =
     (if directory = [] then path else if path = directory then []
      else drop (length directory + 1) path)"

definition scope_matches :: "string \<Rightarrow> string list \<Rightarrow> string \<Rightarrow> bool" where
  "scope_matches directory patterns path \<longleftrightarrow>
     is_descendant directory path \<and>
     list_ex (\<lambda>p. path_matches p (relative_to directory path)) patterns"

definition matches_any :: "string list \<Rightarrow> string list \<Rightarrow> bool" where
  "matches_any patterns values \<longleftrightarrow>
     list_ex (\<lambda>p. list_ex (\<lambda>v. filter_matches p v) values) patterns"

end
