(* ===== verification/Glob_Lang.thy ===== *)
theory Glob_Lang
  imports Glob
begin

text \<open>
  The language of a glob, defined on the pattern text without tokens, and the proof that the
  offset-set matcher decides it, folded wildcards included.
\<close>

section \<open>Languages\<close>

definition conc :: "string set \<Rightarrow> string set \<Rightarrow> string set" where
  "conc A B = {a @ b | a b. a \<in> A \<and> b \<in> B}"

definition seg_lang :: "string set" where
  "seg_lang = {s. CHR ''/'' \<notin> set s}"

definition dir_lang :: "string set" where
  "dir_lang = {s. s = [] \<or> last s = CHR ''/''}"

fun path_glob_lang :: "string \<Rightarrow> string set" where
  "path_glob_lang [] = {[]}"
| "path_glob_lang (c # p) =
     (if c = CHR ''*'' then
        (case p of
           d # p' \<Rightarrow>
             if d = CHR ''*'' then
               (case p' of
                  e # p'' \<Rightarrow>
                    if e = CHR ''/'' then conc dir_lang (path_glob_lang p'')
                    else conc UNIV (path_glob_lang p')
                | [] \<Rightarrow> UNIV)
             else conc seg_lang (path_glob_lang p)
         | [] \<Rightarrow> seg_lang)
      else if c = CHR ''?'' then conc {[d] | d. d \<noteq> CHR ''/''} (path_glob_lang p)
      else conc {[c]} (path_glob_lang p))"

function filter_glob_lang :: "string \<Rightarrow> string set" where
  "filter_glob_lang [] = {[]}"
| "filter_glob_lang (c # p) =
     (if c = CHR ''*'' then
        (if p \<noteq> [] \<and> hd p = CHR ''*'' then conc UNIV (filter_glob_lang (tl p))
         else conc seg_lang (filter_glob_lang p))
      else if c = CHR ''?'' then conc {[d] | d. d \<noteq> CHR ''/''} (filter_glob_lang p)
      else if c = CHR 0x7B then
        (case brace_choices p of
           Some (choices, rest) \<Rightarrow>
             conc (\<Union> (set (map filter_glob_lang choices))) (filter_glob_lang rest)
         | None \<Rightarrow> conc {[d] | d. glob_char_eq True d CHR 0x7B} (filter_glob_lang p))
      else conc {[d] | d. glob_char_eq True d c} (filter_glob_lang p))"
  by pat_completeness auto
termination
  by (relation "measure length") (auto dest: brace_choices_length simp: less_Suc_eq_le)

fun token_lang :: "bool \<Rightarrow> glob_token \<Rightarrow> string set"
and tokens_lang :: "bool \<Rightarrow> glob_token list \<Rightarrow> string set"
and choices_lang :: "bool \<Rightarrow> glob_token list list \<Rightarrow> string set" where
  "token_lang ic (G_char c) = {[d] | d. glob_char_eq ic d c}"
| "token_lang ic G_single = {[d] | d. d \<noteq> CHR ''/''}"
| "token_lang ic G_segment = seg_lang"
| "token_lang ic G_any = UNIV"
| "token_lang ic G_any_dir = dir_lang"
| "token_lang ic (G_choice bs) = choices_lang ic bs"
| "tokens_lang ic [] = {[]}"
| "tokens_lang ic (t # ts) = conc (token_lang ic t) (tokens_lang ic ts)"
| "choices_lang ic [] = {}"
| "choices_lang ic (b # bs) = tokens_lang ic b \<union> choices_lang ic bs"

lemma conc_assoc: "conc (conc A B) C = conc A (conc B C)"
  by (auto simp: conc_def) (metis append.assoc)+

lemma conc_Nil [simp]: "conc {[]} A = A" "conc A {[]} = A"
  by (auto simp: conc_def)

lemma tokens_lang_append: "tokens_lang ic (xs @ ys) = conc (tokens_lang ic xs) (tokens_lang ic ys)"
  by (induction xs) (auto simp: conc_assoc)

lemma choices_lang_Union: "choices_lang ic bs = \<Union> (tokens_lang ic ` set bs)"
  by (induction bs) auto

lemma conc_UNIV: "[] \<in> A \<Longrightarrow> conc UNIV A = UNIV" "[] \<in> A \<Longrightarrow> conc A UNIV = UNIV"
proof -
  have "s \<in> conc UNIV A" "s \<in> conc A UNIV" if "[] \<in> A" for s
  proof -
    have "s @ [] \<in> conc UNIV A" "[] @ s \<in> conc A UNIV" using that unfolding conc_def by blast+
    then show "s \<in> conc UNIV A" "s \<in> conc A UNIV" by simp_all
  qed
  then show "[] \<in> A \<Longrightarrow> conc UNIV A = UNIV" "[] \<in> A \<Longrightarrow> conc A UNIV = UNIV" by blast+
qed

lemma seg_nil [simp]: "[] \<in> seg_lang" and dir_nil [simp]: "[] \<in> dir_lang"
  by (simp_all add: seg_lang_def dir_lang_def)

lemma conc_self: "[] \<in> A \<Longrightarrow> (\<And>a b. a \<in> A \<Longrightarrow> b \<in> A \<Longrightarrow> a @ b \<in> A) \<Longrightarrow> conc A A = A"
proof -
  assume nil: "[] \<in> A" and app: "\<And>a b. a \<in> A \<Longrightarrow> b \<in> A \<Longrightarrow> a @ b \<in> A"
  have "s \<in> conc A A" if "s \<in> A" for s
    using that nil unfolding conc_def by (intro CollectI exI[of _ s] exI[of _ "[]"]) simp
  then show ?thesis using app by (auto simp: conc_def)
qed

lemma conc_seg: "conc seg_lang seg_lang = seg_lang"
  by (rule conc_self) (simp_all add: seg_lang_def)

lemma conc_dir: "conc dir_lang dir_lang = dir_lang"
  by (rule conc_self) (auto simp: dir_lang_def last_append)

lemma absorbed_lang:
  "absorbed_wildcard t u = Some w \<Longrightarrow> token_lang ic w = conc (token_lang ic t) (token_lang ic u)"
  by (induction t u rule: absorbed_wildcard.induct)
     (simp_all add: conc_seg conc_dir conc_UNIV)

lemma append_token_lang: "tokens_lang ic (append_token ts t) = conc (tokens_lang ic ts) (token_lang ic t)"
proof (cases ts rule: rev_cases)
  case Nil
  then show ?thesis by (simp add: append_token_def)
next
  case (snoc us u)
  show ?thesis
  proof (cases "absorbed_wildcard u t")
    case None
    then show ?thesis using snoc by (simp add: append_token_def tokens_lang_append conc_assoc)
  next
    case (Some w)
    then show ?thesis
      using snoc absorbed_lang[OF Some, of ic]
      by (simp add: append_token_def tokens_lang_append conc_assoc)
  qed
qed

lemma char_lang: "{[d] | d. glob_char_eq False d c} = {[c]}"
  by (auto simp: glob_char_eq_def)

lemma parse_path_lang:
  "tokens_lang False (parse_path_tokens ts p) = conc (tokens_lang False ts) (path_glob_lang p)"
proof (induction ts p rule: parse_path_tokens.induct)
  case (1 ts)
  then show ?case by simp
next
  case (2 ts c p)
  show ?case
    using 2 by (auto simp: append_token_lang conc_assoc char_lang split: list.splits)
qed

lemma parse_filter_lang:
  "tokens_lang True (parse_filter_tokens ts p) = conc (tokens_lang True ts) (filter_glob_lang p)"
proof (induction ts p rule: parse_filter_tokens.induct)
  case (1 ts)
  then show ?case by simp
next
  case (2 ts c p)
  show ?case
  proof (cases "c = CHR 0x7B \<and> brace_choices p \<noteq> None")
    case True
    then obtain choices rest where b: "brace_choices p = Some (choices, rest)" by auto
    have each: "tokens_lang True (parse_filter_tokens [] ch) = filter_glob_lang ch" if "ch \<in> set choices" for ch
      using 2(5)[OF _ _ _ b refl that] True by simp
    have "choices_lang True (map (parse_filter_tokens []) choices) = \<Union> (set (map filter_glob_lang choices))"
      unfolding choices_lang_Union using each by simp
    then show ?thesis
      using 2(6)[OF _ _ _ b refl] True b by (simp add: append_token_lang conc_assoc)
  next
    case False
    then show ?thesis
      using 2(1,2,3,4,7) by (auto simp: append_token_lang conc_assoc split: option.splits)
  qed
qed

section \<open>The matcher decides the language\<close>

definition slice :: "string \<Rightarrow> nat \<Rightarrow> nat \<Rightarrow> string" where
  "slice text i j = take (j - i) (drop i text)"

definition reach :: "string \<Rightarrow> string set \<Rightarrow> nat set \<Rightarrow> nat set" where
  "reach text L R = {j. j \<le> length text \<and> (\<exists>i \<in> R. i \<le> j \<and> slice text i j \<in> L)}"

lemma slice_append:
  "i \<le> j \<Longrightarrow> j \<le> k \<Longrightarrow> k \<le> length text \<Longrightarrow> slice text i k = slice text i j @ slice text j k"
proof -
  assume a: "i \<le> j" "j \<le> k" "k \<le> length text"
  have "take (k - i) (drop i text) = take (j - i) (drop i text) @ take (k - j) (drop (j - i) (drop i text))"
    using a by (metis add_diff_cancel_left' le_add_diff_inverse take_add ordered_cancel_comm_monoid_diff_class.diff_add_assoc2)
  then show ?thesis using a by (simp add: slice_def)
qed

lemma slice_split:
  assumes "i \<le> k" "k \<le> length text" "slice text i k = a @ b"
  shows "i + length a \<le> k \<and> slice text i (i + length a) = a \<and> slice text (i + length a) k = b"
proof -
  have len: "length (slice text i k) = k - i" using assms(1,2) by (simp add: slice_def)
  then have le: "length a + length b = k - i" using assms(3) by (metis length_append)
  have "slice text i (i + length a) = take (length a) (slice text i k)"
    using le by (simp add: slice_def min_def)
  moreover have "slice text (i + length a) k = drop (length a) (slice text i k)"
    using assms(1) le by (simp add: slice_def drop_take add.commute)
  ultimately show ?thesis using assms(1,3) le by simp
qed

lemma slice_length: "i \<le> j \<Longrightarrow> j \<le> length text \<Longrightarrow> length (slice text i j) = j - i"
  by (simp add: slice_def)

lemma reach_conc: "reach text (conc A B) R = reach text B (reach text A R)"
proof (rule set_eqI)
  fix k
  show "k \<in> reach text (conc A B) R \<longleftrightarrow> k \<in> reach text B (reach text A R)"
  proof
    assume "k \<in> reach text (conc A B) R"
    then obtain i a b where i: "k \<le> length text" "i \<in> R" "i \<le> k" "slice text i k = a @ b" "a \<in> A" "b \<in> B"
      by (auto simp: reach_def conc_def)
    let ?j = "i + length a"
    have j: "?j \<le> k" "slice text i ?j = a" "slice text ?j k = b"
      using slice_split[OF i(3,1,4)] by simp_all
    have "?j \<in> reach text A R"
      unfolding reach_def using i j by (intro CollectI conjI bexI[of _ i]) simp_all
    then show "k \<in> reach text B (reach text A R)"
      using i j by (simp add: reach_def[of "text" B]) blast
  next
    assume "k \<in> reach text B (reach text A R)"
    then obtain i j where i: "k \<le> length text" "j \<le> k" "slice text j k \<in> B" "i \<in> R" "i \<le> j"
      "slice text i j \<in> A" by (auto simp: reach_def)
    then have "slice text i k \<in> conc A B"
      using slice_append[OF i(5,2,1)] unfolding conc_def by blast
    then show "k \<in> reach text (conc A B) R"
      unfolding reach_def using i by (intro CollectI conjI bexI[of _ i]) simp_all
  qed
qed

lemma reach_le: "reach text L R \<subseteq> {..length text}"
  by (auto simp: reach_def)

lemma reach_Nil: "R \<subseteq> {..length text} \<Longrightarrow> reach text {[]} R = R"
proof -
  assume R: "R \<subseteq> {..length text}"
  have "j = i" if "i \<le> j" "j \<le> length text" "slice text i j = []" for i j
    using slice_length[OF that(1,2)] that by simp
  then show ?thesis using R by (auto simp: reach_def slice_def)
qed

lemma slice_single: "i < length text \<Longrightarrow> slice text i (Suc i) = [text ! i]"
  by (simp add: slice_def Suc_diff_le Cons_nth_drop_Suc[symmetric])

lemma reach_single:
  assumes "\<And>s. s \<in> L \<longleftrightarrow> (\<exists>d. s = [d] \<and> P d)"
  shows "reach text L R = Suc ` {i \<in> R. i < length text \<and> P (text ! i)}"
proof (rule set_eqI)
  fix j
  show "j \<in> reach text L R \<longleftrightarrow> j \<in> Suc ` {i \<in> R. i < length text \<and> P (text ! i)}"
  proof
    assume "j \<in> reach text L R"
    then obtain i d where i: "j \<le> length text" "i \<in> R" "i \<le> j" "slice text i j = [d]" "P d"
      using assms by (auto simp: reach_def)
    have "j = Suc i" using slice_length[OF i(3,1)] i(3,4) by simp
    then show "j \<in> Suc ` {i \<in> R. i < length text \<and> P (text ! i)}"
      using i slice_single[of i "text"] by auto
  next
    assume "j \<in> Suc ` {i \<in> R. i < length text \<and> P (text ! i)}"
    then show "j \<in> reach text L R"
    proof (elim imageE CollectE conjE)
      fix i
      assume "j = Suc i" "i \<in> R" "i < length text" "P (text ! i)"
      moreover from this have "slice text i j \<in> L" using assms slice_single[of i "text"] by simp
      ultimately show "j \<in> reach text L R"
        unfolding reach_def by (intro CollectI conjI bexI[of _ i]) simp_all
    qed
  qed
qed

definition slash_free :: "string \<Rightarrow> nat \<Rightarrow> nat \<Rightarrow> bool" where
  "slash_free s i j \<longleftrightarrow> (\<forall>k. i \<le> k \<and> k < j \<longrightarrow> s ! k \<noteq> CHR ''/'')"

lemma slice_slash:
  assumes "i \<le> j" "j \<le> length text"
  shows "CHR ''/'' \<notin> set (slice text i j) \<longleftrightarrow> slash_free text i j"
proof -
  have "set (slice text i j) = {text ! k | k. i \<le> k \<and> k < j}"
  proof (rule set_eqI)
    fix c
    have "c \<in> set (slice text i j) \<longleftrightarrow> (\<exists>m < j - i. c = text ! (i + m))"
      using assms by (auto simp: slice_def in_set_conv_nth)
    also have "\<dots> \<longleftrightarrow> (\<exists>k. i \<le> k \<and> k < j \<and> c = text ! k)"
    proof
      assume "\<exists>m < j - i. c = text ! (i + m)"
      then obtain m where "m < j - i" "c = text ! (i + m)" by blast
      then show "\<exists>k. i \<le> k \<and> k < j \<and> c = text ! k" by (intro exI[of _ "i + m"]) auto
    next
      assume "\<exists>k. i \<le> k \<and> k < j \<and> c = text ! k"
      then obtain k where "i \<le> k" "k < j" "c = text ! k" by blast
      then show "\<exists>m < j - i. c = text ! (i + m)" by (intro exI[of _ "k - i"]) auto
    qed
    finally show "c \<in> set (slice text i j) \<longleftrightarrow> c \<in> {text ! k | k. i \<le> k \<and> k < j}" by auto
  qed
  then show ?thesis by (auto simp: slash_free_def)
qed

lemma all_from_step:
  fixes m :: nat
  assumes "m < j"
  shows "(\<forall>k. m \<le> k \<and> k < j \<longrightarrow> P k) \<longleftrightarrow> P m \<and> (\<forall>k. Suc m \<le> k \<and> k < j \<longrightarrow> P k)"
proof (intro iffI conjI allI impI)
  fix k
  assume a: "P m \<and> (\<forall>k. Suc m \<le> k \<and> k < j \<longrightarrow> P k)" and k: "m \<le> k \<and> k < j"
  show "P k" using a k by (cases "k = m") auto
qed (use assms in auto)

lemma bex_from_step:
  "(\<exists>i \<in> R. m \<le> i \<and> i \<le> j \<and> P i) \<longleftrightarrow>
   (m \<in> R \<and> m \<le> (j::nat) \<and> P m) \<or> (\<exists>i \<in> R. Suc m \<le> i \<and> i \<le> j \<and> P i)"
  (is "?L \<longleftrightarrow> ?R")
proof
  assume ?L
  then obtain i where i: "i \<in> R" "m \<le> i" "i \<le> j" "P i" by (elim bexE conjE)
  show ?R
  proof (cases "i = m")
    case True
    then show ?thesis using i by (intro disjI1 conjI) simp_all
  next
    case False
    then show ?thesis using i by (intro disjI2 bexI[of _ i] conjI) simp_all
  qed
next
  assume ?R
  then show ?L
  proof (elim disjE bexE conjE)
    assume "m \<in> R" "m \<le> j" "P m"
    then show ?L by (intro bexI[of _ m] conjI) simp_all
  next
    fix i assume "i \<in> R" "Suc m \<le> i" "i \<le> j" "P i"
    then show ?L by (intro bexI[of _ i] conjI) simp_all
  qed
qed

lemma within_segment_eq:
  assumes "m \<le> Suc (length text)"
  shows "within_segment text R b [m ..< Suc (length text)] =
    {j. m \<le> j \<and> j \<le> length text \<and>
        ((b \<and> slash_free text m j) \<or>
         (\<exists>i \<in> R. m \<le> i \<and> i \<le> j \<and> slash_free text i j))}"
  using assms
proof (induction "Suc (length text) - m" arbitrary: m b)
  case 0
  then show ?case by auto
next
  case (Suc d)
  let ?b = "b \<or> m \<in> R"
  let ?b' = "if m < length text \<and> text ! m = CHR ''/'' then False else ?b"
  have m: "m < Suc (length text)" using Suc by simp
  then have "[m ..< Suc (length text)] = m # [Suc m ..< Suc (length text)]" by (rule upt_conv_Cons)
  then have "within_segment text R b [m ..< Suc (length text)] =
        (if ?b then {m} else {}) \<union> within_segment text R ?b' [Suc m ..< Suc (length text)]"
    by (simp only: within_segment.simps Let_def)
  also have "within_segment text R ?b' [Suc m ..< Suc (length text)] =
    {j. Suc m \<le> j \<and> j \<le> length text \<and>
        ((?b' \<and> slash_free text (Suc m) j) \<or>
         (\<exists>i \<in> R. Suc m \<le> i \<and> i \<le> j \<and> slash_free text i j))}"
    by (rule Suc.hyps(1)) (use Suc.hyps(2) m in auto)
  also have "(if ?b then {m} else {}) \<union> \<dots> =
    {j. m \<le> j \<and> j \<le> length text \<and>
        ((b \<and> slash_free text m j) \<or>
         (\<exists>i \<in> R. m \<le> i \<and> i \<le> j \<and> slash_free text i j))}"
    (is "?A \<union> ?B = ?C")
  proof (rule set_eqI)
    fix j
    show "j \<in> ?A \<union> ?B \<longleftrightarrow> j \<in> ?C"
    proof (cases "j = m")
      case True
      then show ?thesis using m by (auto simp: slash_free_def order_antisym_conv)
    next
      case False
      have split: "slash_free text m j \<longleftrightarrow>
            text ! m \<noteq> CHR ''/'' \<and> slash_free text (Suc m) j" if "m < j"
        unfolding slash_free_def by (rule all_from_step[OF that])
      have mem: "(\<exists>i \<in> R. m \<le> i \<and> i \<le> j \<and> slash_free text i j) \<longleftrightarrow>
            (m \<in> R \<and> m \<le> j \<and> slash_free text m j) \<or>
            (\<exists>i \<in> R. Suc m \<le> i \<and> i \<le> j \<and> slash_free text i j)"
        by (rule bex_from_step)
      show ?thesis
      proof (cases "m < j \<and> j \<le> length text")
        case True
        then have B: "j \<in> ?B \<longleftrightarrow> (?b' \<and> slash_free text (Suc m) j) \<or>
            (\<exists>i \<in> R. Suc m \<le> i \<and> i \<le> j \<and> slash_free text i j)" by auto
        have C: "j \<in> ?C \<longleftrightarrow> (b \<and> slash_free text m j) \<or>
            (\<exists>i \<in> R. m \<le> i \<and> i \<le> j \<and> slash_free text i j)" using True by auto
        have A: "j \<notin> ?A" using False by simp
        have lt: "m < length text" using True by simp
        have N: "slash_free text m j \<longleftrightarrow> text ! m \<noteq> CHR ''/'' \<and> slash_free text (Suc m) j"
          using split True by (elim conjE) (rule split)
        have b': "?b' \<longleftrightarrow> ?b \<and> text ! m \<noteq> CHR ''/''" using lt by (simp only: simp_thms if_bool_eq_disj) blast
        have le: "m \<le> j" using True by simp
        show ?thesis
          unfolding Un_iff B C unfolding mem b' N using A le by (simp only: simp_thms) blast
      next
        case outside: False
        then show ?thesis using False by auto
      qed
    qed
  qed
  finally show ?case .
qed

lemma Min_le_all: "finite R \<Longrightarrow> i \<in> R \<Longrightarrow> Min R \<le> i"
  by simp

lemma advance_segment_reach:
  assumes "R \<subseteq> {..length text}" "R \<noteq> {}"
  shows "advance_within_segment text R = reach text seg_lang R"
proof -
  have fin: "finite R" using assms(1) finite_subset by blast
  have "Min R \<le> length text" using assms fin Min_in by (metis atMost_iff subsetD)
  then have w: "advance_within_segment text R =
    {j. Min R \<le> j \<and> j \<le> length text \<and>
        (\<exists>i \<in> R. Min R \<le> i \<and> i \<le> j \<and> slash_free text i j)}"
    unfolding advance_within_segment_def using within_segment_eq[of "Min R" "text" R False] by simp
  have seg: "slash_free text i j \<longleftrightarrow> slice text i j \<in> seg_lang"
    if "i \<le> j" "j \<le> length text" for i j
    using slice_slash[OF that] by (simp add: seg_lang_def)
  show ?thesis
  proof (rule set_eqI)
    fix j
    have "(\<exists>i \<in> R. Min R \<le> i \<and> i \<le> j \<and> slash_free text i j) \<longleftrightarrow>
          (\<exists>i \<in> R. i \<le> j \<and> slice text i j \<in> seg_lang)" if "j \<le> length text"
      using seg[OF _ that] Min_le[OF fin] by blast
    moreover have "(\<exists>i \<in> R. i \<le> j \<and> slice text i j \<in> seg_lang) \<Longrightarrow> Min R \<le> j"
      using Min_le[OF fin] by (meson order.trans)
    ultimately show "j \<in> advance_within_segment text R \<longleftrightarrow> j \<in> reach text seg_lang R"
      unfolding w reach_def by blast
  qed
qed

lemma any_reach:
  assumes "R \<subseteq> {..length text}" "R \<noteq> {}"
  shows "{Min R ..< length text + 1} = reach text UNIV R"
proof -
  have fin: "finite R" using assms(1) finite_subset by blast
  show ?thesis
  proof (rule set_eqI)
    fix j
    have "Min R \<le> j \<longleftrightarrow> (\<exists>i \<in> R. i \<le> j)"
      using Min_in[OF fin assms(2)] Min_le[OF fin] by (meson order.trans)
    then show "j \<in> {Min R ..< length text + 1} \<longleftrightarrow> j \<in> reach text UNIV R"
      by (auto simp: reach_def)
  qed
qed

lemma slice_last: "i < j \<Longrightarrow> j \<le> length text \<Longrightarrow> last (slice text i j) = text ! (j - 1)"
proof -
  assume a: "i < j" "j \<le> length text"
  then have "slice text i j \<noteq> []" using slice_length[of i j "text"] by auto
  then show ?thesis using a by (simp add: last_conv_nth slice_length) (simp add: slice_def)
qed

lemma any_dir_reach:
  assumes "R \<subseteq> {..length text}" "R \<noteq> {}"
  shows "R \<union> Suc ` {i \<in> {Min R ..< length text}. text ! i = CHR ''/''} = reach text dir_lang R"
proof (rule set_eqI)
  fix j
  have fin: "finite R" using assms(1) finite_subset by blast
  have min: "Min R \<in> R" using Min_in[OF fin assms(2)] .
  show "j \<in> R \<union> Suc ` {i \<in> {Min R ..< length text}. text ! i = CHR ''/''} \<longleftrightarrow> j \<in> reach text dir_lang R"
  proof
    assume j: "j \<in> R \<union> Suc ` {i \<in> {Min R ..< length text}. text ! i = CHR ''/''}"
    show "j \<in> reach text dir_lang R"
    proof (cases "j \<in> R")
      case True
      moreover have "slice text j j \<in> dir_lang" by (simp add: slice_def)
      ultimately show ?thesis
        unfolding reach_def using assms(1) by (intro CollectI conjI bexI[of _ j]) auto
    next
      case False
      then obtain i where i: "j = Suc i" "Min R \<le> i" "i < length text" "text ! i = CHR ''/''" using j by auto
      then have "slice text (Min R) j \<in> dir_lang" using slice_last[of "Min R" j "text"] by (simp add: dir_lang_def)
      then show ?thesis
        unfolding reach_def using i min by (intro CollectI conjI bexI[of _ "Min R"]) simp_all
    qed
  next
    assume "j \<in> reach text dir_lang R"
    then obtain i where i: "j \<le> length text" "i \<in> R" "i \<le> j" "slice text i j \<in> dir_lang" by (auto simp: reach_def)
    show "j \<in> R \<union> Suc ` {i \<in> {Min R ..< length text}. text ! i = CHR ''/''}"
    proof (cases "i = j")
      case False
      then have "i < j" using i(3) by simp
      moreover from this have "slice text i j \<noteq> []" using slice_length[OF i(3,1)] by auto
      ultimately have "text ! (j - 1) = CHR ''/''" using i slice_last[of i j "text"] by (simp add: dir_lang_def)
      moreover have "Min R \<le> j - 1" using Min_le[OF fin i(2)] \<open>i < j\<close> by linarith
      ultimately have "j - 1 \<in> {i \<in> {Min R ..< length text}. text ! i = CHR ''/''}" using i(1) \<open>i < j\<close> by simp
      then have "Suc (j - 1) \<in> Suc ` {i \<in> {Min R ..< length text}. text ! i = CHR ''/''}" by (rule imageI)
      moreover have "Suc (j - 1) = j" using \<open>i < j\<close> by simp
      ultimately show ?thesis by simp
    qed (use i in simp)
  qed
qed

lemma reach_empty [simp]: "reach text L {} = {}"
  by (simp add: reach_def)

lemma reach_Un: "reach text (A \<union> B) R = reach text A R \<union> reach text B R"
  by (auto simp: reach_def)

lemma reach_none [simp]: "reach text {} R = {}"
  by (simp add: reach_def)

lemma advance_reach:
  "R \<subseteq> {..length text} \<Longrightarrow> R \<noteq> {} \<Longrightarrow> advance_token ic text t R = reach text (token_lang ic t) R"
  "R \<subseteq> {..length text} \<Longrightarrow> advance_tokens ic text ts R = reach text (tokens_lang ic ts) R"
  "R \<subseteq> {..length text} \<Longrightarrow> advance_choices ic text bs R = reach text (choices_lang ic bs) R"
proof (induction ic "text" t R and ic "text" ts R and ic "text" bs R
    rule: advance_token_advance_tokens_advance_choices.induct)
  case (1 ic tx c R)
  have "reach tx (token_lang ic (G_char c)) R =
        Suc ` {i \<in> R. i < length tx \<and> glob_char_eq ic (tx ! i) c}"
    by (rule reach_single) auto
  then show ?case by simp
next
  case (2 ic tx R)
  have "reach tx (token_lang ic G_single) R = Suc ` {i \<in> R. i < length tx \<and> tx ! i \<noteq> CHR ''/''}"
    by (rule reach_single) auto
  then show ?case by simp
next
  case (3 ic tx R)
  then show ?case by (simp add: advance_segment_reach)
next
  case (4 ic tx R)
  then show ?case using any_reach[OF 4] by simp
next
  case (5 ic tx R)
  then show ?case using any_dir_reach[OF 5] by simp
next
  case (6 ic tx bs R)
  then show ?case by simp
next
  case (7 ic tx R)
  then show ?case by (simp add: reach_Nil)
next
  case (8 ic tx t ts R)
  then show ?case using reach_le[of tx "token_lang ic t" R] by (auto simp: reach_conc)
next
  case (9 ic tx R)
  then show ?case by simp
next
  case (10 ic tx b bs R)
  then show ?case by (simp add: reach_Un)
qed

lemma advance_whole: "length text \<in> advance_tokens ic text ts {0} \<longleftrightarrow> text \<in> tokens_lang ic ts"
  by (subst advance_reach(2)) (auto simp: reach_def slice_def)

text \<open>C14: The matcher decides exactly the language of the glob, however the wildcards nest and
  whatever the text: a single star stays within a path segment, a double star crosses
  them, a double star and slash matches nothing or anything that ends in a slash, a trailing slash
  means everything below, and in filters a brace group matches one of its choices and letters
  match in either case.\<close>

theorem globs_decide_their_language:
  "(path_matches pattern path \<longleftrightarrow>
      path \<in> path_glob_lang (if endswith pattern ''/'' then pattern @ ''**'' else pattern)) \<and>
   (filter_matches filt path \<longleftrightarrow> path \<in> filter_glob_lang filt)"
  by (simp_all add: path_matches_def filter_matches_def advance_whole parse_path_glob_def
      parse_filter_glob_def parse_path_lang parse_filter_lang)

end
