(* ===== verification/Prompt.thy ===== *)
theory Prompt
  imports Prelude
begin

text \<open>
  Prompt framing (\<open>diffuse_protocol/prompt.py\<close>): the structural tags, the regular expression that
  recognises them and its substitution.  \<open>tag_end s\<close> matches the expression at the front of \<open>s\<close>
  and gives what follows the match: white space, an optional slash, white space, one of the tag
  names in any case, and everything up to the first closing angle bracket.  No two ways of matching
  end at different places, so no backtracking order has to be chosen.
\<close>

definition UNTRUSTED_POLICY_TAG :: string where
  "UNTRUSTED_POLICY_TAG = ''untrusted_repository_policy''"

definition PROMPT_STRUCTURAL_TAGS :: "string list" where
  "PROMPT_STRUCTURAL_TAGS =
     [UNTRUSTED_POLICY_TAG,
      ''untrusted_pull_request_diff'',
      ''untrusted_retrieved_repository_context'',
      ''untrusted_original_diff_hunk'',
      ''untrusted_prior_thread_conversation'',
      ''untrusted_human_question'',
      ''untrusted_repository_sources_json'',
      ''untrusted_candidates'',
      ''untrusted_review_feedback_json'',
      ''diffuse_finding_json'',
      ''repository_review_policy_json'',
      ''diffuse_security_policy_json'',
      ''changed_paths_json'']"

definition NEUTRALIZED_DELIMITER :: string where
  "NEUTRALIZED_DELIMITER = ''[diffuse removed a forged prompt delimiter]''"

text \<open>\<open>\s*/?\s*\<close>\<close>

definition skip_tag_slash :: "string \<Rightarrow> string" where
  "skip_tag_slash s =
     (case lstrip s of
        [] \<Rightarrow> []
      | c # cs \<Rightarrow> if c = CHR ''/'' then lstrip cs else c # cs)"

definition tag_name_end :: "string \<Rightarrow> string option" where
  "tag_name_end s =
     (case filter (\<lambda>tag. startswith (lower s) tag) PROMPT_STRUCTURAL_TAGS of
        [] \<Rightarrow> None
      | tag # _ \<Rightarrow> Some (drop (length tag) s))"

definition tag_end :: "string \<Rightarrow> string option" where
  "tag_end s =
     (case s of
        [] \<Rightarrow> None
      | c # cs \<Rightarrow>
          if c \<noteq> CHR ''<'' then None
          else (case tag_name_end (skip_tag_slash cs) of
                  None \<Rightarrow> None
                | Some rest \<Rightarrow>
                    (case dropWhile (\<lambda>d. d \<noteq> CHR ''>'') rest of
                       [] \<Rightarrow> None
                     | _ # after \<Rightarrow> Some after)))"

lemma length_lstrip_le: "length (lstrip s) \<le> length s"
  by (rule lstrip_length)

lemma skip_tag_slash_length: "length (skip_tag_slash s) \<le> length s"
proof (cases "lstrip s")
  case Nil
  then show ?thesis by (simp add: skip_tag_slash_def)
next
  case (Cons c cs)
  have "length (c # cs) \<le> length s" using lstrip_length[of s] Cons by simp
  moreover have "length (lstrip cs) \<le> length cs" by (rule lstrip_length)
  ultimately show ?thesis using Cons by (simp add: skip_tag_slash_def)
qed

lemma tag_name_end_length: "tag_name_end s = Some r \<Longrightarrow> length r \<le> length s"
  by (auto simp: tag_name_end_def split: list.splits)

lemma tag_end_length:
  assumes "tag_end s = Some r"
  shows "length r < length s"
proof -
  from assms obtain cs rest d where s: "s = CHR ''<'' # cs"
    and n: "tag_name_end (skip_tag_slash cs) = Some rest"
    and r: "dropWhile (\<lambda>d. d \<noteq> CHR ''>'') rest = d # r"
    by (auto simp: tag_end_def split: list.splits if_splits option.splits)
  have "length (d # r) \<le> length rest" using length_dropWhile_le[of _ rest] r by metis
  also have "\<dots> \<le> length (skip_tag_slash cs)" using n by (rule tag_name_end_length)
  also have "\<dots> \<le> length cs" by (rule skip_tag_slash_length)
  finally show ?thesis using s by simp
qed

text \<open>\<open>_STRUCTURAL_TAG_PATTERN.sub(NEUTRALIZED_DELIMITER, text)\<close>\<close>

function neutralize_prompt_delimiters :: "string \<Rightarrow> string" where
  "neutralize_prompt_delimiters s =
     (case tag_end s of
        Some after \<Rightarrow> NEUTRALIZED_DELIMITER @ neutralize_prompt_delimiters after
      | None \<Rightarrow> (case s of [] \<Rightarrow> [] | c # cs \<Rightarrow> c # neutralize_prompt_delimiters cs))"
  by pat_completeness auto
termination
  by (relation "measure length") (auto dest: tag_end_length)

declare neutralize_prompt_delimiters.simps [simp del]

section \<open>A neutralised text has no structural tag\<close>

text \<open>\<open>has_tag s\<close>: the expression matches somewhere in \<open>s\<close>.\<close>

fun has_tag :: "string \<Rightarrow> bool" where
  "has_tag [] = False"
| "has_tag (c # cs) = (tag_end (c # cs) \<noteq> None \<or> has_tag cs)"

lemma neutralize_tag:
  "tag_end s = Some after \<Longrightarrow>
   neutralize_prompt_delimiters s = NEUTRALIZED_DELIMITER @ neutralize_prompt_delimiters after"
  by (subst neutralize_prompt_delimiters.simps) simp

lemma neutralize_char:
  "tag_end (c # cs) = None \<Longrightarrow>
   neutralize_prompt_delimiters (c # cs) = c # neutralize_prompt_delimiters cs"
  by (subst neutralize_prompt_delimiters.simps) simp

lemma neutralize_Nil [simp]: "neutralize_prompt_delimiters [] = []"
  by (subst neutralize_prompt_delimiters.simps) (simp add: tag_end_def)

text \<open>The text after \<open><\<close> up to the match's end, as the expression writes it.\<close>

definition tag_shape :: "string \<Rightarrow> string \<Rightarrow> bool" where
  "tag_shape cs after \<longleftrightarrow>
     (\<exists>ws1 sl ws2 name mid.
        cs = ws1 @ sl @ ws2 @ name @ mid @ CHR ''>'' # after \<and>
        (\<forall>c \<in> set (ws1 @ ws2). is_space c) \<and> sl \<in> {[], ''/''} \<and>
        lower name \<in> set PROMPT_STRUCTURAL_TAGS \<and> CHR ''>'' \<notin> set mid)"

lemma tags_prefix_free:
  "a \<in> set PROMPT_STRUCTURAL_TAGS \<Longrightarrow> b \<in> set PROMPT_STRUCTURAL_TAGS \<Longrightarrow>
   take (length a) b = a \<Longrightarrow> a = b"
proof -
  have "list_all (\<lambda>a. list_all (\<lambda>b. take (length a) b = a \<longrightarrow> a = b) PROMPT_STRUCTURAL_TAGS)
          PROMPT_STRUCTURAL_TAGS" by code_simp
  then show "a \<in> set PROMPT_STRUCTURAL_TAGS \<Longrightarrow> b \<in> set PROMPT_STRUCTURAL_TAGS \<Longrightarrow>
      take (length a) b = a \<Longrightarrow> a = b"
    by (simp add: list_all_iff)
qed

lemma tag_chars:
  assumes "tag \<in> set PROMPT_STRUCTURAL_TAGS"
  shows "tag \<noteq> []" "c \<in> set tag \<Longrightarrow> c = CHR ''_'' \<or> is_lower_alpha c"
proof -
  have "list_all (\<lambda>t. t \<noteq> [] \<and> list_all (\<lambda>c. c = CHR ''_'' \<or> is_lower_alpha c) t)
          PROMPT_STRUCTURAL_TAGS" by code_simp
  then show "tag \<noteq> []" "c \<in> set tag \<Longrightarrow> c = CHR ''_'' \<or> is_lower_alpha c"
    using assms by (auto simp: list_all_iff)
qed

lemma lower_length [simp]: "length (lower s) = length s"
  by (simp add: lower_def)

lemma tag_name_chars:
  assumes "lower name \<in> set PROMPT_STRUCTURAL_TAGS" "c \<in> set name"
  shows "\<not> is_space c" "c \<noteq> CHR ''/''" "c \<noteq> CHR ''[''" "c \<noteq> CHR ''>''"
proof -
  have "lower_char c \<in> set (lower name)" using assms(2) by (simp add: lower_def)
  then have l: "lower_char c = CHR ''_'' \<or> is_lower_alpha (lower_char c)"
    using tag_chars(2)[OF assms(1)] by blast
  have s: "is_space c \<Longrightarrow> lower_char c = c"
    by (auto simp: is_space_def lower_char_def is_upper_alpha_def)
  show "\<not> is_space c"
    using l s by (auto simp: is_space_def is_lower_alpha_def code_def)
  show "c \<noteq> CHR ''/''" "c \<noteq> CHR ''[''" "c \<noteq> CHR ''>''"
    using l by (auto simp: lower_char_def is_upper_alpha_def is_lower_alpha_def code_def)
qed

lemma tag_name_hd:
  assumes "lower name \<in> set PROMPT_STRUCTURAL_TAGS"
  obtains c cs where "name = c # cs" "\<not> is_space c" "c \<noteq> CHR ''/''"
proof (cases name)
  case Nil
  then show ?thesis using tag_chars(1)[OF assms] by (simp add: lower_def)
next
  case (Cons c cs)
  then show ?thesis using tag_name_chars[OF assms, of c] that by simp
qed

lemma lstrip_spaces: "\<forall>c \<in> set ws. is_space c \<Longrightarrow> lstrip (ws @ s) = lstrip s"
  by (induction ws) auto

lemma lstrip_split: "\<exists>ws. s = ws @ lstrip s \<and> (\<forall>c \<in> set ws. is_space c)"
proof (induction s)
  case (Cons c cs)
  then obtain ws where "cs = ws @ lstrip cs" "\<forall>c \<in> set ws. is_space c" by blast
  show ?case
  proof (cases "is_space c")
    case True
    then show ?thesis using \<open>cs = ws @ lstrip cs\<close> \<open>\<forall>c \<in> set ws. is_space c\<close>
      by (intro exI[of _ "c # ws"]) simp
  qed (simp add: exI[of _ "[]"])
qed simp

lemma skip_tag_slash_shape:
  assumes "\<forall>c \<in> set (ws1 @ ws2). is_space c" "sl \<in> {[], ''/''}"
    and "lower name \<in> set PROMPT_STRUCTURAL_TAGS"
  shows "skip_tag_slash (ws1 @ sl @ ws2 @ name @ rest) = name @ rest"
proof -
  obtain c cs where n: "name = c # cs" "\<not> is_space c" "c \<noteq> CHR ''/''"
    using assms(3) by (rule tag_name_hd)
  have "\<not> is_space (CHR ''/'')" by (simp add: is_space_def code_def)
  then show ?thesis
    using assms n by (auto simp: skip_tag_slash_def lstrip_spaces)
qed

lemma skip_tag_slash_split:
  "\<exists>ws1 sl ws2. s = ws1 @ sl @ ws2 @ skip_tag_slash s \<and>
     (\<forall>c \<in> set (ws1 @ ws2). is_space c) \<and> sl \<in> {[], ''/''}"
proof -
  obtain ws1 where w: "s = ws1 @ lstrip s" "\<forall>c \<in> set ws1. is_space c" using lstrip_split by blast
  show ?thesis
  proof (cases "\<exists>cs. lstrip s = CHR ''/'' # cs")
    case True
    then obtain cs where cs: "lstrip s = CHR ''/'' # cs" by blast
    obtain ws2 where w2: "cs = ws2 @ lstrip cs" "\<forall>c \<in> set ws2. is_space c" using lstrip_split by blast
    have "s = ws1 @ ''/'' @ ws2 @ skip_tag_slash s"
      using w(1) w2(1) cs by (simp add: skip_tag_slash_def)
    then show ?thesis using w(2) w2(2)
      by (intro exI[of _ ws1] exI[of _ "''/''"] exI[of _ ws2]) auto
  next
    case False
    then have "skip_tag_slash s = lstrip s" by (auto simp: skip_tag_slash_def split: list.splits)
    then show ?thesis using w
      by (intro exI[of _ ws1] exI[of _ "[]"] exI[of _ "[]"]) auto
  qed
qed

lemma tag_name_end_iff:
  "tag_name_end s = Some rest \<longleftrightarrow>
   (\<exists>name. s = name @ rest \<and> lower name \<in> set PROMPT_STRUCTURAL_TAGS)"
proof
  assume "tag_name_end s = Some rest"
  then obtain tag ts where f: "filter (\<lambda>tag. startswith (lower s) tag) PROMPT_STRUCTURAL_TAGS = tag # ts"
    and r: "rest = drop (length tag) s" by (auto simp: tag_name_end_def split: list.splits)
  have "tag \<in> set (filter (\<lambda>tag. startswith (lower s) tag) PROMPT_STRUCTURAL_TAGS)" using f by simp
  then have "tag \<in> set PROMPT_STRUCTURAL_TAGS" "lower (take (length tag) s) = tag"
    by (simp_all add: startswith_def lower_def take_map)
  then show "\<exists>name. s = name @ rest \<and> lower name \<in> set PROMPT_STRUCTURAL_TAGS"
    using r by (intro exI[of _ "take (length tag) s"]) simp
next
  assume "\<exists>name. s = name @ rest \<and> lower name \<in> set PROMPT_STRUCTURAL_TAGS"
  then obtain name where s: "s = name @ rest" and n: "lower name \<in> set PROMPT_STRUCTURAL_TAGS" by blast
  let ?F = "filter (\<lambda>tag. startswith (lower s) tag) PROMPT_STRUCTURAL_TAGS"
  have "startswith (lower s) (lower name)" using s by (simp add: lower_def startswith_def)
  then have "lower name \<in> set ?F" using n by simp
  then have "?F \<noteq> []" by (metis empty_iff empty_set)
  then obtain tag ts where f: "?F = tag # ts" unfolding neq_Nil_conv by blast
  have "tag \<in> set ?F" unfolding f by simp
  then have t: "tag \<in> set PROMPT_STRUCTURAL_TAGS" "take (length tag) (lower s) = tag"
    by (simp_all add: startswith_def)
  have ls: "lower s = lower name @ lower rest" using s by (simp add: lower_def)
  have "tag = lower name"
  proof (cases "length tag \<le> length (lower name)")
    case True
    then have "take (length tag) (lower name) = tag" using t(2) ls by simp
    then show ?thesis using tags_prefix_free[OF t(1) n] by simp
  next
    case False
    let ?k = "length (lower name)"
    have "take ?k tag = take ?k (take (length tag) (lower s))" using t(2) by simp
    also have "\<dots> = take ?k (lower s)" using False by (simp add: min_def)
    also have "\<dots> = lower name" unfolding ls by simp
    finally have "take ?k tag = lower name" .
    then show ?thesis using tags_prefix_free[OF n t(1)] by simp
  qed
  then show "tag_name_end s = Some rest" using f s by (simp add: tag_name_end_def)
qed

lemma dropWhile_first:
  "dropWhile (\<lambda>d. d \<noteq> x) s = y # r \<longleftrightarrow> (\<exists>mid. s = mid @ x # r \<and> x \<notin> set mid) \<and> y = x"
proof
  assume a: "dropWhile (\<lambda>d. d \<noteq> x) s = y # r"
  then have "y = x" using hd_dropWhile[of "\<lambda>d. d \<noteq> x" s] by simp
  moreover have "s = takeWhile (\<lambda>d. d \<noteq> x) s @ y # r" using takeWhile_dropWhile_id a by metis
  ultimately show "(\<exists>mid. s = mid @ x # r \<and> x \<notin> set mid) \<and> y = x"
    using set_takeWhileD by (metis (mono_tags, lifting))
next
  assume "(\<exists>mid. s = mid @ x # r \<and> x \<notin> set mid) \<and> y = x"
  then obtain mid where "s = mid @ x # r" "x \<notin> set mid" "y = x" by blast
  then show "dropWhile (\<lambda>d. d \<noteq> x) s = y # r" by (auto simp: dropWhile_append3)
qed

lemma tag_end_iff: "tag_end s = Some after \<longleftrightarrow> (\<exists>cs. s = CHR ''<'' # cs \<and> tag_shape cs after)"
proof
  assume "tag_end s = Some after"
  then obtain cs rest d where s: "s = CHR ''<'' # cs"
    and n: "tag_name_end (skip_tag_slash cs) = Some rest"
    and r: "dropWhile (\<lambda>d. d \<noteq> CHR ''>'') rest = d # after"
    by (auto simp: tag_end_def split: list.splits if_splits option.splits)
  obtain name where nm: "skip_tag_slash cs = name @ rest" "lower name \<in> set PROMPT_STRUCTURAL_TAGS"
    using n unfolding tag_name_end_iff by blast
  obtain mid where m: "rest = mid @ CHR ''>'' # after" "CHR ''>'' \<notin> set mid"
    using r unfolding dropWhile_first by blast
  obtain ws1 sl ws2 where "cs = ws1 @ sl @ ws2 @ skip_tag_slash cs"
    "\<forall>c \<in> set (ws1 @ ws2). is_space c" "sl \<in> {[], ''/''}" using skip_tag_slash_split by blast
  then have "tag_shape cs after" unfolding tag_shape_def using nm m
    by (intro exI[of _ ws1] exI[of _ sl] exI[of _ ws2] exI[of _ name] exI[of _ mid]) simp
  then show "\<exists>cs. s = CHR ''<'' # cs \<and> tag_shape cs after" using s by blast
next
  assume "\<exists>cs. s = CHR ''<'' # cs \<and> tag_shape cs after"
  then obtain cs ws1 sl ws2 name mid where s: "s = CHR ''<'' # cs"
    and cs: "cs = ws1 @ sl @ ws2 @ name @ mid @ CHR ''>'' # after"
    and w: "\<forall>c \<in> set (ws1 @ ws2). is_space c" "sl \<in> {[], ''/''}"
    and n: "lower name \<in> set PROMPT_STRUCTURAL_TAGS" and m: "CHR ''>'' \<notin> set mid"
    unfolding tag_shape_def by blast
  have "skip_tag_slash cs = name @ mid @ CHR ''>'' # after"
    unfolding cs by (rule skip_tag_slash_shape[OF w n])
  moreover have "tag_name_end (name @ mid @ CHR ''>'' # after) = Some (mid @ CHR ''>'' # after)"
    unfolding tag_name_end_iff using n by blast
  moreover have "dropWhile (\<lambda>d. d \<noteq> CHR ''>'') (mid @ CHR ''>'' # after) = CHR ''>'' # after"
    unfolding dropWhile_first using m by blast
  ultimately show "tag_end s = Some after" by (simp add: s tag_end_def)
qed

lemma neutralized_no_bracket:
  "neutralize_prompt_delimiters cs = p @ q \<Longrightarrow> CHR ''['' \<notin> set p \<Longrightarrow>
   \<exists>q'. cs = p @ q' \<and> neutralize_prompt_delimiters q' = q"
proof (induction p arbitrary: cs)
  case Nil
  then show ?case by simp
next
  case (Cons x p)
  have nt: "tag_end cs = None"
  proof (cases "tag_end cs")
    case (Some after)
    then have "hd (neutralize_prompt_delimiters cs) = CHR ''[''"
      by (simp add: neutralize_tag NEUTRALIZED_DELIMITER_def)
    then show ?thesis using Cons.prems by simp
  qed
  obtain d ds where cs: "cs = d # ds" using Cons.prems(1) by (cases cs) auto
  then have "d = x" "neutralize_prompt_delimiters ds = p @ q"
    using Cons.prems(1) neutralize_char[of d ds] nt by auto
  then show ?case using Cons.IH[of ds] Cons.prems(2) cs by auto
qed

lemma neutralized_keeps_bracket:
  "CHR ''>'' \<in> set (neutralize_prompt_delimiters s) \<Longrightarrow> CHR ''>'' \<in> set s"
proof (induction s rule: neutralize_prompt_delimiters.induct)
  case (1 s)
  show ?case
  proof (cases "tag_end s")
    case None
    show ?thesis
    proof (cases s)
      case Nil
      then show ?thesis using 1 by simp
    next
      case (Cons c cs)
      then show ?thesis using 1(3) 1(1)[OF None Cons] None by (auto simp: neutralize_char)
    qed
  next
    case (Some after)
    then show ?thesis unfolding tag_end_iff tag_shape_def by auto
  qed
qed

lemma first_occurrence: "x \<in> set s \<Longrightarrow> \<exists>mid r. s = mid @ x # r \<and> x \<notin> set mid"
  by (rule split_list_first)

lemma no_tag_at_kept_char:
  assumes "tag_end (c # cs) = None"
  shows "tag_end (c # neutralize_prompt_delimiters cs) = None"
proof (rule ccontr)
  assume "tag_end (c # neutralize_prompt_delimiters cs) \<noteq> None"
  then obtain r where "tag_end (c # neutralize_prompt_delimiters cs) = Some r" by blast
  then have c: "c = CHR ''<''" and "tag_shape (neutralize_prompt_delimiters cs) r"
    unfolding tag_end_iff by blast+
  then obtain ws1 sl ws2 name mid where
    ncs': "neutralize_prompt_delimiters cs = ws1 @ sl @ ws2 @ name @ mid @ CHR ''>'' # r"
    and w: "\<forall>c \<in> set (ws1 @ ws2). is_space c" "sl \<in> {[], ''/''}"
    and n: "lower name \<in> set PROMPT_STRUCTURAL_TAGS"
    unfolding tag_shape_def by (elim exE conjE)
  have ncs: "neutralize_prompt_delimiters cs = (ws1 @ sl @ ws2 @ name) @ mid @ CHR ''>'' # r"
    using ncs' by simp
  have "\<not> is_space (CHR ''['')" by (simp add: is_space_def code_def)
  then have "CHR ''['' \<notin> set (ws1 @ sl @ ws2 @ name)"
    using w tag_name_chars(3)[OF n] by auto
  then obtain q where q: "cs = (ws1 @ sl @ ws2 @ name) @ q"
    "neutralize_prompt_delimiters q = mid @ CHR ''>'' # r"
    using neutralized_no_bracket[OF ncs] by blast
  then have "CHR ''>'' \<in> set q" using neutralized_keeps_bracket[of q] by simp
  then obtain mid' r' where "q = mid' @ CHR ''>'' # r'" "CHR ''>'' \<notin> set mid'"
    using first_occurrence by metis
  then have "tag_shape cs r'" unfolding tag_shape_def using q(1) w n
    by (intro exI[of _ ws1] exI[of _ sl] exI[of _ ws2] exI[of _ name] exI[of _ mid']) simp
  then have "tag_end (c # cs) = Some r'" unfolding tag_end_iff using c by blast
  then show False using assms by simp
qed

lemma has_tag_append_no_open:
  "CHR ''<'' \<notin> set p \<Longrightarrow> has_tag (p @ s) = has_tag s"
  by (induction p) (auto simp: tag_end_def)

lemma neutralized_has_no_tag: "\<not> has_tag (neutralize_prompt_delimiters s)"
proof (induction s rule: neutralize_prompt_delimiters.induct)
  case (1 s)
  show ?case
  proof (cases "tag_end s")
    case None
    show ?thesis
    proof (cases s)
      case (Cons c cs)
      then show ?thesis using 1(1)[OF None Cons] None no_tag_at_kept_char[of c cs]
        by (simp add: neutralize_char)
    qed simp
  next
    case (Some after)
    have "CHR ''<'' \<notin> set NEUTRALIZED_DELIMITER" by (simp add: NEUTRALIZED_DELIMITER_def)
    then show ?thesis using 1(2)[OF Some] Some
      by (simp add: neutralize_tag has_tag_append_no_open)
  qed
qed

lemma tag_shape_append: "tag_shape cs r \<Longrightarrow> tag_shape (cs @ t) (r @ t)"
proof -
  assume "tag_shape cs r"
  then obtain ws1 sl ws2 name mid where "cs = ws1 @ sl @ ws2 @ name @ mid @ CHR ''>'' # r"
    "\<forall>c \<in> set (ws1 @ ws2). is_space c" "sl \<in> {[], ''/''}"
    "lower name \<in> set PROMPT_STRUCTURAL_TAGS" "CHR ''>'' \<notin> set mid"
    unfolding tag_shape_def by (elim exE conjE)
  then show ?thesis unfolding tag_shape_def
    by (intro exI[of _ ws1] exI[of _ sl] exI[of _ ws2] exI[of _ name] exI[of _ mid] conjI) simp_all
qed

lemma tag_end_prefix: "tag_end s = Some r \<Longrightarrow> tag_end (s @ t) = Some (r @ t)"
  unfolding tag_end_iff by (auto intro: tag_shape_append)

lemma has_tag_prefix: "has_tag s \<Longrightarrow> has_tag (s @ t)"
proof (induction s)
  case (Cons c cs)
  show ?case
  proof (cases "tag_end (c # cs)")
    case None
    then show ?thesis using Cons by simp
  next
    case (Some r)
    then show ?thesis using tag_end_prefix[of "c # cs" r t] by simp
  qed
qed simp

lemma take_has_no_tag: "\<not> has_tag s \<Longrightarrow> \<not> has_tag (take n s)"
  using has_tag_prefix[of "take n s" "drop n s"] by auto

lemma has_tag_iff: "has_tag s \<longleftrightarrow> (\<exists>a b. s = a @ b \<and> tag_end b \<noteq> None)"
proof (induction s)
  case Nil
  then show ?case by (simp add: tag_end_def)
next
  case (Cons c cs)
  show ?case
  proof
    assume "has_tag (c # cs)"
    then consider "tag_end (c # cs) \<noteq> None" | "has_tag cs" by auto
    then show "\<exists>a b. c # cs = a @ b \<and> tag_end b \<noteq> None"
    proof cases
      case 1
      then show ?thesis by (intro exI[of _ "[]"] exI[of _ "c # cs"]) simp
    next
      case 2
      then obtain a b where "cs = a @ b" "tag_end b \<noteq> None" using Cons by blast
      then show ?thesis by (intro exI[of _ "c # a"] exI[of _ b]) simp
    qed
  next
    assume "\<exists>a b. c # cs = a @ b \<and> tag_end b \<noteq> None"
    then obtain a b where ab: "c # cs = a @ b" "tag_end b \<noteq> None" by blast
    show "has_tag (c # cs)"
    proof (cases a)
      case Nil
      then have "b = c # cs" using ab(1) by simp
      then show ?thesis using ab(2) by (simp only: has_tag.simps) blast
    next
      case (Cons x xs)
      then have "has_tag cs" using ab Cons.IH by auto
      then show ?thesis by simp
    qed
  qed
qed

end
