(* ===== verification/Policy_Models.thy ===== *)
theory Policy_Models
  imports Json
begin

text \<open>
  Schemas of the repository policy (\<open>repository/policy/models.py\<close>).  A pydantic model is a record;
  \<open>accept_\<dots>\<close> is its validation of a record whose fields have the declared types and whose strings
  pydantic has stripped: the declared \<open>Field\<close> constraints and the model's own validators, in the
  result the normalised record, \<open>None\<close> a \<open>ValidationError\<close>.  Confidences are reals; \<open>frepr\<close> gives the
  text JSON has for one.
\<close>

section \<open>Constants\<close>

definition POLICY_SCHEMA_VERSION :: string where
  "POLICY_SCHEMA_VERSION = ''repository-policy-v15''"

definition REVIEW_PASS_NAMES :: "string list" where
  "REVIEW_PASS_NAMES = [''correctness'', ''security'', ''performance'', ''tests'']"

definition SEVERITY_NAMES :: "string list" where
  "SEVERITY_NAMES = [''critical'', ''high'', ''medium'', ''low'']"

definition CATEGORY_NAMES :: "string list" where
  "CATEGORY_NAMES =
     [''correctness'', ''security'', ''performance'', ''reliability'', ''testing'', ''architecture'',
      ''maintainability'', ''api'']"

definition PRIVATE_KEY_EXTENSIONS :: "string list" where
  "PRIVATE_KEY_EXTENSIONS =
     [''.asc'', ''.der'', ''.gpg'', ''.jks'', ''.kdbx'', ''.key'', ''.keystore'', ''.p12'', ''.p8'',
      ''.pem'', ''.pfx'', ''.pkcs12'', ''.ppk'']"

definition SENSITIVE_FILENAMES :: "string list" where
  "SENSITIVE_FILENAMES =
     [''.git-credentials'', ''.htpasswd'', ''.netrc'', ''.npmrc'', ''.pgpass'', ''.pypirc'',
      ''_netrc'', ''credentials'', ''credentials.json'', ''secring.gpg'', ''secrets.json'',
      ''secrets.yaml'', ''secrets.yml'', ''service-account.json'', ''service_account.json'',
      ''serviceaccount.json'']"

definition SENSITIVE_FILENAME_PREFIXES :: "string list" where
  "SENSITIVE_FILENAME_PREFIXES = [''id_rsa'', ''id_dsa'', ''id_ecdsa'', ''id_ed25519'']"

definition SENSITIVE_DIRECTORIES :: "string list" where
  "SENSITIVE_DIRECTORIES = [''.aws'', ''.azure'', ''.gcloud'', ''.gnupg'', ''.ssh'']"

definition ENV_TEMPLATE_SUFFIXES :: "string list" where
  "ENV_TEMPLATE_SUFFIXES = [''.dist'', ''.example'', ''.sample'', ''.template'', ''.tmpl'']"

section \<open>String validators\<close>

definition validate_repo_glob :: "string \<Rightarrow> string + string" where
  "validate_repo_glob value =
     (let v = strip value in
      if v = [] \<or> 512 < length v then Inl ''path globs must contain between 1 and 512 characters''
      else if startswith v ''/'' \<or> startswith v [CHR 0x5C] \<or> CHR 0x5C \<in> set v \<or> CHR 0x00 \<in> set v
        then Inl ''path globs must be repository-relative and use forward slashes''
      else if list_ex (\<lambda>p. p = ''..'') (split_on CHR ''/'' v)
        then Inl ''path globs cannot traverse parent directories''
      else Inr v)"

definition validate_repo_path :: "string \<Rightarrow> string + string" where
  "validate_repo_path value =
     (let v = strip value in
      if v = [] \<or> 1024 < length v \<or> startswith v ''/'' \<or> startswith v [CHR 0x5C] \<or>
         CHR 0x5C \<in> set v \<or> CHR 0x00 \<in> set v \<or>
         list_ex (\<lambda>p. p \<in> {'''', ''.'', ''..''}) (split_on CHR ''/'' v)
      then Inl ''paths must be normalized repository-relative paths''
      else Inr v)"

text \<open>\<open>PurePosixPath\<close>: its parts (without the root) and the suffix of a final part.\<close>

definition posix_parts :: "string \<Rightarrow> string list" where
  "posix_parts path = filter (\<lambda>p. p \<noteq> [] \<and> p \<noteq> ''.'') (split_on CHR ''/'' path)"

definition posix_name :: "string \<Rightarrow> string" where
  "posix_name path = (if posix_parts path = [] then [] else last (posix_parts path))"

definition posix_suffix :: "string \<Rightarrow> string" where
  "posix_suffix name =
     (let ext = rev (takeWhile (\<lambda>c. c \<noteq> CHR ''.'') (rev name)) in
      if ext = [] \<or> length name \<le> length ext + 1 then [] else CHR ''.'' # ext)"

definition is_sensitive_repo_path :: "string \<Rightarrow> bool" where
  "is_sensitive_repo_path value =
     (let name = lower (posix_name value) in
      if list_ex (\<lambda>part. lower part \<in> set SENSITIVE_DIRECTORIES) (butlast (posix_parts value)) then True
      else if list_ex (endswith name) ENV_TEMPLATE_SUFFIXES then False
      else if name \<in> set SENSITIVE_FILENAMES \<or> list_ex (startswith name) SENSITIVE_FILENAME_PREFIXES
        then True
      else if posix_suffix name \<in> set PRIVATE_KEY_EXTENSIONS then True
      else startswith name ''.env'' \<or> endswith name ''.env'')"

definition validate_filter_pattern :: "string \<Rightarrow> string + string" where
  "validate_filter_pattern value =
     (let v = strip value in
      if v = [] \<or> 256 < length v \<or> list_ex (\<lambda>c. code c < 32) v
        then Inl ''filter patterns must contain 1 to 256 printable characters''
      else if count_char CHR 0x7B v \<noteq> count_char CHR 0x7D v \<or> 8 < count_char CHR 0x7B v
        then Inl ''filter-pattern alternation braces must be balanced and bounded''
      else Inr v)"

definition validate_keyword :: "string \<Rightarrow> string + string" where
  "validate_keyword value =
     (let v = strip value in
      if v = [] \<or> 200 < length v \<or> list_ex (\<lambda>c. code c < 32) v
        then Inl ''keywords must contain 1 to 200 printable characters''
      else Inr v)"

text \<open>\<open>RULE_ID_PATTERN\<close> and \<open>CONTEXT_REPOSITORY_PATTERN\<close>\<close>

definition rule_id_char :: "char \<Rightarrow> bool" where
  "rule_id_char c \<longleftrightarrow> is_lower_alpha c \<or> is_digit c"

definition is_rule_id :: "string \<Rightarrow> bool" where
  "is_rule_id s \<longleftrightarrow>
     s \<noteq> [] \<and> rule_id_char (hd s) \<and> length s \<le> 64 \<and>
     list_all (\<lambda>c. rule_id_char c \<or> c \<in> set ''._-'') s"

definition repo_name_char :: "char \<Rightarrow> bool" where
  "repo_name_char c \<longleftrightarrow> is_upper_alpha c \<or> is_lower_alpha c \<or> is_digit c \<or> c \<in> set ''_.-''"

definition is_context_repository :: "string \<Rightarrow> bool" where
  "is_context_repository s \<longleftrightarrow>
     (case split_on CHR ''/'' s of
        [owner, repo] \<Rightarrow>
          owner \<noteq> [] \<and> repo \<noteq> [] \<and> list_all repo_name_char owner \<and> list_all repo_name_char repo
      | _ \<Rightarrow> False)"

section \<open>Patches\<close>

record section_patch =
  sp_included :: "bool option"
  sp_collapsible :: "bool option"
  sp_default_open :: "bool option"

record review_patch =
  rv_enabled :: "bool option"
  rv_passes :: "string list option"
  rv_minimum_confidence :: "real option"
  rv_minimum_severity :: "string option"
  rv_ignored_paths :: "string list"
  rv_summary_only :: "bool option"
  rv_respond_to_comments :: "bool option"
  rv_update_description :: "bool option"
  rv_summary_comment :: "bool option"
  rv_summary_section :: section_patch
  rv_issues_table_section :: section_patch
  rv_confidence_score_section :: section_patch
  rv_diagram :: section_patch
  rv_hide_footer :: "bool option"

record trigger_patch =
  tg_automatic :: "bool option"
  tg_review_drafts :: "bool option"
  tg_review_updates :: "bool option"
  tg_labels :: "string list option"
  tg_disabled_labels :: "string list option"
  tg_include_authors :: "string list option"
  tg_exclude_authors :: "string list option"
  tg_include_branches :: "string list option"
  tg_exclude_branches :: "string list option"
  tg_include_keywords :: "string list option"
  tg_exclude_keywords :: "string list option"
  tg_file_change_limit :: "int option"
  tg_status_check :: "bool option"
  tg_failure_comment :: "bool option"
  tg_blocking_severities :: "string list option"

record repository_rule =
  rr_id :: string
  rr_title :: string
  rr_guidance :: string
  rr_applies_to :: "string list"
  rr_enabled :: bool
  rr_severity :: string
  rr_category :: string

record rule_override =
  ro_enabled :: "bool option"
  ro_severity :: "string option"
  ro_category :: "string option"

record security_patch =
  sc_preventative :: "bool option"
  sc_preventative_minimum_confidence :: "real option"

record repository_config =
  rc_version :: int
  rc_review :: review_patch
  rc_triggers :: trigger_patch
  rc_context_repos :: "string list option"
  rc_security :: security_patch
  rc_rules :: "repository_rule list"
  rc_rule_overrides :: "(string \<times> rule_override) list"

record context_file =
  cf_path :: string
  cf_description :: "string option"
  cf_applies_to :: "string list"

record context_files_config =
  cc_version :: int
  cc_files :: "context_file list"

section \<open>Validation of the models\<close>

definition valid_items :: "(string \<Rightarrow> string + string) \<Rightarrow> string list \<Rightarrow> string list option" where
  "valid_items validate xs = (case map_result validate xs of Inl _ \<Rightarrow> None | Inr ys \<Rightarrow> Some ys)"

text \<open>\<open>valid_filter_patterns\<close>, \<open>valid_keywords\<close>: each item valid, unique ignoring case.\<close>

definition valid_unique_items ::
    "(string \<Rightarrow> string + string) \<Rightarrow> string list option \<Rightarrow> string list option option" where
  "valid_unique_items validate value =
     (case value of
        None \<Rightarrow> Some None
      | Some xs \<Rightarrow>
          if 100 < length xs then None
          else (case valid_items validate xs of
                  None \<Rightarrow> None
                | Some ys \<Rightarrow> if distinct (map casefold ys) then Some (Some ys) else None))"

definition opt_all :: "('a \<Rightarrow> bool) \<Rightarrow> 'a option \<Rightarrow> bool" where
  "opt_all P m = (case m of None \<Rightarrow> True | Some x \<Rightarrow> P x)"

definition accept_review_patch :: "review_patch \<Rightarrow> review_patch option" where
  "accept_review_patch r =
     (if opt_all (\<lambda>ps. 1 \<le> length ps \<and> length ps \<le> 4 \<and> set ps \<subseteq> set REVIEW_PASS_NAMES \<and> distinct ps)
           (rv_passes r) \<and>
         opt_all (\<lambda>c. 0 \<le> c \<and> c \<le> 1) (rv_minimum_confidence r) \<and>
         opt_all (\<lambda>s. s \<in> set SEVERITY_NAMES) (rv_minimum_severity r) \<and>
         length (rv_ignored_paths r) \<le> 100
      then (case valid_items validate_repo_glob (rv_ignored_paths r) of
              None \<Rightarrow> None | Some globs \<Rightarrow> Some (r\<lparr>rv_ignored_paths := globs\<rparr>))
      else None)"

definition accept_trigger_patch :: "trigger_patch \<Rightarrow> trigger_patch option" where
  "accept_trigger_patch t =
     (if opt_all (\<lambda>n. 1 \<le> n \<and> n \<le> 100000) (tg_file_change_limit t) \<and>
         opt_all (\<lambda>ss. 1 \<le> length ss \<and> length ss \<le> 4 \<and> set ss \<subseteq> set SEVERITY_NAMES \<and> distinct ss)
           (tg_blocking_severities t)
      then Option.bind (valid_unique_items validate_filter_pattern (tg_labels t)) (\<lambda>labels.
           Option.bind (valid_unique_items validate_filter_pattern (tg_disabled_labels t)) (\<lambda>disabled.
           Option.bind (valid_unique_items validate_filter_pattern (tg_include_authors t)) (\<lambda>ia.
           Option.bind (valid_unique_items validate_filter_pattern (tg_exclude_authors t)) (\<lambda>ea.
           Option.bind (valid_unique_items validate_filter_pattern (tg_include_branches t)) (\<lambda>ib.
           Option.bind (valid_unique_items validate_filter_pattern (tg_exclude_branches t)) (\<lambda>eb.
           Option.bind (valid_unique_items validate_keyword (tg_include_keywords t)) (\<lambda>ik.
           Option.bind (valid_unique_items validate_keyword (tg_exclude_keywords t)) (\<lambda>ek.
             Some (t\<lparr>tg_labels := labels, tg_disabled_labels := disabled,
                     tg_include_authors := ia, tg_exclude_authors := ea,
                     tg_include_branches := ib, tg_exclude_branches := eb,
                     tg_include_keywords := ik, tg_exclude_keywords := ek\<rparr>)))))))))
      else None)"

definition accept_rule :: "repository_rule \<Rightarrow> repository_rule option" where
  "accept_rule r =
     (if is_rule_id (rr_id r) \<and> 1 \<le> length (rr_title r) \<and> length (rr_title r) \<le> 200 \<and>
         1 \<le> length (rr_guidance r) \<and> length (rr_guidance r) \<le> 6000 \<and>
         1 \<le> length (rr_applies_to r) \<and> length (rr_applies_to r) \<le> 32 \<and>
         rr_severity r \<in> set SEVERITY_NAMES \<and> rr_category r \<in> set CATEGORY_NAMES
      then (case valid_items validate_repo_glob (rr_applies_to r) of
              None \<Rightarrow> None | Some globs \<Rightarrow> Some (r\<lparr>rr_applies_to := globs\<rparr>))
      else None)"

definition accept_rule_override :: "rule_override \<Rightarrow> bool" where
  "accept_rule_override r \<longleftrightarrow>
     opt_all (\<lambda>s. s \<in> set SEVERITY_NAMES) (ro_severity r) \<and>
     opt_all (\<lambda>c. c \<in> set CATEGORY_NAMES) (ro_category r)"

definition accept_context_repos :: "string list option \<Rightarrow> string list option option" where
  "accept_context_repos repos =
     (case repos of
        None \<Rightarrow> Some None
      | Some xs \<Rightarrow>
          (let ys = map strip xs in
           if 7 < length xs then None
           else if list_ex (\<lambda>y. \<not> is_context_repository y \<or> 512 < length y \<or>
                     list_ex (\<lambda>p. p \<in> {''.'', ''..''}) (split_on CHR ''/'' y)) ys then None
           else if \<not> distinct (map casefold ys) then None
           else Some (Some ys)))"

definition accept_security_patch :: "security_patch \<Rightarrow> bool" where
  "accept_security_patch s \<longleftrightarrow>
     opt_all (\<lambda>c. 3 / 4 \<le> c \<and> c \<le> 1) (sc_preventative_minimum_confidence s)"

fun accept_all :: "('a \<Rightarrow> 'b option) \<Rightarrow> 'a list \<Rightarrow> 'b list option" where
  "accept_all f [] = Some []"
| "accept_all f (x # xs) =
     (case f x of None \<Rightarrow> None
      | Some y \<Rightarrow> (case accept_all f xs of None \<Rightarrow> None | Some ys \<Rightarrow> Some (y # ys)))"

definition accept_config :: "repository_config \<Rightarrow> repository_config option" where
  "accept_config c =
     (if rc_version c = 1 \<and> accept_security_patch (rc_security c) \<and>
         length (rc_rules c) \<le> 100 \<and> length (rc_rule_overrides c) \<le> 100 \<and>
         list_all (\<lambda>(k, r). is_rule_id k \<and> accept_rule_override r) (rc_rule_overrides c)
      then Option.bind (accept_review_patch (rc_review c)) (\<lambda>review.
           Option.bind (accept_trigger_patch (rc_triggers c)) (\<lambda>triggers.
           Option.bind (accept_context_repos (rc_context_repos c)) (\<lambda>repos.
           Option.bind (accept_all accept_rule (rc_rules c)) (\<lambda>rules.
             if distinct (map rr_id rules)
             then Some (c\<lparr>rc_review := review, rc_triggers := triggers, rc_context_repos := repos,
                          rc_rules := rules\<rparr>)
             else None))))
      else None)"

definition accept_context_file :: "context_file \<Rightarrow> context_file option" where
  "accept_context_file f =
     (if 1 \<le> length (cf_path f) \<and> length (cf_path f) \<le> 1024 \<and>
         opt_all (\<lambda>d. length d \<le> 500) (cf_description f) \<and>
         1 \<le> length (cf_applies_to f) \<and> length (cf_applies_to f) \<le> 32
      then (case validate_repo_path (cf_path f) of
              Inl _ \<Rightarrow> None
            | Inr path \<Rightarrow>
                (case valid_items validate_repo_glob (cf_applies_to f) of
                   None \<Rightarrow> None
                 | Some globs \<Rightarrow> Some (f\<lparr>cf_path := path, cf_applies_to := globs\<rparr>)))
      else None)"

definition accept_context_files :: "context_files_config \<Rightarrow> context_files_config option" where
  "accept_context_files c =
     (if cc_version c = 1 \<and> length (cc_files c) \<le> 100
      then (case accept_all accept_context_file (cc_files c) of
              None \<Rightarrow> None | Some files \<Rightarrow> Some (c\<lparr>cc_files := files\<rparr>))
      else None)"

section \<open>Layers, documents and the snapshot\<close>

record policy_layer =
  ly_directory :: string
  ly_source :: string
  ly_config :: repository_config

record guidance_document =
  gd_directory :: string
  gd_source :: string
  gd_kind :: string
  gd_applies_to :: "string list"
  gd_content :: string
  gd_content_hash :: string
  gd_description :: "string option"
  gd_priority :: int

record policy_snapshot =
  ps_layers :: "policy_layer list"
  ps_documents :: "guidance_document list"
  ps_skipped :: "string list"
  ps_fingerprint :: string

text \<open>\<open>model_dump(mode="json")\<close>\<close>

definition JOpt :: "('a \<Rightarrow> json) \<Rightarrow> 'a option \<Rightarrow> json" where
  "JOpt f m = (case m of None \<Rightarrow> JNull | Some x \<Rightarrow> f x)"

definition section_json :: "section_patch \<Rightarrow> json" where
  "section_json s =
     JObj [(''included'', JOpt JBool (sp_included s)),
           (''collapsible'', JOpt JBool (sp_collapsible s)),
           (''default_open'', JOpt JBool (sp_default_open s))]"

definition review_json :: "(real \<Rightarrow> string) \<Rightarrow> review_patch \<Rightarrow> json" where
  "review_json frepr r =
     JObj [(''enabled'', JOpt JBool (rv_enabled r)),
           (''passes'', JOpt JStrs (rv_passes r)),
           (''minimum_confidence'', JOpt (\<lambda>c. JFloat (frepr c)) (rv_minimum_confidence r)),
           (''minimum_severity'', JOpt JStr (rv_minimum_severity r)),
           (''ignored_paths'', JStrs (rv_ignored_paths r)),
           (''summary_only'', JOpt JBool (rv_summary_only r)),
           (''respond_to_comments'', JOpt JBool (rv_respond_to_comments r)),
           (''update_description'', JOpt JBool (rv_update_description r)),
           (''summary_comment'', JOpt JBool (rv_summary_comment r)),
           (''summary_section'', section_json (rv_summary_section r)),
           (''issues_table_section'', section_json (rv_issues_table_section r)),
           (''confidence_score_section'', section_json (rv_confidence_score_section r)),
           (''diagram'', section_json (rv_diagram r)),
           (''hide_footer'', JOpt JBool (rv_hide_footer r))]"

definition trigger_json :: "trigger_patch \<Rightarrow> json" where
  "trigger_json t =
     JObj [(''automatic'', JOpt JBool (tg_automatic t)),
           (''review_drafts'', JOpt JBool (tg_review_drafts t)),
           (''review_updates'', JOpt JBool (tg_review_updates t)),
           (''labels'', JOpt JStrs (tg_labels t)),
           (''disabled_labels'', JOpt JStrs (tg_disabled_labels t)),
           (''include_authors'', JOpt JStrs (tg_include_authors t)),
           (''exclude_authors'', JOpt JStrs (tg_exclude_authors t)),
           (''include_branches'', JOpt JStrs (tg_include_branches t)),
           (''exclude_branches'', JOpt JStrs (tg_exclude_branches t)),
           (''include_keywords'', JOpt JStrs (tg_include_keywords t)),
           (''exclude_keywords'', JOpt JStrs (tg_exclude_keywords t)),
           (''file_change_limit'', JOpt JInt (tg_file_change_limit t)),
           (''status_check'', JOpt JBool (tg_status_check t)),
           (''failure_comment'', JOpt JBool (tg_failure_comment t)),
           (''blocking_severities'', JOpt JStrs (tg_blocking_severities t))]"

definition rule_json :: "repository_rule \<Rightarrow> json" where
  "rule_json r =
     JObj [(''id'', JStr (rr_id r)), (''title'', JStr (rr_title r)),
           (''guidance'', JStr (rr_guidance r)), (''applies_to'', JStrs (rr_applies_to r)),
           (''enabled'', JBool (rr_enabled r)), (''severity'', JStr (rr_severity r)),
           (''category'', JStr (rr_category r))]"

definition override_json :: "rule_override \<Rightarrow> json" where
  "override_json r =
     JObj [(''enabled'', JOpt JBool (ro_enabled r)), (''severity'', JOptStr (ro_severity r)),
           (''category'', JOptStr (ro_category r))]"

definition config_json :: "(real \<Rightarrow> string) \<Rightarrow> repository_config \<Rightarrow> json" where
  "config_json frepr c =
     JObj [(''version'', JInt (rc_version c)),
           (''review'', review_json frepr (rc_review c)),
           (''triggers'', trigger_json (rc_triggers c)),
           (''context'', JObj [(''repos'', JOpt JStrs (rc_context_repos c))]),
           (''security'',
              JObj [(''preventative'', JOpt JBool (sc_preventative (rc_security c))),
                    (''preventative_minimum_confidence'',
                       JOpt (\<lambda>x. JFloat (frepr x))
                         (sc_preventative_minimum_confidence (rc_security c)))]),
           (''rules'', JArr (map rule_json (rc_rules c))),
           (''rule_overrides'', JObj (map (\<lambda>(k, r). (k, override_json r)) (rc_rule_overrides c)))]"

definition policy_fingerprint ::
    "(string \<Rightarrow> string) \<Rightarrow> (real \<Rightarrow> string) \<Rightarrow> policy_layer list \<Rightarrow> guidance_document list \<Rightarrow> string" where
  "policy_fingerprint sha256 frepr layers documents =
     sha256 (json_dumps
       (JObj [(''schema'', JStr POLICY_SCHEMA_VERSION),
              (''layers'', JArr (map (\<lambda>l.
                 JObj [(''directory_path'', JStr (ly_directory l)),
                       (''source_path'', JStr (ly_source l)),
                       (''config'', config_json frepr (ly_config l))]) layers)),
              (''guidance_documents'', JArr (map (\<lambda>d.
                 JObj [(''directory_path'', JStr (gd_directory d)),
                       (''source_path'', JStr (gd_source d)),
                       (''kind'', JStr (gd_kind d)),
                       (''applies_to'', JStrs (gd_applies_to d)),
                       (''content_hash'', JStr (gd_content_hash d)),
                       (''description'', JOptStr (gd_description d)),
                       (''priority'', JInt (gd_priority d))]) documents))]))"

text \<open>Constructing a snapshot: \<open>__post_init__\<close> fills an empty fingerprint in and refuses a wrong one.\<close>

definition make_snapshot ::
    "(string \<Rightarrow> string) \<Rightarrow> (real \<Rightarrow> string) \<Rightarrow> policy_layer list \<Rightarrow> guidance_document list \<Rightarrow>
     string list \<Rightarrow> string \<Rightarrow> string + policy_snapshot" where
  "make_snapshot sha256 frepr layers documents skipped fingerprint =
     (let expected = policy_fingerprint sha256 frepr layers documents in
      if fingerprint = [] \<or> fingerprint = expected
      then Inr \<lparr>ps_layers = layers, ps_documents = documents, ps_skipped = skipped,
                ps_fingerprint = expected\<rparr>
      else Inl ''Repository policy fingerprint does not match its contents'')"

end
