(* ===== verification/Policy.thy ===== *)
theory Policy
  imports Glob Prompt Policy_Models
begin

text \<open>
  The resolved review policy (\<open>repository/policy/resolve.py\<close>): what one changed path is reviewed
  under, folded over the layers of the snapshot (\<open>resolve_path\<close>), and the questions the review asks
  of the policies of all changed paths.  \<open>sorted({\<dots>}, key=str.casefold)\<close> leaves items that differ in
  case only in the iteration order of a set; the model lists them in order of first occurrence.
\<close>

section \<open>Resolved records\<close>

record resolved_rule =
  ru_id :: string
  ru_title :: string
  ru_guidance :: string
  ru_severity :: string
  ru_category :: string
  ru_source :: string

record learned_rule =
  lr_id :: int
  lr_version :: int
  lr_title :: string
  lr_guidance :: string
  lr_applies_to :: "string list"
  lr_severity :: string
  lr_category :: string

definition learned_source_path :: "learned_rule \<Rightarrow> string" where
  "learned_source_path r =
     ''diffuse://learned-rules/'' @ str_of_int (lr_id r) @ ''/versions/'' @ str_of_int (lr_version r)"

record custom_context =
  cx_id :: int
  cx_type :: string
  cx_body :: string
  cx_applies_to :: "string list"
  cx_metadata :: json

definition context_source_path :: "custom_context \<Rightarrow> string" where
  "context_source_path c = ''diffuse://custom-context/'' @ str_of_int (cx_id c)"

record trigger_policy =
  tp_automatic :: bool
  tp_review_drafts :: bool
  tp_review_updates :: bool
  tp_labels :: "string list"
  tp_disabled_labels :: "string list"
  tp_include_authors :: "string list"
  tp_exclude_authors :: "string list"
  tp_include_branches :: "string list"
  tp_exclude_branches :: "string list"
  tp_include_keywords :: "string list"
  tp_exclude_keywords :: "string list"
  tp_file_change_limit :: "int option"
  tp_status_check :: bool
  tp_failure_comment :: bool
  tp_blocking_severities :: "string list"

definition default_triggers :: trigger_policy where
  "default_triggers =
     \<lparr>tp_automatic = True, tp_review_drafts = False, tp_review_updates = True,
      tp_labels = [], tp_disabled_labels = [], tp_include_authors = [], tp_exclude_authors = [],
      tp_include_branches = [], tp_exclude_branches = [], tp_include_keywords = [],
      tp_exclude_keywords = [], tp_file_change_limit = None, tp_status_check = False,
      tp_failure_comment = True, tp_blocking_severities = [''critical'', ''high'']\<rparr>"

record output_section =
  os_included :: bool
  os_collapsible :: bool
  os_default_open :: bool

definition default_section :: output_section where
  "default_section = \<lparr>os_included = True, os_collapsible = False, os_default_open = True\<rparr>"

record path_settings =
  st_enabled :: bool
  st_ignored :: bool
  st_passes :: "string list"
  st_minimum_confidence :: real
  st_minimum_severity :: string
  st_summary_only :: bool
  st_respond_to_comments :: bool
  st_update_description :: bool
  st_summary_comment :: bool
  st_summary_section :: output_section
  st_issues_table_section :: output_section
  st_confidence_score_section :: output_section
  st_footer_included :: bool
  st_diagram_included :: bool
  st_diagram_collapsible :: bool
  st_diagram_default_open :: bool
  st_context_repositories :: "string list"
  st_preventative_security :: bool
  st_preventative_minimum_confidence :: real
  st_triggers :: trigger_policy

record path_policy =
  pp_file_path :: string
  pp_settings :: path_settings
  pp_rules :: "resolved_rule list"
  pp_documents :: "guidance_document list"

definition reviewable :: "path_policy \<Rightarrow> bool" where
  "reviewable p \<longleftrightarrow> st_enabled (pp_settings p) \<and> \<not> st_ignored (pp_settings p)"

record review_policy =
  rp_source_fingerprint :: string
  rp_fingerprint :: string
  rp_paths :: "path_policy list"
  rp_learned :: "learned_rule list"
  rp_contexts :: "custom_context list"

section \<open>Questions about one path\<close>

definition for_path :: "review_policy \<Rightarrow> string \<Rightarrow> path_policy option" where
  "for_path policy path = List.find (\<lambda>p. pp_file_path p = path) (rp_paths policy)"

definition allows_path :: "review_policy \<Rightarrow> string \<Rightarrow> bool" where
  "allows_path policy path = (case for_path policy path of None \<Rightarrow> False | Some p \<Rightarrow> reviewable p)"

definition threshold_for :: "review_policy \<Rightarrow> string \<Rightarrow> real" where
  "threshold_for policy path =
     (case for_path policy path of None \<Rightarrow> 1 | Some p \<Rightarrow> st_minimum_confidence (pp_settings p))"

definition severity_order :: "string \<Rightarrow> nat option" where
  "severity_order s =
     map_of [(''critical'', 0), (''high'', 1), (''medium'', 2), (''low'', 3)] s"

definition allows_severity :: "review_policy \<Rightarrow> string \<Rightarrow> string \<Rightarrow> bool" where
  "allows_severity policy path severity =
     (case for_path policy path of
        None \<Rightarrow> False
      | Some p \<Rightarrow>
          (case (severity_order severity, severity_order (st_minimum_severity (pp_settings p))) of
             (Some n, Some limit) \<Rightarrow> n \<le> limit
           | _ \<Rightarrow> False))"

definition allows_preventative_security :: "review_policy \<Rightarrow> string \<Rightarrow> bool" where
  "allows_preventative_security policy path =
     (case for_path policy path of
        None \<Rightarrow> False | Some p \<Rightarrow> reviewable p \<and> st_preventative_security (pp_settings p))"

definition preventative_security_threshold_for :: "review_policy \<Rightarrow> string \<Rightarrow> real" where
  "preventative_security_threshold_for policy path =
     (case for_path policy path of
        None \<Rightarrow> 1
      | Some p \<Rightarrow>
          if \<not> reviewable p \<or> \<not> st_preventative_security (pp_settings p) then 1
          else max (st_minimum_confidence (pp_settings p))
                   (st_preventative_minimum_confidence (pp_settings p)))"

section \<open>Questions about all changed paths\<close>

definition reviewable_settings :: "review_policy \<Rightarrow> path_settings list" where
  "reviewable_settings policy = map pp_settings (filter reviewable (rp_paths policy))"

definition reviewable_paths :: "review_policy \<Rightarrow> string list" where
  "reviewable_paths policy = map pp_file_path (filter reviewable (rp_paths policy))"

definition policy_passes :: "review_policy \<Rightarrow> string list" where
  "policy_passes policy =
     filter (\<lambda>name. list_ex (\<lambda>s. name \<in> set (st_passes s)) (reviewable_settings policy))
       REVIEW_PASS_NAMES"

definition policy_summary_only :: "review_policy \<Rightarrow> bool" where
  "policy_summary_only policy = list_ex st_summary_only (reviewable_settings policy)"

definition policy_update_description :: "review_policy \<Rightarrow> bool" where
  "policy_update_description policy = list_ex st_update_description (reviewable_settings policy)"

definition summary_comment_enabled :: "review_policy \<Rightarrow> bool" where
  "summary_comment_enabled policy = list_all st_summary_comment (reviewable_settings policy)"

definition merged_section :: "(path_settings \<Rightarrow> output_section) \<Rightarrow> review_policy \<Rightarrow> output_section" where
  "merged_section attribute policy =
     (let values = map attribute (reviewable_settings policy) in
      if values = [] then default_section
      else \<lparr>os_included = list_all os_included values,
            os_collapsible = list_ex os_collapsible values,
            os_default_open = list_all os_default_open values\<rparr>)"

definition policy_summary_section :: "review_policy \<Rightarrow> output_section" where
  "policy_summary_section = merged_section st_summary_section"

definition policy_issues_table_section :: "review_policy \<Rightarrow> output_section" where
  "policy_issues_table_section = merged_section st_issues_table_section"

definition policy_confidence_score_section :: "review_policy \<Rightarrow> output_section" where
  "policy_confidence_score_section = merged_section st_confidence_score_section"

definition policy_footer_included :: "review_policy \<Rightarrow> bool" where
  "policy_footer_included policy = list_all st_footer_included (reviewable_settings policy)"

definition policy_diagram_included :: "review_policy \<Rightarrow> bool" where
  "policy_diagram_included policy \<longleftrightarrow>
     reviewable_settings policy \<noteq> [] \<and> list_all st_diagram_included (reviewable_settings policy)"

definition policy_diagram_collapsible :: "review_policy \<Rightarrow> bool" where
  "policy_diagram_collapsible policy = list_ex st_diagram_collapsible (reviewable_settings policy)"

definition policy_diagram_default_open :: "review_policy \<Rightarrow> bool" where
  "policy_diagram_default_open policy \<longleftrightarrow>
     reviewable_settings policy \<noteq> [] \<and> list_all st_diagram_default_open (reviewable_settings policy)"

definition policy_context_repositories :: "review_policy \<Rightarrow> string list" where
  "policy_context_repositories policy =
     dedup (concat (map st_context_repositories (reviewable_settings policy)))"

definition include_union :: "(trigger_policy \<Rightarrow> string list) \<Rightarrow> trigger_policy list \<Rightarrow> string list" where
  "include_union attribute policies =
     (let values = map attribute policies in
      if list_ex (\<lambda>v. v = []) values then [] else sort_key casefold (dedup (concat values)))"

definition exclude_union :: "(trigger_policy \<Rightarrow> string list) \<Rightarrow> trigger_policy list \<Rightarrow> string list" where
  "exclude_union attribute policies =
     sort_key casefold (dedup (concat (map attribute policies)))"

definition merge_triggers :: "trigger_policy list \<Rightarrow> trigger_policy" where
  "merge_triggers policies =
     (let limits = List.map_filter tp_file_change_limit policies;
          status_policies = filter tp_status_check policies in
      \<lparr>tp_automatic = list_ex tp_automatic policies,
       tp_review_drafts = list_ex tp_review_drafts policies,
       tp_review_updates = list_ex tp_review_updates policies,
       tp_labels = include_union tp_labels policies,
       tp_disabled_labels = exclude_union tp_disabled_labels policies,
       tp_include_authors = include_union tp_include_authors policies,
       tp_exclude_authors = exclude_union tp_exclude_authors policies,
       tp_include_branches = include_union tp_include_branches policies,
       tp_exclude_branches = exclude_union tp_exclude_branches policies,
       tp_include_keywords = include_union tp_include_keywords policies,
       tp_exclude_keywords = exclude_union tp_exclude_keywords policies,
       tp_file_change_limit = (if limits = [] then None else Some (Min (set limits))),
       tp_status_check = (status_policies \<noteq> []),
       tp_failure_comment = list_ex tp_failure_comment policies,
       tp_blocking_severities =
         (if status_policies \<noteq> []
          then filter (\<lambda>s. list_ex (\<lambda>p. s \<in> set (tp_blocking_severities p)) status_policies)
                 [''critical'', ''high'', ''medium'', ''low'']
          else [''critical'', ''high''])\<rparr>)"

definition policy_triggers :: "review_policy \<Rightarrow> trigger_policy" where
  "policy_triggers policy =
     (let policies = map st_triggers (reviewable_settings policy) in
      if policies = [] then default_triggers else merge_triggers policies)"

section \<open>Resolving one path\<close>

definition given :: "'a option \<Rightarrow> 'a \<Rightarrow> 'a" where
  "given m x = (case m of None \<Rightarrow> x | Some y \<Rightarrow> y)"

definition default_settings :: "string list \<Rightarrow> real \<Rightarrow> path_settings" where
  "default_settings passes minimum_confidence =
     \<lparr>st_enabled = True, st_ignored = False, st_passes = passes,
      st_minimum_confidence = minimum_confidence, st_minimum_severity = ''low'',
      st_summary_only = False, st_respond_to_comments = True, st_update_description = False,
      st_summary_comment = True, st_summary_section = default_section,
      st_issues_table_section = default_section, st_confidence_score_section = default_section,
      st_footer_included = True, st_diagram_included = True, st_diagram_collapsible = True,
      st_diagram_default_open = True, st_context_repositories = [],
      st_preventative_security = False, st_preventative_minimum_confidence = 9 / 10,
      st_triggers = default_triggers\<rparr>"

definition patch_section :: "section_patch \<Rightarrow> output_section \<Rightarrow> output_section" where
  "patch_section patch current =
     \<lparr>os_included = given (sp_included patch) (os_included current),
      os_collapsible = given (sp_collapsible patch) (os_collapsible current),
      os_default_open = given (sp_default_open patch) (os_default_open current)\<rparr>"

definition patch_triggers :: "trigger_patch \<Rightarrow> trigger_policy \<Rightarrow> trigger_policy" where
  "patch_triggers patch t =
     \<lparr>tp_automatic = given (tg_automatic patch) (tp_automatic t),
      tp_review_drafts = given (tg_review_drafts patch) (tp_review_drafts t),
      tp_review_updates = given (tg_review_updates patch) (tp_review_updates t),
      tp_labels = given (tg_labels patch) (tp_labels t),
      tp_disabled_labels = given (tg_disabled_labels patch) (tp_disabled_labels t),
      tp_include_authors = given (tg_include_authors patch) (tp_include_authors t),
      tp_exclude_authors = given (tg_exclude_authors patch) (tp_exclude_authors t),
      tp_include_branches = given (tg_include_branches patch) (tp_include_branches t),
      tp_exclude_branches = given (tg_exclude_branches patch) (tp_exclude_branches t),
      tp_include_keywords = given (tg_include_keywords patch) (tp_include_keywords t),
      tp_exclude_keywords = given (tg_exclude_keywords patch) (tp_exclude_keywords t),
      tp_file_change_limit =
        (case tg_file_change_limit patch of None \<Rightarrow> tp_file_change_limit t | Some n \<Rightarrow> Some n),
      tp_status_check = given (tg_status_check patch) (tp_status_check t),
      tp_failure_comment = given (tg_failure_comment patch) (tp_failure_comment t),
      tp_blocking_severities = given (tg_blocking_severities patch) (tp_blocking_severities t)\<rparr>"

definition apply_layer_settings :: "string \<Rightarrow> policy_layer \<Rightarrow> path_settings \<Rightarrow> path_settings" where
  "apply_layer_settings path layer s =
     (let config = ly_config layer; review = rc_review config; security = rc_security config;
          relative = relative_to (ly_directory layer) path in
      \<lparr>st_enabled = given (rv_enabled review) (st_enabled s),
       st_ignored = (st_ignored s \<or> list_ex (\<lambda>p. path_matches p relative) (rv_ignored_paths review)),
       st_passes = given (rv_passes review) (st_passes s),
       st_minimum_confidence = given (rv_minimum_confidence review) (st_minimum_confidence s),
       st_minimum_severity = given (rv_minimum_severity review) (st_minimum_severity s),
       st_summary_only = given (rv_summary_only review) (st_summary_only s),
       st_respond_to_comments = given (rv_respond_to_comments review) (st_respond_to_comments s),
       st_update_description = given (rv_update_description review) (st_update_description s),
       st_summary_comment = given (rv_summary_comment review) (st_summary_comment s),
       st_summary_section = patch_section (rv_summary_section review) (st_summary_section s),
       st_issues_table_section =
         patch_section (rv_issues_table_section review) (st_issues_table_section s),
       st_confidence_score_section =
         patch_section (rv_confidence_score_section review) (st_confidence_score_section s),
       st_footer_included =
         (case rv_hide_footer review of None \<Rightarrow> st_footer_included s | Some hide \<Rightarrow> \<not> hide),
       st_diagram_included = given (sp_included (rv_diagram review)) (st_diagram_included s),
       st_diagram_collapsible = given (sp_collapsible (rv_diagram review)) (st_diagram_collapsible s),
       st_diagram_default_open =
         given (sp_default_open (rv_diagram review)) (st_diagram_default_open s),
       st_context_repositories = given (rc_context_repos config) (st_context_repositories s),
       st_preventative_security = given (sc_preventative security) (st_preventative_security s),
       st_preventative_minimum_confidence =
         given (sc_preventative_minimum_confidence security) (st_preventative_minimum_confidence s),
       st_triggers = patch_triggers (rc_triggers config) (st_triggers s)\<rparr>)"

text \<open>The rule table: \<open>rule_values\<close> and \<open>rule_enabled\<close>.\<close>

type_synonym rule_table = "(string \<times> resolved_rule) list \<times> (string \<times> bool) list"

definition to_resolved_rule :: "repository_rule \<Rightarrow> string \<Rightarrow> resolved_rule" where
  "to_resolved_rule r source =
     \<lparr>ru_id = rr_id r, ru_title = rr_title r, ru_guidance = rr_guidance r,
      ru_severity = rr_severity r, ru_category = rr_category r, ru_source = source\<rparr>"

definition add_rule :: "string \<Rightarrow> policy_layer \<Rightarrow> repository_rule \<Rightarrow> rule_table \<Rightarrow> rule_table" where
  "add_rule path layer r table =
     (if scope_matches (ly_directory layer) (rr_applies_to r) path
      then (AList.update (rr_id r) (to_resolved_rule r (ly_source layer)) (fst table),
            AList.update (rr_id r) (rr_enabled r) (snd table))
      else table)"

definition override_rule :: "string \<times> rule_override \<Rightarrow> rule_table \<Rightarrow> rule_table" where
  "override_rule entry table =
     (let rule_id = fst entry; override = snd entry in
      case map_of (fst table) rule_id of
        None \<Rightarrow> table
      | Some existing \<Rightarrow>
          (AList.update rule_id
             (existing\<lparr>ru_severity := given (ro_severity override) (ru_severity existing),
                       ru_category := given (ro_category override) (ru_category existing)\<rparr>)
             (fst table),
           (case ro_enabled override of
              None \<Rightarrow> snd table
            | Some b \<Rightarrow> AList.update rule_id b (snd table))))"

definition apply_layer_rules :: "string \<Rightarrow> policy_layer \<Rightarrow> rule_table \<Rightarrow> rule_table" where
  "apply_layer_rules path layer table =
     fold override_rule (rc_rule_overrides (ly_config layer))
       (fold (add_rule path layer) (rc_rules (ly_config layer)) table)"

definition apply_layer ::
    "string \<Rightarrow> policy_layer \<Rightarrow> path_settings \<times> rule_table \<Rightarrow> path_settings \<times> rule_table" where
  "apply_layer path layer s =
     (if is_descendant (ly_directory layer) path
      then (apply_layer_settings path layer (fst s), apply_layer_rules path layer (snd s))
      else s)"

definition enabled_rules :: "rule_table \<Rightarrow> resolved_rule list" where
  "enabled_rules table =
     map snd (filter (\<lambda>(rule_id, _). given (map_of (snd table) rule_id) True)
       (sort_key fst (fst table)))"

definition resolve_path ::
    "policy_snapshot \<Rightarrow> string list \<Rightarrow> real \<Rightarrow> string \<Rightarrow> path_policy" where
  "resolve_path snapshot default_passes default_confidence path =
     (let (settings, table) =
        fold (apply_layer path) (ps_layers snapshot)
          (default_settings default_passes default_confidence, ([], []))
      in \<lparr>pp_file_path = path, pp_settings = settings, pp_rules = enabled_rules table,
          pp_documents =
            filter (\<lambda>d. scope_matches (gd_directory d) (gd_applies_to d) path)
              (ps_documents snapshot)\<rparr>)"

section \<open>The fingerprint and the whole policy\<close>

definition resolved_section_json :: "output_section \<Rightarrow> json" where
  "resolved_section_json s =
     JObj [(''included'', JBool (os_included s)), (''collapsible'', JBool (os_collapsible s)),
           (''default_open'', JBool (os_default_open s))]"

definition resolved_triggers_json :: "trigger_policy \<Rightarrow> json" where
  "resolved_triggers_json t =
     JObj [(''automatic'', JBool (tp_automatic t)),
           (''review_drafts'', JBool (tp_review_drafts t)),
           (''review_updates'', JBool (tp_review_updates t)),
           (''labels'', JStrs (tp_labels t)),
           (''disabled_labels'', JStrs (tp_disabled_labels t)),
           (''include_authors'', JStrs (tp_include_authors t)),
           (''exclude_authors'', JStrs (tp_exclude_authors t)),
           (''include_branches'', JStrs (tp_include_branches t)),
           (''exclude_branches'', JStrs (tp_exclude_branches t)),
           (''include_keywords'', JStrs (tp_include_keywords t)),
           (''exclude_keywords'', JStrs (tp_exclude_keywords t)),
           (''file_change_limit'', JOpt JInt (tp_file_change_limit t)),
           (''status_check'', JBool (tp_status_check t)),
           (''failure_comment'', JBool (tp_failure_comment t)),
           (''blocking_severities'', JStrs (tp_blocking_severities t))]"

definition resolved_rule_json :: "resolved_rule \<Rightarrow> json" where
  "resolved_rule_json r =
     JObj [(''id'', JStr (ru_id r)), (''title'', JStr (ru_title r)),
           (''guidance'', JStr (ru_guidance r)), (''severity'', JStr (ru_severity r)),
           (''category'', JStr (ru_category r)), (''source_path'', JStr (ru_source r))]"

definition path_policy_json :: "(real \<Rightarrow> string) \<Rightarrow> path_policy \<Rightarrow> json" where
  "path_policy_json frepr p =
     (let s = pp_settings p in
      JObj [(''file_path'', JStr (pp_file_path p)),
            (''enabled'', JBool (st_enabled s)),
            (''ignored'', JBool (st_ignored s)),
            (''passes'', JStrs (st_passes s)),
            (''minimum_confidence'', JFloat (frepr (st_minimum_confidence s))),
            (''minimum_severity'', JStr (st_minimum_severity s)),
            (''summary_only'', JBool (st_summary_only s)),
            (''respond_to_comments'', JBool (st_respond_to_comments s)),
            (''update_description'', JBool (st_update_description s)),
            (''summary_comment'', JBool (st_summary_comment s)),
            (''summary_section'', resolved_section_json (st_summary_section s)),
            (''issues_table_section'', resolved_section_json (st_issues_table_section s)),
            (''confidence_score_section'', resolved_section_json (st_confidence_score_section s)),
            (''footer_included'', JBool (st_footer_included s)),
            (''diagram_included'', JBool (st_diagram_included s)),
            (''diagram_collapsible'', JBool (st_diagram_collapsible s)),
            (''diagram_default_open'', JBool (st_diagram_default_open s)),
            (''context_repositories'', JStrs (st_context_repositories s)),
            (''preventative_security'', JBool (st_preventative_security s)),
            (''preventative_security_minimum_confidence'',
               JFloat (frepr (st_preventative_minimum_confidence s))),
            (''triggers'', resolved_triggers_json (st_triggers s)),
            (''rules'', JArr (map resolved_rule_json (pp_rules p))),
            (''guidance'', JArr (map (\<lambda>d.
               JObj [(''source_path'', JStr (gd_source d)), (''kind'', JStr (gd_kind d)),
                     (''content_hash'', JStr (gd_content_hash d))]) (pp_documents p)))])"

definition effective_fingerprint ::
    "(string \<Rightarrow> string) \<Rightarrow> (real \<Rightarrow> string) \<Rightarrow> string \<Rightarrow> string list \<Rightarrow> real \<Rightarrow> path_policy list \<Rightarrow> string" where
  "effective_fingerprint sha256 frepr source default_passes default_confidence paths =
     sha256 (json_dumps
       (JObj [(''source_fingerprint'', JStr source),
              (''default_passes'', JStrs default_passes),
              (''default_minimum_confidence'', JFloat (frepr default_confidence)),
              (''paths'', JArr (map (path_policy_json frepr) paths))]))"

definition resolve_review_policy ::
    "(string \<Rightarrow> string) \<Rightarrow> (real \<Rightarrow> string) \<Rightarrow> policy_snapshot \<Rightarrow> string list \<Rightarrow> string list \<Rightarrow> real \<Rightarrow>
     string + review_policy" where
  "resolve_review_policy sha256 frepr snapshot paths default_passes default_confidence =
     (if default_passes = [] \<or> \<not> distinct default_passes \<or>
         list_ex (\<lambda>p. p \<notin> set REVIEW_PASS_NAMES) default_passes
      then Inl ''Default review passes are invalid''
      else if \<not> (0 \<le> default_confidence \<and> default_confidence \<le> 1)
      then Inl ''Default minimum confidence must be between 0 and 1''
      else bind_result (map_result validate_repo_path paths) (\<lambda>valid.
        let resolved = map (resolve_path snapshot default_passes default_confidence)
                         (sort (remdups valid))
        in Inr \<lparr>rp_source_fingerprint = ps_fingerprint snapshot,
                rp_fingerprint =
                  effective_fingerprint sha256 frepr (ps_fingerprint snapshot) default_passes
                    default_confidence resolved,
                rp_paths = resolved, rp_learned = [], rp_contexts = []\<rparr>))"

text \<open>The probe resolved before a diff is fetched.\<close>

definition force_reviewable :: "path_policy \<Rightarrow> path_policy" where
  "force_reviewable p = p\<lparr>pp_settings := pp_settings p\<lparr>st_enabled := True, st_ignored := False\<rparr>\<rparr>"

definition resolve_repository_trigger_policy ::
    "(string \<Rightarrow> string) \<Rightarrow> (real \<Rightarrow> string) \<Rightarrow> policy_snapshot \<Rightarrow> string + review_policy" where
  "resolve_repository_trigger_policy sha256 frepr snapshot =
     bind_result
       (resolve_review_policy sha256 frepr snapshot [''__diffuse_failure_notice__'']
          REVIEW_PASS_NAMES (3 / 4))
       (\<lambda>resolved. case rp_paths resolved of
            [] \<Rightarrow> Inl ''tuple index out of range''
          | p # _ \<Rightarrow> Inr (resolved\<lparr>rp_paths := [force_reviewable p]\<rparr>))"

definition repository_failure_comment_enabled ::
    "(string \<Rightarrow> string) \<Rightarrow> (real \<Rightarrow> string) \<Rightarrow> policy_snapshot \<Rightarrow> string + bool" where
  "repository_failure_comment_enabled sha256 frepr snapshot =
     bind_result (resolve_repository_trigger_policy sha256 frepr snapshot)
       (\<lambda>resolved. Inr (tp_failure_comment (policy_triggers resolved)))"

end
