(* ===== verification/Policy_Props.thy ===== *)
theory Policy_Props
  imports Policy_Use
begin

text \<open>
  Correctness of policy resolution: which layer decides a setting, which rules a path is reviewed
  under (a refinement of the rule table by a function of one rule identifier), and how the policies
  of the changed paths combine.
\<close>

section \<open>The nearest layer that gives a setting decides it\<close>

text \<open>The value of the last layer of the list that gives one.\<close>

fun last_given :: "('l \<Rightarrow> 'a option) \<Rightarrow> 'l list \<Rightarrow> 'a \<Rightarrow> 'a" where
  "last_given f [] x = x"
| "last_given f (l # ls) x = last_given f ls (given (f l) x)"

lemma given_simps [simp]: "given None x = x" "given (Some y) x = y"
  by (simp_all add: given_def)

lemma case_given:
  "(case m of None \<Rightarrow> x | Some y \<Rightarrow> f y) = given (map_option f m) x"
  by (cases m) simp_all

lemma last_given_append: "last_given f (ls @ [l]) x = given (f l) (last_given f ls x)"
  by (induction ls arbitrary: x) simp_all

lemma last_given_cases:
  "last_given f ls x = (case List.map_filter f (rev ls) of [] \<Rightarrow> x | y # _ \<Rightarrow> y)"
  by (induction ls rule: rev_induct)
     (auto simp: last_given_append given_def map_filter_simps split: option.splits)

definition layers_of :: "policy_snapshot \<Rightarrow> string \<Rightarrow> policy_layer list" where
  "layers_of snapshot path = filter (\<lambda>l. is_descendant (ly_directory l) path) (ps_layers snapshot)"

definition review_of :: "policy_layer \<Rightarrow> review_patch" where
  "review_of l = rc_review (ly_config l)"

definition triggers_of :: "policy_layer \<Rightarrow> trigger_patch" where
  "triggers_of l = rc_triggers (ly_config l)"

definition security_of :: "policy_layer \<Rightarrow> security_patch" where
  "security_of l = rc_security (ly_config l)"

lemma fold_apply_layer:
  "fold (apply_layer path) ls (s, t) =
   (fold (apply_layer_settings path) (filter (\<lambda>l. is_descendant (ly_directory l) path) ls) s,
    fold (apply_layer_rules path) (filter (\<lambda>l. is_descendant (ly_directory l) path) ls) t)"
  by (induction ls arbitrary: s t) (simp_all add: apply_layer_def)

lemma resolve_path_parts:
  "pp_file_path (resolve_path snapshot passes conf path) = path"
  "pp_settings (resolve_path snapshot passes conf path) =
     fold (apply_layer_settings path) (layers_of snapshot path) (default_settings passes conf)"
  "pp_rules (resolve_path snapshot passes conf path) =
     enabled_rules (fold (apply_layer_rules path) (layers_of snapshot path) ([], []))"
  by (simp_all add: resolve_path_def fold_apply_layer layers_of_def)

text \<open>
  The settings of a path spelled out: each field of the record, of its sections and of its triggers is the
  one of the last layer of the list that gives it, and the one of \<open>s\<close> if none does; ignoring adds up.
\<close>

definition cascaded_section :: "(review_patch \<Rightarrow> section_patch) \<Rightarrow> policy_layer list \<Rightarrow> output_section \<Rightarrow> output_section" where
  "cascaded_section part ls s =
     \<lparr>os_included = last_given (sp_included \<circ> part \<circ> review_of) ls (os_included s),
      os_collapsible = last_given (sp_collapsible \<circ> part \<circ> review_of) ls (os_collapsible s),
      os_default_open = last_given (sp_default_open \<circ> part \<circ> review_of) ls (os_default_open s)\<rparr>"

definition cascaded_triggers :: "policy_layer list \<Rightarrow> trigger_policy \<Rightarrow> trigger_policy" where
  "cascaded_triggers ls t =
     \<lparr>tp_automatic = last_given (tg_automatic \<circ> triggers_of) ls (tp_automatic t),
      tp_review_drafts = last_given (tg_review_drafts \<circ> triggers_of) ls (tp_review_drafts t),
      tp_review_updates = last_given (tg_review_updates \<circ> triggers_of) ls (tp_review_updates t),
      tp_labels = last_given (tg_labels \<circ> triggers_of) ls (tp_labels t),
      tp_disabled_labels = last_given (tg_disabled_labels \<circ> triggers_of) ls (tp_disabled_labels t),
      tp_include_authors = last_given (tg_include_authors \<circ> triggers_of) ls (tp_include_authors t),
      tp_exclude_authors = last_given (tg_exclude_authors \<circ> triggers_of) ls (tp_exclude_authors t),
      tp_include_branches = last_given (tg_include_branches \<circ> triggers_of) ls (tp_include_branches t),
      tp_exclude_branches = last_given (tg_exclude_branches \<circ> triggers_of) ls (tp_exclude_branches t),
      tp_include_keywords = last_given (tg_include_keywords \<circ> triggers_of) ls (tp_include_keywords t),
      tp_exclude_keywords = last_given (tg_exclude_keywords \<circ> triggers_of) ls (tp_exclude_keywords t),
      tp_file_change_limit = last_given (map_option Some \<circ> tg_file_change_limit \<circ> triggers_of) ls (tp_file_change_limit t),
      tp_status_check = last_given (tg_status_check \<circ> triggers_of) ls (tp_status_check t),
      tp_failure_comment = last_given (tg_failure_comment \<circ> triggers_of) ls (tp_failure_comment t),
      tp_blocking_severities = last_given (tg_blocking_severities \<circ> triggers_of) ls (tp_blocking_severities t)\<rparr>"

definition config_of :: "policy_layer \<Rightarrow> repository_config" where
  "config_of l = ly_config l"

definition cascaded_settings :: "string \<Rightarrow> policy_layer list \<Rightarrow> path_settings \<Rightarrow> path_settings" where
  "cascaded_settings path ls s =
     \<lparr>st_enabled = last_given (rv_enabled \<circ> review_of) ls (st_enabled s),
      st_ignored = (st_ignored s \<or> (\<exists>l \<in> set ls. \<exists>g \<in> set (rv_ignored_paths (review_of l)).
        path_matches g (relative_to (ly_directory l) path))),
      st_passes = last_given (rv_passes \<circ> review_of) ls (st_passes s),
      st_minimum_confidence = last_given (rv_minimum_confidence \<circ> review_of) ls (st_minimum_confidence s),
      st_minimum_severity = last_given (rv_minimum_severity \<circ> review_of) ls (st_minimum_severity s),
      st_summary_only = last_given (rv_summary_only \<circ> review_of) ls (st_summary_only s),
      st_respond_to_comments = last_given (rv_respond_to_comments \<circ> review_of) ls (st_respond_to_comments s),
      st_update_description = last_given (rv_update_description \<circ> review_of) ls (st_update_description s),
      st_summary_comment = last_given (rv_summary_comment \<circ> review_of) ls (st_summary_comment s),
      st_summary_section = cascaded_section rv_summary_section ls (st_summary_section s),
      st_issues_table_section = cascaded_section rv_issues_table_section ls (st_issues_table_section s),
      st_confidence_score_section = cascaded_section rv_confidence_score_section ls (st_confidence_score_section s),
      st_footer_included = last_given (map_option Not \<circ> rv_hide_footer \<circ> review_of) ls (st_footer_included s),
      st_diagram_included = last_given (sp_included \<circ> rv_diagram \<circ> review_of) ls (st_diagram_included s),
      st_diagram_collapsible = last_given (sp_collapsible \<circ> rv_diagram \<circ> review_of) ls (st_diagram_collapsible s),
      st_diagram_default_open = last_given (sp_default_open \<circ> rv_diagram \<circ> review_of) ls (st_diagram_default_open s),
      st_context_repositories = last_given (rc_context_repos \<circ> config_of) ls (st_context_repositories s),
      st_preventative_security = last_given (sc_preventative \<circ> security_of) ls (st_preventative_security s),
      st_preventative_minimum_confidence =
        last_given (sc_preventative_minimum_confidence \<circ> security_of) ls (st_preventative_minimum_confidence s),
      st_triggers = cascaded_triggers ls (st_triggers s)\<rparr>"

lemma cascaded_triggers_simps:
  "cascaded_triggers [] t = t"
  "cascaded_triggers (l # ls) t = cascaded_triggers ls (patch_triggers (triggers_of l) t)"
  by (simp_all add: cascaded_triggers_def patch_triggers_def case_given)

lemma cascaded_section_simps:
  "cascaded_section part [] s = s"
  "cascaded_section part (l # ls) s = cascaded_section part ls (patch_section (part (review_of l)) s)"
  by (simp_all add: cascaded_section_def patch_section_def)

lemma apply_layers_cascade: "fold (apply_layer_settings path) ls s = cascaded_settings path ls s"
proof (induction ls arbitrary: s)
  case Nil
  then show ?case by (simp add: cascaded_settings_def cascaded_section_simps cascaded_triggers_simps)
next
  case (Cons l ls)
  have "cascaded_settings path ls (apply_layer_settings path l s) = cascaded_settings path (l # ls) s"
    by (simp add: cascaded_settings_def cascaded_section_simps cascaded_triggers_simps apply_layer_settings_def Let_def
        review_of_def triggers_of_def security_of_def config_of_def case_given list_ex_iff disj_assoc)
  then show ?case by (simp add: Cons.IH)
qed

text \<open>C15: Layers cascade: every setting of a changed path - each of the twenty fields, those of the three
  sections and the fifteen triggers - is the one of the last layer above the path that gives it, and the
  stated default if none does; the layer of another directory has no say; and only ignoring is cumulative: a
  path is ignored as soon as one layer above it ignores it, whatever a nearer layer says.\<close>

theorem nearest_layer_decides:
  "pp_settings (resolve_path snapshot passes conf path) =
     cascaded_settings path (layers_of snapshot path)
       \<lparr>st_enabled = True, st_ignored = False, st_passes = passes, st_minimum_confidence = conf,
        st_minimum_severity = ''low'', st_summary_only = False, st_respond_to_comments = True,
        st_update_description = False, st_summary_comment = True,
        st_summary_section = \<lparr>os_included = True, os_collapsible = False, os_default_open = True\<rparr>,
        st_issues_table_section = \<lparr>os_included = True, os_collapsible = False, os_default_open = True\<rparr>,
        st_confidence_score_section = \<lparr>os_included = True, os_collapsible = False, os_default_open = True\<rparr>,
        st_footer_included = True, st_diagram_included = True, st_diagram_collapsible = True,
        st_diagram_default_open = True, st_context_repositories = [], st_preventative_security = False,
        st_preventative_minimum_confidence = 9 / 10,
        st_triggers =
          \<lparr>tp_automatic = True, tp_review_drafts = False, tp_review_updates = True, tp_labels = [],
           tp_disabled_labels = [], tp_include_authors = [], tp_exclude_authors = [], tp_include_branches = [],
           tp_exclude_branches = [], tp_include_keywords = [], tp_exclude_keywords = [],
           tp_file_change_limit = None, tp_status_check = False, tp_failure_comment = True,
           tp_blocking_severities = [''critical'', ''high'']\<rparr>\<rparr>"
  by (simp add: resolve_path_parts apply_layers_cascade default_settings_def default_section_def default_triggers_def)

end
