(* ===== verification/Policy_Rules.thy ===== *)
theory Policy_Rules
  imports Policy_Props
begin

text \<open>
  The rules of a path.  \<open>rule_view i\<close> abstracts the two tables of the code (\<open>rule_values\<close>,
  \<open>rule_enabled\<close>) to what they say of one rule identifier; each table operation is a step on that
  view, so the rules a path is reviewed under are those of a function that looks at one identifier
  at a time.
\<close>

type_synonym rule_state = "(resolved_rule \<times> bool) option"

definition rule_view :: "string \<Rightarrow> rule_table \<Rightarrow> rule_state" where
  "rule_view i table =
     map_option (\<lambda>r. (r, given (map_of (snd table) i) True)) (map_of (fst table) i)"

definition override_state :: "rule_override \<Rightarrow> rule_state \<Rightarrow> rule_state" where
  "override_state override v =
     map_option (\<lambda>(r, enabled).
       (r\<lparr>ru_severity := given (ro_severity override) (ru_severity r),
          ru_category := given (ro_category override) (ru_category r)\<rparr>,
        given (ro_enabled override) enabled)) v"

text \<open>What a layer makes of the rule: its own definitions of it in scope, then its override.\<close>

definition layer_rule_state :: "string \<Rightarrow> string \<Rightarrow> policy_layer \<Rightarrow> rule_state \<Rightarrow> rule_state" where
  "layer_rule_state i path l v =
     (let config = ly_config l;
          own = filter (\<lambda>r. rr_id r = i \<and> scope_matches (ly_directory l) (rr_applies_to r) path)
                  (rc_rules config);
          defined = (if own = [] then v
                     else Some (to_resolved_rule (last own) (ly_source l), rr_enabled (last own)))
      in fold override_state
           (map snd (filter (\<lambda>e. fst e = i) (rc_rule_overrides config))) defined)"

lemma rule_view_add:
  "rule_view i (add_rule path l r table) =
   (if rr_id r = i \<and> scope_matches (ly_directory l) (rr_applies_to r) path
    then Some (to_resolved_rule r (ly_source l), rr_enabled r) else rule_view i table)"
  by (auto simp: rule_view_def add_rule_def)

lemma rule_view_add_all:
  "rule_view i (fold (add_rule path l) rs table) =
   (let own = filter (\<lambda>r. rr_id r = i \<and> scope_matches (ly_directory l) (rr_applies_to r) path) rs
    in if own = [] then rule_view i table
       else Some (to_resolved_rule (last own) (ly_source l), rr_enabled (last own)))"
proof (induction rs rule: rev_induct)
  case Nil
  then show ?case by simp
next
  case (snoc r rs)
  show ?case by (simp add: rule_view_add snoc.IH Let_def)
qed

lemma rule_view_override:
  "rule_view i (override_rule e table) =
   (if fst e = i then override_state (snd e) (rule_view i table) else rule_view i table)"
proof (cases "map_of (fst table) (fst e)")
  case None
  then show ?thesis by (auto simp: rule_view_def override_rule_def override_state_def)
next
  case (Some r)
  then show ?thesis
    by (cases "ro_enabled (snd e)")
       (auto simp: rule_view_def override_rule_def override_state_def Let_def)
qed

lemma rule_view_override_all:
  "rule_view i (fold override_rule es table) =
   fold override_state (map snd (filter (\<lambda>e. fst e = i) es)) (rule_view i table)"
  by (induction es arbitrary: table) (simp_all add: rule_view_override)

lemma rule_view_layer:
  "rule_view i (apply_layer_rules path l table) = layer_rule_state i path l (rule_view i table)"
  by (simp add: apply_layer_rules_def rule_view_override_all rule_view_add_all layer_rule_state_def
      Let_def)

lemma rule_view_layers:
  "rule_view i (fold (apply_layer_rules path) ls table) =
   fold (layer_rule_state i path) ls (rule_view i table)"
  by (induction ls arbitrary: table) (simp_all add: rule_view_layer)

section \<open>The table's keys\<close>

definition table_ok :: "rule_table \<Rightarrow> bool" where
  "table_ok table \<longleftrightarrow>
     distinct (map fst (fst table)) \<and> (\<forall>(k, r) \<in> set (fst table). ru_id r = k)"

lemma table_ok_update:
  assumes "table_ok (vs, en)" "ru_id r = k"
  shows "table_ok (AList.update k r vs, en')"
  using assms distinct_update[of vs k r] set_update_subset[of k r vs]
  unfolding table_ok_def by auto

lemma table_ok_add: "table_ok table \<Longrightarrow> table_ok (add_rule path l r table)"
  unfolding add_rule_def
  by (cases table) (auto intro!: table_ok_update simp: to_resolved_rule_def)

lemma table_ok_override: "table_ok table \<Longrightarrow> table_ok (override_rule e table)"
proof (cases "map_of (fst table) (fst e)")
  case (Some r)
  assume ok: "table_ok table"
  then have "ru_id r = fst e" using map_of_SomeD[OF Some] unfolding table_ok_def by auto
  then show ?thesis using ok Some
    by (cases table) (auto simp: override_rule_def Let_def intro!: table_ok_update)
qed (simp add: override_rule_def)

lemma table_ok_fold:
  assumes "\<And>x t. table_ok t \<Longrightarrow> table_ok (f x t)" "table_ok table"
  shows "table_ok (fold f xs table)"
  using assms(2) by (induction xs arbitrary: table) (simp_all add: assms(1))

lemma table_ok_layers: "table_ok (fold (apply_layer_rules path) ls ([], []))"
  by (rule table_ok_fold)
     (auto simp: apply_layer_rules_def table_ok_def[of "([], [])"]
       intro!: table_ok_fold table_ok_add table_ok_override)

lemma enabled_rules_set:
  assumes "table_ok table"
  shows "r \<in> set (enabled_rules table) \<longleftrightarrow> rule_view (ru_id r) table = Some (r, True)"
proof -
  have d: "distinct (map fst (fst table))" and k: "\<And>k r. (k, r) \<in> set (fst table) \<Longrightarrow> ru_id r = k"
    using assms unfolding table_ok_def by auto
  have "r \<in> set (enabled_rules table) \<longleftrightarrow>
        (\<exists>i. (i, r) \<in> set (fst table) \<and> given (map_of (snd table) i) True)"
    unfolding enabled_rules_def by force
  also have "\<dots> \<longleftrightarrow> map_of (fst table) (ru_id r) = Some r \<and>
        given (map_of (snd table) (ru_id r)) True"
    using k map_of_is_SomeI[OF d] map_of_SomeD by metis
  finally show ?thesis by (auto simp: rule_view_def)
qed

lemma enabled_rules_sorted:
  assumes "table_ok table"
  shows "sorted_wrt (<) (map ru_id (enabled_rules table))"
proof -
  let ?s = "sort_key fst (fst table)"
  have "distinct (map fst ?s)" using assms unfolding table_ok_def
    by (simp add: distinct_map)
  then have "sorted_wrt (<) (map fst ?s)" using sorted_sort_key[of fst "fst table"]
    by (simp add: strict_sorted_iff)
  moreover have "map ru_id (enabled_rules table) =
      map fst (filter (\<lambda>(i, _). given (map_of (snd table) i) True) ?s)"
    using assms unfolding enabled_rules_def table_ok_def by (auto intro!: map_cong)
  ultimately show ?thesis
    by (metis (no_types, lifting) sorted_wrt_filter sorted_wrt_map)
qed

text \<open>C16: The rules a path is reviewed under are listed once each in the order of their
  identifiers, and they are exactly the rules the abstract cascade leaves enabled: starting from
  no rule, each layer above the path in turn replaces the rule by its own last definition whose
  globs cover the path, and then its override adjusts severity, category and enabling of the rule
  as it stands (an override of a rule that is not there has no effect).\<close>

theorem rules_refine_cascade:
  "(let rules = pp_rules (resolve_path snapshot passes conf path) in
    sorted_wrt (<) (map ru_id rules) \<and>
    (\<forall>r. r \<in> set rules \<longleftrightarrow>
       fold (layer_rule_state (ru_id r) path) (layers_of snapshot path) None = Some (r, True)))"
proof -
  let ?t = "fold (apply_layer_rules path) (layers_of snapshot path) ([], [])"
  have "rule_view i ([], []) = None" for i by (simp add: rule_view_def)
  then show ?thesis unfolding Let_def resolve_path_parts
    using enabled_rules_set[OF table_ok_layers] enabled_rules_sorted[OF table_ok_layers]
    by (simp add: rule_view_layers)
qed

end
