(* ===== verification/Policy_Decision.thy ===== *)
theory Policy_Decision
  imports Policy_Rules
begin

text \<open>
  What the policies of all changed paths say together: looking a path up, the trigger decision as a
  condition on the single paths, and layering learned rules and operator contexts.
\<close>

section \<open>Looking a path up\<close>

lemma validate_repo_path_Inr: "validate_repo_path p = Inr q \<Longrightarrow> q = strip p"
  by (auto simp: validate_repo_path_def Let_def split: if_splits)

lemma map_result_strip:
  "map_result validate_repo_path ps = Inr qs \<Longrightarrow> qs = map strip ps"
  by (induction ps arbitrary: qs) (auto simp: bind_result_Inr_iff validate_repo_path_Inr)

lemma find_map_resolve:
  assumes "\<And>x. pp_file_path (f x) = x"
  shows "List.find (\<lambda>p. pp_file_path p = path) (map f xs) =
         (if path \<in> set xs then Some (f path) else None)"
  by (induction xs) (auto simp: assms)

lemma for_path_resolved:
  assumes "resolve_review_policy sha frepr snapshot paths passes conf = Inr policy"
  shows "for_path policy path =
    (if path \<in> strip ` set paths then Some (resolve_path snapshot passes conf path) else None)"
proof -
  obtain valid where v: "map_result validate_repo_path paths = Inr valid"
    and p: "rp_paths policy = map (resolve_path snapshot passes conf) (sort (remdups valid))"
    using assms by (auto simp: resolve_review_policy_def bind_result_Inr_iff Let_def split: if_splits)
  show ?thesis unfolding for_path_def p using map_result_strip[OF v]
    by (simp add: find_map_resolve resolve_path_parts(1))
qed

lemma sort_remdups_cong: "set xs = set ys \<Longrightarrow> sort (remdups xs) = sort (remdups ys)"
  by (rule sorted_distinct_set_unique) simp_all

lemma map_result_Inr_iff_all:
  "(\<exists>ys. map_result f xs = Inr ys) \<longleftrightarrow> (\<forall>x \<in> set xs. \<exists>y. f x = Inr y)"
  by (induction xs) (auto simp: bind_result_Inr_iff)

lemma resolve_set_cong:
  assumes "set paths = set paths'" "resolve_review_policy sha frepr snapshot paths passes conf = Inr policy"
  shows "resolve_review_policy sha frepr snapshot paths' passes conf = Inr policy"
proof -
  obtain valid where v: "map_result validate_repo_path paths = Inr valid"
    using assms(2) by (auto simp: resolve_review_policy_def bind_result_Inr_iff split: if_splits)
  have "\<exists>v'. map_result validate_repo_path paths' = Inr v'"
    using v assms(1) map_result_Inr_iff_all[of validate_repo_path] by metis
  then obtain v' where v': "map_result validate_repo_path paths' = Inr v'" ..
  have "set v' = set valid" using map_result_strip[OF v] map_result_strip[OF v'] assms(1) by simp
  then have "sort (remdups v') = sort (remdups valid)" by (rule sort_remdups_cong)
  then show ?thesis using assms(2) v v'
    by (simp add: resolve_review_policy_def split: if_splits)
qed

section \<open>Merged triggers\<close>

lemma matches_any_set: "matches_any ps vs \<longleftrightarrow> (\<exists>p \<in> set ps. \<exists>v \<in> set vs. filter_matches p v)"
  by (simp add: matches_any_def list_ex_iff)

lemma exclude_union_set: "set (exclude_union f ps) = (\<Union>p \<in> set ps. set (f p))"
  by (simp add: exclude_union_def)

lemma include_union_ex:
  assumes "ps \<noteq> []"
  shows "include_union f ps \<noteq> [] \<and> \<not> (\<exists>x \<in> set (include_union f ps). P x) \<longleftrightarrow>
         (\<forall>p \<in> set ps. f p \<noteq> [] \<and> \<not> (\<exists>x \<in> set (f p). P x))"
proof (cases "list_ex (\<lambda>v. v = []) (map f ps)")
  case True
  then have "include_union f ps = []" by (simp add: include_union_def)
  moreover have "\<exists>p \<in> set ps. f p = []" using True by (force simp: list_ex_iff)
  ultimately show ?thesis by blast
next
  case False
  then have ne: "\<forall>p \<in> set ps. f p \<noteq> []" by (force simp: list_ex_iff)
  have s: "set (include_union f ps) = (\<Union>p \<in> set ps. set (f p))"
    using False by (simp add: include_union_def)
  have "include_union f ps \<noteq> []"
  proof
    assume "include_union f ps = []"
    then have "(\<Union>p \<in> set ps. set (f p)) = {}" using s by simp
    moreover obtain p where "p \<in> set ps" using assms by (cases ps) auto
    ultimately show False using ne by auto
  qed
  then show ?thesis using ne s by auto
qed

lemma map_filter_ex:
  "(\<exists>y \<in> set (List.map_filter f xs). P y) \<longleftrightarrow> (\<exists>x \<in> set xs. \<exists>y. f x = Some y \<and> P y)"
  by (induction xs) (auto simp: map_filter_simps split: option.split)

lemma Min_limit:
  "(case (if ls = [] then None else Some (Min (set ls))) of None \<Rightarrow> False | Some l \<Rightarrow> l < (n::int)) \<longleftrightarrow>
   (\<exists>l \<in> set ls. l < n)"
proof (cases "ls = []")
  case False
  then have "Min (set ls) < n \<longleftrightarrow> (\<exists>l \<in> set ls. l < n)"
    by (subst Min_less_iff) auto
  then show ?thesis using False by simp
qed simp

text \<open>The conditions one path's triggers put on an automatic event.\<close>

definition excluded_by :: "trigger_policy \<Rightarrow> trigger_context \<Rightarrow> bool" where
  "excluded_by t c \<longleftrightarrow>
     (\<exists>n. tp_file_change_limit t = Some n \<and> n < tc_changed_file_count c) \<or>
     matches_any (tp_disabled_labels t) (tc_labels c) \<or>
     matches_any (tp_exclude_authors t) [tc_author c] \<or>
     matches_any (tp_exclude_branches t) [tc_base_branch c] \<or>
     mentions (tp_exclude_keywords t) c"

definition label_wanted :: "trigger_policy \<Rightarrow> trigger_context \<Rightarrow> bool" where
  "label_wanted t c \<longleftrightarrow> tp_labels t = [] \<or> matches_any (tp_labels t) (tc_labels c)"

definition author_wanted :: "trigger_policy \<Rightarrow> trigger_context \<Rightarrow> bool" where
  "author_wanted t c \<longleftrightarrow>
     tp_include_authors t = [] \<or> matches_any (tp_include_authors t) [tc_author c]"

definition branch_wanted :: "trigger_policy \<Rightarrow> trigger_context \<Rightarrow> bool" where
  "branch_wanted t c \<longleftrightarrow>
     tp_include_branches t = [] \<or> matches_any (tp_include_branches t) [tc_base_branch c]"

definition keyword_wanted :: "trigger_policy \<Rightarrow> trigger_context \<Rightarrow> bool" where
  "keyword_wanted t c \<longleftrightarrow> tp_include_keywords t = [] \<or> mentions (tp_include_keywords t) c"

lemma eligible_merged:
  "td_eligible (evaluate_trigger policy c) \<longleftrightarrow>
   (let t = policy_triggers policy in
    tc_manual c \<or>
    (tc_metadata_complete c \<and> tp_automatic t \<and> (\<not> tc_is_draft c \<or> tp_review_drafts t) \<and>
     (tc_action c \<noteq> ''synchronize'' \<or> tp_review_updates t) \<and> \<not> excluded_by t c \<and>
     label_wanted t c \<and> author_wanted t c \<and> branch_wanted t c \<and> keyword_wanted t c))"
  by (simp add: evaluate_trigger_def Let_def skip_def accept_def excluded_by_def label_wanted_def
      author_wanted_def branch_wanted_def keyword_wanted_def split: option.split)

definition trigger_policies :: "review_policy \<Rightarrow> trigger_policy list" where
  "trigger_policies policy =
     (if reviewable_settings policy = [] then [default_triggers]
      else map st_triggers (reviewable_settings policy))"

lemma merged_excluded:
  assumes "ps \<noteq> []"
  shows "excluded_by (merge_triggers ps) c \<longleftrightarrow> (\<exists>p \<in> set ps. excluded_by p c)"
proof -
  have lim: "(\<exists>n. tp_file_change_limit (merge_triggers ps) = Some n \<and> n < tc_changed_file_count c) \<longleftrightarrow>
        (\<exists>p \<in> set ps. \<exists>n. tp_file_change_limit p = Some n \<and> n < tc_changed_file_count c)"
  proof -
    have "(\<exists>n. tp_file_change_limit (merge_triggers ps) = Some n \<and> n < tc_changed_file_count c) \<longleftrightarrow>
          (case tp_file_change_limit (merge_triggers ps) of None \<Rightarrow> False
           | Some l \<Rightarrow> l < tc_changed_file_count c)" by (simp split: option.split)
    also have "\<dots> \<longleftrightarrow> (\<exists>l \<in> set (List.map_filter tp_file_change_limit ps). l < tc_changed_file_count c)"
      unfolding merge_triggers_def Let_def trigger_policy.simps by (rule Min_limit)
    finally show ?thesis by (simp only: map_filter_ex)
  qed
  have ex: "matches_any (exclude_union f ps) vs \<longleftrightarrow> (\<exists>p \<in> set ps. matches_any (f p) vs)" for f vs
    by (auto simp: matches_any_set exclude_union_set)
  have kw: "mentions (exclude_union f ps) c \<longleftrightarrow> (\<exists>p \<in> set ps. mentions (f p) c)" for f
    by (auto simp: mentions_def list_ex_iff exclude_union_set)
  show ?thesis unfolding excluded_by_def lim
    by (simp add: merge_triggers_def Let_def ex kw) blast
qed

lemma merged_include:
  assumes "ps \<noteq> []"
  shows "include_union f ps = [] \<or> matches_any (include_union f ps) vs \<longleftrightarrow>
         (\<exists>p \<in> set ps. f p = [] \<or> matches_any (f p) vs)"
    and "include_union f ps = [] \<or> mentions (include_union f ps) c \<longleftrightarrow>
         (\<exists>p \<in> set ps. f p = [] \<or> mentions (f p) c)"
  using include_union_ex[OF assms, of f "\<lambda>p. \<exists>v \<in> set vs. filter_matches p v"]
    include_union_ex[OF assms, of f "\<lambda>k. contains_str (casefold k) (searchable_text c)"]
  by (auto simp: matches_any_set mentions_def list_ex_iff)

lemma merged_wanted:
  assumes "ps \<noteq> []"
  shows "label_wanted (merge_triggers ps) c \<longleftrightarrow> (\<exists>p \<in> set ps. label_wanted p c)"
    and "author_wanted (merge_triggers ps) c \<longleftrightarrow> (\<exists>p \<in> set ps. author_wanted p c)"
    and "branch_wanted (merge_triggers ps) c \<longleftrightarrow> (\<exists>p \<in> set ps. branch_wanted p c)"
    and "keyword_wanted (merge_triggers ps) c \<longleftrightarrow> (\<exists>p \<in> set ps. keyword_wanted p c)"
  by (simp_all add: label_wanted_def author_wanted_def branch_wanted_def keyword_wanted_def
      merge_triggers_def Let_def merged_include[OF assms])

text \<open>C17: A pull-request event is reviewed exactly when it is a manual trigger, or its metadata is
  complete and the policies of the reviewable paths (the defaults when there is none) together want
  it: some path enables automatic review, drafts and updates where the event is one, no path
  excludes it by change limit, label, author, branch or keyword, and for each of label, author,
  branch and keyword some path either asks for nothing or asks for what the event has.\<close>

theorem event_reviewed_iff:
  "td_eligible (evaluate_trigger policy c) \<longleftrightarrow>
   (let ps = trigger_policies policy in
    tc_manual c \<or>
    (tc_metadata_complete c \<and> list_ex tp_automatic ps \<and>
     \<not> (tc_is_draft c \<and> \<not> list_ex tp_review_drafts ps) \<and>
     \<not> (tc_action c = ''synchronize'' \<and> \<not> list_ex tp_review_updates ps) \<and>
     \<not> list_ex (\<lambda>t. excluded_by t c) ps \<and>
     list_ex (\<lambda>t. label_wanted t c) ps \<and> list_ex (\<lambda>t. author_wanted t c) ps \<and>
     list_ex (\<lambda>t. branch_wanted t c) ps \<and> list_ex (\<lambda>t. keyword_wanted t c) ps))"
proof (cases "reviewable_settings policy = []")
  case True
  then show ?thesis unfolding eligible_merged
    by (simp add: trigger_policies_def policy_triggers_def Let_def de_Morgan_conj)
next
  case False
  let ?ps = "map st_triggers (reviewable_settings policy)"
  have ne: "?ps \<noteq> []" using False by simp
  have t: "policy_triggers policy = merge_triggers ?ps" "trigger_policies policy = ?ps"
    using False by (simp_all add: policy_triggers_def trigger_policies_def Let_def)
  have "tp_automatic (merge_triggers ?ps) = list_ex tp_automatic ?ps"
    "tp_review_drafts (merge_triggers ?ps) = list_ex tp_review_drafts ?ps"
    "tp_review_updates (merge_triggers ?ps) = list_ex tp_review_updates ?ps"
    by (simp_all add: merge_triggers_def Let_def)
  then show ?thesis
    unfolding eligible_merged t Let_def merged_excluded[OF ne] merged_wanted[OF ne]
    by (simp only: list_ex_iff de_Morgan_conj not_not)
qed

section \<open>Layering approved rules and contexts\<close>

text \<open>What decides whether, when and where a review speaks.\<close>

definition same_gates :: "review_policy \<Rightarrow> review_policy \<Rightarrow> bool" where
  "same_gates p q \<longleftrightarrow>
     map (\<lambda>x. (pp_file_path x, pp_settings x)) (rp_paths p) =
     map (\<lambda>x. (pp_file_path x, pp_settings x)) (rp_paths q)"

lemma reviewable_fun:
  "reviewable = (\<lambda>p. st_enabled (pp_settings p) \<and> \<not> st_ignored (pp_settings p))"
  by (rule ext) (simp add: reviewable_def)

lemma same_gates_reviewable:
  assumes "same_gates p q"
  shows "reviewable_settings p = reviewable_settings q" "reviewable_paths p = reviewable_paths q"
proof -
  have "reviewable_settings p = map snd (filter (\<lambda>(f, s). st_enabled s \<and> \<not> st_ignored s)
          (map (\<lambda>x. (pp_file_path x, pp_settings x)) (rp_paths p)))"
    "reviewable_paths p = map fst (filter (\<lambda>(f, s). st_enabled s \<and> \<not> st_ignored s)
          (map (\<lambda>x. (pp_file_path x, pp_settings x)) (rp_paths p)))" for p
    by (simp_all add: reviewable_settings_def reviewable_paths_def filter_map o_def reviewable_fun)
  then show "reviewable_settings p = reviewable_settings q" "reviewable_paths p = reviewable_paths q"
    using assms unfolding same_gates_def by simp_all
qed

lemma find_settings:
  "map_option (\<lambda>x. (pp_file_path x, pp_settings x)) (List.find (\<lambda>p. pp_file_path p = path) ps) =
   List.find (\<lambda>e. fst e = path) (map (\<lambda>x. (pp_file_path x, pp_settings x)) ps)"
  by (induction ps) simp_all

lemma same_gates_path:
  assumes "same_gates p q"
  shows "map_option pp_settings (for_path p path) = map_option pp_settings (for_path q path)"
proof -
  have "map_option pp_settings (for_path p path) =
        map_option snd (List.find (\<lambda>e. fst e = path)
          (map (\<lambda>x. (pp_file_path x, pp_settings x)) (rp_paths p)))" for p
    unfolding for_path_def find_settings[symmetric] by (simp add: option.map_comp o_def)
  then show ?thesis using assms unfolding same_gates_def by simp
qed

lemma gates_from_settings:
  "allows_path p path =
     (case map_option pp_settings (for_path p path) of None \<Rightarrow> False
      | Some s \<Rightarrow> st_enabled s \<and> \<not> st_ignored s)"
  "threshold_for p path =
     (case map_option pp_settings (for_path p path) of None \<Rightarrow> 1 | Some s \<Rightarrow> st_minimum_confidence s)"
  "allows_severity p path sev =
     (case map_option pp_settings (for_path p path) of None \<Rightarrow> False
      | Some s \<Rightarrow> (case (severity_order sev, severity_order (st_minimum_severity s)) of
                   (Some n, Some limit) \<Rightarrow> n \<le> limit | _ \<Rightarrow> False))"
  by (simp_all add: allows_path_def threshold_for_def allows_severity_def reviewable_def
      split: option.split)

lemma same_gates_decisions:
  assumes "same_gates p q"
  shows "allows_path p path = allows_path q path" "threshold_for p path = threshold_for q path"
    "allows_severity p path sev = allows_severity q path sev"
    "evaluate_trigger p c = evaluate_trigger q c" "policy_passes p = policy_passes q"
  by (simp_all add: gates_from_settings same_gates_path[OF assms] evaluate_trigger_def
      policy_triggers_def policy_passes_def same_gates_reviewable[OF assms])

lemma learned_same_gates:
  "apply_approved_learned_rules sha p rules = Inr q \<Longrightarrow> same_gates p q"
  by (auto simp: apply_approved_learned_rules_def same_gates_def Let_def o_def split: if_splits)

lemma contexts_same_gates:
  "apply_approved_custom_contexts sha p contexts = Inr q \<Longrightarrow> same_gates p q"
  by (auto simp: apply_approved_custom_contexts_def same_gates_def Let_def o_def split: if_splits)

lemma learned_paths:
  assumes "apply_approved_learned_rules sha p rules = Inr q"
  shows "list_all2 (\<lambda>x y. pp_documents y = pp_documents x \<and> pp_file_path y = pp_file_path x \<and>
      pp_rules y = map learned_resolved_rule
        (filter (\<lambda>r. list_ex (\<lambda>g. path_matches g (pp_file_path x)) (lr_applies_to r))
          (sort_key lr_id rules)) @ pp_rules x) (rp_paths p) (rp_paths q)"
  using assms
  by (auto simp: apply_approved_learned_rules_def Let_def list_all2_conv_all_nth split: if_splits)

lemma contexts_paths:
  assumes "apply_approved_custom_contexts sha p contexts = Inr q"
  shows "list_all2 (\<lambda>x y. pp_rules y = pp_rules x \<and> pp_file_path y = pp_file_path x \<and>
      pp_documents y = map (context_document sha)
        (filter (\<lambda>c. list_ex (\<lambda>g. path_matches g (pp_file_path x)) (cx_applies_to c))
          (sort_key cx_id contexts)) @ pp_documents x) (rp_paths p) (rp_paths q)"
  using assms
  by (auto simp: apply_approved_custom_contexts_def Let_def list_all2_conv_all_nth split: if_splits)

text \<open>Approved learned rules and operator contexts only add guidance: they are put, in the
  order of their ids, before the repository's own rules and documents of the paths their globs
  cover, and no path's gates, thresholds or severities, the passes or any trigger decision change.\<close>

lemma layering_only_adds_guidance:
  assumes "apply_approved_learned_rules sha policy rules = Inr policy1"
    and "apply_approved_custom_contexts sha policy1 contexts = Inr policy2"
  shows "allows_path policy2 path = allows_path policy path \<and>
    threshold_for policy2 path = threshold_for policy path \<and>
    allows_severity policy2 path sev = allows_severity policy path sev \<and>
    policy_passes policy2 = policy_passes policy \<and>
    evaluate_trigger policy2 event = evaluate_trigger policy event \<and>
    list_all2 (\<lambda>x y.
      pp_rules y = map learned_resolved_rule
        (filter (\<lambda>r. list_ex (\<lambda>g. path_matches g (pp_file_path x)) (lr_applies_to r))
          (sort_key lr_id rules)) @ pp_rules x \<and>
      pp_documents y = map (context_document sha)
        (filter (\<lambda>c. list_ex (\<lambda>g. path_matches g (pp_file_path x)) (cx_applies_to c))
          (sort_key cx_id contexts)) @ pp_documents x) (rp_paths policy) (rp_paths policy2)"
proof -
  have g1: "same_gates policy policy1" using assms(1) by (rule learned_same_gates)
  have g2: "same_gates policy1 policy2" using assms(2) by (rule contexts_same_gates)
  have g: "same_gates policy policy2" using g1 g2 unfolding same_gates_def by simp
  have "list_all2 (\<lambda>x y.
      pp_rules y = map learned_resolved_rule
        (filter (\<lambda>r. list_ex (\<lambda>g. path_matches g (pp_file_path x)) (lr_applies_to r))
          (sort_key lr_id rules)) @ pp_rules x \<and>
      pp_documents y = map (context_document sha)
        (filter (\<lambda>c. list_ex (\<lambda>g. path_matches g (pp_file_path x)) (cx_applies_to c))
          (sort_key cx_id contexts)) @ pp_documents x) (rp_paths policy) (rp_paths policy2)"
    using learned_paths[OF assms(1)] contexts_paths[OF assms(2)]
    unfolding list_all2_conv_all_nth by simp
  then show ?thesis using same_gates_decisions[OF g] by metis
qed

definition sample_path_policy :: path_policy where
  "sample_path_policy =
     \<lparr>pp_file_path = ''src/a.py'', pp_settings = default_settings [''security''] (1 / 2),
      pp_rules = [], pp_documents = []\<rparr>"

definition sample_review_policy :: review_policy where
  "sample_review_policy =
     \<lparr>rp_source_fingerprint = ''s'', rp_fingerprint = ''f'', rp_paths = [sample_path_policy],
      rp_learned = [], rp_contexts = []\<rparr>"

definition sample_learned :: "learned_rule list" where
  "sample_learned =
     [\<lparr>lr_id = 7, lr_version = 2, lr_title = ''t'', lr_guidance = ''g'', lr_applies_to = [''src/**''],
       lr_severity = ''high'', lr_category = ''api''\<rparr>,
      \<lparr>lr_id = 3, lr_version = 1, lr_title = ''u'', lr_guidance = ''h'', lr_applies_to = [''*.md''],
       lr_severity = ''low'', lr_category = ''api''\<rparr>]"

definition sample_contexts :: "custom_context list" where
  "sample_contexts =
     [\<lparr>cx_id = 1, cx_type = ''note'', cx_body = ''b'', cx_applies_to = [''**''], cx_metadata = JNull\<rparr>]"

lemma sample_layered:
  "\<exists>p1 p2. apply_approved_learned_rules id sample_review_policy sample_learned = Inr p1 \<and>
     apply_approved_custom_contexts id p1 sample_contexts = Inr p2"
  by (simp add: apply_approved_learned_rules_def apply_approved_custom_contexts_def
      sample_learned_def sample_contexts_def Let_def)

lemma sample_covered:
  "map ru_id (map learned_resolved_rule
     (filter (\<lambda>r. list_ex (\<lambda>g. path_matches g (pp_file_path sample_path_policy)) (lr_applies_to r))
       (sort_key lr_id sample_learned))) = [''learned-7'']"
  by code_simp

lemma layering_only_adds_guidance_witness:
  "\<exists>q. map ru_id (pp_rules (hd (rp_paths q))) = [''learned-7''] \<and>
     allows_path q ''src/a.py'' = allows_path sample_review_policy ''src/a.py''"
proof -
  obtain p1 p2 where p: "apply_approved_learned_rules id sample_review_policy sample_learned = Inr p1"
    "apply_approved_custom_contexts id p1 sample_contexts = Inr p2" using sample_layered by blast
  note t = layering_only_adds_guidance[OF p, where path = "''src/a.py''"]
  have "rp_paths sample_review_policy = [sample_path_policy]"
    by (simp add: sample_review_policy_def)
  then obtain y where "rp_paths p2 = [y]" "pp_rules y = map learned_resolved_rule
      (filter (\<lambda>r. list_ex (\<lambda>g. path_matches g (pp_file_path sample_path_policy)) (lr_applies_to r))
        (sort_key lr_id sample_learned)) @ pp_rules sample_path_policy"
    using t by (auto simp: list_all2_Cons1)
  then show ?thesis using t sample_covered
    by (intro exI[of _ p2]) (simp add: sample_path_policy_def)
qed

end
