(* ===== verification/Discovery.thy ===== *)
theory Discovery
  imports Policy_Models Glob
begin

text \<open>
  Discovery of the policy in a checkout (\<open>repository/policy/discovery.py\<close>).  The checkout is what
  the code asks of it: \<open>files p\<close> the bytes of the regular file at \<open>p\<close> (\<open>None\<close> for a symbolic link,
  a directory or no file), \<open>decode\<close> UTF-8 decoding, \<open>decode_config\<close> and \<open>decode_context\<close> the JSON
  parser with pydantic's decoding of the declared field types.  The tracked paths are what
  \<open>git ls-files\<close> lists, decoded.
\<close>

record checkout =
  co_files :: "string \<Rightarrow> string option"
  co_decode :: "string \<Rightarrow> string option"
  co_decode_config :: "string \<Rightarrow> repository_config option"
  co_decode_context :: "string \<Rightarrow> context_files_config option"
  co_sha256 :: "string \<Rightarrow> string"
  co_frepr :: "real \<Rightarrow> string"

definition MAX_POLICY_SOURCE_BYTES :: int where "MAX_POLICY_SOURCE_BYTES = 131072"
definition MAX_CONTEXT_FILE_BYTES :: int where "MAX_CONTEXT_FILE_BYTES = 131072"
definition MAX_TOTAL_POLICY_BYTES :: int where "MAX_TOTAL_POLICY_BYTES = 1048576"

definition COMMON_INSTRUCTION_NAMES :: "string list" where
  "COMMON_INSTRUCTION_NAMES = [''AGENTS.md'', ''CLAUDE.md'', ''CONTRIBUTING.md'']"

definition git_tracked_paths :: "string list \<Rightarrow> string + string list" where
  "git_tracked_paths listed =
     (case map_result validate_repo_path (filter (\<lambda>p. p \<noteq> []) listed) of
        Inl _ \<Rightarrow> Inl ''Tracked policy paths must be normalized UTF-8 paths''
      | Inr paths \<Rightarrow> Inr (sort paths))"

definition read_text :: "checkout \<Rightarrow> string \<Rightarrow> int \<Rightarrow> string + string \<times> int" where
  "read_text co path max_bytes =
     (case co_files co path of
        None \<Rightarrow> Inl (''Policy source must be a tracked regular file: '' @ path)
      | Some content \<Rightarrow>
          if max_bytes < int (length content)
          then Inl (''Policy source exceeds its size limit: '' @ path)
          else (case co_decode co content of
                  None \<Rightarrow> Inl (''Policy source must be UTF-8 text: '' @ path)
                | Some decoded \<Rightarrow> Inr (decoded, int (length content))))"

definition parse_model :: "('a \<Rightarrow> 'b option) \<Rightarrow> 'a option \<Rightarrow> string \<Rightarrow> string + 'b" where
  "parse_model accept_model raw source =
     (case Option.bind raw accept_model of
        None \<Rightarrow> Inl (''Invalid repository policy in '' @ source)
      | Some config \<Rightarrow> Inr config)"

section \<open>Paths\<close>

definition path_parent :: "string \<Rightarrow> string list" where
  "path_parent path = butlast (posix_parts path)"

definition parent_name :: "string \<Rightarrow> string" where
  "parent_name path = (if path_parent path = [] then [] else last (path_parent path))"

definition directory_for_diffuse_file :: "string \<Rightarrow> string" where
  "directory_for_diffuse_file path = join ''/'' (butlast (path_parent path))"

definition is_common_instruction :: "string \<Rightarrow> bool" where
  "is_common_instruction path \<longleftrightarrow>
     posix_name path \<in> set COMMON_INSTRUCTION_NAMES \<or>
     (posix_name path = ''copilot-instructions.md'' \<and> parent_name path = ''.github'')"

definition directory_for_common_instruction :: "string \<Rightarrow> string" where
  "directory_for_common_instruction path =
     (if posix_name path = ''copilot-instructions.md'' \<and> parent_name path = ''.github''
      then join ''/'' (butlast (path_parent path)) else join ''/'' (path_parent path))"

definition join_relative :: "string \<Rightarrow> string \<Rightarrow> string + string" where
  "join_relative directory path =
     (let joined = (if directory \<noteq> [] then directory @ ''/'' @ path else path) in
      validate_repo_path (join ''/'' (posix_parts joined)))"

section \<open>Overrides of unknown rules\<close>

definition override_order :: "policy_layer \<Rightarrow> nat \<times> string" where
  "override_order l = (count_char CHR ''/'' (ly_directory l), ly_source l)"

definition rule_ids :: "policy_layer \<Rightarrow> string list" where
  "rule_ids l = map rr_id (rc_rules (ly_config l))"

fun check_overrides :: "policy_layer list \<Rightarrow> policy_layer list \<Rightarrow> string unit_result" where
  "check_overrides seen [] = Inr ()"
| "check_overrides seen (l # ls) =
     (let ancestors = concat (map rule_ids
                        (filter (\<lambda>m. is_descendant (ly_directory m) (ly_directory l)) seen));
          unknown = filter (\<lambda>k. k \<notin> set ancestors \<and> k \<notin> set (rule_ids l))
                      (map fst (rc_rule_overrides (ly_config l)))
      in if unknown \<noteq> []
         then Inl (ly_source l @ '' overrides unknown rule IDs: '' @ join '', '' (sort (remdups unknown)))
         else check_overrides (seen @ [l]) ls)"

definition validate_rule_overrides :: "policy_layer list \<Rightarrow> string unit_result" where
  "validate_rule_overrides layers = check_overrides [] (sort_key override_order layers)"

section \<open>The first pass: configuration and guidance by name\<close>

record discovery =
  dy_layers :: "policy_layer list"
  dy_guidance :: "guidance_document list"
  dy_skipped :: "string list"
  dy_total :: int

definition guidance_of ::
    "checkout \<Rightarrow> string \<Rightarrow> string \<Rightarrow> string \<Rightarrow> string list \<Rightarrow> string option \<Rightarrow> int \<Rightarrow> string \<Rightarrow>
     guidance_document" where
  "guidance_of co directory source kind applies_to description priority content =
     \<lparr>gd_directory = directory, gd_source = source, gd_kind = kind, gd_applies_to = applies_to,
      gd_content = content, gd_content_hash = co_sha256 co content, gd_description = description,
      gd_priority = priority\<rparr>"

definition discover_source :: "checkout \<Rightarrow> string \<Rightarrow> discovery \<Rightarrow> string + discovery" where
  "discover_source co source d =
     (if posix_name source = ''config.json'' \<and> parent_name source = ''.diffuse'' then
        bind_result (read_text co source MAX_POLICY_SOURCE_BYTES) (\<lambda>(content, size).
        bind_result (parse_model accept_config (co_decode_config co content) source) (\<lambda>config.
          Inr (d\<lparr>dy_total := dy_total d + size,
                 dy_layers := dy_layers d @
                   [\<lparr>ly_directory = directory_for_diffuse_file source, ly_source = source,
                     ly_config = config\<rparr>]\<rparr>)))
      else if posix_name source = ''rules.md'' \<and> parent_name source = ''.diffuse'' then
        bind_result (read_text co source MAX_POLICY_SOURCE_BYTES) (\<lambda>(content, size).
          Inr (d\<lparr>dy_total := dy_total d + size,
                 dy_guidance := dy_guidance d @
                   [guidance_of co (directory_for_diffuse_file source) source ''rules'' [''**'']
                      None 20 content]\<rparr>))
      else if is_common_instruction source then
        (if co_files co source = None then Inr (d\<lparr>dy_skipped := dy_skipped d @ [source]\<rparr>)
         else
           bind_result (read_text co source MAX_POLICY_SOURCE_BYTES) (\<lambda>(content, size).
             Inr (d\<lparr>dy_total := dy_total d + size,
                    dy_guidance := dy_guidance d @
                      [guidance_of co (directory_for_common_instruction source) source
                         ''instructions'' [''**''] None 10 content]\<rparr>)))
      else Inr d)"

section \<open>The second pass: files named as context\<close>

type_synonym context_identity = "string \<times> string \<times> string list"

definition discover_context ::
    "checkout \<Rightarrow> string list \<Rightarrow> string \<Rightarrow> string \<Rightarrow> context_file \<Rightarrow>
     context_identity list \<times> discovery \<Rightarrow> string + context_identity list \<times> discovery" where
  "discover_context co tracked source directory entry s =
     bind_result (join_relative directory (cf_path entry)) (\<lambda>path.
       if path \<notin> set tracked then
         Inl (source @ '' references an untracked or missing file: '' @ path)
       else if is_sensitive_repo_path path then Inr s
       else if (directory, path, cf_applies_to entry) \<in> set (fst s) then
         Inl (''Duplicate context-file reference in '' @ source @ '': '' @ cf_path entry)
       else
         bind_result (read_text co path MAX_CONTEXT_FILE_BYTES) (\<lambda>(content, size).
           Inr ((directory, path, cf_applies_to entry) # fst s,
                (snd s)\<lparr>dy_total := dy_total (snd s) + size,
                        dy_guidance := dy_guidance (snd s) @
                          [guidance_of co directory path ''context'' (cf_applies_to entry)
                             (cf_description entry) 0 content]\<rparr>)))"

definition discover_contexts ::
    "checkout \<Rightarrow> string list \<Rightarrow> string \<Rightarrow> context_identity list \<times> discovery \<Rightarrow>
     string + context_identity list \<times> discovery" where
  "discover_contexts co tracked source s =
     (if posix_name source \<noteq> ''files.json'' \<or> parent_name source \<noteq> ''.diffuse'' then Inr s
      else
        bind_result (read_text co source MAX_POLICY_SOURCE_BYTES) (\<lambda>(content, size).
        bind_result (parse_model accept_context_files (co_decode_context co content) source) (\<lambda>config.
          fold_result
            (discover_context co tracked source (directory_for_diffuse_file source))
            (cc_files config) (fst s, (snd s)\<lparr>dy_total := dy_total (snd s) + size\<rparr>))))"

section \<open>The snapshot\<close>

definition layer_order :: "policy_layer \<Rightarrow> nat \<times> string \<times> string" where
  "layer_order l = (count_char CHR ''/'' (ly_directory l), ly_directory l, ly_source l)"

definition guidance_order ::
    "guidance_document \<Rightarrow> nat \<times> string \<times> int \<times> string \<times> string list" where
  "guidance_order d =
     (count_char CHR ''/'' (gd_directory d), gd_directory d, - gd_priority d, gd_source d,
      gd_applies_to d)"

definition discover_repository_policy :: "checkout \<Rightarrow> string list \<Rightarrow> string + policy_snapshot" where
  "discover_repository_policy co listed =
     bind_result (git_tracked_paths listed) (\<lambda>tracked.
     bind_result (fold_result (discover_source co) tracked
        \<lparr>dy_layers = [], dy_guidance = [], dy_skipped = [], dy_total = 0\<rparr>) (\<lambda>found.
     bind_result (fold_result (discover_contexts co tracked) tracked ([], found)) (\<lambda>(_, d).
       if MAX_TOTAL_POLICY_BYTES < dy_total d
       then Inl ''Repository policy exceeds the 1 MiB aggregate size limit''
       else
         (let layers = sort_key layer_order (dy_layers d);
              guidance = sort_key guidance_order (dy_guidance d) in
          bind_result (validate_rule_overrides layers) (\<lambda>_.
            make_snapshot (co_sha256 co) (co_frepr co) layers guidance (dy_skipped d) [])))))"

end
