(* ===== verification/Discovery_Props.thy ===== *)
theory Discovery_Props
  imports Discovery "HOL-Library.Multiset"
begin

text \<open>
  What discovery promises of a snapshot: which files its documents come from, how much it reads,
  that a directory's layer comes after the layers above it, and that an override has a rule to
  override.
\<close>

lemma fold_result_invariant:
  assumes "fold_result f xs s = Inr s'" "I s"
    and "\<And>x s s'. x \<in> set xs \<Longrightarrow> I s \<Longrightarrow> f x s = Inr s' \<Longrightarrow> I s'"
  shows "I s'"
  using assms
proof (induction xs arbitrary: s)
  case Nil
  then show ?case by simp
next
  case (Cons x xs)
  from Cons.prems(1) obtain t where t: "f x s = Inr t" "fold_result f xs t = Inr s'"
    by (auto simp: bind_result_Inr_iff)
  have "I t" using Cons.prems(3)[OF _ Cons.prems(2) t(1)] by simp
  then show ?case by (rule Cons.IH[OF t(2)]) (use Cons.prems(3) in auto)
qed

section \<open>Sources and bounds\<close>

definition source_bytes :: "checkout \<Rightarrow> string \<Rightarrow> int" where
  "source_bytes co source = (case co_files co source of None \<Rightarrow> 0 | Some bytes \<Rightarrow> int (length bytes))"

definition total_bytes :: "checkout \<Rightarrow> discovery \<Rightarrow> int" where
  "total_bytes co d =
     sum_list (map (\<lambda>l. source_bytes co (ly_source l)) (dy_layers d)) +
     sum_list (map (\<lambda>g. source_bytes co (gd_source g)) (dy_guidance d))"

definition document_ok :: "checkout \<Rightarrow> string list \<Rightarrow> guidance_document \<Rightarrow> bool" where
  "document_ok co tracked g \<longleftrightarrow>
     gd_source g \<in> set tracked \<and>
     (\<exists>bytes. co_files co (gd_source g) = Some bytes \<and> length bytes \<le> 131072 \<and>
        co_decode co bytes = Some (gd_content g)) \<and>
     (gd_kind g = ''context'' \<longrightarrow> \<not> is_sensitive_repo_path (gd_source g))"

definition layer_ok :: "string list \<Rightarrow> policy_layer \<Rightarrow> bool" where
  "layer_ok tracked l \<longleftrightarrow>
     ly_source l \<in> set tracked \<and> ly_directory l = directory_for_diffuse_file (ly_source l) \<and>
     (\<exists>raw. accept_config raw = Some (ly_config l))"

definition discovery_ok :: "checkout \<Rightarrow> string list \<Rightarrow> discovery \<Rightarrow> bool" where
  "discovery_ok co tracked d \<longleftrightarrow>
     list_all (document_ok co tracked) (dy_guidance d) \<and> list_all (layer_ok tracked) (dy_layers d) \<and>
     total_bytes co d \<le> dy_total d"

lemma read_text_Inr:
  assumes "read_text co path 131072 = Inr (content, sz)"
  shows "\<exists>bytes. co_files co path = Some bytes \<and> length bytes \<le> 131072 \<and>
           co_decode co bytes = Some content" "sz = source_bytes co path"
  using assms by (auto simp: read_text_def source_bytes_def split: option.splits if_splits)

lemma read_text_size: "read_text co path n = Inr (content, sz) \<Longrightarrow> 0 \<le> sz"
  by (auto simp: read_text_def split: option.splits if_splits)

lemma parse_model_Inr:
  "parse_model accept_model raw source = Inr c \<Longrightarrow> \<exists>r. accept_model r = Some c"
  by (cases raw) (auto simp: parse_model_def split: option.splits)

lemma guidance_of_ok:
  assumes "read_text co source 131072 = Inr (content, sz)" "source \<in> set tracked"
    and "kind = ''context'' \<Longrightarrow> \<not> is_sensitive_repo_path source"
  shows "document_ok co tracked (guidance_of co dir source kind globs desc prio content)"
  using assms read_text_Inr(1)[OF assms(1)] by (simp add: document_ok_def guidance_of_def)

lemma add_document_ok:
  assumes "discovery_ok co tracked d" "document_ok co tracked g" "gd_source g = source"
    "sz = source_bytes co source"
  shows "discovery_ok co tracked (d\<lparr>dy_total := dy_total d + sz,
           dy_guidance := dy_guidance d @ [g]\<rparr>)"
  using assms by (simp add: discovery_ok_def total_bytes_def)

lemmas limits = MAX_POLICY_SOURCE_BYTES_def MAX_CONTEXT_FILE_BYTES_def MAX_TOTAL_POLICY_BYTES_def

lemma discover_source_ok:
  assumes ok: "discovery_ok co tracked d" and t: "source \<in> set tracked"
    and r: "discover_source co source d = Inr d'"
  shows "discovery_ok co tracked d'"
proof (cases "posix_name source = ''config.json'' \<and> parent_name source = ''.diffuse''")
  case True
  with r obtain content sz config where rd: "read_text co source 131072 = Inr (content, sz)"
    and p: "parse_model accept_config (co_decode_config co content) source = Inr config"
    and d': "d' = d\<lparr>dy_total := dy_total d + sz, dy_layers := dy_layers d @
         [\<lparr>ly_directory = directory_for_diffuse_file source, ly_source = source,
           ly_config = config\<rparr>]\<rparr>"
    by (auto simp: discover_source_def bind_result_Inr_iff limits)
  show ?thesis unfolding d' using ok t parse_model_Inr[OF p] read_text_Inr(2)[OF rd]
    by (auto simp: discovery_ok_def total_bytes_def layer_ok_def)
next
  case not_config: False
  have doc: "discovery_ok co tracked d'"
    if step: "bind_result (read_text co source 131072) (\<lambda>(content, sz).
          Inr (d\<lparr>dy_total := dy_total d + sz, dy_guidance := dy_guidance d @
            [guidance_of co dir source kind [''**''] None prio content]\<rparr>)) = Inr d'"
      and kind: "kind \<noteq> ''context''" for dir kind prio
  proof -
    obtain content sz where rd: "read_text co source 131072 = Inr (content, sz)"
      and d': "d' = d\<lparr>dy_total := dy_total d + sz, dy_guidance := dy_guidance d @
            [guidance_of co dir source kind [''**''] None prio content]\<rparr>"
      using step by (auto simp: bind_result_Inr_iff)
    show ?thesis unfolding d'
      by (rule add_document_ok[OF ok guidance_of_ok[OF rd t] _ read_text_Inr(2)[OF rd]])
         (use kind in \<open>simp_all add: guidance_of_def\<close>)
  qed
  have nc: "''rules'' \<noteq> ''context''" "''instructions'' \<noteq> ''context''" by simp_all
  consider "discovery_ok co tracked d'" | "d' = d" | "d' = d\<lparr>dy_skipped := dy_skipped d @ [source]\<rparr>"
    using r not_config doc[OF _ nc(1)] doc[OF _ nc(2)]
    unfolding discover_source_def limits by (auto split: if_splits)
  then show ?thesis using ok by cases (simp_all add: discovery_ok_def total_bytes_def)
qed

lemma discover_context_ok:
  assumes ok: "discovery_ok co tracked (snd s)"
    and r: "discover_context co tracked source dir entry s = Inr s'"
  shows "discovery_ok co tracked (snd s')"
proof -
  obtain path where j: "join_relative dir (cf_path entry) = Inr path"
    using r by (auto simp: discover_context_def bind_result_Inr_iff)
  show ?thesis
  proof (cases "is_sensitive_repo_path path")
    case True
    then show ?thesis using r j ok by (auto simp: discover_context_def split: if_splits)
  next
    case False
    with r j obtain content sz where t: "path \<in> set tracked"
      and rd: "read_text co path 131072 = Inr (content, sz)"
      and s': "snd s' = (snd s)\<lparr>dy_total := dy_total (snd s) + sz, dy_guidance :=
          dy_guidance (snd s) @ [guidance_of co dir path ''context'' (cf_applies_to entry)
            (cf_description entry) 0 content]\<rparr>"
      by (auto simp: discover_context_def bind_result_Inr_iff limits split: if_splits)
    show ?thesis unfolding s'
      by (rule add_document_ok[OF ok guidance_of_ok[OF rd t] _ read_text_Inr(2)[OF rd]])
         (use False in \<open>simp_all add: guidance_of_def\<close>)
  qed
qed

lemma discover_contexts_ok:
  assumes ok: "discovery_ok co tracked (snd s)"
    and r: "discover_contexts co tracked source s = Inr s'"
  shows "discovery_ok co tracked (snd s')"
proof (cases "posix_name source \<noteq> ''files.json'' \<or> parent_name source \<noteq> ''.diffuse''")
  case True
  then show ?thesis using r ok by (simp add: discover_contexts_def)
next
  case False
  with r obtain config :: context_files_config and content sz where
    rd: "read_text co source MAX_POLICY_SOURCE_BYTES = Inr (content, sz)" and
    f: "fold_result (discover_context co tracked source (directory_for_diffuse_file source))
          (cc_files config) (fst s, (snd s)\<lparr>dy_total := dy_total (snd s) + sz\<rparr>) = Inr s'"
    by (auto simp: discover_contexts_def bind_result_Inr_iff)
  have "discovery_ok co tracked ((snd s)\<lparr>dy_total := dy_total (snd s) + sz\<rparr>)"
    using ok read_text_size[OF rd] by (simp add: discovery_ok_def total_bytes_def)
  then show ?thesis
    by (intro fold_result_invariant[OF f, where I = "\<lambda>s. discovery_ok co tracked (snd s)"])
       (auto intro: discover_context_ok)
qed

lemma discovered:
  assumes "discover_repository_policy co listed = Inr snapshot"
  obtains tracked d where "git_tracked_paths listed = Inr tracked" "discovery_ok co tracked d"
    "dy_total d \<le> 1048576"
    "ps_layers snapshot = sort_key layer_order (dy_layers d)"
    "ps_documents snapshot = sort_key guidance_order (dy_guidance d)"
    "validate_rule_overrides (ps_layers snapshot) = Inr ()"
    "ps_fingerprint snapshot =
       policy_fingerprint (co_sha256 co) (co_frepr co) (ps_layers snapshot) (ps_documents snapshot)"
proof -
  obtain tracked found ids d where t: "git_tracked_paths listed = Inr tracked"
    and f: "fold_result (discover_source co) tracked
        \<lparr>dy_layers = [], dy_guidance = [], dy_skipped = [], dy_total = 0\<rparr> = Inr found"
    and c: "fold_result (discover_contexts co tracked) tracked ([], found) = Inr (ids, d)"
    and m: "\<not> MAX_TOTAL_POLICY_BYTES < dy_total d"
    and v: "validate_rule_overrides (sort_key layer_order (dy_layers d)) = Inr ()"
    and s: "make_snapshot (co_sha256 co) (co_frepr co) (sort_key layer_order (dy_layers d))
        (sort_key guidance_order (dy_guidance d)) (dy_skipped d) [] = Inr snapshot"
    using assms by (auto simp: discover_repository_policy_def bind_result_Inr_iff Let_def split: if_splits)
  have "discovery_ok co tracked found"
    by (rule fold_result_invariant[OF f, where I = "discovery_ok co tracked"])
       (simp add: discovery_ok_def total_bytes_def, erule (2) discover_source_ok[rotated])
  then have "discovery_ok co tracked (snd (ids, d))"
    by (intro fold_result_invariant[OF c, where I = "\<lambda>s. discovery_ok co tracked (snd s)"])
       (auto intro: discover_contexts_ok)
  then show ?thesis using that[OF t] m v s
    by (auto simp: make_snapshot_def Let_def limits)
qed

section \<open>Nearer layers come later\<close>

lemma count_char_append [simp]: "count_char c (s @ t) = count_char c s + count_char c t"
  by (simp add: count_char_def)

lemma proper_descendant_later:
  assumes "is_descendant (ly_directory l) (ly_directory m)" "ly_directory l \<noteq> ly_directory m"
  shows "layer_order l < layer_order m"
proof (cases "ly_directory l = []")
  case True
  then have "(0, []) < (count_char CHR ''/'' (ly_directory m), ly_directory m)"
    using assms(2) by (cases "ly_directory m") (auto simp: less_prod_def)
  then show ?thesis using True
    by (auto simp: layer_order_def less_prod_def count_char_def)
next
  case False
  then obtain r where "ly_directory m = ly_directory l @ ''/'' @ r"
    using assms by (auto simp: is_descendant_def startswith_iff)
  then have "count_char CHR ''/'' (ly_directory l) < count_char CHR ''/'' (ly_directory m)"
    by (simp add: count_char_def)
  then show ?thesis by (simp add: layer_order_def less_prod_def)
qed

lemma layers_nearest_last:
  "sorted_wrt (\<lambda>l m. \<not> (is_descendant (ly_directory m) (ly_directory l) \<and>
     ly_directory m \<noteq> ly_directory l)) (sort_key layer_order ls)"
proof -
  have "sorted_wrt (\<lambda>l m. layer_order l \<le> layer_order m) (sort_key layer_order ls)"
    using sorted_sort_key[of layer_order ls] by (simp add: sorted_map)
  then show ?thesis
    by (rule sorted_wrt_mono_rel[rotated]) (auto dest: proper_descendant_later)
qed

section \<open>Overrides\<close>

lemma check_overrides_known:
  assumes "check_overrides seen ls = Inr ()" "l \<in> set ls"
    "k \<in> fst ` set (rc_rule_overrides (ly_config l))"
  shows "\<exists>m \<in> set seen \<union> set ls. is_descendant (ly_directory m) (ly_directory l) \<and> k \<in> set (rule_ids m)"
  using assms
proof (induction ls arbitrary: seen)
  case Nil
  then show ?case by simp
next
  case (Cons x xs)
  have step: "check_overrides (seen @ [x]) xs = Inr ()"
    and known: "\<forall>k \<in> fst ` set (rc_rule_overrides (ly_config x)).
      k \<in> set (rule_ids x) \<or>
      (\<exists>m \<in> set seen. is_descendant (ly_directory m) (ly_directory x) \<and> k \<in> set (rule_ids m))"
    using Cons.prems(1) by (auto simp: Let_def filter_empty_conv split: if_splits)
  show ?case
  proof (cases "l = x")
    case True
    then show ?thesis using known Cons.prems(3) by (auto simp: is_descendant_def)
  next
    case False
    then have "l \<in> set xs" using Cons.prems(2) by simp
    from Cons.IH[OF step this Cons.prems(3)] show ?thesis by auto
  qed
qed

text \<open>C19: What a successful discovery returns: every document is a tracked regular file of at most
  128 KiB holding that text, none that a repository names as context is secret-shaped, all sources
  together have at most 1 MiB, every layer is a validated configuration of the directory that holds
  its .diffuse directory, a layer comes after all layers of directories above it, every override
  names a rule of its own or a layer above, and the fingerprint is the one of the contents.\<close>

theorem discovered_policy_is_safe:
  assumes "discover_repository_policy co listed = Inr snapshot"
  shows "\<exists>tracked. git_tracked_paths listed = Inr tracked \<and>
    list_all (document_ok co tracked) (ps_documents snapshot) \<and>
    list_all (layer_ok tracked) (ps_layers snapshot) \<and>
    sum_list (map (\<lambda>l. source_bytes co (ly_source l)) (ps_layers snapshot)) +
      sum_list (map (\<lambda>g. source_bytes co (gd_source g)) (ps_documents snapshot)) \<le> 1048576 \<and>
    sorted_wrt (\<lambda>l m. \<not> (is_descendant (ly_directory m) (ly_directory l) \<and>
      ly_directory m \<noteq> ly_directory l)) (ps_layers snapshot) \<and>
    list_all (\<lambda>l. list_all (\<lambda>k. list_ex (\<lambda>m. is_descendant (ly_directory m) (ly_directory l) \<and>
        k \<in> set (rule_ids m)) (ps_layers snapshot))
      (map fst (rc_rule_overrides (ly_config l)))) (ps_layers snapshot) \<and>
    ps_fingerprint snapshot =
      policy_fingerprint (co_sha256 co) (co_frepr co) (ps_layers snapshot) (ps_documents snapshot)"
proof -
  obtain tracked d where t: "git_tracked_paths listed = Inr tracked" and ok: "discovery_ok co tracked d"
    and b: "dy_total d \<le> 1048576"
    and l: "ps_layers snapshot = sort_key layer_order (dy_layers d)"
    and g: "ps_documents snapshot = sort_key guidance_order (dy_guidance d)"
    and v: "validate_rule_overrides (ps_layers snapshot) = Inr ()"
    and f: "ps_fingerprint snapshot =
       policy_fingerprint (co_sha256 co) (co_frepr co) (ps_layers snapshot) (ps_documents snapshot)"
    using assms by (rule discovered)
  have perm: "sum_list (map h (sort_key k xs)) = sum_list (map h xs)"
    for h :: "'x \<Rightarrow> int" and k :: "'x \<Rightarrow> 'y::linorder" and xs
    by (metis mset_map mset_sort sum_mset_sum_list)
  have "list_all (document_ok co tracked) (ps_documents snapshot)"
    "list_all (layer_ok tracked) (ps_layers snapshot)"
    using ok unfolding discovery_ok_def g l by (simp_all add: list_all_iff)
  moreover have "sum_list (map (\<lambda>l. source_bytes co (ly_source l)) (ps_layers snapshot)) +
      sum_list (map (\<lambda>g. source_bytes co (gd_source g)) (ps_documents snapshot)) \<le> 1048576"
    using ok b unfolding discovery_ok_def total_bytes_def l g perm by linarith
  moreover have "list_all (\<lambda>l. list_all (\<lambda>k. list_ex (\<lambda>m. is_descendant (ly_directory m) (ly_directory l) \<and>
        k \<in> set (rule_ids m)) (ps_layers snapshot))
      (map fst (rc_rule_overrides (ly_config l)))) (ps_layers snapshot)"
    using check_overrides_known[OF v[unfolded validate_rule_overrides_def]]
    by (force simp: list_all_iff list_ex_iff)
  ultimately show ?thesis using t f layers_nearest_last[of "dy_layers d"] unfolding l by blast
qed

definition empty_section :: section_patch where
  "empty_section = \<lparr>sp_included = None, sp_collapsible = None, sp_default_open = None\<rparr>"

definition empty_review :: review_patch where
  "empty_review =
     \<lparr>rv_enabled = None, rv_passes = None, rv_minimum_confidence = None, rv_minimum_severity = None,
      rv_ignored_paths = [], rv_summary_only = None, rv_respond_to_comments = None,
      rv_update_description = None, rv_summary_comment = None, rv_summary_section = empty_section,
      rv_issues_table_section = empty_section, rv_confidence_score_section = empty_section,
      rv_diagram = empty_section, rv_hide_footer = None\<rparr>"

definition empty_triggers :: trigger_patch where
  "empty_triggers =
     \<lparr>tg_automatic = None, tg_review_drafts = None, tg_review_updates = None, tg_labels = None,
      tg_disabled_labels = None, tg_include_authors = None, tg_exclude_authors = None,
      tg_include_branches = None, tg_exclude_branches = None, tg_include_keywords = None,
      tg_exclude_keywords = None, tg_file_change_limit = None, tg_status_check = None,
      tg_failure_comment = None, tg_blocking_severities = None\<rparr>"

definition sample_config :: "repository_rule list \<Rightarrow> (string \<times> rule_override) list \<Rightarrow> repository_config" where
  "sample_config rules overrides =
     \<lparr>rc_version = 1, rc_review = empty_review, rc_triggers = empty_triggers,
      rc_context_repos = None,
      rc_security = \<lparr>sc_preventative = None, sc_preventative_minimum_confidence = None\<rparr>,
      rc_rules = rules, rc_rule_overrides = overrides\<rparr>"

definition sample_rule :: repository_rule where
  "sample_rule =
     \<lparr>rr_id = ''no-sql'', rr_title = ''t'', rr_guidance = ''g'', rr_applies_to = [''**''],
      rr_enabled = True, rr_severity = ''medium'', rr_category = ''security''\<rparr>"

definition sample_override :: rule_override where
  "sample_override = \<lparr>ro_enabled = Some False, ro_severity = None, ro_category = None\<rparr>"

definition sample_checkout :: checkout where
  "sample_checkout =
     \<lparr>co_files = map_of [(''.diffuse/config.json'', ''A''), (''web/.diffuse/config.json'', ''B''),
                         (''.diffuse/files.json'', ''C''), (''docs/a.md'', ''text''),
                         (''prod.env'', ''secret'')],
      co_decode = Some,
      co_decode_config = map_of [(''A'', sample_config [sample_rule] []),
                                 (''B'', sample_config [] [(''no-sql'', sample_override)])],
      co_decode_context = map_of [(''C'', \<lparr>cc_version = 1, cc_files =
         [\<lparr>cf_path = ''docs/a.md'', cf_description = None, cf_applies_to = [''**'']\<rparr>,
          \<lparr>cf_path = ''prod.env'', cf_description = None, cf_applies_to = [''**'']\<rparr>]\<rparr>)],
      co_sha256 = (\<lambda>s. ''h''), co_frepr = (\<lambda>c. ''0.5'')\<rparr>"

definition sample_listing :: "string list" where
  "sample_listing =
     [''.diffuse/config.json'', ''.diffuse/files.json'', ''CLAUDE.md'', ''docs/a.md'', ''prod.env'',
      ''web/.diffuse/config.json'']"

definition sample_document :: guidance_document where
  "sample_document = guidance_of sample_checkout '''' ''docs/a.md'' ''context'' [''**''] None 0 ''text''"

definition sample_found :: discovery where
  "sample_found =
     \<lparr>dy_layers = [\<lparr>ly_directory = '''', ly_source = ''.diffuse/config.json'',
                    ly_config = sample_config [sample_rule] []\<rparr>,
                   \<lparr>ly_directory = ''web'', ly_source = ''web/.diffuse/config.json'',
                    ly_config = sample_config [] [(''no-sql'', sample_override)]\<rparr>],
      dy_guidance = [], dy_skipped = [''CLAUDE.md''], dy_total = 2\<rparr>"

lemma discovered_policy_is_safe_witness:
  "\<exists>snapshot. discover_repository_policy sample_checkout sample_listing = Inr snapshot \<and>
     map gd_source (ps_documents snapshot) = [''docs/a.md''] \<and>
     map ly_directory (ps_layers snapshot) = ['''', ''web''] \<and>
     ps_skipped snapshot = [''CLAUDE.md''] \<and>
     (\<exists>tracked. list_all (document_ok sample_checkout tracked) (ps_documents snapshot))"
proof -
  let ?co = sample_checkout
  have g: "git_tracked_paths sample_listing = Inr sample_listing" by code_simp
  have f: "fold_result (discover_source ?co) sample_listing
      \<lparr>dy_layers = [], dy_guidance = [], dy_skipped = [], dy_total = 0\<rparr> = Inr sample_found"
    by code_simp
  have c: "fold_result (discover_contexts ?co sample_listing) sample_listing ([], sample_found) =
      Inr ([('''', ''docs/a.md'', [''**''])], sample_found\<lparr>dy_total := 7, dy_guidance := [sample_document]\<rparr>)"
    by code_simp
  have l: "sort_key layer_order (dy_layers sample_found) = dy_layers sample_found" by code_simp
  have v: "validate_rule_overrides (dy_layers sample_found) = Inr ()" by code_simp
  have sk: "dy_skipped sample_found = [''CLAUDE.md'']" by (simp add: sample_found_def)
  have "\<exists>s. discover_repository_policy ?co sample_listing = Inr s \<and>
     ps_documents s = [sample_document] \<and> ps_layers s = dy_layers sample_found \<and>
     ps_skipped s = [''CLAUDE.md'']"
    by (simp add: discover_repository_policy_def g f c l v sk limits make_snapshot_def Let_def)
  then obtain s where s: "discover_repository_policy ?co sample_listing = Inr s"
    "ps_documents s = [sample_document]" "ps_layers s = dy_layers sample_found"
    "ps_skipped s = [''CLAUDE.md'']" by blast
  have "\<exists>tracked. list_all (document_ok ?co tracked) (ps_documents s)"
    using discovered_policy_is_safe[OF s(1)] by (elim exE conjE) (rule exI)
  then show ?thesis using s
    by (intro exI[of _ s]) (simp add: sample_document_def guidance_of_def sample_found_def)
qed

text \<open>The order in which overrides are checked compares only the number of slashes and then
  the source path, and a top-level directory has as many slashes as the root.  An override of a root
  rule in a top-level directory whose name sorts before the dot of .diffuse (a parenthesis, a
  dollar sign, a dash) is refused as unknown, although the root layer is above it.\<close>

theorem top_level_override_refused:
  assumes "ly_directory rootlayer = []" "ly_source rootlayer = ''.diffuse/config.json''"
    and "CHR ''/'' \<notin> set d" "d \<noteq> []" "code (hd d) < 46"
    and "ly_directory inner = d" "ly_source inner = d @ ''/.diffuse/config.json''"
    and "k \<in> fst ` set (rc_rule_overrides (ly_config inner))"
    and "k \<in> set (rule_ids rootlayer)" "k \<notin> set (rule_ids inner)"
  shows "is_descendant (ly_directory rootlayer) (ly_directory inner) \<and>
    (\<exists>message. validate_rule_overrides [rootlayer, inner] = Inl message)"
proof -
  have "hd d < CHR ''.''" using assms(5) unfolding less_char_def code_def by simp
  then have src: "ly_source inner < ly_source rootlayer"
    unfolding assms by (cases d) (use assms(4) in auto)
  have "count_char CHR ''/'' d = 0" using assms(3) by (auto simp: count_char_def filter_empty_conv)
  then have "override_order inner < override_order rootlayer"
    using src assms by (simp add: override_order_def less_prod_def count_char_def)
  then have order: "sort_key override_order [rootlayer, inner] = [inner, rootlayer]" by simp
  have "filter (\<lambda>k. k \<notin> set (rule_ids inner)) (map fst (rc_rule_overrides (ly_config inner))) \<noteq> []"
    using assms(8,10) by (auto simp: filter_empty_conv)
  then have "\<exists>message. validate_rule_overrides [rootlayer, inner] = Inl message"
    unfolding validate_rule_overrides_def order by (simp add: Let_def)
  then show ?thesis using assms(1) by (simp add: is_descendant_def)
qed

definition parenthesised :: "policy_layer \<times> policy_layer" where
  "parenthesised =
     (\<lparr>ly_directory = '''', ly_source = ''.diffuse/config.json'',
       ly_config = sample_config [sample_rule] []\<rparr>,
      \<lparr>ly_directory = ''(web)'', ly_source = ''(web)/.diffuse/config.json'',
       ly_config = sample_config [] [(''no-sql'', sample_override)]\<rparr>)"

lemma top_level_override_refused_witness:
  "\<exists>message. validate_rule_overrides [fst parenthesised, snd parenthesised] = Inl message"
  using top_level_override_refused[of "fst parenthesised" "''(web)''" "snd parenthesised" "''no-sql''"]
  by (simp add: parenthesised_def sample_config_def rule_ids_def sample_rule_def code_def)

end
