(* ===== verification/Review_Models.thy ===== *)
theory Review_Models
  imports Prelude
begin

text \<open>
  Findings, diagrams and reports (\<open>diffuse_protocol/review.py\<close>).  \<open>accept_\<dots>\<close> is a model's
  validation (declared constraints and its own validators) of a record whose fields have the declared
  types and whose strings pydantic has stripped; \<open>None\<close> is a \<open>ValidationError\<close>.  Confidences and
  scores are reals.
\<close>

datatype severity = Critical | High | Medium | Low

datatype category =
    Cat_correctness | Cat_security | Cat_performance | Cat_reliability | Cat_testing
  | Cat_architecture | Cat_maintainability | Cat_api

datatype security_classification = Vulnerability | Preventative

datatype diagram_kind = Sequence | Entity_relation | Class | Flow

datatype side = LEFT | RIGHT

fun severity_text :: "severity \<Rightarrow> string" where
  "severity_text Critical = ''critical''"
| "severity_text High = ''high''"
| "severity_text Medium = ''medium''"
| "severity_text Low = ''low''"

fun category_text :: "category \<Rightarrow> string" where
  "category_text Cat_correctness = ''correctness''"
| "category_text Cat_security = ''security''"
| "category_text Cat_performance = ''performance''"
| "category_text Cat_reliability = ''reliability''"
| "category_text Cat_testing = ''testing''"
| "category_text Cat_architecture = ''architecture''"
| "category_text Cat_maintainability = ''maintainability''"
| "category_text Cat_api = ''api''"

fun classification_text :: "security_classification \<Rightarrow> string" where
  "classification_text Vulnerability = ''vulnerability''"
| "classification_text Preventative = ''preventative''"

fun side_text :: "side \<Rightarrow> string" where
  "side_text LEFT = ''LEFT''"
| "side_text RIGHT = ''RIGHT''"

lemma severity_text_inj [simp]: "severity_text a = severity_text b \<longleftrightarrow> a = b"
  by (cases a; cases b) simp_all

lemma category_text_inj [simp]: "category_text a = category_text b \<longleftrightarrow> a = b"
  by (cases a; cases b) simp_all

lemma classification_text_inj [simp]: "classification_text a = classification_text b \<longleftrightarrow> a = b"
  by (cases a; cases b) simp_all

lemma side_text_inj [simp]: "side_text a = side_text b \<longleftrightarrow> a = b"
  by (cases a; cases b) simp_all

section \<open>Findings\<close>

record candidate_finding =
  cd_title :: string
  cd_body :: string
  cd_severity :: severity
  cd_category :: category
  cd_classification :: "security_classification option"
  cd_confidence :: real
  cd_file_path :: string
  cd_line :: nat
  cd_side :: side
  cd_evidence :: string
  cd_suggested_fix :: "string option"

record verification_decision =
  vd_candidate_id :: string
  vd_keep :: bool
  vd_confidence :: real
  vd_rationale :: string
  vd_revised_title :: "string option"
  vd_revised_body :: "string option"
  vd_revised_suggested_fix :: "string option"
  vd_revised_severity :: "severity option"

record review_finding =
  rf_fingerprint :: string
  rf_title :: string
  rf_body :: string
  rf_severity :: severity
  rf_category :: category
  rf_classification :: "security_classification option"
  rf_confidence :: real
  rf_file_path :: string
  rf_line :: nat
  rf_side :: side
  rf_evidence :: string
  rf_suggested_fix :: "string option"

definition text_between :: "nat \<Rightarrow> nat \<Rightarrow> string \<Rightarrow> bool" where
  "text_between lo hi s \<longleftrightarrow> lo \<le> length s \<and> length s \<le> hi"

definition opt_text :: "nat \<Rightarrow> string option \<Rightarrow> bool" where
  "opt_text hi m = (case m of None \<Rightarrow> True | Some s \<Rightarrow> length s \<le> hi)"

text \<open>\<open>classification_matches_category\<close>\<close>

definition classification_for ::
    "category \<Rightarrow> security_classification option \<Rightarrow> security_classification option option" where
  "classification_for category classification =
     (if category = Cat_security
      then Some (Some (case classification of None \<Rightarrow> Vulnerability | Some c \<Rightarrow> c))
      else if classification \<noteq> None then None else Some None)"

definition accept_candidate :: "candidate_finding \<Rightarrow> candidate_finding option" where
  "accept_candidate c =
     (if text_between 1 200 (cd_title c) \<and> text_between 1 4000 (cd_body c) \<and>
         0 \<le> cd_confidence c \<and> cd_confidence c \<le> 1 \<and> text_between 1 1024 (cd_file_path c) \<and>
         0 < cd_line c \<and> text_between 1 3000 (cd_evidence c) \<and> opt_text 6000 (cd_suggested_fix c)
      then map_option (\<lambda>k. c\<lparr>cd_classification := k\<rparr>)
             (classification_for (cd_category c) (cd_classification c))
      else None)"

definition is_candidate_id :: "string \<Rightarrow> bool" where
  "is_candidate_id s \<longleftrightarrow>
     startswith s ''candidate-'' \<and> drop 10 s \<noteq> [] \<and> list_all is_digit (drop 10 s)"

definition accept_decision :: "verification_decision \<Rightarrow> bool" where
  "accept_decision d \<longleftrightarrow>
     is_candidate_id (vd_candidate_id d) \<and> 0 \<le> vd_confidence d \<and> vd_confidence d \<le> 1 \<and>
     text_between 1 2000 (vd_rationale d) \<and> opt_text 200 (vd_revised_title d) \<and>
     opt_text 4000 (vd_revised_body d) \<and> opt_text 6000 (vd_revised_suggested_fix d)"

definition accept_finding :: "review_finding \<Rightarrow> review_finding option" where
  "accept_finding f =
     (if length (rf_fingerprint f) = 64 \<and> list_all is_hex_lower (rf_fingerprint f) \<and>
         text_between 1 200 (rf_title f) \<and> text_between 1 4000 (rf_body f) \<and>
         0 \<le> rf_confidence f \<and> rf_confidence f \<le> 1 \<and> text_between 1 1024 (rf_file_path f) \<and>
         0 < rf_line f \<and> text_between 1 3000 (rf_evidence f) \<and> opt_text 6000 (rf_suggested_fix f)
      then map_option (\<lambda>k. f\<lparr>rf_classification := k\<rparr>)
             (classification_for (rf_category f) (rf_classification f))
      else None)"

section \<open>Diagrams\<close>

record review_diagram =
  dg_kind :: diagram_kind
  dg_title :: string
  dg_mermaid :: string

text \<open>\<open>\w\<close> on the modelled characters.\<close>

definition is_word_char :: "char \<Rightarrow> bool" where
  "is_word_char c \<longleftrightarrow>
     is_digit c \<or> is_lower_alpha c \<or> is_upper_alpha c \<or> c = CHR ''_'' \<or>
     code c \<in> {170, 178, 179, 181, 185, 186, 188, 189, 190} \<or>
     (192 \<le> code c \<and> code c \<noteq> 215 \<and> code c \<noteq> 247)"

text \<open>\<open>word\b\<close> (ignoring case) at the front, for a word that ends in a letter.\<close>

definition word_at :: "string \<Rightarrow> string \<Rightarrow> bool" where
  "word_at word s \<longleftrightarrow>
     startswith (lower s) word \<and>
     (case drop (length word) s of [] \<Rightarrow> True | c # _ \<Rightarrow> \<not> is_word_char c)"

text \<open>\<open>unsafe_at prev s\<close>: the expression of the unsafe directives matches at the front of \<open>s\<close>, where
  \<open>prev\<close> is the character before (\<open>None\<close> at the beginning).\<close>

definition unsafe_at :: "char option \<Rightarrow> string \<Rightarrow> bool" where
  "unsafe_at prev s \<longleftrightarrow>
     ((prev = None \<or> prev = Some (hd newline)) \<and>
        list_ex (\<lambda>w. word_at w (lstrip s)) [''click'', ''style'', ''classdef'', ''linkstyle'']) \<or>
     ((case prev of None \<Rightarrow> True | Some c \<Rightarrow> \<not> is_word_char c) \<and>
        startswith (lower s) ''href'' \<and> startswith (lstrip (drop 4 s)) ''='') \<or>
     (startswith s ''<'' \<and>
        list_ex (\<lambda>w. word_at w (drop 1 s)) [''script'', ''iframe'', ''img'', ''style''])"

fun unsafe_in :: "char option \<Rightarrow> string \<Rightarrow> bool" where
  "unsafe_in prev [] = unsafe_at prev []"
| "unsafe_in prev (c # cs) = (unsafe_at prev (c # cs) \<or> unsafe_in (Some c) cs)"

fun unify_newlines :: "string \<Rightarrow> string" where
  "unify_newlines [] = []"
| "unify_newlines (c # cs) =
     (if code c = 13 then
        (case cs of
           d # ds \<Rightarrow> if code d = 10 then d # unify_newlines ds else hd newline # unify_newlines cs
         | [] \<Rightarrow> newline)
      else c # unify_newlines cs)"

text \<open>\<open>(?:flowchart|graph)\s+(?:TB|TD|BT|RL|LR)\<close>\<close>

definition flow_directive :: "string \<Rightarrow> bool" where
  "flow_directive s \<longleftrightarrow>
     list_ex (\<lambda>w. startswith s w \<and>
        (case drop (length w) s of
           [] \<Rightarrow> False
         | c # cs \<Rightarrow> is_space c \<and> lstrip cs \<in> {''TB'', ''TD'', ''BT'', ''RL'', ''LR''}))
       [''flowchart'', ''graph'']"

definition first_directive :: "string list \<Rightarrow> string" where
  "first_directive lines =
     (case filter (\<lambda>l. strip l \<noteq> [] \<and> \<not> startswith (lstrip l) ''%%'') lines of
        [] \<Rightarrow> [] | l # _ \<Rightarrow> strip l)"

fun directive_ok :: "diagram_kind \<Rightarrow> string \<Rightarrow> bool" where
  "directive_ok Sequence first = (first = ''sequenceDiagram'')"
| "directive_ok Entity_relation first = (first = ''erDiagram'')"
| "directive_ok Class first = (first = ''classDiagram'')"
| "directive_ok Flow first = flow_directive first"

definition backticks :: string where
  "backticks = replicate 3 (CHR 0x60)"

definition accept_diagram :: "review_diagram \<Rightarrow> review_diagram option" where
  "accept_diagram d =
     (let source = strip (unify_newlines (dg_mermaid d)); lines = splitlines source;
          lowered = casefold source in
      if \<not> text_between 1 120 (dg_title d) \<or> \<not> text_between 1 12000 (dg_mermaid d) then None
      else if 200 < length lines \<or> list_ex (\<lambda>l. 500 < length l) lines \<or>
              list_ex (\<lambda>c. code c < 32) (dg_title d) \<or>
              list_ex (\<lambda>c. code c < 32 \<and> code c \<noteq> 10 \<and> code c \<noteq> 9) source then None
      else if contains_str backticks source \<or> contains_str (''%%'' @ [CHR 0x7B]) source \<or>
              contains_str ''javascript:'' lowered \<or> contains_str ''data:'' lowered \<or>
              contains_str ''http://'' lowered \<or> contains_str ''https://'' lowered \<or>
              unsafe_in None source then None
      else if \<not> directive_ok (dg_kind d) (first_directive lines) then None
      else Some (d\<lparr>dg_mermaid := source\<rparr>))"

section \<open>Reports\<close>

record presentation =
  pn_summary_section_included :: bool
  pn_summary_section_collapsible :: bool
  pn_summary_section_default_open :: bool
  pn_issues_table_section_included :: bool
  pn_issues_table_section_collapsible :: bool
  pn_issues_table_section_default_open :: bool
  pn_confidence_score_section_included :: bool
  pn_confidence_score_section_collapsible :: bool
  pn_confidence_score_section_default_open :: bool
  pn_footer_included :: bool
  pn_update_description :: bool
  pn_summary_comment_enabled :: bool
  pn_fix_with_agent_enabled :: bool
  pn_diagram_collapsible :: bool
  pn_diagram_default_open :: bool

text \<open>The defaults of \<open>ReviewReport\<close>, used when \<open>review_presentation\<close> gives no keyword.\<close>

definition default_presentation :: presentation where
  "default_presentation =
     \<lparr>pn_summary_section_included = True, pn_summary_section_collapsible = False,
      pn_summary_section_default_open = True, pn_issues_table_section_included = True,
      pn_issues_table_section_collapsible = False, pn_issues_table_section_default_open = True,
      pn_confidence_score_section_included = True, pn_confidence_score_section_collapsible = False,
      pn_confidence_score_section_default_open = True, pn_footer_included = True,
      pn_update_description = False, pn_summary_comment_enabled = True,
      pn_fix_with_agent_enabled = False, pn_diagram_collapsible = True,
      pn_diagram_default_open = True\<rparr>"

record review_report =
  rt_summary :: string
  rt_risk_score :: real
  rt_confidence_score :: int
  rt_diagram :: "review_diagram option"
  rt_presentation :: presentation
  rt_findings :: "review_finding list"
  rt_diff_file_count :: int
  rt_reviewed_file_count :: int
  rt_ignored_file_count :: int
  rt_inline_comments_enabled :: bool
  rt_publication_enabled :: bool
  rt_skip_reason :: "string option"
  rt_context_chunk_count :: int
  rt_prompt_tokens :: int
  rt_completion_tokens :: int
  rt_verifier_prompt_tokens :: "int option"
  rt_verifier_completion_tokens :: "int option"
  rt_cache_read_tokens :: int
  rt_cache_write_tokens :: int

definition is_skip_reason :: "string \<Rightarrow> bool" where
  "is_skip_reason s \<longleftrightarrow>
     text_between 1 64 s \<and> list_all (\<lambda>c. is_lower_alpha c \<or> is_digit c \<or> c = CHR ''_'') s"

definition reports_verifier_usage :: "review_report \<Rightarrow> bool" where
  "reports_verifier_usage r \<longleftrightarrow>
     rt_verifier_prompt_tokens r \<noteq> None \<and> rt_verifier_completion_tokens r \<noteq> None"

definition tokens_or_zero :: "int option \<Rightarrow> int" where
  "tokens_or_zero m = (case m of None \<Rightarrow> 0 | Some n \<Rightarrow> n)"

definition accept_report :: "review_report \<Rightarrow> bool" where
  "accept_report r \<longleftrightarrow>
     text_between 1 4000 (rt_summary r) \<and> 0 \<le> rt_risk_score r \<and> rt_risk_score r \<le> 10 \<and>
     0 \<le> rt_confidence_score r \<and> rt_confidence_score r \<le> 5 \<and> length (rt_findings r) \<le> 50 \<and>
     0 \<le> rt_diff_file_count r \<and> 0 \<le> rt_reviewed_file_count r \<and> 0 \<le> rt_ignored_file_count r \<and>
     (case rt_skip_reason r of None \<Rightarrow> True | Some s \<Rightarrow> is_skip_reason s) \<and>
     0 \<le> rt_context_chunk_count r \<and> 0 \<le> rt_prompt_tokens r \<and> 0 \<le> rt_completion_tokens r \<and>
     (case rt_verifier_prompt_tokens r of None \<Rightarrow> True | Some n \<Rightarrow> 0 \<le> n) \<and>
     (case rt_verifier_completion_tokens r of None \<Rightarrow> True | Some n \<Rightarrow> 0 \<le> n) \<and>
     0 \<le> rt_cache_read_tokens r \<and> 0 \<le> rt_cache_write_tokens r \<and>
     ((rt_verifier_prompt_tokens r = None) = (rt_verifier_completion_tokens r = None)) \<and>
     tokens_or_zero (rt_verifier_prompt_tokens r) \<le> rt_prompt_tokens r \<and>
     tokens_or_zero (rt_verifier_completion_tokens r) \<le> rt_completion_tokens r"

end
