(* ===== verification/Findings.thy ===== *)
theory Findings
  imports Policy Review_Models Diff
begin

text \<open>
  Assembling a report from the candidates and the verifier's decisions
  (\<open>review/report_assembly.py\<close>, \<open>_report_from_runner\<close> of \<open>review/agent_client.py\<close>).  The gates of a
  finding are the policy's when there is one; \<open>env\<close> is the float \<open>MIN_REVIEW_CONFIDENCE\<close> reads as
  (\<open>None\<close> when it reads as none), the threshold without a policy.
\<close>

datatype findings_error = Confidence_env_invalid | Validation_error | Score_inputs_invalid

section \<open>Constants\<close>

fun severity_rank :: "severity \<Rightarrow> nat" where
  "severity_rank Critical = 0"
| "severity_rank High = 1"
| "severity_rank Medium = 2"
| "severity_rank Low = 3"

fun severity_risk_floor :: "severity \<Rightarrow> real" where
  "severity_risk_floor Critical = 9"
| "severity_risk_floor High = 7"
| "severity_risk_floor Medium = 4"
| "severity_risk_floor Low = 2"

definition MAX_PUBLISHED_FINDINGS :: nat where
  "MAX_PUBLISHED_FINDINGS = 25"

section \<open>The gates\<close>

definition reviewable_diff :: "diff_file list \<Rightarrow> review_policy option \<Rightarrow> diff_file list \<times> nat" where
  "reviewable_diff files policy =
     (case policy of
        None \<Rightarrow> (files, 0)
      | Some p \<Rightarrow>
          (let selected = filter (\<lambda>f. case comment_path f of None \<Rightarrow> False
                                        | Some path \<Rightarrow> path \<noteq> [] \<and> allows_path p path) files
           in (selected, length files - length selected)))"

definition minimum_review_confidence :: "real option \<Rightarrow> findings_error + real" where
  "minimum_review_confidence env =
     (case env of
        None \<Rightarrow> Inl Confidence_env_invalid
      | Some v \<Rightarrow> if 0 \<le> v \<and> v \<le> 1 then Inr v else Inl Confidence_env_invalid)"

definition gate_allows :: "review_policy option \<Rightarrow> string \<Rightarrow> bool" where
  "gate_allows policy path = (case policy of None \<Rightarrow> True | Some p \<Rightarrow> allows_path p path)"

definition gate_prevents :: "review_policy option \<Rightarrow> string \<Rightarrow> bool" where
  "gate_prevents policy path =
     (case policy of None \<Rightarrow> False | Some p \<Rightarrow> allows_preventative_security p path)"

definition gate_severity :: "review_policy option \<Rightarrow> string \<Rightarrow> severity \<Rightarrow> bool" where
  "gate_severity policy path s =
     (case policy of None \<Rightarrow> True | Some p \<Rightarrow> allows_severity p path (severity_text s))"

definition gate_threshold ::
    "review_policy option \<Rightarrow> real option \<Rightarrow> candidate_finding \<Rightarrow> findings_error + real" where
  "gate_threshold policy env c =
     (case policy of
        None \<Rightarrow> minimum_review_confidence env
      | Some p \<Rightarrow>
          Inr (if cd_classification c = Some Preventative
               then preventative_security_threshold_for p (cd_file_path c)
               else threshold_for p (cd_file_path c)))"

section \<open>Candidates\<close>

definition candidate_id :: "nat \<Rightarrow> string" where
  "candidate_id i = ''candidate-'' @ str_of_nat i"

definition normalize_security_candidate ::
    "review_policy option \<Rightarrow> candidate_finding \<Rightarrow> candidate_finding option" where
  "normalize_security_candidate policy c =
     (if cd_category c \<noteq> Cat_security then (if cd_classification c = None then Some c else None)
      else
        (let c' = (if cd_classification c = None then c\<lparr>cd_classification := Some Vulnerability\<rparr> else c)
         in if cd_classification c' = Some Preventative \<and>
               (\<not> gate_prevents policy (cd_file_path c) \<or> cd_severity c \<in> {Critical, High})
            then None else Some c'))"

type_synonym candidate_key = "string \<times> string \<times> nat \<times> string \<times> string"

definition candidate_key :: "candidate_finding \<Rightarrow> candidate_key" where
  "candidate_key c =
     (cd_file_path c, side_text (cd_side c), cd_line c, category_text (cd_category c),
      (case cd_classification c of None \<Rightarrow> [] | Some k \<Rightarrow> classification_text k))"

definition publishable_candidate ::
    "diff_file list \<Rightarrow> review_policy option \<Rightarrow> candidate_finding \<Rightarrow> candidate_finding option" where
  "publishable_candidate files policy raw =
     (case normalize_security_candidate policy raw of
        None \<Rightarrow> None
      | Some c \<Rightarrow>
          if \<not> gate_allows policy (cd_file_path c) then None
          else if \<not> is_commentable files (cd_file_path c) (side_text (cd_side c)) (cd_line c) then None
          else Some c)"

type_synonym selection = "(candidate_key \<times> nat \<times> candidate_finding) list"

text \<open>\<open>selected[key] = (raw_id, candidate)\<close> with the raw id's index.\<close>

definition select_candidate ::
    "diff_file list \<Rightarrow> review_policy option \<Rightarrow> nat \<times> candidate_finding \<Rightarrow> selection \<Rightarrow> selection" where
  "select_candidate files policy entry selected =
     (case publishable_candidate files policy (snd entry) of
        None \<Rightarrow> selected
      | Some c \<Rightarrow>
          (case map_of selected (candidate_key c) of
             None \<Rightarrow> AList.update (candidate_key c) (fst entry, c) selected
           | Some (_, existing) \<Rightarrow>
               if cd_confidence c > cd_confidence existing
               then AList.update (candidate_key c) (fst entry, c) selected else selected))"

definition candidate_order :: "candidate_finding \<Rightarrow> nat \<times> real \<times> string \<times> nat" where
  "candidate_order c =
     (severity_rank (cd_severity c), - cd_confidence c, cd_file_path c, cd_line c)"

definition selected_candidates ::
    "candidate_finding list \<Rightarrow> diff_file list \<Rightarrow> review_policy option \<Rightarrow> (nat \<times> candidate_finding) list" where
  "selected_candidates candidates files policy =
     take 80 (sort_key (\<lambda>e. candidate_order (snd e))
       (map snd (fold (select_candidate files policy) (enumerate 0 candidates) [])))"

definition deduplicate_candidates_with_ids ::
    "candidate_finding list \<Rightarrow> diff_file list \<Rightarrow> review_policy option \<Rightarrow>
     candidate_finding list \<times> (string \<times> string) list" where
  "deduplicate_candidates_with_ids candidates files policy =
     (let ordered = selected_candidates candidates files policy in
      (map snd ordered,
       map (\<lambda>(i, e). (candidate_id (fst e), candidate_id i)) (enumerate 0 ordered)))"

definition deduplicate_candidates ::
    "candidate_finding list \<Rightarrow> diff_file list \<Rightarrow> review_policy option \<Rightarrow> candidate_finding list" where
  "deduplicate_candidates candidates files policy =
     fst (deduplicate_candidates_with_ids candidates files policy)"

section \<open>Verified findings\<close>

definition nul :: string where
  "nul = [CHR 0x00]"

definition finding_identity :: "candidate_finding \<Rightarrow> string \<Rightarrow> string" where
  "finding_identity c title =
     join nul [cd_file_path c, side_text (cd_side c), str_of_nat (cd_line c),
               category_text (cd_category c),
               (case cd_classification c of None \<Rightarrow> ''none'' | Some k \<Rightarrow> classification_text k),
               casefold title]"

definition finding_fingerprint :: "(string \<Rightarrow> string) \<Rightarrow> candidate_finding \<Rightarrow> string \<Rightarrow> string" where
  "finding_fingerprint sha256 c title = sha256 (finding_identity c title)"

text \<open>Python's \<open>a or b\<close> on an optional text: the empty text counts as none.\<close>

definition text_or :: "string option \<Rightarrow> string \<Rightarrow> string" where
  "text_or m s = (case m of None \<Rightarrow> s | Some t \<Rightarrow> if t = [] then s else t)"

definition revised_severity :: "candidate_finding \<Rightarrow> verification_decision \<Rightarrow> severity" where
  "revised_severity c d = (case vd_revised_severity d of None \<Rightarrow> cd_severity c | Some s \<Rightarrow> s)"

definition make_finding ::
    "(string \<Rightarrow> string) \<Rightarrow> candidate_finding \<Rightarrow> verification_decision \<Rightarrow> review_finding" where
  "make_finding sha256 c d =
     (let title = text_or (vd_revised_title d) (cd_title c) in
      \<lparr>rf_fingerprint = finding_fingerprint sha256 c title, rf_title = title,
       rf_body = text_or (vd_revised_body d) (cd_body c),
       rf_severity = revised_severity c d, rf_category = cd_category c,
       rf_classification = cd_classification c,
       rf_confidence = min (cd_confidence c) (vd_confidence d),
       rf_file_path = cd_file_path c, rf_line = cd_line c, rf_side = cd_side c,
       rf_evidence = cd_evidence c,
       rf_suggested_fix =
         (case vd_revised_suggested_fix d of None \<Rightarrow> cd_suggested_fix c | Some f \<Rightarrow> Some f)\<rparr>)"

text \<open>The loop body up to the construction: the decision a candidate is published under.\<close>

definition published_decision ::
    "review_policy option \<Rightarrow> (string \<times> verification_decision) list \<Rightarrow> string set \<Rightarrow> real \<Rightarrow>
     nat \<Rightarrow> candidate_finding \<Rightarrow> verification_decision option" where
  "published_decision policy decisions duplicates threshold i c =
     (case map_of decisions (candidate_id i) of
        None \<Rightarrow> None
      | Some d \<Rightarrow>
          if candidate_id i \<in> duplicates \<or> \<not> vd_keep d \<or>
             min (cd_confidence c) (vd_confidence d) < threshold then None
          else if cd_classification c = Some Preventative \<and>
                  revised_severity c d \<in> {Critical, High} then None
          else if \<not> gate_severity policy (cd_file_path c) (revised_severity c d) then None
          else Some d)"

fun verify_loop ::
    "(string \<Rightarrow> string) \<Rightarrow> real option \<Rightarrow> review_policy option \<Rightarrow>
     (string \<times> verification_decision) list \<Rightarrow> string set \<Rightarrow> nat \<Rightarrow> review_finding list \<Rightarrow>
     candidate_finding list \<Rightarrow> findings_error + review_finding list" where
  "verify_loop sha256 env policy decisions duplicates i findings [] = Inr findings"
| "verify_loop sha256 env policy decisions duplicates i findings (c # cs) =
     bind_result (gate_threshold policy env c) (\<lambda>threshold.
       case published_decision policy decisions duplicates threshold i c of
         None \<Rightarrow> verify_loop sha256 env policy decisions duplicates (Suc i) findings cs
       | Some d \<Rightarrow>
           (case accept_finding (make_finding sha256 c d) of
              None \<Rightarrow> Inl Validation_error
            | Some f \<Rightarrow>
                if length findings + 1 = MAX_PUBLISHED_FINDINGS then Inr (findings @ [f])
                else verify_loop sha256 env policy decisions duplicates (Suc i) (findings @ [f]) cs))"

definition finding_order :: "review_finding \<Rightarrow> nat \<times> real \<times> string \<times> nat" where
  "finding_order f =
     (severity_rank (rf_severity f), - rf_confidence f, rf_file_path f, rf_line f)"

definition verified_findings ::
    "(string \<Rightarrow> string) \<Rightarrow> real option \<Rightarrow> candidate_finding list \<Rightarrow>
     (string \<times> verification_decision) list \<Rightarrow> string set \<Rightarrow> review_policy option \<Rightarrow>
     findings_error + review_finding list" where
  "verified_findings sha256 env candidates decisions duplicates policy =
     map_sum id (sort_key finding_order)
       (verify_loop sha256 env policy decisions duplicates 0 [] candidates)"

section \<open>Scores\<close>

definition risk_floor :: "review_finding list \<Rightarrow> real" where
  "risk_floor findings = foldr max (map (\<lambda>f. severity_risk_floor (rf_severity f)) findings) 0"

definition diagram_would_help :: "diff_file list \<Rightarrow> bool" where
  "diagram_would_help files \<longleftrightarrow>
     (let changed = sum_list (map (\<lambda>f. length (filter (\<lambda>e. de_marker e \<in> {CHR ''+'', CHR ''-''})
                                            (df_entries f))) files) in
      40 \<le> changed \<or> (2 \<le> length files \<and> 12 \<le> changed))"

definition score_of_risk :: "real \<Rightarrow> int" where
  "score_of_risk risk =
     (if risk = 0 then 5 else if risk \<le> 5 / 2 then 4 else if risk \<le> 5 then 3
      else if risk \<le> 15 / 2 then 2 else if risk < 10 then 1 else 0)"

definition cap_for_count :: "int \<Rightarrow> int \<Rightarrow> int" where
  "cap_for_count findings score =
     (if 10 \<le> findings then min score 1 else if 6 \<le> findings then min score 2
      else if 3 \<le> findings then min score 3 else score)"

definition review_confidence_score ::
    "real \<Rightarrow> int \<Rightarrow> int \<Rightarrow> int \<Rightarrow> int \<Rightarrow> findings_error + int" where
  "review_confidence_score risk findings diff_files reviewed ignored =
     (if \<not> (0 \<le> risk \<and> risk \<le> 10) then Inl Score_inputs_invalid
      else if min findings (min diff_files (min reviewed ignored)) < 0 then Inl Score_inputs_invalid
      else
        (let s1 = cap_for_count findings (score_of_risk risk);
             s2 = (if diff_files \<noteq> 0 \<and> reviewed + ignored < diff_files then min s1 2 else s1);
             s3 = (if ignored \<noteq> 0 then min s2 4 else s2)
         in Inr (if diff_files \<noteq> 0 \<and> reviewed = 0 then 0 else s3)))"

section \<open>The report\<close>

definition review_presentation :: "review_policy option \<Rightarrow> presentation" where
  "review_presentation policy =
     (case policy of
        None \<Rightarrow> default_presentation
      | Some p \<Rightarrow>
          (let summary = policy_summary_section p; issues = policy_issues_table_section p;
               confidence = policy_confidence_score_section p in
           \<lparr>pn_summary_section_included = os_included summary,
            pn_summary_section_collapsible = os_collapsible summary,
            pn_summary_section_default_open = os_default_open summary,
            pn_issues_table_section_included = os_included issues,
            pn_issues_table_section_collapsible = os_collapsible issues,
            pn_issues_table_section_default_open = os_default_open issues,
            pn_confidence_score_section_included = os_included confidence,
            pn_confidence_score_section_collapsible = os_collapsible confidence,
            pn_confidence_score_section_default_open = os_default_open confidence,
            pn_footer_included = policy_footer_included p,
            pn_update_description = policy_update_description p,
            pn_summary_comment_enabled = summary_comment_enabled p,
            pn_fix_with_agent_enabled = False,
            pn_diagram_collapsible = policy_diagram_collapsible p,
            pn_diagram_default_open = policy_diagram_default_open p\<rparr>))"

definition validated_report :: "review_report \<Rightarrow> findings_error + review_report" where
  "validated_report r = (if accept_report r then Inr r else Inl Validation_error)"

definition all_files_disabled_report ::
    "int \<Rightarrow> int \<Rightarrow> review_policy option \<Rightarrow> findings_error + review_report" where
  "all_files_disabled_report diff_files ignored policy =
     validated_report
       \<lparr>rt_summary = ''Review disabled by repository policy for all changed files.'',
        rt_risk_score = 0, rt_confidence_score = 0, rt_diagram = None,
        rt_presentation = review_presentation policy, rt_findings = [],
        rt_diff_file_count = diff_files, rt_reviewed_file_count = 0,
        rt_ignored_file_count = ignored, rt_inline_comments_enabled = False,
        rt_publication_enabled = False, rt_skip_reason = Some ''all_files_disabled'',
        rt_context_chunk_count = 0, rt_prompt_tokens = 0, rt_completion_tokens = 0,
        rt_verifier_prompt_tokens = Some 0, rt_verifier_completion_tokens = Some 0,
        rt_cache_read_tokens = 0, rt_cache_write_tokens = 0\<rparr>"

text \<open>What the two runners returned, decoded: the findings of the candidate stage and the summary,
  risk, decisions and token usage of the verifier.\<close>

record runner_payloads =
  ry_candidates :: "candidate_finding list"
  ry_prompt_tokens :: int
  ry_completion_tokens :: int
  ry_summary :: string
  ry_risk_score :: real
  ry_decisions :: "verification_decision list"
  ry_verifier_prompt_tokens :: int
  ry_verifier_completion_tokens :: int

definition filtered_decisions ::
    "(string \<times> string) list \<Rightarrow> verification_decision list \<Rightarrow> (string \<times> verification_decision) list" where
  "filtered_decisions ids decisions =
     fold (\<lambda>d ds. case map_of ids (vd_candidate_id d) of
                    None \<Rightarrow> ds
                  | Some i \<Rightarrow> AList.update i (d\<lparr>vd_candidate_id := i\<rparr>) ds) decisions []"

definition report_from_runner ::
    "(string \<Rightarrow> string) \<Rightarrow> real option \<Rightarrow> runner_payloads \<Rightarrow> string \<Rightarrow> review_policy option \<Rightarrow>
     findings_error + review_report" where
  "report_from_runner sha256 env payloads diff_text policy =
     (let files = parse_unified_diff diff_text;
          (selected, ignored) = reviewable_diff files policy in
      if files \<noteq> [] \<and> selected = []
      then all_files_disabled_report (int (length files)) (int ignored) policy
      else
        (case accept_all accept_candidate (ry_candidates payloads) of
           None \<Rightarrow> Inl Validation_error
         | Some raw \<Rightarrow>
             (let (candidates, ids) = deduplicate_candidates_with_ids raw selected policy in
              if \<not> list_all accept_decision (ry_decisions payloads) then Inl Validation_error
              else
                bind_result
                  (verified_findings sha256 env candidates
                     (filtered_decisions ids (ry_decisions payloads)) {} policy) (\<lambda>findings.
                let risk = (if findings \<noteq> []
                            then min 10 (max (ry_risk_score payloads) (risk_floor findings)) else 0) in
                bind_result
                  (review_confidence_score risk (int (length findings)) (int (length files))
                     (int (length selected)) (int ignored)) (\<lambda>score.
                  validated_report
                    \<lparr>rt_summary = ry_summary payloads, rt_risk_score = risk,
                     rt_confidence_score = score, rt_diagram = None,
                     rt_presentation = review_presentation policy, rt_findings = findings,
                     rt_diff_file_count = int (length files),
                     rt_reviewed_file_count = int (length selected),
                     rt_ignored_file_count = int ignored,
                     rt_inline_comments_enabled =
                       (case policy of None \<Rightarrow> True | Some p \<Rightarrow> \<not> policy_summary_only p),
                     rt_publication_enabled = True, rt_skip_reason = None,
                     rt_context_chunk_count = 0,
                     rt_prompt_tokens = ry_prompt_tokens payloads + ry_verifier_prompt_tokens payloads,
                     rt_completion_tokens =
                       ry_completion_tokens payloads + ry_verifier_completion_tokens payloads,
                     rt_verifier_prompt_tokens = Some (ry_verifier_prompt_tokens payloads),
                     rt_verifier_completion_tokens = Some (ry_verifier_completion_tokens payloads),
                     rt_cache_read_tokens = 0, rt_cache_write_tokens = 0\<rparr>)))))"

end
