(* ===== verification/Publication.thy ===== *)
theory Publication
  imports Findings Diff_Props
begin

text \<open>
  What a publishable finding has passed: the gates as an interface of their own, de-duplication, and
  the loop over the verified candidates.
\<close>

section \<open>The gates as an interface\<close>

locale publication_gates =
  fixes allows :: "string \<Rightarrow> bool"
    and prevents :: "string \<Rightarrow> bool"
    and speaks :: "string \<Rightarrow> severity \<Rightarrow> bool"
    and threshold :: "string \<Rightarrow> real"
    and preventative_threshold :: "string \<Rightarrow> real"
  assumes prevents_allowed: "prevents path \<Longrightarrow> allows path"
    and speaks_up: "speaks path s \<Longrightarrow> severity_rank s' \<le> severity_rank s \<Longrightarrow> speaks path s'"
    and preventative_harder: "prevents path \<Longrightarrow> threshold path \<le> preventative_threshold path"
begin

lemma preventative_passes_both:
  "prevents path \<Longrightarrow> preventative_threshold path \<le> c \<Longrightarrow> allows path \<and> threshold path \<le> c"
  using prevents_allowed preventative_harder by (auto intro: order.trans)

lemma worst_severity_speaks: "speaks path s \<Longrightarrow> speaks path Critical"
  by (rule speaks_up) simp_all

lemma silent_below: "\<not> speaks path s' \<Longrightarrow> severity_rank s' \<le> severity_rank s \<Longrightarrow> \<not> speaks path s"
  using speaks_up by blast

end

lemma severity_order_text: "severity_order (severity_text s) = Some (severity_rank s)"
  by (cases s) (simp_all add: severity_order_def)

interpretation policy_gates: publication_gates
  "allows_path policy" "allows_preventative_security policy"
  "\<lambda>path s. allows_severity policy path (severity_text s)"
  "threshold_for policy" "preventative_security_threshold_for policy" for policy
proof unfold_locales
  fix path and s s' :: severity
  show "allows_preventative_security policy path \<Longrightarrow> allows_path policy path"
    by (simp add: allows_preventative_security_def allows_path_def split: option.splits)
  show "allows_severity policy path (severity_text s) \<Longrightarrow> severity_rank s' \<le> severity_rank s \<Longrightarrow>
        allows_severity policy path (severity_text s')"
    by (auto simp: allows_severity_def severity_order_text split: option.splits)
  show "allows_preventative_security policy path \<Longrightarrow>
        threshold_for policy path \<le> preventative_security_threshold_for policy path"
    by (auto simp: allows_preventative_security_def threshold_for_def
        preventative_security_threshold_for_def split: option.splits)
qed

section \<open>De-duplication\<close>

definition selection_ok ::
    "diff_file list \<Rightarrow> review_policy option \<Rightarrow> (nat \<times> candidate_finding) list \<Rightarrow> selection \<Rightarrow> bool" where
  "selection_ok files policy seen selected \<longleftrightarrow>
     distinct (map fst selected) \<and>
     (\<forall>(k, i, c) \<in> set selected. k = candidate_key c \<and>
        (\<exists>raw. (i, raw) \<in> set seen \<and> publishable_candidate files policy raw = Some c)) \<and>
     (\<forall>(i, raw) \<in> set seen. \<forall>c. publishable_candidate files policy raw = Some c \<longrightarrow>
        (\<exists>j d. (candidate_key c, j, d) \<in> set selected \<and> cd_confidence c \<le> cd_confidence d))"

lemma selection_okI:
  assumes "distinct (map fst selected)"
    and "\<And>k i c. (k, i, c) \<in> set selected \<Longrightarrow> k = candidate_key c \<and>
        (\<exists>raw. (i, raw) \<in> set seen \<and> publishable_candidate files policy raw = Some c)"
    and "\<And>i raw c. (i, raw) \<in> set seen \<Longrightarrow> publishable_candidate files policy raw = Some c \<Longrightarrow>
        \<exists>j d. (candidate_key c, j, d) \<in> set selected \<and> cd_confidence c \<le> cd_confidence d"
  shows "selection_ok files policy seen selected"
  using assms unfolding selection_ok_def by blast

lemma selection_okD:
  assumes "selection_ok files policy seen selected"
  shows "distinct (map fst selected)"
    and "(k, i, c) \<in> set selected \<Longrightarrow> k = candidate_key c"
    and "(k, i, c) \<in> set selected \<Longrightarrow>
        \<exists>raw. (i, raw) \<in> set seen \<and> publishable_candidate files policy raw = Some c"
    and "(i, raw) \<in> set seen \<Longrightarrow> publishable_candidate files policy raw = Some c \<Longrightarrow>
        \<exists>j d. (candidate_key c, j, d) \<in> set selected \<and> cd_confidence c \<le> cd_confidence d"
  using assms unfolding selection_ok_def by blast+

lemma in_update_iff:
  "distinct (map fst al) \<Longrightarrow>
   (k, v) \<in> set (AList.update k' v' al) \<longleftrightarrow> (k = k' \<and> v = v') \<or> (k \<noteq> k' \<and> (k, v) \<in> set al)"
proof -
  assume d: "distinct (map fst al)"
  note u = distinct_update[OF d, of k' v']
  show ?thesis
    unfolding map_of_eq_Some_iff[OF u, symmetric] map_of_eq_Some_iff[OF d, symmetric] by auto
qed

lemma select_replace_ok:
  assumes ok: "selection_ok files policy seen selected"
    and p: "publishable_candidate files policy raw = Some c"
    and better: "\<And>j d. (candidate_key c, j, d) \<in> set selected \<Longrightarrow> cd_confidence d \<le> cd_confidence c"
  shows "selection_ok files policy (seen @ [(i, raw)]) (AList.update (candidate_key c) (i, c) selected)"
proof (rule selection_okI)
  note d = selection_okD(1)[OF ok]
  show "distinct (map fst (AList.update (candidate_key c) (i, c) selected))"
    using d by (rule distinct_update)
  fix k j e
  assume "(k, j, e) \<in> set (AList.update (candidate_key c) (i, c) selected)"
  then consider "k = candidate_key c" "j = i" "e = c" | "(k, j, e) \<in> set selected"
    unfolding in_update_iff[OF d] by blast
  then show "k = candidate_key e \<and>
      (\<exists>r. (j, r) \<in> set (seen @ [(i, raw)]) \<and> publishable_candidate files policy r = Some e)"
  proof cases
    case 1
    then show ?thesis using p by auto
  next
    case 2
    then show ?thesis using selection_okD(2,3)[OF ok 2] by auto
  qed
next
  note d = selection_okD(1)[OF ok]
  fix j r e
  assume m: "(j, r) \<in> set (seen @ [(i, raw)])" and e: "publishable_candidate files policy r = Some e"
  show "\<exists>j' f. (candidate_key e, j', f) \<in> set (AList.update (candidate_key c) (i, c) selected) \<and>
      cd_confidence e \<le> cd_confidence f"
  proof (cases "(j, r) \<in> set seen")
    case True
    obtain j' f where f: "(candidate_key e, j', f) \<in> set selected" "cd_confidence e \<le> cd_confidence f"
      using selection_okD(4)[OF ok True e] by blast
    show ?thesis
    proof (cases "candidate_key e = candidate_key c")
      case same: True
      then have "cd_confidence e \<le> cd_confidence c" using better[of j' f] f by simp
      then show ?thesis using same unfolding in_update_iff[OF d] by blast
    next
      case False
      then show ?thesis using f unfolding in_update_iff[OF d] by blast
    qed
  next
    case False
    then have "e = c" using m e p by simp
    then show ?thesis unfolding in_update_iff[OF d] by blast
  qed
qed

lemma select_keep_ok:
  assumes ok: "selection_ok files policy seen selected"
    and "\<And>c. publishable_candidate files policy raw = Some c \<Longrightarrow>
      \<exists>j d. (candidate_key c, j, d) \<in> set selected \<and> cd_confidence c \<le> cd_confidence d"
  shows "selection_ok files policy (seen @ [(i, raw)]) selected"
proof (rule selection_okI)
  show "distinct (map fst selected)" using ok by (rule selection_okD(1))
  show "k = candidate_key c \<and> (\<exists>r. (j, r) \<in> set (seen @ [(i, raw)]) \<and>
      publishable_candidate files policy r = Some c)" if "(k, j, c) \<in> set selected" for k j c
    using selection_okD(2,3)[OF ok that] by auto
  show "\<exists>j' d. (candidate_key c, j', d) \<in> set selected \<and> cd_confidence c \<le> cd_confidence d"
    if "(j, r) \<in> set (seen @ [(i, raw)])" "publishable_candidate files policy r = Some c" for j r c
    using that selection_okD(4)[OF ok, of j r c] assms(2)[of c] by auto
qed

lemma select_candidate_ok:
  assumes ok: "selection_ok files policy seen selected"
  shows "selection_ok files policy (seen @ [(i, raw)]) (select_candidate files policy (i, raw) selected)"
proof (cases "publishable_candidate files policy raw")
  case None
  then show ?thesis using select_keep_ok[OF ok, of raw i] by (simp add: select_candidate_def)
next
  case (Some c)
  show ?thesis
  proof (cases "map_of selected (candidate_key c)")
    case None
    then have "\<And>j d. (candidate_key c, j, d) \<notin> set selected"
      by (metis fst_conv image_eqI map_of_eq_None_iff)
    then show ?thesis using select_replace_ok[OF ok Some] None Some
      by (simp add: select_candidate_def)
  next
    case found: (Some e)
    obtain j d where e: "e = (j, d)" by (cases e)
    have m: "(candidate_key c, j, d) \<in> set selected" using found e by (simp add: map_of_SomeD)
    have only: "(candidate_key c, j', d') \<in> set selected \<Longrightarrow> d' = d" for j' d'
      using map_of_is_SomeI[OF selection_okD(1)[OF ok], of "candidate_key c" "(j', d')"] found e by simp
    show ?thesis
    proof (cases "cd_confidence c > cd_confidence d")
      case True
      then have "select_candidate files policy (i, raw) selected =
          AList.update (candidate_key c) (i, c) selected"
        using found e Some by (simp add: select_candidate_def)
      moreover have "selection_ok files policy (seen @ [(i, raw)])
          (AList.update (candidate_key c) (i, c) selected)"
        by (rule select_replace_ok[OF ok Some]) (use True only in \<open>force dest: only\<close>)
      ultimately show ?thesis by simp
    next
      case False
      then have "select_candidate files policy (i, raw) selected = selected"
        using found e Some by (simp add: select_candidate_def)
      moreover have "selection_ok files policy (seen @ [(i, raw)]) selected"
        by (rule select_keep_ok[OF ok]) (use False m Some in \<open>force simp: not_less\<close>)
      ultimately show ?thesis by simp
    qed
  qed
qed

lemma selection_fold:
  "selection_ok files policy seen selected \<Longrightarrow>
   selection_ok files policy (seen @ es) (fold (select_candidate files policy) es selected)"
proof (induction es arbitrary: seen selected)
  case (Cons e es)
  obtain i raw where e: "e = (i, raw)" by (cases e)
  from Cons.IH[OF select_candidate_ok[OF Cons.prems, of i raw]] show ?case by (simp add: e)
qed simp

lemma selected_ok:
  "selection_ok files policy (enumerate 0 candidates)
     (fold (select_candidate files policy) (enumerate 0 candidates) [])"
  using selection_fold[of files policy "[]" "[]" "enumerate 0 candidates"]
  by (simp add: selection_ok_def)

lemma publishable_gates:
  assumes "publishable_candidate files policy raw = Some c"
  shows "gate_allows policy (cd_file_path c)"
    "is_commentable files (cd_file_path c) (side_text (cd_side c)) (cd_line c)"
    "normalize_security_candidate policy raw = Some c"
  using assms by (auto simp: publishable_candidate_def split: option.splits if_splits)

lemma sorted_take_drop:
  "sorted xs \<Longrightarrow> x \<in> set (take n xs) \<Longrightarrow> y \<in> set (drop n xs) \<Longrightarrow> x \<le> y"
  by (metis append_take_drop_id sorted_append)

lemma selected_entries:
  assumes "(i, c) \<in> set (selected_candidates candidates files policy)"
  shows "i < length candidates" "publishable_candidate files policy (candidates ! i) = Some c"
proof -
  let ?sel = "fold (select_candidate files policy) (enumerate 0 candidates) []"
  have "(i, c) \<in> set (map snd ?sel)"
    using assms in_set_takeD unfolding selected_candidates_def by fastforce
  then obtain k where "(k, i, c) \<in> set ?sel" by auto
  from selection_okD(3)[OF selected_ok this]
  obtain raw where "(i, raw) \<in> set (enumerate 0 candidates)"
    "publishable_candidate files policy raw = Some c" by blast
  then show "i < length candidates" "publishable_candidate files policy (candidates ! i) = Some c"
    by (auto simp: in_set_enumerate_eq)
qed

lemma selected_keys_distinct:
  "distinct (map (\<lambda>e. candidate_key (snd e)) (selected_candidates candidates files policy))"
proof -
  let ?sel = "fold (select_candidate files policy) (enumerate 0 candidates) []"
  have "map (\<lambda>e. candidate_key (snd e)) (map snd ?sel) = map fst ?sel"
    unfolding map_map by (rule map_cong[OF refl]) (use selection_okD(2)[OF selected_ok] in force)
  then have "distinct (map (\<lambda>e. candidate_key (snd e)) (map snd ?sel))"
    using selection_okD(1)[OF selected_ok, of files policy candidates] by (simp only:)
  then have "distinct (map (\<lambda>e. candidate_key (snd e))
      (sort_key (\<lambda>e. candidate_order (snd e)) (map snd ?sel)))"
    unfolding distinct_map set_sort distinct_sort .
  then show ?thesis unfolding selected_candidates_def take_map[symmetric] by (rule distinct_take)
qed

lemma selected_sorted:
  "sorted (map (\<lambda>e. candidate_order (snd e)) (selected_candidates candidates files policy))"
  unfolding selected_candidates_def take_map[symmetric] by (rule sorted_wrt_take) simp

lemma best_is_selected:
  assumes "raw \<in> set candidates" "publishable_candidate files policy raw = Some c"
  defines "kept \<equiv> map snd (selected_candidates candidates files policy)"
  shows "\<exists>d. candidate_key d = candidate_key c \<and> cd_confidence c \<le> cd_confidence d \<and>
    (d \<in> set kept \<or> (length kept = 80 \<and> list_all (\<lambda>k. candidate_order k \<le> candidate_order d) kept))"
proof -
  let ?sel = "fold (select_candidate files policy) (enumerate 0 candidates) []"
  let ?s = "sort_key (\<lambda>e. candidate_order (snd e)) (map snd ?sel)"
  have kept: "kept = map snd (take 80 ?s)" by (simp add: kept_def selected_candidates_def)
  obtain i where "i < length candidates" "candidates ! i = raw"
    using assms(1) unfolding in_set_conv_nth by blast
  then have "(i, raw) \<in> set (enumerate 0 candidates)" by (simp add: in_set_enumerate_eq)
  from selection_okD(4)[OF selected_ok this assms(2)]
  obtain j d where d: "(candidate_key c, j, d) \<in> set ?sel" "cd_confidence c \<le> cd_confidence d" by blast
  have key: "candidate_key d = candidate_key c" using selection_okD(2)[OF selected_ok d(1)] by simp
  have "(j, d) \<in> set ?s" using d(1) by force
  then consider "(j, d) \<in> set (take 80 ?s)" | "(j, d) \<in> set (drop 80 ?s)"
    by (metis append_take_drop_id Un_iff set_append)
  then show ?thesis
  proof cases
    case 1
    then have "d \<in> set kept" unfolding kept by force
    then show ?thesis using key d(2) by blast
  next
    case 2
    then have "drop 80 ?s \<noteq> []" by auto
    then have "length kept = 80" unfolding kept by simp
    moreover have "candidate_order k \<le> candidate_order d" if "k \<in> set kept" for k
    proof (rule sorted_take_drop[of "map (\<lambda>e. candidate_order (snd e)) ?s" _ 80])
      show "sorted (map (\<lambda>e. candidate_order (snd e)) ?s)" by simp
      show "candidate_order k \<in> set (take 80 (map (\<lambda>e. candidate_order (snd e)) ?s))"
        using that unfolding kept by (auto simp: take_map)
      show "candidate_order d \<in> set (drop 80 (map (\<lambda>e. candidate_order (snd e)) ?s))"
        using 2 by (force simp: drop_map)
    qed
    ultimately show ?thesis using key d(2) by (auto simp: list_all_iff)
  qed
qed

lemma ids_point_back:
  fixes candidates files policy
  defines "s \<equiv> selected_candidates candidates files policy"
  shows "list_all (\<lambda>(j, raw_id, new_id). new_id = candidate_id j \<and>
      (\<exists>i. i < length candidates \<and> raw_id = candidate_id i \<and>
         publishable_candidate files policy (candidates ! i) = Some (map snd s ! j)))
      (enumerate 0 (map (\<lambda>(i, e). (candidate_id (fst e), candidate_id i)) (enumerate 0 s)))"
proof -
  have "\<exists>i. i < length candidates \<and> candidate_id (fst (s ! j)) = candidate_id i \<and>
       publishable_candidate files policy (candidates ! i) = Some (map snd s ! j)" if "j < length s" for j
  proof -
    obtain i c where e: "s ! j = (i, c)" by (cases "s ! j")
    then have "(i, c) \<in> set (selected_candidates candidates files policy)"
      using nth_mem[OF that] by (simp add: s_def)
    from selected_entries[OF this] show ?thesis using e that
      by (intro exI[of _ i] conjI) simp_all
  qed
  then show ?thesis by (auto simp: list_all_iff in_set_enumerate_eq nth_enumerate_eq)
qed

text \<open>De-duplication keeps at most 80 candidates, in the order of severity, falling confidence,
  path and line, one for each location and kind; each is a normalised candidate on a changed line of
  an allowed path, and of every publishable candidate one of its location and kind with at least its
  confidence is kept, or comes after 80 that were.  The id map takes the raw id of each kept
  candidate to its position.\<close>

lemma deduplication_keeps_the_best:
  "(let (kept, ids) = deduplicate_candidates_with_ids candidates files policy in
    length kept \<le> 80 \<and> sorted (map candidate_order kept) \<and> distinct (map candidate_key kept) \<and>
    list_all (\<lambda>c. gate_allows policy (cd_file_path c) \<and>
      is_commentable files (cd_file_path c) (side_text (cd_side c)) (cd_line c) \<and>
      list_ex (\<lambda>raw. normalize_security_candidate policy raw = Some c) candidates) kept \<and>
    list_all (\<lambda>raw. case publishable_candidate files policy raw of None \<Rightarrow> True
      | Some c \<Rightarrow> (\<exists>d. candidate_key d = candidate_key c \<and> cd_confidence c \<le> cd_confidence d \<and>
          (d \<in> set kept \<or>
           (length kept = 80 \<and> list_all (\<lambda>k. candidate_order k \<le> candidate_order d) kept))))
      candidates \<and>
    length ids = length kept \<and>
    list_all (\<lambda>(j, raw_id, new_id). new_id = candidate_id j \<and>
      (\<exists>i. i < length candidates \<and> raw_id = candidate_id i \<and>
         publishable_candidate files policy (candidates ! i) = Some (kept ! j))) (enumerate 0 ids))"
proof -
  let ?s = "selected_candidates candidates files policy"
  let ?kept = "map snd ?s"
  have "length ?kept \<le> 80" by (simp add: selected_candidates_def)
  moreover have "sorted (map candidate_order ?kept)" "distinct (map candidate_key ?kept)"
    using selected_sorted selected_keys_distinct by (simp_all add: o_def)
  moreover have "list_all (\<lambda>c. gate_allows policy (cd_file_path c) \<and>
      is_commentable files (cd_file_path c) (side_text (cd_side c)) (cd_line c) \<and>
      list_ex (\<lambda>raw. normalize_security_candidate policy raw = Some c) candidates) ?kept"
    using publishable_gates selected_entries by (fastforce simp: list_all_iff list_ex_iff)
  moreover have "list_all (\<lambda>raw. case publishable_candidate files policy raw of None \<Rightarrow> True
      | Some c \<Rightarrow> (\<exists>d. candidate_key d = candidate_key c \<and> cd_confidence c \<le> cd_confidence d \<and>
          (d \<in> set ?kept \<or>
           (length ?kept = 80 \<and> list_all (\<lambda>k. candidate_order k \<le> candidate_order d) ?kept))))
      candidates"
    using best_is_selected by (simp add: list_all_iff split: option.split)
  ultimately show ?thesis
    using ids_point_back[of candidates files policy]
    unfolding deduplicate_candidates_with_ids_def Let_def prod.case by simp
qed

end
