(* ===== verification/Report_Props.thy ===== *)
theory Report_Props
  imports Publication
begin

text \<open>
  Correctness of the assembled report: what stands behind each of its findings, the identities behind
  their fingerprints, and the scores.
\<close>

section \<open>The loop\<close>

text \<open>Finding \<open>f\<close> is candidate \<open>c\<close> at position \<open>j\<close>, published under a decision.\<close>

definition published_from ::
    "(string \<Rightarrow> string) \<Rightarrow> real option \<Rightarrow> review_policy option \<Rightarrow>
     (string \<times> verification_decision) list \<Rightarrow> string set \<Rightarrow> nat \<Rightarrow> candidate_finding \<Rightarrow>
     review_finding \<Rightarrow> bool" where
  "published_from sha256 env policy decisions duplicates j c f \<longleftrightarrow>
     (\<exists>threshold d. gate_threshold policy env c = Inr threshold \<and>
        published_decision policy decisions duplicates threshold j c = Some d \<and>
        accept_finding (make_finding sha256 c d) = Some f)"

lemma verify_loop_spec:
  assumes "verify_loop sha env policy decs dups i acc cs = Inr fs" "length acc < 25"
  shows "\<exists>js new. fs = acc @ new \<and> length fs \<le> 25 \<and> sorted_wrt (<) js \<and>
    list_all2 (\<lambda>j f. i \<le> j \<and> j < i + length cs \<and>
      published_from sha env policy decs dups j (cs ! (j - i)) f) js new"
  using assms
proof (induction cs arbitrary: i acc)
  case Nil
  then show ?case by (intro exI[of _ "[]"]) simp
next
  case (Cons c cs)
  obtain t where t: "gate_threshold policy env c = Inr t"
    using Cons.prems(1) by (auto simp: bind_result_Inr_iff)
  have shift: "list_all2 (\<lambda>j f. i \<le> j \<and> j < i + length (c # cs) \<and>
      published_from sha env policy decs dups j ((c # cs) ! (j - i)) f) js new"
    if "list_all2 (\<lambda>j f. Suc i \<le> j \<and> j < Suc i + length cs \<and>
      published_from sha env policy decs dups j (cs ! (j - Suc i)) f) js new" for js new
    using that
  proof (rule list_all2_mono)
    fix j f
    assume a: "Suc i \<le> j \<and> j < Suc i + length cs \<and>
      published_from sha env policy decs dups j (cs ! (j - Suc i)) f"
    then have "Suc i \<le> j" by (rule conjunct1)
    then have "j - i = Suc (j - Suc i)" by simp
    then show "i \<le> j \<and> j < i + length (c # cs) \<and>
      published_from sha env policy decs dups j ((c # cs) ! (j - i)) f" using a by simp
  qed
  show ?case
  proof (cases "published_decision policy decs dups t i c")
    case None
    then have "verify_loop sha env policy decs dups (Suc i) acc cs = Inr fs"
      using Cons.prems(1) t by simp
    from Cons.IH[OF this Cons.prems(2)] show ?thesis using shift by blast
  next
    case (Some d)
    then obtain f where f: "accept_finding (make_finding sha c d) = Some f"
      using Cons.prems(1) t by (auto split: option.splits)
    have p: "published_from sha env policy decs dups i c f"
      unfolding published_from_def using t Some f by blast
    show ?thesis
    proof (cases "length acc + 1 = 25")
      case True
      then have "fs = acc @ [f]"
        using Cons.prems(1) t Some f by (simp add: MAX_PUBLISHED_FINDINGS_def)
      then show ?thesis using True p by (intro exI[of _ "[i]"] exI[of _ "[f]"]) simp
    next
      case False
      then have r: "verify_loop sha env policy decs dups (Suc i) (acc @ [f]) cs = Inr fs"
        using Cons.prems(1) t Some f by (simp add: MAX_PUBLISHED_FINDINGS_def)
      have "length (acc @ [f]) < 25" using False Cons.prems(2) by simp
      from Cons.IH[OF r this] obtain js new where n: "fs = (acc @ [f]) @ new" "length fs \<le> 25"
        "sorted_wrt (<) js"
        "list_all2 (\<lambda>j f. Suc i \<le> j \<and> j < Suc i + length cs \<and>
          published_from sha env policy decs dups j (cs ! (j - Suc i)) f) js new" by blast
      have "\<forall>j \<in> set js. i < j" using n(4) by (auto simp: list_all2_conv_all_nth in_set_conv_nth Suc_le_eq)
      then show ?thesis using n shift[OF n(4)] p
        by (intro exI[of _ "i # js"] exI[of _ "f # new"]) simp
    qed
  qed
qed

section \<open>One finding\<close>

lemma accept_finding_fields:
  assumes "accept_finding g = Some f"
  shows "rf_fingerprint f = rf_fingerprint g" "rf_severity f = rf_severity g"
    "rf_confidence f = rf_confidence g" "rf_file_path f = rf_file_path g" "rf_line f = rf_line g"
    "rf_side f = rf_side g" "rf_category f = rf_category g" "rf_title f = rf_title g"
    "rf_body f = rf_body g" "rf_evidence f = rf_evidence g" "rf_suggested_fix f = rf_suggested_fix g"
  using assms by (auto simp: accept_finding_def split: if_splits)

text \<open>A finding with the contents of candidate \<open>c\<close> as decision \<open>d\<close> revises them.\<close>

definition finding_of :: "candidate_finding \<Rightarrow> verification_decision \<Rightarrow> review_finding \<Rightarrow> bool" where
  "finding_of c d f \<longleftrightarrow>
     rf_file_path f = cd_file_path c \<and> rf_line f = cd_line c \<and> rf_side f = cd_side c \<and>
     rf_category f = cd_category c \<and> rf_evidence f = cd_evidence c \<and>
     rf_confidence f = min (cd_confidence c) (vd_confidence d) \<and>
     rf_severity f = (case vd_revised_severity d of None \<Rightarrow> cd_severity c | Some s \<Rightarrow> s) \<and>
     rf_title f = text_or (vd_revised_title d) (cd_title c) \<and>
     rf_body f = text_or (vd_revised_body d) (cd_body c) \<and>
     rf_suggested_fix f =
       (case vd_revised_suggested_fix d of None \<Rightarrow> cd_suggested_fix c | Some x \<Rightarrow> Some x)"

lemma published_finding:
  assumes "published_from sha env policy decs dups j c f"
  obtains d threshold where "map_of decs (candidate_id j) = Some d" "vd_keep d"
    "gate_threshold policy env c = Inr threshold" "threshold \<le> rf_confidence f"
    "gate_severity policy (rf_file_path f) (rf_severity f)" "finding_of c d f"
    "\<not> (cd_classification c = Some Preventative \<and> rf_severity f \<in> {Critical, High})"
proof -
  obtain threshold d where t: "gate_threshold policy env c = Inr threshold"
    and p: "published_decision policy decs dups threshold j c = Some d"
    and a: "accept_finding (make_finding sha c d) = Some f"
    using assms unfolding published_from_def by blast
  have m: "map_of decs (candidate_id j) = Some d" "vd_keep d"
    "threshold \<le> min (cd_confidence c) (vd_confidence d)"
    "gate_severity policy (cd_file_path c) (revised_severity c d)"
    "\<not> (cd_classification c = Some Preventative \<and> revised_severity c d \<in> {Critical, High})"
    using p by (auto simp: published_decision_def split: option.splits if_splits)
  note fields = accept_finding_fields[OF a]
  have "finding_of c d f"
    unfolding finding_of_def fields make_finding_def Let_def by (simp add: revised_severity_def)
  then show thesis
    by (rule that[OF m(1,2) t, rotated 2])
       (use m(3-5) fields in \<open>simp_all add: make_finding_def Let_def\<close>)
qed

lemma finding_identity_inj:
  assumes "finding_identity c s = finding_identity d t"
    and "CHR 0x00 \<notin> set (cd_file_path c)" "CHR 0x00 \<notin> set (cd_file_path d)"
  shows "candidate_key c = candidate_key d"
proof -
  define classification where
    "classification = (\<lambda>c :: candidate_finding. case cd_classification c of None \<Rightarrow> ''none'' | Some k \<Rightarrow> classification_text k)"
  have free: "CHR 0x00 \<notin> set (side_text a)" "CHR 0x00 \<notin> set (str_of_nat n)"
    "CHR 0x00 \<notin> set (category_text b)" "CHR 0x00 \<notin> set (classification e)" for a n b e
  proof -
    show "CHR 0x00 \<notin> set (side_text a)" by (cases a) simp_all
    show "CHR 0x00 \<notin> set (category_text b)" by (cases b) simp_all
    show "CHR 0x00 \<notin> set (classification e)"
      by (cases "cd_classification e"; cases "the (cd_classification e)") (simp_all add: classification_def)
    show "CHR 0x00 \<notin> set (str_of_nat n)"
      using str_of_nat_digits[of n] by (auto simp: is_digit_def code_def)
  qed
  have split: "split_on (CHR 0x00) (finding_identity e u) =
      cd_file_path e # side_text (cd_side e) # str_of_nat (cd_line e) # category_text (cd_category e) #
      classification e # split_on (CHR 0x00) (casefold u)"
    if "CHR 0x00 \<notin> set (cd_file_path e)" for e u
  proof -
    have k: "(case cd_classification e of None \<Rightarrow> ''none'' | Some k \<Rightarrow> classification_text k) =
        classification e" by (simp add: classification_def)
    show ?thesis unfolding finding_identity_def nul_def k using that free
      by (simp add: split_on_append_sep)
  qed
  have "cd_file_path c = cd_file_path d \<and> side_text (cd_side c) = side_text (cd_side d) \<and>
      str_of_nat (cd_line c) = str_of_nat (cd_line d) \<and>
      category_text (cd_category c) = category_text (cd_category d) \<and>
      classification c = classification d"
    using split[OF assms(2), of s] split[OF assms(3), of t] assms(1) by simp
  moreover have "classification c = classification d \<Longrightarrow> cd_classification c = cd_classification d"
    unfolding classification_def
    by (cases "cd_classification c"; cases "cd_classification d"; 
        cases "the (cd_classification c)"; cases "the (cd_classification d)") simp_all
  ultimately show ?thesis by (simp add: candidate_key_def)
qed

section \<open>The report\<close>

lemma reviewable_diff_commentable:
  assumes "reviewable_diff files policy = (selected, ignored)" "gate_allows policy path"
    "is_commentable selected path side line"
  shows "is_commentable files path side line"
proof (cases policy)
  case None
  then show ?thesis using assms by (simp add: reviewable_diff_def)
next
  case (Some p)
  define ok where "ok = (\<lambda>f. case comment_path f of None \<Rightarrow> False
      | Some path \<Rightarrow> path \<noteq> [] \<and> allows_path p path)"
  have sel: "selected = filter ok files"
    using assms(1) Some by (simp add: reviewable_diff_def Let_def ok_def)
  obtain f where f: "parsed_file selected path = Some f" "file_contains f side line"
    using assms(3) by (auto simp: is_commentable_def split: option.splits)
  have "path \<noteq> []"
    using f(1) unfolding sel parsed_file_def by (auto simp: find_Some_iff ok_def dest!: nth_mem)
  then have okp: "ok g" if "comment_path g = Some path" for g
    using assms(2) Some that by (simp add: ok_def gate_allows_def)
  have "List.find (\<lambda>f. comment_path f = Some path) (filter ok files) =
        List.find (\<lambda>f. comment_path f = Some path) files"
    using okp by (induction files) auto
  then show ?thesis using f unfolding sel by (simp add: is_commentable_def parsed_file_def)
qed

text \<open>The dict of decisions holds, under a filtered id, the last decision whose raw id maps there.\<close>

lemma filtered_decisions_last:
  "map_of (filtered_decisions ids ds) i =
     map_option (\<lambda>d. d\<lparr>vd_candidate_id := i\<rparr>)
       (List.find (\<lambda>d. map_of ids (vd_candidate_id d) = Some i) (rev ds))"
proof (induction ds rule: rev_induct)
  case Nil
  show ?case by (simp add: filtered_decisions_def)
next
  case (snoc x xs)
  have "filtered_decisions ids (xs @ [x]) =
      (case map_of ids (vd_candidate_id x) of None \<Rightarrow> filtered_decisions ids xs
       | Some k \<Rightarrow> AList.update k (x\<lparr>vd_candidate_id := k\<rparr>) (filtered_decisions ids xs))"
    unfolding filtered_decisions_def fold_append comp_def fold.simps id_def by (cases "map_of ids (vd_candidate_id x)") simp_all
  then show ?case using snoc.IH by (auto simp: update_conv' split: option.splits)
qed

lemma risk_floor_ge: "f \<in> set fs \<Longrightarrow> severity_risk_floor (rf_severity f) \<le> risk_floor fs"
  unfolding risk_floor_def by (induction fs) auto

lemma severity_risk_floor_le: "severity_risk_floor s \<le> 10"
  by (cases s) simp_all

lemma report_cases:
  assumes "report_from_runner sha env payloads diff policy = Inr report"
  obtains (disabled) "rt_findings report = []" "\<not> rt_publication_enabled report"
      "rt_risk_score report = 0" "accept_report report"
  | (assembled) selected ignored raw candidates ids where
      "reviewable_diff (parse_unified_diff diff) policy = (selected, ignored)"
      "accept_all accept_candidate (ry_candidates payloads) = Some raw"
      "deduplicate_candidates_with_ids raw selected policy = (candidates, ids)"
      "verified_findings sha env candidates
         (filtered_decisions ids (ry_decisions payloads)) {} policy = Inr (rt_findings report)"
      "rt_risk_score report = (if rt_findings report \<noteq> []
         then min 10 (max (ry_risk_score payloads) (risk_floor (rt_findings report))) else 0)"
      "accept_report report"
proof -
  obtain selected ignored where s: "reviewable_diff (parse_unified_diff diff) policy = (selected, ignored)"
    by (cases "reviewable_diff (parse_unified_diff diff) policy")
  show ?thesis
  proof (cases "parse_unified_diff diff \<noteq> [] \<and> selected = []")
    case True
    then have r: "all_files_disabled_report (int (length (parse_unified_diff diff))) (int ignored) policy =
        Inr report" using assms s by (simp add: report_from_runner_def Let_def)
    show ?thesis
      by (rule disabled)
         (use r in \<open>auto simp: all_files_disabled_report_def validated_report_def split: if_splits\<close>)
  next
    case False
    note body = assms[unfolded report_from_runner_def Let_def s prod.case if_not_P[OF False]]
    obtain raw where raw: "accept_all accept_candidate (ry_candidates payloads) = Some raw"
      using body by (auto split: option.splits)
    obtain candidates ids where d: "deduplicate_candidates_with_ids raw selected policy = (candidates, ids)"
      by (cases "deduplicate_candidates_with_ids raw selected policy")
    have dec: "list_all accept_decision (ry_decisions payloads)"
      using body raw d by (auto split: if_splits)
    note body2 = body[unfolded raw option.case d prod.case if_not_P[OF iffD2[OF not_not dec]]]
    obtain findings where f: "verified_findings sha env candidates
         (filtered_decisions ids (ry_decisions payloads)) {} policy = Inr findings"
      using body2 by (auto simp: bind_result_Inr_iff)
    have r: "rt_findings report = findings \<and> accept_report report \<and>
      rt_risk_score report = (if findings \<noteq> []
         then min 10 (max (ry_risk_score payloads) (risk_floor findings)) else 0)"
      using body2 f by (auto simp: bind_result_Inr_iff validated_report_def split: if_splits)
    show ?thesis by (rule assembled[OF s raw d]) (use r f in auto)
  qed
qed

lemma accept_all_member:
  "accept_all f xs = Some ys \<Longrightarrow> y \<in> set ys \<Longrightarrow> \<exists>x \<in> set xs. f x = Some y"
  by (induction xs arbitrary: ys) (auto split: option.splits)

lemma kept_candidate:
  assumes "deduplicate_candidates_with_ids raw selected policy = (candidates, ids)" "c \<in> set candidates"
  shows "\<exists>r \<in> set raw. publishable_candidate selected policy r = Some c"
proof -
  obtain i where "(i, c) \<in> set (selected_candidates raw selected policy)"
    using assms by (auto simp: deduplicate_candidates_with_ids_def Let_def)
  from selected_entries[OF this] show ?thesis by (intro bexI[of _ "raw ! i"]) simp_all
qed

lemma verified_published:
  assumes "verified_findings sha env candidates decs dups policy = Inr fs"
  obtains js new where "fs = sort_key finding_order new" "length new \<le> 25" "sorted_wrt (<) js"
    "list_all2 (\<lambda>j f. j < length candidates \<and>
       published_from sha env policy decs dups j (candidates ! j) f) js new"
proof -
  obtain new where v: "verify_loop sha env policy decs dups 0 [] candidates = Inr new"
    and fs: "fs = sort_key finding_order new"
    using assms unfolding verified_findings_def
    by (cases "verify_loop sha env policy decs dups 0 [] candidates") simp_all
  show ?thesis using verify_loop_spec[OF v] that[OF fs] by auto
qed

lemma published_member:
  assumes "verified_findings sha env candidates decs dups policy = Inr fs" "f \<in> set fs"
  shows "\<exists>j. j < length candidates \<and>
    published_from sha env policy decs dups j (candidates ! j) f"
proof -
  obtain js new where fs: "fs = sort_key finding_order new"
    and l: "list_all2 (\<lambda>j f. j < length candidates \<and>
       published_from sha env policy decs dups j (candidates ! j) f) js new"
    using assms(1) by (rule verified_published)
  obtain n where "n < length new" "new ! n = f"
    using assms(2) unfolding fs set_sort in_set_conv_nth by blast
  then show ?thesis using list_all2_nthD2[OF l, of n] by (intro exI[of _ "js ! n"]) simp
qed

text \<open>The id map takes the raw id of one candidate to the position that candidate was kept at, and no
  other raw id to that position.\<close>

lemma kept_position:
  assumes dd: "deduplicate_candidates_with_ids raw selected policy = (candidates, ids)"
    and j: "j < length candidates"
  shows "\<exists>i < length raw. publishable_candidate selected policy (raw ! i) = Some (candidates ! j) \<and>
    (\<forall>x. map_of ids x = Some (candidate_id j) \<longrightarrow> x = candidate_id i)"
proof -
  let ?s = "selected_candidates raw selected policy"
  have c: "candidates = map snd ?s"
    and ids: "ids = map (\<lambda>(i, e). (candidate_id (fst e), candidate_id i)) (enumerate 0 ?s)"
    using dd by (simp_all add: deduplicate_candidates_with_ids_def Let_def)
  have js: "j < length ?s" using j c by simp
  obtain i k where e: "?s ! j = (i, k)" by (cases "?s ! j")
  then have "(i, k) \<in> set ?s" using nth_mem[OF js] by simp
  note entry = selected_entries[OF this]
  have "x = candidate_id i" if "map_of ids x = Some (candidate_id j)" for x
  proof -
    have "(x, candidate_id j) \<in> set ids" using that by (rule map_of_SomeD)
    then obtain n where "n < length ?s" "x = candidate_id (fst (?s ! n))" "candidate_id j = candidate_id n"
      unfolding ids by (auto simp: in_set_enumerate_eq)
    then show ?thesis using e by (simp add: candidate_id_def)
  qed
  then show ?thesis using entry c js e by (intro exI[of _ i]) simp
qed

lemma accept_all_nth:
  "accept_all f xs = Some ys \<Longrightarrow> length ys = length xs \<and> (\<forall>i < length xs. f (xs ! i) = Some (ys ! i))"
proof (induction xs arbitrary: ys)
  case (Cons x xs)
  then obtain z zs where "f x = Some z" "accept_all f xs = Some zs" "ys = z # zs"
    by (auto split: option.splits)
  then show ?case using Cons.IH[of zs] by (auto simp: less_Suc_eq_0_disj)
qed simp

text \<open>What stands behind a finding of the report: the candidate of some index \<open>i\<close> the first runner
  returned, and the last decision the verifier took on that candidate, named by its id.\<close>

definition finding_backed ::
    "real option \<Rightarrow> review_policy option \<Rightarrow> runner_payloads \<Rightarrow> review_finding \<Rightarrow> bool" where
  "finding_backed env policy payloads f \<longleftrightarrow>
     (\<exists>i raw c d threshold. i < length (ry_candidates payloads) \<and>
        accept_candidate (ry_candidates payloads ! i) = Some raw \<and>
        normalize_security_candidate policy raw = Some c \<and>
        List.find (\<lambda>d. vd_candidate_id d = ''candidate-'' @ str_of_nat i)
          (rev (ry_decisions payloads)) = Some d \<and>
        vd_keep d \<and> finding_of c d f \<and>
        gate_threshold policy env c = Inr threshold \<and> threshold \<le> rf_confidence f \<and>
        \<not> (cd_classification c = Some Preventative \<and> rf_severity f \<in> {Critical, High}))"

lemma find_satisfies: "List.find P xs = Some x \<Longrightarrow> x \<in> set xs \<and> P x"
  by (auto simp: find_Some_iff)

lemma find_weaken:
  assumes "List.find P xs = Some x" "\<And>y. P y \<Longrightarrow> Q y" "\<And>y. Q y \<Longrightarrow> P y"
  shows "List.find Q xs = Some x"
proof -
  have "P = Q" using assms(2,3) by blast
  then show ?thesis using assms(1) by simp
qed

lemma assembled_finding:
  assumes raw: "accept_all accept_candidate (ry_candidates payloads) = Some raw"
    and s: "reviewable_diff files policy = (selected, ignored)"
    and dd: "deduplicate_candidates_with_ids raw selected policy = (candidates, ids)"
    and v: "verified_findings sha env candidates
      (filtered_decisions ids (ry_decisions payloads)) {} policy = Inr fs"
    and f: "f \<in> set fs"
  shows "gate_allows policy (rf_file_path f)"
    "is_commentable files (rf_file_path f) (side_text (rf_side f)) (rf_line f)"
    "gate_severity policy (rf_file_path f) (rf_severity f)"
    "finding_backed env policy payloads f"
proof -
  obtain j where j: "j < length candidates"
    and p: "published_from sha env policy (filtered_decisions ids (ry_decisions payloads)) {} j
      (candidates ! j) f"
    using published_member[OF v f] by blast
  let ?c = "candidates ! j"
  obtain i where i: "i < length raw" "publishable_candidate selected policy (raw ! i) = Some ?c"
    and only: "\<And>x. map_of ids x = Some (candidate_id j) \<Longrightarrow> x = candidate_id i"
    using kept_position[OF dd j] by blast
  note gates = publishable_gates[OF i(2)]
  have k: "i < length (ry_candidates payloads)"
    "accept_candidate (ry_candidates payloads ! i) = Some (raw ! i)"
    using accept_all_nth[OF raw] i(1) by simp_all
  from p obtain d threshold where
    d: "map_of (filtered_decisions ids (ry_decisions payloads)) (candidate_id j) = Some d" "vd_keep d"
    and t: "gate_threshold policy env ?c = Inr threshold" "threshold \<le> rf_confidence f"
    and g: "gate_severity policy (rf_file_path f) (rf_severity f)" and fo: "finding_of ?c d f"
    and np: "\<not> (cd_classification ?c = Some Preventative \<and> rf_severity f \<in> {Critical, High})"
    by (rule published_finding)
  have fields: "rf_file_path f = cd_file_path ?c" "rf_line f = cd_line ?c" "rf_side f = cd_side ?c"
    using fo unfolding finding_of_def by simp_all
  obtain d0 where found: "List.find (\<lambda>d. map_of ids (vd_candidate_id d) = Some (candidate_id j))
      (rev (ry_decisions payloads)) = Some d0" and d0: "d = d0\<lparr>vd_candidate_id := candidate_id j\<rparr>"
    using d(1) unfolding filtered_decisions_last by auto
  have here: "map_of ids (candidate_id i) = Some (candidate_id j)"
    using only[of "vd_candidate_id d0"] find_satisfies[OF found] by simp
  have "List.find (\<lambda>d. vd_candidate_id d = candidate_id i) (rev (ry_decisions payloads)) = Some d0"
  proof (rule find_weaken[OF found])
    fix y :: verification_decision
    show "map_of ids (vd_candidate_id y) = Some (candidate_id j) \<Longrightarrow> vd_candidate_id y = candidate_id i"
      by (rule only)
    show "vd_candidate_id y = candidate_id i \<Longrightarrow> map_of ids (vd_candidate_id y) = Some (candidate_id j)"
      using here by simp
  qed
  note last = this[unfolded candidate_id_def]
  show "gate_allows policy (rf_file_path f)" using gates(1) fields by simp
  then show "is_commentable files (rf_file_path f) (side_text (rf_side f)) (rf_line f)"
    using reviewable_diff_commentable[OF s] gates(2) fields by simp
  show "gate_severity policy (rf_file_path f) (rf_severity f)" by (rule g)
  have "vd_keep d0" "finding_of ?c d0 f" using d(2) fo d0 by (simp_all add: finding_of_def)
  then show "finding_backed env policy payloads f"
    unfolding finding_backed_def using k gates(3) last t np
    by (intro exI[of _ i] exI[of _ "raw ! i"] exI[of _ ?c] exI[of _ d0] exI[of _ threshold]) simp
qed

text \<open>C20: Every report holds at most 25 findings, the most severe and most confident first, and each
  is on a changed line of the diff in a path the policy allows, speaks at that path's severity, is a
  validated candidate that the verifier's last decision on that very candidate kept, with the
  candidate's contents as that decision revises them and both confidences at the path's threshold or
  above (a preventative finding at its own, and never critical or high), and scores no less risk
  than the floor of its severity.\<close>

theorem report_findings_are_backed:
  assumes "report_from_runner sha env payloads diff policy = Inr report"
  shows "length (rt_findings report) \<le> 25 \<and>
    sorted (map finding_order (rt_findings report)) \<and>
    list_all (\<lambda>f. gate_allows policy (rf_file_path f) \<and>
      is_commentable (parse_unified_diff diff) (rf_file_path f) (side_text (rf_side f)) (rf_line f) \<and>
      gate_severity policy (rf_file_path f) (rf_severity f) \<and>
      finding_backed env policy payloads f \<and>
      severity_risk_floor (rf_severity f) \<le> rt_risk_score report) (rt_findings report) \<and>
    accept_report report"
  using assms
proof (cases rule: report_cases)
  case disabled
  then show ?thesis by simp
next
  case (assembled selected ignored raw candidates ids)
  obtain js new where n: "rt_findings report = sort_key finding_order new" "length new \<le> 25"
    using verified_published[OF assembled(4)] by metis
  have "severity_risk_floor (rf_severity f) \<le> rt_risk_score report" if "f \<in> set (rt_findings report)" for f
    using risk_floor_ge[OF that] severity_risk_floor_le[of "rf_severity f"] assembled(5) that
    by (cases "rt_findings report") auto
  then have "list_all (\<lambda>f. gate_allows policy (rf_file_path f) \<and>
      is_commentable (parse_unified_diff diff) (rf_file_path f) (side_text (rf_side f)) (rf_line f) \<and>
      gate_severity policy (rf_file_path f) (rf_severity f) \<and>
      finding_backed env policy payloads f \<and>
      severity_risk_floor (rf_severity f) \<le> rt_risk_score report) (rt_findings report)"
    using assembled_finding[OF assembled(2,1,3,4)] by (simp add: list_all_iff)
  then show ?thesis using n assembled(6) by simp
qed

text \<open>A small review: two changed lines, three candidates, a verifier that keeps two and turns one
  down.\<close>

definition sample_diff :: string where
  "sample_diff = join newline
     [''diff --git a/m.py b/m.py'', ''--- a/m.py'', ''+++ b/m.py'', ''@@ -1,1 +1,2 @@'',
      ''-x'', ''+y'', ''+z'']"

definition sample_candidate :: "nat \<Rightarrow> real \<Rightarrow> severity \<Rightarrow> candidate_finding" where
  "sample_candidate line confidence severity =
     \<lparr>cd_title = ''t'', cd_body = ''b'', cd_severity = severity, cd_category = Cat_correctness,
      cd_classification = None, cd_confidence = confidence, cd_file_path = ''m.py'',
      cd_line = line, cd_side = RIGHT, cd_evidence = ''e'', cd_suggested_fix = None\<rparr>"

definition sample_decision :: "string \<Rightarrow> bool \<Rightarrow> verification_decision" where
  "sample_decision i keep =
     \<lparr>vd_candidate_id = i, vd_keep = keep, vd_confidence = 1, vd_rationale = ''r'',
      vd_revised_title = None, vd_revised_body = None, vd_revised_suggested_fix = None,
      vd_revised_severity = None\<rparr>"

definition sample_payloads :: runner_payloads where
  "sample_payloads =
     \<lparr>ry_candidates = [sample_candidate 1 1 Low, sample_candidate 2 1 High, sample_candidate 9 1 Low],
      ry_prompt_tokens = 5, ry_completion_tokens = 5, ry_summary = ''s'', ry_risk_score = 1,
      ry_decisions = [sample_decision ''candidate-0'' True, sample_decision ''candidate-1'' True],
      ry_verifier_prompt_tokens = 1, ry_verifier_completion_tokens = 1\<rparr>"

definition sample_sha :: "string \<Rightarrow> string" where
  "sample_sha s = replicate 64 (CHR ''a'')"

lemma sample_report:
  "\<exists>report. report_from_runner sample_sha (Some 1) sample_payloads sample_diff None = Inr report \<and>
     map rf_line (rt_findings report) = [2, 1]"
proof -
  have "case report_from_runner sample_sha (Some 1) sample_payloads sample_diff None of
      Inl e \<Rightarrow> False | Inr report \<Rightarrow> map rf_line (rt_findings report) = [2, 1]"
    by code_simp
  then show ?thesis
    by (cases "report_from_runner sample_sha (Some 1) sample_payloads sample_diff None") auto
qed

lemma report_findings_are_backed_witness:
  "\<exists>report f. report_from_runner sample_sha (Some 1) sample_payloads sample_diff None = Inr report \<and>
     f \<in> set (rt_findings report) \<and> finding_backed (Some 1) None sample_payloads f \<and>
     7 \<le> rt_risk_score report"
proof -
  obtain report where r: "report_from_runner sample_sha (Some 1) sample_payloads sample_diff None = Inr report"
    and l: "map rf_line (rt_findings report) = [2, 1]"
    using sample_report by (elim exE conjE)
  obtain f where m: "f \<in> set (rt_findings report)" and line: "rf_line f = 2"
    using l by (cases "rt_findings report") auto
  have f: "finding_backed (Some 1) None sample_payloads f"
    "severity_risk_floor (rf_severity f) \<le> rt_risk_score report"
    using report_findings_are_backed[OF r] m by (simp_all only: list_all_iff)
  obtain i raw c d where b: "i < length (ry_candidates sample_payloads)"
    "accept_candidate (ry_candidates sample_payloads ! i) = Some raw"
    "normalize_security_candidate None raw = Some c"
    "List.find (\<lambda>d. vd_candidate_id d = ''candidate-'' @ str_of_nat i)
       (rev (ry_decisions sample_payloads)) = Some d" and fo: "finding_of c d f"
    using f(1) unfolding finding_backed_def by (elim exE conjE)
  have c: "cd_line c = cd_line (ry_candidates sample_payloads ! i)"
    "cd_severity c = cd_severity (ry_candidates sample_payloads ! i)"
    using b(2,3) by (auto simp: accept_candidate_def normalize_security_candidate_def Let_def split: if_splits)
  have d: "d \<in> set (ry_decisions sample_payloads)" using find_satisfies[OF b(4)] by simp
  have "i = 1" using b(1) c(1) fo line
    by (auto simp: sample_payloads_def sample_candidate_def finding_of_def less_Suc_eq)
  then have "cd_severity c = High" using c(2) by (simp add: sample_payloads_def sample_candidate_def)
  moreover have "rf_severity f = cd_severity c" using d fo
    by (auto simp: sample_payloads_def sample_decision_def finding_of_def)
  ultimately have "7 \<le> rt_risk_score report" using f(2) by simp
  then show ?thesis using r m f(1) by (intro exI[of _ report] exI[of _ f]) simp
qed

section \<open>Fingerprints\<close>

definition identity_of :: "review_finding \<Rightarrow> string" where
  "identity_of f =
     join nul [rf_file_path f, side_text (rf_side f), str_of_nat (rf_line f),
               category_text (rf_category f),
               (case rf_classification f of None \<Rightarrow> ''none'' | Some k \<Rightarrow> classification_text k),
               casefold (rf_title f)]"

lemma normalized_classification:
  assumes "normalize_security_candidate policy raw = Some c"
  shows "(cd_category c = Cat_security) = (cd_classification c \<noteq> None)"
  using assms by (auto simp: normalize_security_candidate_def Let_def split: if_splits)

lemma accept_finding_identity:
  assumes "accept_finding (make_finding sha c d) = Some f"
    "(cd_category c = Cat_security) = (cd_classification c \<noteq> None)"
  shows "identity_of f = finding_identity c (text_or (vd_revised_title d) (cd_title c))"
    "rf_fingerprint f = sha (identity_of f)"
proof -
  let ?t = "text_or (vd_revised_title d) (cd_title c)"
  have "rf_classification f = cd_classification c \<and> rf_title f = ?t"
    using assms by (auto simp: accept_finding_def make_finding_def Let_def classification_for_def
        split: if_splits option.splits)
  then show i: "identity_of f = finding_identity c ?t"
    using accept_finding_fields[OF assms(1)]
    by (simp add: identity_of_def finding_identity_def make_finding_def Let_def)
  show "rf_fingerprint f = sha (identity_of f)"
    using accept_finding_fields(1)[OF assms(1)] unfolding i
    by (simp add: make_finding_def Let_def finding_fingerprint_def)
qed

lemma published_identities:
  assumes l: "list_all2 (\<lambda>j f. j < length candidates \<and>
       published_from sha env policy decs dups j (candidates ! j) f) js new"
    and s: "sorted_wrt (<) js"
    and n: "\<forall>c \<in> set candidates. (cd_category c = Cat_security) = (cd_classification c \<noteq> None)"
    and z: "\<forall>c \<in> set candidates. CHR 0x00 \<notin> set (cd_file_path c)"
    and k: "distinct (map candidate_key candidates)"
  shows "distinct (map identity_of new)" "\<forall>f \<in> set new. rf_fingerprint f = sha (identity_of f)"
proof -
  have at: "js ! i < length candidates \<and> rf_fingerprint (new ! i) = sha (identity_of (new ! i)) \<and>
      (\<exists>t. identity_of (new ! i) = finding_identity (candidates ! (js ! i)) t)" if "i < length new" for i
  proof -
    have "js ! i < length candidates \<and>
        published_from sha env policy decs dups (js ! i) (candidates ! (js ! i)) (new ! i)"
      using list_all2_nthD2[OF l that] .
    then show ?thesis using accept_finding_identity n nth_mem[of "js ! i" candidates]
      unfolding published_from_def by blast
  qed
  then show "\<forall>f \<in> set new. rf_fingerprint f = sha (identity_of f)" by (auto simp: in_set_conv_nth)
  show "distinct (map identity_of new)"
  proof (rule distinct_conv_nth[THEN iffD2], intro allI impI)
    fix a b
    assume ab: "a < length (map identity_of new)" "b < length (map identity_of new)" "a \<noteq> b"
    then have len: "a < length new" "b < length new" "length js = length new"
      using list_all2_lengthD[OF l] by simp_all
    have "js ! a \<noteq> js ! b" using s len ab(3) sorted_wrt_nth_less[OF s]
      by (metis linorder_neqE_nat nless_le)
    then have "candidate_key (candidates ! (js ! a)) \<noteq> candidate_key (candidates ! (js ! b))"
      using k at[OF len(1)] at[OF len(2)] by (simp add: distinct_conv_nth)
    then show "map identity_of new ! a \<noteq> map identity_of new ! b"
      using at[OF len(1)] at[OF len(2)] finding_identity_inj z len nth_mem by (metis nth_map)
  qed
qed

text \<open>No two findings of a report share an identity: the fingerprints by which findings are
  followed across reviews are the hashes of pairwise different texts of path, side, line, category,
  classification and title (paths having no NUL character, which git does not allow).\<close>

lemma findings_have_distinct_identities:
  assumes "report_from_runner sha env payloads diff policy = Inr report"
    and "\<forall>k \<in> set (ry_candidates payloads). CHR 0x00 \<notin> set (cd_file_path k)"
  shows "distinct (map identity_of (rt_findings report)) \<and>
    list_all (\<lambda>f. rf_fingerprint f = sha (identity_of f)) (rt_findings report)"
  using assms(1)
proof (cases rule: report_cases)
  case disabled
  then show ?thesis by simp
next
  case (assembled selected ignored raw candidates ids)
  obtain js new where n: "rt_findings report = sort_key finding_order new" "sorted_wrt (<) js"
    "list_all2 (\<lambda>j f. j < length candidates \<and> published_from sha env policy
       (filtered_decisions ids (ry_decisions payloads)) {} j (candidates ! j) f) js new"
    using assembled(4) by (rule verified_published)
  have cand: "(cd_category c = Cat_security) = (cd_classification c \<noteq> None) \<and>
      CHR 0x00 \<notin> set (cd_file_path c)" if kept: "c \<in> set candidates" for c
  proof -
    obtain r where r: "r \<in> set raw" "normalize_security_candidate policy r = Some c"
      using kept_candidate[OF assembled(3) kept] publishable_gates(3) by blast
    obtain k where k: "k \<in> set (ry_candidates payloads)" "accept_candidate k = Some r"
      using accept_all_member[OF assembled(2) r(1)] by blast
    have "cd_file_path c = cd_file_path k" using k(2) r(2)
      by (auto simp: accept_candidate_def normalize_security_candidate_def Let_def split: if_splits)
    then show ?thesis using normalized_classification[OF r(2)] assms(2) k(1) by simp
  qed
  have "distinct (map candidate_key candidates)"
    using selected_keys_distinct[of raw selected policy] assembled(3)
    by (auto simp: deduplicate_candidates_with_ids_def Let_def o_def)
  then have "distinct (map identity_of new)" "\<forall>f \<in> set new. rf_fingerprint f = sha (identity_of f)"
    using cand by (intro published_identities[OF n(3,2)] ballI; simp)+
  then show ?thesis unfolding n(1) by (simp add: distinct_map list_all_iff)
qed

lemma findings_have_distinct_identities_witness:
  "\<exists>report. report_from_runner sample_sha (Some 1) sample_payloads sample_diff None = Inr report \<and>
     length (rt_findings report) = 2 \<and> distinct (map identity_of (rt_findings report))"
proof -
  obtain report where r: "report_from_runner sample_sha (Some 1) sample_payloads sample_diff None = Inr report"
    and l: "map rf_line (rt_findings report) = [2, 1]"
    using sample_report by (elim exE conjE)
  have "\<forall>k \<in> set (ry_candidates sample_payloads). CHR 0x00 \<notin> set (cd_file_path k)"
    by (simp add: sample_payloads_def sample_candidate_def)
  from findings_have_distinct_identities[OF r this]
  have "distinct (map identity_of (rt_findings report))" by (rule conjunct1)
  moreover have "length (rt_findings report) = 2" using arg_cong[OF l, of length] by simp
  ultimately show ?thesis using r by (intro exI[of _ report] conjI)
qed

section \<open>The readiness score\<close>

lemma score_of_risk_bounds: "0 \<le> score_of_risk r \<and> score_of_risk r \<le> 5"
  by (simp add: score_of_risk_def)

lemma score_of_risk_antimono: "r \<le> r' \<Longrightarrow> 0 \<le> r \<Longrightarrow> score_of_risk r' \<le> score_of_risk r"
  by (auto simp: score_of_risk_def)

lemma cap_for_count_antimono: "n \<le> n' \<Longrightarrow> s' \<le> s \<Longrightarrow> cap_for_count n' s' \<le> cap_for_count n s"
  by (auto simp: cap_for_count_def)

definition adjusted_score :: "int \<Rightarrow> int \<Rightarrow> int \<Rightarrow> int \<Rightarrow> int" where
  "adjusted_score s files reviewed ignored =
     (let s2 = (if files \<noteq> 0 \<and> reviewed + ignored < files then min s 2 else s);
          s3 = (if ignored \<noteq> 0 then min s2 4 else s2)
      in if files \<noteq> 0 \<and> reviewed = 0 then 0 else s3)"

lemma score_adjusted:
  assumes "review_confidence_score risk n files reviewed ignored = Inr score"
  shows "score = adjusted_score (cap_for_count n (score_of_risk risk)) files reviewed ignored"
proof (cases "0 \<le> risk \<and> risk \<le> 10 \<and> 0 \<le> min n (min files (min reviewed ignored))")
  case True
  then have "review_confidence_score risk n files reviewed ignored =
      Inr (adjusted_score (cap_for_count n (score_of_risk risk)) files reviewed ignored)"
    unfolding review_confidence_score_def adjusted_score_def Let_def
    by (simp add: min_less_iff_disj)
  then show ?thesis using assms by (simp only: sum.inject)
next
  case False
  then show ?thesis using assms unfolding review_confidence_score_def by (auto simp only: not_less split: if_splits)
qed

lemma score_inputs:
  assumes "review_confidence_score risk n files reviewed ignored = Inr score"
  shows "0 \<le> risk" "0 \<le> n" "0 \<le> files" "0 \<le> reviewed" "0 \<le> ignored"
proof -
  have "0 \<le> risk \<and> 0 \<le> min n (min files (min reviewed ignored))"
    using assms unfolding review_confidence_score_def not_less[symmetric]
    by (simp only: not_le not_less sum.distinct simp_thms split: if_splits)
  then show "0 \<le> risk" "0 \<le> n" "0 \<le> files" "0 \<le> reviewed" "0 \<le> ignored" by simp_all
qed

lemma adjusted_antimono:
  assumes "s' \<le> s" "0 \<le> s" "0 \<le> reviewed'" "reviewed' \<le> reviewed" "0 \<le> ignored" "ignored \<le> ignored'"
    "reviewed' + ignored' \<le> reviewed + ignored"
  shows "adjusted_score s' files reviewed' ignored' \<le> adjusted_score s files reviewed ignored"
  using assms by (auto simp: adjusted_score_def Let_def min_le_iff_disj)

lemma adjusted_bounds:
  assumes "0 \<le> s" "s \<le> 5" "0 \<le> files" "0 \<le> reviewed" "0 \<le> ignored"
  shows "0 \<le> adjusted_score s files reviewed ignored" "adjusted_score s files reviewed ignored \<le> s"
    "adjusted_score s files reviewed ignored = 5 \<Longrightarrow> ignored = 0 \<and> files \<le> reviewed"
  using assms by (auto simp: adjusted_score_def Let_def split: if_splits)

text \<open>The readiness score is between 0 and 5, never rises when the risk, the number of findings
  or the number of files left out grows, and is 5 only for a review without risk, with fewer than
  three findings, that looked at every changed file.\<close>

lemma readiness_score_is_monotone:
  assumes "review_confidence_score risk findings files reviewed ignored = Inr score"
    and "review_confidence_score risk' findings' files reviewed' ignored' = Inr score'"
    and "risk \<le> risk'" "findings \<le> findings'" "reviewed' \<le> reviewed" "ignored \<le> ignored'"
    and "reviewed' + ignored' \<le> reviewed + ignored"
  shows "0 \<le> score \<and> score \<le> 5 \<and> score' \<le> score \<and>
    \<not> (score = 5 \<and> (risk \<noteq> 0 \<or> 3 \<le> findings \<or> ignored \<noteq> 0 \<or> reviewed < files))"
proof -
  have nn: "0 \<le> risk" "0 \<le> findings" "0 \<le> files" "0 \<le> reviewed" "0 \<le> ignored"
    "0 \<le> findings'" "0 \<le> reviewed'" "0 \<le> ignored'"
    using score_inputs[OF assms(1)] score_inputs[OF assms(2)] by simp_all
  have cap: "cap_for_count findings' (score_of_risk risk') \<le> cap_for_count findings (score_of_risk risk)"
    by (intro cap_for_count_antimono score_of_risk_antimono assms nn)
  have cb: "0 \<le> cap_for_count findings (score_of_risk risk)"
    "cap_for_count findings (score_of_risk risk) \<le> 5"
    "cap_for_count findings (score_of_risk risk) = 5 \<Longrightarrow> risk = 0 \<and> findings < 3"
    using score_of_risk_bounds[of risk]
    by (auto simp: cap_for_count_def score_of_risk_def split: if_splits)
  define s s' where "s = cap_for_count findings (score_of_risk risk)"
    and "s' = cap_for_count findings' (score_of_risk risk')"
  have score: "score = adjusted_score s files reviewed ignored"
    "score' = adjusted_score s' files reviewed' ignored'"
    unfolding s_def s'_def by (rule score_adjusted[OF assms(1)], rule score_adjusted[OF assms(2)])
  have "adjusted_score s' files reviewed' ignored' \<le> adjusted_score s files reviewed ignored"
    by (rule adjusted_antimono[OF cap[folded s_def s'_def] cb(1)[folded s_def] nn(7) assms(5) nn(5)
          assms(6,7)])
  moreover note adjusted_bounds[OF cb(1,2)[folded s_def] nn(3,4,5)]
  moreover have "score = 5 \<Longrightarrow> risk = 0 \<and> findings < 3"
  proof -
    assume "score = 5"
    then have "s = 5" using adjusted_bounds(2)[OF cb(1,2)[folded s_def] nn(3,4,5)] cb(2)
      unfolding score s_def[symmetric] by simp
    then show ?thesis using cb(3) unfolding s_def by blast
  qed
  ultimately show ?thesis using cb(2) unfolding score s_def[symmetric] by (auto simp: not_less)
qed

lemma readiness_score_is_monotone_witness:
  "\<exists>score score'. review_confidence_score 0 1 4 4 0 = Inr score \<and>
     review_confidence_score 3 7 4 3 1 = Inr score' \<and> score' \<le> score \<and> score = 5"
proof -
  have a: "review_confidence_score 0 1 4 4 0 = Inr 5"
    by (simp add: review_confidence_score_def score_of_risk_def cap_for_count_def Let_def)
  have b: "review_confidence_score 3 7 4 3 1 = Inr 2"
    by (simp add: review_confidence_score_def score_of_risk_def cap_for_count_def Let_def)
  show ?thesis using readiness_score_is_monotone[OF a b] a b by simp
qed

end
