(* ===== verification/Lineage.thy ===== *)
theory Lineage
  imports Review_Models
begin

text \<open>
  Finding continuity across review runs (\<open>review/lineage.py\<close>).  Similarities are reals where the
  code has floats.  \<open>SequenceMatcher(None, a, b, autojunk=False).ratio()\<close> is the documented one:
  twice the matched characters over all characters, matched by the longest common block (the one
  starting earliest in \<open>a\<close>, then in \<open>b\<close>) and, recursively, to its left and right.
\<close>

datatype lineage_status = Active | Addressed

datatype transition_kind = T_new | T_persistent | T_reopened | T_addressed

record historical_finding =
  hf_lineage_id :: int
  hf_status :: lineage_status
  hf_finding :: review_finding

record finding_transition =
  tr_kind :: transition_kind
  tr_lineage_id :: "int option"
  tr_finding :: "review_finding option"

record finding_snapshot =
  fs_lineage_id :: int
  fs_title :: string
  fs_severity :: string
  fs_category :: string
  fs_file_path :: string
  fs_line :: nat
  fs_side :: string

record review_continuity =
  ct_new_fingerprints :: "string list"
  ct_persistent_fingerprints :: "string list"
  ct_reopened_fingerprints :: "string list"
  ct_addressed :: "finding_snapshot list"
  ct_open_findings :: "review_finding list"

definition inline_fingerprints :: "review_continuity \<Rightarrow> string set" where
  "inline_fingerprints c = set (ct_new_fingerprints c)"

section \<open>Text similarity\<close>

text \<open>\<open>TOKEN_PATTERN.findall\<close>: the maximal runs of lower-case letters and digits.\<close>

definition token_char :: "char \<Rightarrow> bool" where
  "token_char c \<longleftrightarrow> is_lower_alpha c \<or> is_digit c"

fun find_tokens :: "string \<Rightarrow> string \<Rightarrow> string list" where
  "find_tokens run [] = (if run = [] then [] else [rev run])"
| "find_tokens run (c # cs) =
     (if token_char c then find_tokens (c # run) cs
      else (if run = [] then [] else [rev run]) @ find_tokens [] cs)"

definition text_tokens :: "string \<Rightarrow> string list" where
  "text_tokens s = find_tokens [] (casefold s)"

definition normalized :: "string \<Rightarrow> string" where
  "normalized s = join '' '' (text_tokens s)"

definition token_similarity :: "string \<Rightarrow> string \<Rightarrow> real" where
  "token_similarity left right =
     (let l = set (text_tokens left); r = set (text_tokens right) in
      if l = {} \<or> r = {} then 0 else real (card (l \<inter> r)) / real (card (l \<union> r)))"

fun common_prefix :: "string \<Rightarrow> string \<Rightarrow> nat" where
  "common_prefix (x # xs) (y # ys) = (if x = y then Suc (common_prefix xs ys) else 0)"
| "common_prefix _ _ = 0"

text \<open>The longest common block \<open>(i, j, k)\<close>, the earliest of the longest ones.\<close>

definition longer_block :: "nat \<times> nat \<times> nat \<Rightarrow> nat \<times> nat \<times> nat \<Rightarrow> nat \<times> nat \<times> nat" where
  "longer_block b best = (if snd (snd best) < snd (snd b) then b else best)"

definition longest_match :: "string \<Rightarrow> string \<Rightarrow> nat \<times> nat \<times> nat" where
  "longest_match a b =
     fold longer_block
       (concat (map (\<lambda>i. map (\<lambda>j. (i, j, common_prefix (drop i a) (drop j b))) [0..<length b])
          [0..<length a])) (0, 0, 0)"

lemma common_prefix_le: "common_prefix xs ys \<le> length xs"
  by (induction xs ys rule: common_prefix.induct) auto

lemma longer_block_fold:
  "fold longer_block bs best = best \<or> fold longer_block bs best \<in> set bs"
  by (induction bs arbitrary: best) (auto simp: longer_block_def split: if_splits)

lemma longest_match_bounds:
  assumes "longest_match a b = (i, j, k)" "k \<noteq> 0"
  shows "i + k \<le> length a"
proof -
  have "longest_match a b = (0, 0, 0) \<or> (\<exists>i < length a. \<exists>j.
      longest_match a b = (i, j, common_prefix (drop i a) (drop j b)))"
    using longer_block_fold[of "concat (map (\<lambda>i. map (\<lambda>j. (i, j, common_prefix (drop i a) (drop j b)))
      [0..<length b]) [0..<length a])" "(0, 0, 0)"]
    unfolding longest_match_def[symmetric] by auto
  then have i: "i < length a" and k: "k = common_prefix (drop i a) (drop j b)" using assms by auto
  have "k \<le> length a - i" using common_prefix_le[of "drop i a" "drop j b"] unfolding k by simp
  then show ?thesis using i by simp
qed

function matched_chars :: "string \<Rightarrow> string \<Rightarrow> nat" where
  "matched_chars a b =
     (case longest_match a b of
        (i, j, k) \<Rightarrow>
          if k = 0 then 0
          else k + matched_chars (take i a) (take j b) + matched_chars (drop (i + k) a) (drop (j + k) b))"
  by pat_completeness auto
termination
  by (relation "measure (\<lambda>(a, b). length a)")
     (auto dest!: longest_match_bounds[OF sym])

declare matched_chars.simps [simp del]

definition sequence_ratio :: "string \<Rightarrow> string \<Rightarrow> real" where
  "sequence_ratio a b =
     (if length a + length b = 0 then 1
      else 2 * real (matched_chars a b) / real (length a + length b))"

section \<open>Similarity of findings\<close>

definition effective_path :: "(string \<times> string) list \<Rightarrow> string \<Rightarrow> string" where
  "effective_path aliases path = (case map_of aliases path of None \<Rightarrow> path | Some p \<Rightarrow> p)"

definition comparable :: "(string \<times> string) list \<Rightarrow> review_finding \<Rightarrow> review_finding \<Rightarrow> bool" where
  "comparable aliases current historical \<longleftrightarrow>
     rf_file_path current = effective_path aliases (rf_file_path historical) \<and>
     rf_category current = rf_category historical \<and>
     rf_classification current = rf_classification historical"

definition line_bonus :: "nat \<Rightarrow> nat \<Rightarrow> real" where
  "line_bonus m n = max 0 (8 / 100 - real (min (nat \<bar>int m - int n\<bar>) 80) / 1000)"

definition finding_similarity ::
    "(string \<times> string) list \<Rightarrow> review_finding \<Rightarrow> review_finding \<Rightarrow> real" where
  "finding_similarity aliases current historical =
     (if \<not> comparable aliases current historical then 0
      else if rf_fingerprint current = rf_fingerprint historical then 1
      else
        (let title = sequence_ratio (normalized (rf_title current)) (normalized (rf_title historical));
             details = sequence_ratio
               (normalized (rf_body current @ '' '' @ rf_evidence current))
               (normalized (rf_body historical @ '' '' @ rf_evidence historical));
             tokens = token_similarity
               (rf_title current @ '' '' @ rf_body current)
               (rf_title historical @ '' '' @ rf_body historical)
         in min (999 / 1000) (55 / 100 * title + 25 / 100 * details + 20 / 100 * tokens +
              line_bonus (rf_line current) (rf_line historical))))"

section \<open>Matching\<close>

type_synonym lineage_candidate = "real \<times> nat \<times> nat"

definition lineage_candidates ::
    "(string \<times> string) list \<Rightarrow> real \<Rightarrow> review_finding list \<Rightarrow> historical_finding list \<Rightarrow>
     lineage_candidate list" where
  "lineage_candidates aliases threshold current historical =
     concat (map (\<lambda>i. concat (map (\<lambda>j.
       (let score = finding_similarity aliases (current ! i) (hf_finding (historical ! j)) in
        if threshold \<le> score then [(score, i, j)] else []))
       [0..<length historical])) [0..<length current])"

definition lineage_order ::
    "review_finding list \<Rightarrow> historical_finding list \<Rightarrow> lineage_candidate \<Rightarrow> real \<times> int \<times> string" where
  "lineage_order current historical c =
     (case c of (score, i, j) \<Rightarrow>
        (- score, hf_lineage_id (historical ! j), rf_fingerprint (current ! i)))"

text \<open>The pairs taken: \<open>current_matches\<close>, whose values are \<open>matched_history\<close>.\<close>

definition take_candidate :: "lineage_candidate \<Rightarrow> (nat \<times> nat) list \<Rightarrow> (nat \<times> nat) list" where
  "take_candidate c pairs =
     (case c of (_, i, j) \<Rightarrow>
        if i \<in> fst ` set pairs \<or> j \<in> snd ` set pairs then pairs else pairs @ [(i, j)])"

definition match_findings ::
    "(string \<times> string) list \<Rightarrow> real \<Rightarrow> review_finding list \<Rightarrow> historical_finding list \<Rightarrow>
     (nat \<times> nat) list" where
  "match_findings aliases threshold current historical =
     fold take_candidate
       (sort_key (lineage_order current historical)
          (lineage_candidates aliases threshold current historical)) []"

definition current_transition ::
    "(nat \<times> nat) list \<Rightarrow> historical_finding list \<Rightarrow> nat \<times> review_finding \<Rightarrow> finding_transition" where
  "current_transition pairs historical entry =
     (case map_of pairs (fst entry) of
        None \<Rightarrow> \<lparr>tr_kind = T_new, tr_lineage_id = None, tr_finding = Some (snd entry)\<rparr>
      | Some j \<Rightarrow>
          \<lparr>tr_kind = (if hf_status (historical ! j) = Addressed then T_reopened else T_persistent),
           tr_lineage_id = Some (hf_lineage_id (historical ! j)), tr_finding = Some (snd entry)\<rparr>)"

definition addressed_now ::
    "(string \<times> string) list \<Rightarrow> string set \<Rightarrow> (nat \<times> nat) list \<Rightarrow> nat \<times> historical_finding \<Rightarrow> bool" where
  "addressed_now aliases touched pairs entry \<longleftrightarrow>
     fst entry \<notin> snd ` set pairs \<and> hf_status (snd entry) = Active \<and>
     (rf_file_path (hf_finding (snd entry)) \<in> touched \<or>
      effective_path aliases (rf_file_path (hf_finding (snd entry))) \<in> touched)"

definition aliases_valid :: "(string \<times> string) list \<Rightarrow> bool" where
  "aliases_valid aliases \<longleftrightarrow>
     list_all (\<lambda>(old, new). old \<noteq> [] \<and> new \<noteq> [] \<and> \<not> startswith old ''/'' \<and> \<not> startswith new ''/'') aliases"

definition classify_finding_lineage ::
    "review_finding list \<Rightarrow> historical_finding list \<Rightarrow> string set \<Rightarrow> (string \<times> string) list \<Rightarrow> real \<Rightarrow>
     string + finding_transition list" where
  "classify_finding_lineage current historical touched aliases threshold =
     (if \<not> (0 \<le> threshold \<and> threshold \<le> 1)
      then Inl ''Finding-lineage match threshold must be between zero and one''
      else if \<not> aliases_valid aliases
      then Inl ''Finding-lineage path aliases must be normalized repository paths''
      else
        (let pairs = match_findings aliases threshold current historical in
         Inr (map (current_transition pairs historical) (enumerate 0 current) @
              map (\<lambda>e. \<lparr>tr_kind = T_addressed, tr_lineage_id = Some (hf_lineage_id (snd e)),
                        tr_finding = None\<rparr>)
                (filter (addressed_now aliases touched pairs) (enumerate 0 historical)))))"

end
