(* ===== verification/Lineage_Props.thy ===== *)
theory Lineage_Props
  imports Lineage
begin

text \<open>
  The lineage matching is one-to-one and stable, and the transitions built from it account for every
  current finding and every lineage once.
\<close>

section \<open>Greedy matching\<close>

definition greedy_ok :: "lineage_candidate set \<Rightarrow> (nat \<times> nat) list \<Rightarrow> bool" where
  "greedy_ok seen pairs \<longleftrightarrow>
     distinct (map fst pairs) \<and> distinct (map snd pairs) \<and>
     (\<forall>(i, j) \<in> set pairs. \<exists>s. (s, i, j) \<in> seen) \<and>
     (\<forall>(s, i, j) \<in> seen. \<exists>s' i' j'. (i', j') \<in> set pairs \<and> (s', i', j') \<in> seen \<and>
        (i' = i \<or> j' = j) \<and> s \<le> s')"

lemma greedy_okD:
  assumes "greedy_ok seen pairs"
  shows "distinct (map fst pairs)" "distinct (map snd pairs)"
    "(i, j) \<in> set pairs \<Longrightarrow> \<exists>s. (s, i, j) \<in> seen"
    "(s, i, j) \<in> seen \<Longrightarrow> \<exists>s' i' j'. (i', j') \<in> set pairs \<and> (s', i', j') \<in> seen \<and>
        (i' = i \<or> j' = j) \<and> s \<le> s'"
  using assms unfolding greedy_ok_def by blast+

lemma greedy_okI:
  assumes "distinct (map fst pairs)" "distinct (map snd pairs)"
    and "\<And>i j. (i, j) \<in> set pairs \<Longrightarrow> \<exists>s. (s, i, j) \<in> seen"
    and "\<And>s i j. (s, i, j) \<in> seen \<Longrightarrow> \<exists>s' i' j'. (i', j') \<in> set pairs \<and> (s', i', j') \<in> seen \<and>
        (i' = i \<or> j' = j) \<and> s \<le> s'"
  shows "greedy_ok seen pairs"
  using assms unfolding greedy_ok_def by blast

lemma take_candidate_ok:
  assumes ok: "greedy_ok seen pairs" and best: "\<And>s' i' j'. (s', i', j') \<in> seen \<Longrightarrow> s \<le> s'"
  shows "greedy_ok (insert (s, i, j) seen) (take_candidate (s, i, j) pairs)"
proof (cases "i \<in> fst ` set pairs \<or> j \<in> snd ` set pairs")
  case True
  then obtain i' j' where p: "(i', j') \<in> set pairs" "i' = i \<or> j' = j" by force
  obtain s' where s': "(s', i', j') \<in> seen" using greedy_okD(3)[OF ok p(1)] by blast
  have t: "take_candidate (s, i, j) pairs = pairs" using True by (simp add: take_candidate_def)
  show ?thesis unfolding t
  proof (rule greedy_okI)
    show "distinct (map fst pairs)" "distinct (map snd pairs)" using greedy_okD(1,2)[OF ok] .
    show "\<exists>s''. (s'', a, b) \<in> insert (s, i, j) seen" if "(a, b) \<in> set pairs" for a b
      using greedy_okD(3)[OF ok that] by blast
    show "\<exists>r a' b'. (a', b') \<in> set pairs \<and> (r, a', b') \<in> insert (s, i, j) seen \<and>
        (a' = a \<or> b' = b) \<and> q \<le> r" if m: "(q, a, b) \<in> insert (s, i, j) seen" for q a b
    proof (cases "(q, a, b) \<in> seen")
      case True
      then show ?thesis using greedy_okD(4)[OF ok True] by blast
    next
      case False
      then have "q = s" "a = i" "b = j" using m by simp_all
      then show ?thesis using p s' best[OF s']
        by (intro exI[of _ s'] exI[of _ i'] exI[of _ j'] conjI) simp_all
    qed
  qed
next
  case False
  then have t: "take_candidate (s, i, j) pairs = pairs @ [(i, j)]" by (auto simp: take_candidate_def)
  show ?thesis unfolding t
  proof (rule greedy_okI)
    show "distinct (map fst (pairs @ [(i, j)]))" "distinct (map snd (pairs @ [(i, j)]))"
      using greedy_okD(1,2)[OF ok] False by auto
    show "\<exists>s''. (s'', a, b) \<in> insert (s, i, j) seen" if "(a, b) \<in> set (pairs @ [(i, j)])" for a b
      using that greedy_okD(3)[OF ok, of a b] by auto
    show "\<exists>r a' b'. (a', b') \<in> set (pairs @ [(i, j)]) \<and> (r, a', b') \<in> insert (s, i, j) seen \<and>
        (a' = a \<or> b' = b) \<and> q \<le> r" if m: "(q, a, b) \<in> insert (s, i, j) seen" for q a b
    proof (cases "(q, a, b) \<in> seen")
      case True
      from greedy_okD(4)[OF ok True] obtain r a' b' where
        "(a', b') \<in> set pairs" "(r, a', b') \<in> seen" "a' = a \<or> b' = b" "q \<le> r" by blast
      then show ?thesis by (intro exI[of _ r] exI[of _ a'] exI[of _ b'] conjI) simp_all
    next
      case False
      then have "q = s" "a = i" "b = j" using m by simp_all
      then show ?thesis by (intro exI[of _ s] exI[of _ i] exI[of _ j] conjI) simp_all
    qed
  qed
qed

lemma greedy_fold:
  assumes "sorted_wrt (\<lambda>c d. fst d \<le> fst c) cs" "greedy_ok seen pairs"
    and "\<And>c d. c \<in> set cs \<Longrightarrow> d \<in> seen \<Longrightarrow> fst c \<le> fst d"
  shows "greedy_ok (seen \<union> set cs) (fold take_candidate cs pairs)"
  using assms
proof (induction cs arbitrary: seen pairs)
  case Nil
  then show ?case by simp
next
  case (Cons c cs)
  obtain s i j where c: "c = (s, i, j)" by (cases c)
  have "greedy_ok (insert c seen) (take_candidate c pairs)"
    unfolding c using Cons.prems(2)
  proof (rule take_candidate_ok)
    show "s \<le> s'" if "(s', i', j') \<in> seen" for s' i' j'
      using Cons.prems(3)[of c "(s', i', j')"] that c by simp
  qed
  from Cons.IH[OF _ this] Cons.prems(1,3) show ?case by fastforce
qed

lemma lineage_candidates_set:
  "(s, i, j) \<in> set (lineage_candidates aliases threshold current historical) \<longleftrightarrow>
   i < length current \<and> j < length historical \<and> threshold \<le> s \<and>
   s = finding_similarity aliases (current ! i) (hf_finding (historical ! j))"
  by (auto simp: lineage_candidates_def Let_def)

lemma matching_greedy:
  "greedy_ok (set (lineage_candidates aliases threshold current historical))
     (match_findings aliases threshold current historical)"
proof -
  let ?cs = "sort_key (lineage_order current historical)
     (lineage_candidates aliases threshold current historical)"
  have "sorted_wrt (\<lambda>c d. lineage_order current historical c \<le> lineage_order current historical d) ?cs"
    using sorted_sort_key[of "lineage_order current historical"] by (simp add: sorted_map)
  then have "sorted_wrt (\<lambda>c d. fst d \<le> fst c) ?cs"
    by (rule sorted_wrt_mono_rel[rotated]) (auto simp: lineage_order_def less_eq_prod_def split: prod.splits)
  then have "greedy_ok ({} \<union> set ?cs) (fold take_candidate ?cs [])"
    by (rule greedy_fold) (simp_all add: greedy_ok_def)
  then show ?thesis by (simp add: match_findings_def)
qed

lemma sequence_similarity_below_one:
  assumes "rf_fingerprint f \<noteq> rf_fingerprint g"
  shows "finding_similarity aliases f g < 1"
  using assms by (simp add: finding_similarity_def Let_def min_less_iff_disj)

text \<open>C21: The matching of current and historical findings is one-to-one, joins only pairs whose
  similarity reaches the threshold, and is stable: of every pair that reaches it, the two are joined,
  or one of them is joined to something at least as similar.\<close>

theorem lineage_matching_is_stable:
  "(let pairs = match_findings aliases threshold current historical;
        similar = (\<lambda>i j. finding_similarity aliases (current ! i) (hf_finding (historical ! j))) in
    distinct (map fst pairs) \<and> distinct (map snd pairs) \<and>
    list_all (\<lambda>(i, j). i < length current \<and> j < length historical \<and> threshold \<le> similar i j) pairs \<and>
    list_all (\<lambda>i. list_all (\<lambda>j.
      similar i j < threshold \<or>
      list_ex (\<lambda>(i', j'). (i' = i \<or> j' = j) \<and> similar i j \<le> similar i' j') pairs)
      [0..<length historical]) [0..<length current])"
proof -
  let ?pairs = "match_findings aliases threshold current historical"
  let ?sim = "\<lambda>i j. finding_similarity aliases (current ! i) (hf_finding (historical ! j))"
  note ok = matching_greedy[of aliases threshold current historical]
  note m = lineage_candidates_set[of _ _ _ aliases threshold current historical]
  have 1: "i < length current \<and> j < length historical \<and> threshold \<le> ?sim i j"
    if "(i, j) \<in> set ?pairs" for i j
    using greedy_okD(3)[OF ok that] unfolding m by blast
  have 2: "?sim i j < threshold \<or>
      list_ex (\<lambda>(i', j'). (i' = i \<or> j' = j) \<and> ?sim i j \<le> ?sim i' j') ?pairs"
    if "i < length current" "j < length historical" for i j
  proof (cases "threshold \<le> ?sim i j")
    case True
    then have "(?sim i j, i, j) \<in> set (lineage_candidates aliases threshold current historical)"
      using that unfolding m by blast
    from greedy_okD(4)[OF ok this] obtain i' j' where
      "(i', j') \<in> set ?pairs" "i' = i \<or> j' = j" "?sim i j \<le> ?sim i' j'" unfolding m by blast
    then show ?thesis unfolding list_ex_iff by blast
  qed simp
  show ?thesis unfolding Let_def list_all_iff
  proof (intro conjI ballI)
    fix p assume "p \<in> set ?pairs"
    then show "case p of (i, j) \<Rightarrow> i < length current \<and> j < length historical \<and> threshold \<le> ?sim i j"
      using 1[of "fst p" "snd p"] by (simp add: case_prod_beta)
  qed (use greedy_okD(1,2)[OF ok] 2 in simp_all)
qed

section \<open>The transitions\<close>

lemma enumerate_map: "enumerate 0 xs = map (\<lambda>i. (i, xs ! i)) [0..<length xs]"
  by (rule nth_equalityI) (simp_all add: nth_enumerate_eq)

lemma filter_eq_upt: "filter (\<lambda>i. i = k) [0..<n] = (if k < n then [k] else [])"
  by (induction n) auto

lemma filter_enumerate:
  "filter P (enumerate 0 xs) = map (\<lambda>i. (i, xs ! i)) (filter (\<lambda>i. P (i, xs ! i)) [0..<length xs])"
  by (simp add: enumerate_map filter_map comp_def)

definition address_transition :: "nat \<times> historical_finding \<Rightarrow> finding_transition" where
  "address_transition e =
     \<lparr>tr_kind = T_addressed, tr_lineage_id = Some (hf_lineage_id (snd e)), tr_finding = None\<rparr>"

lemma classify_transitions:
  assumes "classify_finding_lineage current historical touched aliases threshold = Inr ts"
  shows "ts = map (current_transition (match_findings aliases threshold current historical) historical)
        (enumerate 0 current) @
      map address_transition (filter (addressed_now aliases touched
        (match_findings aliases threshold current historical)) (enumerate 0 historical))"
    "threshold \<le> 1"
  using assms unfolding classify_finding_lineage_def
  by (auto simp: Let_def address_transition_def[abs_def] split: if_splits)

lemma match_bounds:
  assumes "(i, j) \<in> set (match_findings aliases threshold current historical)"
  shows "i < length current" "j < length historical"
  using greedy_okD(3)[OF matching_greedy assms] unfolding lineage_candidates_set by blast+

lemmas match_distinct = greedy_okD(1,2)[OF matching_greedy]

lemma current_transition_lineage:
  assumes ids: "distinct (map hf_lineage_id historical)" and j: "j < length historical"
    and pairs: "pairs = match_findings aliases threshold current historical"
  shows "tr_lineage_id (current_transition pairs historical (i, f)) = Some (hf_lineage_id (historical ! j))
    \<longleftrightarrow> (i, j) \<in> set pairs"
proof -
  have d: "distinct (map fst pairs)" unfolding pairs by (rule match_distinct)
  have same: "hf_lineage_id (historical ! k) = hf_lineage_id (historical ! j) \<longleftrightarrow> k = j"
    if "(i, k) \<in> set pairs" for k
    using ids j match_bounds(2) that unfolding pairs distinct_conv_nth by force
  show ?thesis
  proof (cases "map_of pairs i")
    case None
    then show ?thesis by (auto simp: current_transition_def) (metis option.distinct(1) weak_map_of_SomeI)
  next
    case (Some k)
    then have "(i, k) \<in> set pairs" by (rule map_of_SomeD)
    moreover have "(i, j) \<in> set pairs \<longleftrightarrow> k = j"
      using Some d by (metis map_of_eq_Some_iff option.inject)
    ultimately show ?thesis using Some same by (simp add: current_transition_def)
  qed
qed

text \<open>The index of the current finding joined to a historical one, if any.\<close>

lemma matched_indices:
  assumes pairs: "pairs = match_findings aliases threshold current historical"
  shows "filter (\<lambda>i. (i, j) \<in> set pairs) [0..<length current] =
    (case map_of (map (\<lambda>(i, j). (j, i)) pairs) j of None \<Rightarrow> [] | Some i \<Rightarrow> [i])"
proof -
  have d: "distinct (map fst (map (\<lambda>(i, j). (j, i)) pairs))"
    using match_distinct(2) unfolding pairs by (simp add: comp_def case_prod_beta)
  have e: "(i, j) \<in> set pairs \<longleftrightarrow> map_of (map (\<lambda>(i, j). (j, i)) pairs) j = Some i" for i
    using map_of_eq_Some_iff[OF d] by force
  show ?thesis
  proof (cases "map_of (map (\<lambda>(i, j). (j, i)) pairs) j")
    case None
    then show ?thesis using e by simp
  next
    case (Some k)
    then have "k < length current" using e match_bounds(1) unfolding pairs by blast
    moreover have "(\<lambda>i. (i, j) \<in> set pairs) = (\<lambda>i. i = k)" using e Some by auto
    ultimately show ?thesis using Some by (simp add: filter_eq_upt)
  qed
qed

lemma addressed_lineage:
  assumes "distinct (map hf_lineage_id historical)" "j < length historical"
  shows "filter (\<lambda>t. tr_lineage_id t = Some (hf_lineage_id (historical ! j)))
      (map address_transition (filter P (enumerate 0 historical))) =
    (if P (j, historical ! j) then [address_transition (j, historical ! j)] else [])"
proof -
  have "filter (\<lambda>i. P (i, historical ! i) \<and> hf_lineage_id (historical ! i) = hf_lineage_id (historical ! j))
      [0..<length historical] = filter (\<lambda>i. P (j, historical ! j) \<and> i = j) [0..<length historical]"
    using assms by (intro filter_cong) (auto simp: distinct_conv_nth)
  then show ?thesis using assms(2)
    by (simp add: filter_map comp_def filter_enumerate address_transition_def filter_eq_upt conj_commute)
qed

lemma continued_lineage:
  assumes pairs: "pairs = match_findings aliases threshold current historical"
    and ids: "distinct (map hf_lineage_id historical)" and j: "j < length historical"
  shows "map tr_kind (filter (\<lambda>t. tr_lineage_id t = Some (hf_lineage_id (historical ! j)))
      (map (current_transition pairs historical) (enumerate 0 current))) =
    (if j \<in> snd ` set pairs
     then [if hf_status (historical ! j) = Addressed then T_reopened else T_persistent] else [])"
proof -
  let ?i = "map_of (map (\<lambda>(i, j). (j, i)) pairs) j"
  have kind: "tr_kind (current_transition pairs historical (i, f)) =
      (if hf_status (historical ! j) = Addressed then T_reopened else T_persistent)"
    if "(i, j) \<in> set pairs" for i f
    using that match_distinct(1) unfolding pairs
    by (simp add: current_transition_def)
  have mem: "(case ?i of None \<Rightarrow> j \<notin> snd ` set pairs | Some i \<Rightarrow> (i, j) \<in> set pairs \<and> j \<in> snd ` set pairs)"
  proof (cases ?i)
    case None
    then have "j \<notin> fst ` set (map (\<lambda>(i, j). (j, i)) pairs)"
      by (rule iffD1[OF map_of_eq_None_iff])
    then have "j \<notin> snd ` set pairs" by (simp only: set_map image_image case_prod_beta fst_conv not_False_eq_True)
    then show ?thesis using None by simp
  next
    case (Some i)
    then have "(i, j) \<in> set pairs" using map_of_SomeD[OF Some] by auto
    then show ?thesis using Some by (auto intro: rev_image_eqI)
  qed
  show ?thesis
    using mem kind
    by (cases ?i) (auto simp: filter_map comp_def filter_enumerate
        current_transition_lineage[OF ids j pairs] matched_indices[OF pairs])
qed

definition sample_found :: "string \<Rightarrow> string \<Rightarrow> review_finding" where
  "sample_found fp path = \<lparr>rf_fingerprint = fp, rf_title = ''t'', rf_body = ''b'', rf_severity = High,
     rf_category = Cat_testing, rf_classification = None, rf_confidence = 1, rf_file_path = path,
     rf_line = 3, rf_side = RIGHT, rf_evidence = ''e'', rf_suggested_fix = None\<rparr>"

definition sample_history :: "historical_finding list" where
  "sample_history =
     [\<lparr>hf_lineage_id = 7, hf_status = Addressed, hf_finding = sample_found ''aa'' ''old.py''\<rparr>,
      \<lparr>hf_lineage_id = 8, hf_status = Active, hf_finding = sample_found ''bb'' ''x.py''\<rparr>]"

abbreviation sample_current :: "review_finding list" where
  "sample_current \<equiv> [sample_found ''aa'' ''new.py'', sample_found ''cc'' ''z.py'']"

lemma sample_classified:
  "case classify_finding_lineage sample_current sample_history {''x.py''} [(''old.py'', ''new.py'')] (17 / 25) of
     Inl e \<Rightarrow> False
   | Inr ts \<Rightarrow> map tr_kind ts = [T_reopened, T_new, T_addressed]"
  by code_simp

lemma sample_classifies:
  "\<exists>ts. classify_finding_lineage sample_current sample_history {''x.py''} [(''old.py'', ''new.py'')] (17 / 25)
     = Inr ts"
  using sample_classified
  by (cases "classify_finding_lineage sample_current sample_history {''x.py''} [(''old.py'', ''new.py'')] (17 / 25)")
    simp_all

text \<open>When the stored lineages have distinct ids, classification gives one transition per current
  finding, in order, followed by those of the lineages addressed now.  Every lineage occurs in at
  most one transition: one that was addressed is at most reopened, never addressed again; an active
  one persists, or is addressed - and that only if its file, under its old or its new name, was
  touched; an active one of a touched file is never left without a transition.\<close>

lemma lineage_transitions:
  assumes "classify_finding_lineage current historical touched aliases threshold = Inr ts"
    and ids: "distinct (map hf_lineage_id historical)" and h: "h \<in> set historical"
  shows "map tr_finding ts = map Some current @ replicate (length ts - length current) None \<and>
    map tr_kind (filter (\<lambda>t. tr_lineage_id t = Some (hf_lineage_id h)) ts) \<in>
      (if hf_status h = Addressed then {[], [T_reopened]}
       else if rf_file_path (hf_finding h) \<in> touched \<or>
               effective_path aliases (rf_file_path (hf_finding h)) \<in> touched
       then {[T_persistent], [T_addressed]} else {[], [T_persistent]})"
proof -
  obtain pairs where pairs: "pairs = match_findings aliases threshold current historical" by simp
  note ts = classify_transitions(1)[OF assms(1), folded pairs]
  obtain j where j: "j < length historical" "h = historical ! j" using h by (metis in_set_conv_nth)
  have "map tr_finding ts = map Some current @ replicate (length ts - length current) None"
    unfolding ts
    by (rule nth_equalityI)
       (auto simp: nth_append enumerate_map current_transition_def address_transition_def split: option.splits)
  then show ?thesis
    unfolding ts filter_append map_append j(2) continued_lineage[OF pairs ids j(1)]
      addressed_lineage[OF ids j(1)]
    by (simp add: addressed_now_def address_transition_def)
      (cases "hf_status (historical ! j)"; simp)
qed

theorem lineage_transitions_witness:
  "\<exists>ts. classify_finding_lineage sample_current sample_history {''x.py''} [(''old.py'', ''new.py'')] (17 / 25)
      = Inr ts \<and>
    map tr_kind (filter (\<lambda>t. tr_lineage_id t = Some 8) ts) \<in> {[T_persistent], [T_addressed]}"
proof -
  obtain ts where ts: "classify_finding_lineage sample_current sample_history {''x.py''}
      [(''old.py'', ''new.py'')] (17 / 25) = Inr ts"
    using sample_classifies by (elim exE)
  have "map tr_kind (filter (\<lambda>t. tr_lineage_id t = Some 8) ts) \<in> {[T_persistent], [T_addressed]}"
    using lineage_transitions[OF ts, of "sample_history ! 1"]
    by (simp add: sample_history_def sample_found_def)
  then show ?thesis using ts by (intro exI[of _ ts] conjI)
qed

text \<open>A finding that is found again - same fingerprint, category and security classification, in
  the file the historical one is in, or was renamed to - never counts as new, whatever else is
  similar to either of them: its transition carries the id of a stored lineage.\<close>

lemma refound_finding_is_not_new:
  assumes "classify_finding_lineage current historical touched aliases threshold = Inr ts"
    and "distinct (map rf_fingerprint current)" and "h \<in> set historical"
    and "i < length current" and "comparable aliases (current ! i) (hf_finding h)"
    and "rf_fingerprint (current ! i) = rf_fingerprint (hf_finding h)"
  shows "tr_kind (ts ! i) \<in> {T_persistent, T_reopened} \<and> tr_finding (ts ! i) = Some (current ! i) \<and>
    (\<exists>g \<in> set historical. tr_lineage_id (ts ! i) = Some (hf_lineage_id g))"
proof -
  let ?pairs = "match_findings aliases threshold current historical"
  note ts = classify_transitions[OF assms(1)]
  obtain j where j: "j < length historical" "h = historical ! j" using assms(3) by (metis in_set_conv_nth)
  have one: "finding_similarity aliases (current ! i) (hf_finding h) = 1"
    using assms(5,6) by (simp add: finding_similarity_def)
  then have "(1, i, j) \<in> set (lineage_candidates aliases threshold current historical)"
    using ts(2) assms(4) j by (simp add: lineage_candidates_set)
  from greedy_okD(4)[OF matching_greedy this] obtain s i' j' where p:
    "(i', j') \<in> set ?pairs" "i' = i \<or> j' = j"
    "i' < length current" "1 \<le> finding_similarity aliases (current ! i') (hf_finding (historical ! j'))"
    unfolding lineage_candidates_set by blast
  have "i' = i"
  proof (cases "j' = j")
    case True
    then have "rf_fingerprint (current ! i') = rf_fingerprint (hf_finding h)"
      using p(4) sequence_similarity_below_one[of "current ! i'" "hf_finding h" aliases] j(2) by force
    then show ?thesis using assms(2,4,6) p(3) by (simp add: distinct_conv_nth) metis
  qed (use p(2) in simp)
  then have "map_of ?pairs i = Some j'" using p(1) match_distinct(1) by simp
  then have "ts ! i = current_transition ?pairs historical (i, current ! i)"
      "j' < length historical"
    using assms(4) match_bounds(2)[OF p(1)] unfolding ts(1) by (simp_all add: nth_append enumerate_map)
  then show ?thesis using \<open>map_of ?pairs i = Some j'\<close> by (auto simp: current_transition_def)
qed

theorem refound_finding_is_not_new_witness:
  "\<exists>ts. classify_finding_lineage sample_current sample_history {''x.py''} [(''old.py'', ''new.py'')] (17 / 25)
      = Inr ts \<and> tr_kind (ts ! 0) \<in> {T_persistent, T_reopened}"
proof -
  obtain ts where ts: "classify_finding_lineage sample_current sample_history {''x.py''}
      [(''old.py'', ''new.py'')] (17 / 25) = Inr ts"
    using sample_classifies by (elim exE)
  have "tr_kind (ts ! 0) \<in> {T_persistent, T_reopened}"
    using refound_finding_is_not_new[OF ts, of "sample_history ! 0" 0]
    by (simp add: sample_history_def sample_found_def comparable_def effective_path_def)
  then show ?thesis using ts by (intro exI[of _ ts] conjI)
qed

end
