(* ===== verification/Base64.thy ===== *)
theory Base64
  imports Prelude
begin

text \<open>
  URL-safe base64 as Python's \<open>base64\<close> module computes it, and the two helpers of
  \<open>diffuse_protocol/access.py\<close> that drop and restore its padding.  Bytes are the characters 0 to
  255.  Decoding is \<open>binascii.a2b_base64\<close> without \<open>validate\<close>: characters outside the alphabet are
  skipped, the standard letters \<open>+\<close> and \<open>/\<close> are accepted beside \<open>-\<close> and \<open>_\<close>, and a complete padding
  ends the input; \<open>None\<close> is the \<open>ValueError\<close> it raises.
\<close>

definition b64_char :: "nat \<Rightarrow> char" where
  "b64_char n =
     (if n < 26 then char_of (65 + n)
      else if n < 52 then char_of (71 + n)
      else if n < 62 then char_of (n - 4)
      else if n = 62 then CHR ''-'' else CHR ''_'')"

definition b64_value :: "char \<Rightarrow> nat option" where
  "b64_value c =
     (if is_upper_alpha c then Some (code c - 65)
      else if is_lower_alpha c then Some (code c - 71)
      else if is_digit c then Some (code c + 4)
      else if c = CHR ''-'' \<or> c = CHR ''+'' then Some 62
      else if c = CHR ''_'' \<or> c = CHR ''/'' then Some 63
      else None)"

text \<open>\<open>base64.urlsafe_b64encode\<close>\<close>

fun urlsafe_b64encode :: "string \<Rightarrow> string" where
  "urlsafe_b64encode [] = []"
| "urlsafe_b64encode [a] =
     [b64_char (code a div 4), b64_char (code a mod 4 * 16), CHR ''='', CHR ''='']"
| "urlsafe_b64encode [a, b] =
     [b64_char (code a div 4), b64_char (code a mod 4 * 16 + code b div 16),
      b64_char (code b mod 16 * 4), CHR ''='']"
| "urlsafe_b64encode (a # b # c # raw) =
     [b64_char (code a div 4), b64_char (code a mod 4 * 16 + code b div 16),
      b64_char (code b mod 16 * 4 + code c div 64), b64_char (code c mod 64)] @
     urlsafe_b64encode raw"

text \<open>\<open>a2b quad_pos leftchar pads chars\<close> is the loop of \<open>binascii.a2b_base64\<close>, from a state of it.\<close>

fun a2b :: "nat \<Rightarrow> nat \<Rightarrow> nat \<Rightarrow> string \<Rightarrow> string option" where
  "a2b q left pads [] = (if q = 0 then Some [] else None)"
| "a2b q left pads (c # cs) =
     (if c = CHR ''='' then
        if 2 \<le> q \<and> 4 \<le> q + Suc pads then Some []
        else a2b q left (if 2 \<le> q then Suc pads else pads) cs
      else
        (case b64_value c of
           None \<Rightarrow> a2b q left pads cs
         | Some v \<Rightarrow>
             if q = 0 then a2b 1 v 0 cs
             else if q = 1 then map_option (\<lambda>s. char_of (left * 4 + v div 16) # s) (a2b 2 (v mod 16) 0 cs)
             else if q = 2 then map_option (\<lambda>s. char_of (left * 16 + v div 4) # s) (a2b 3 (v mod 4) 0 cs)
             else map_option (\<lambda>s. char_of (left * 64 + v) # s) (a2b 0 0 0 cs)))"

definition is_ascii :: "string \<Rightarrow> bool" where
  "is_ascii s \<longleftrightarrow> list_all (\<lambda>c. code c < 128) s"

text \<open>\<open>base64.urlsafe_b64decode\<close> of a string\<close>

definition urlsafe_b64decode :: "string \<Rightarrow> string option" where
  "urlsafe_b64decode s = (if is_ascii s then a2b 0 0 0 s else None)"

text \<open>\<open>_b64url_encode\<close> and \<open>_b64url_decode\<close>\<close>

definition rstrip_eq :: "string \<Rightarrow> string" where
  "rstrip_eq s = rev (dropWhile (\<lambda>c. c = CHR ''='') (rev s))"

definition b64url_encode :: "string \<Rightarrow> string" where
  "b64url_encode raw = rstrip_eq (urlsafe_b64encode raw)"

definition b64url_decode :: "string \<Rightarrow> string option" where
  "b64url_decode value =
     urlsafe_b64decode (value @ replicate (nat (- int (length value) mod 4)) (CHR ''=''))"

section \<open>Round trip\<close>

lemma b64_value_char [simp]: "n < 64 \<Longrightarrow> b64_value (b64_char n) = Some n"
  by (auto simp: b64_value_def b64_char_def is_upper_alpha_def is_lower_alpha_def is_digit_def code_def)

lemma b64_char_code: "n < 64 \<Longrightarrow> code (b64_char n) < 128"
  by (auto simp: b64_char_def code_def)

lemma b64_char_ne_eq [simp]: "n < 64 \<Longrightarrow> b64_char n \<noteq> CHR ''=''"
  using b64_value_char[of n] by (auto simp: b64_value_def is_upper_alpha_def is_lower_alpha_def is_digit_def code_def)

lemmas b64_char_ne_eq' [simp] = b64_char_ne_eq [symmetric]

lemma b64_char_ne_dot: "n < 64 \<Longrightarrow> b64_char n \<noteq> CHR ''.''"
  using b64_value_char[of n] by (auto simp: b64_value_def is_upper_alpha_def is_lower_alpha_def is_digit_def code_def)

lemma sextet_parts:
  fixes a b c :: nat
  assumes "a < 256" "b < 256" "c < 256"
  shows "a div 4 < 64" "b div 16 < 16" "c div 64 < 4" "c mod 64 < 64" "a mod 4 < 4" "b mod 16 < 16"
    "a div 4 * 4 + a mod 4 = a" "b div 16 * 16 + b mod 16 = b" "c div 64 * 64 + c mod 64 = c"
  using assms by (simp_all add: less_mult_imp_div_less)

lemma code_sextets [simp]:
  "code a div 4 < 64" "code a mod 4 * 16 < 64" "code a mod 4 * 16 + code b div 16 < 64"
  "code b mod 16 * 4 < 64" "code b mod 16 * 4 + code c div 64 < 64" "code c mod 64 < 64"
  using sextet_parts[of "code a" "code b" "code c", OF code_less code_less code_less] by linarith+

lemma sextets_first: "code a div 4 * 4 + (code a mod 4 * 16 + code b div 16) div 16 = code a"
proof -
  have "(code a mod 4 * 16 + code b div 16) div 16 = code a mod 4"
    using sextet_parts(2)[OF code_less code_less code_less, of b] by simp
  then show ?thesis by simp
qed

lemma sextets_second:
  "(code a mod 4 * 16 + code b div 16) mod 16 * 16 + (code b mod 16 * 4 + code c div 64) div 4 = code b"
proof -
  have "code b div 16 < 16" "code c div 64 < 4"
    using sextet_parts(2,3)[of "code b" "code b" "code c", OF code_less code_less code_less] by simp_all
  then have "(code a mod 4 * 16 + code b div 16) mod 16 = code b div 16"
    "(code b mod 16 * 4 + code c div 64) div 4 = code b mod 16"
    by (simp_all add: mod_mult_self3)
  then show ?thesis by (simp add: div_mult_mod_eq)
qed

lemma sextets_third: "(code b mod 16 * 4 + code c div 64) mod 4 * 64 + code c mod 64 = code c"
proof -
  have "code c div 64 < 4" using sextet_parts(3)[OF code_less code_less code_less, of c] by simp
  then have "(code b mod 16 * 4 + code c div 64) mod 4 = code c div 64" by (simp add: mod_mult_self3)
  then show ?thesis by (simp add: div_mult_mod_eq)
qed

lemmas sextets = sextets_first sextets_second sextets_third

lemma a2b_char [simp]:
  "n < 64 \<Longrightarrow> a2b q left pads (b64_char n # cs) =
    (if q = 0 then a2b 1 n 0 cs
     else if q = 1 then map_option (\<lambda>s. char_of (left * 4 + n div 16) # s) (a2b 2 (n mod 16) 0 cs)
     else if q = 2 then map_option (\<lambda>s. char_of (left * 16 + n div 4) # s) (a2b 3 (n mod 4) 0 cs)
     else map_option (\<lambda>s. char_of (left * 64 + n) # s) (a2b 0 0 0 cs))"
  by simp

lemma a2b_pad [simp]:
  "a2b q left pads (CHR ''='' # cs) =
    (if 2 \<le> q \<and> 4 \<le> q + Suc pads then Some [] else a2b q left (if 2 \<le> q then Suc pads else pads) cs)"
  by simp

declare a2b.simps(2) [simp del]

lemma code_zero [simp]: "code (CHR 0x00) = 0"
  by (simp add: code_def)

lemma a2b_encode: "a2b 0 0 0 (urlsafe_b64encode raw) = Some raw"
proof (induction raw rule: urlsafe_b64encode.induct)
  case (2 a)
  show ?case using sextets(1)[of a "CHR 0x00"] by simp
next
  case (3 a b)
  show ?case using sextets(1)[of a b] sextets(2)[of a b "CHR 0x00"]
    by simp
next
  case (4 a b c raw)
  then show ?case using sextets[of a b] sextets[of b c] by simp
qed simp

text \<open>Dropping the padding and restoring it gives the padded text back.\<close>

lemma encode_shape:
  "\<exists>body n. urlsafe_b64encode raw = body @ replicate n (CHR ''='') \<and> CHR ''='' \<notin> set body \<and>
     n = nat (- int (length body) mod 4)"
proof (induction raw rule: urlsafe_b64encode.induct)
  case (2 a)
  show ?case
    by (intro exI[of _ "[b64_char (code a div 4), b64_char (code a mod 4 * 16)]"] exI[of _ 2])
      (simp add: numeral_2_eq_2)
next
  case (3 a b)
  show ?case
    by (intro exI[of _ "[b64_char (code a div 4), b64_char (code a mod 4 * 16 + code b div 16),
      b64_char (code b mod 16 * 4)]"] exI[of _ 1]) simp
next
  case (4 a b c raw)
  then obtain body n where *: "urlsafe_b64encode raw = body @ replicate n (CHR ''='')"
    "CHR ''='' \<notin> set body" "n = nat (- int (length body) mod 4)" by (elim exE conjE)
  have "- int (4 + length body) mod 4 = - int (length body) mod 4" by presburger
  then show ?case using *
    by (intro exI[of _ "[b64_char (code a div 4), b64_char (code a mod 4 * 16 + code b div 16),
      b64_char (code b mod 16 * 4 + code c div 64), b64_char (code c mod 64)] @ body"] exI[of _ n] conjI)
      simp_all
qed simp

lemma drop_pad: "dropWhile (\<lambda>c. c = x) (replicate n x @ s) = dropWhile (\<lambda>c. c = x) s"
  by (induction n) auto

lemma rstrip_eq_append: "CHR ''='' \<notin> set body \<Longrightarrow> rstrip_eq (body @ replicate n (CHR ''='')) = body"
proof -
  assume "CHR ''='' \<notin> set body"
  then have "dropWhile (\<lambda>c. c = CHR ''='') (rev body) = rev body"
    by (cases body rule: rev_cases) auto
  then show ?thesis by (simp add: rstrip_eq_def drop_pad)
qed

lemma b64_char_ascii: "is_ascii (urlsafe_b64encode raw)"
  by (induction raw rule: urlsafe_b64encode.induct) (simp_all add: is_ascii_def b64_char_code, simp_all add: code_def)

lemma b64url_encode_alphabet: "c \<in> set (b64url_encode raw) \<Longrightarrow> \<exists>n < 64. c = b64_char n"
proof -
  have "set (urlsafe_b64encode raw) \<subseteq> insert (CHR ''='') (b64_char ` {..<64})"
    by (induction raw rule: urlsafe_b64encode.induct) (auto intro!: imageI)
  moreover obtain body n where "urlsafe_b64encode raw = body @ replicate n (CHR ''='')"
    "CHR ''='' \<notin> set body" using encode_shape by blast
  moreover assume "c \<in> set (b64url_encode raw)"
  ultimately show ?thesis by (auto simp: b64url_encode_def rstrip_eq_append)
qed

theorem b64url_roundtrip: "b64url_decode (b64url_encode raw) = Some raw"
proof -
  obtain body n where *: "urlsafe_b64encode raw = body @ replicate n (CHR ''='')"
    "CHR ''='' \<notin> set body" "n = nat (- int (length body) mod 4)" using encode_shape by blast
  then have "b64url_encode raw = body" by (simp add: b64url_encode_def rstrip_eq_append)
  then show ?thesis using * b64_char_ascii[of raw] a2b_encode[of raw]
    by (simp add: b64url_decode_def urlsafe_b64decode_def)
qed

end
