(* ===== verification/Json_Parse.thy ===== *)
theory Json_Parse
  imports Json
begin

text \<open>
  Python's \<open>json.loads\<close>, and that it reads back what \<open>json.dumps\<close> of \<^theory_text>\<open>Json\<close> writes.  The
  reader is the recursive descent of \<open>json.scanner\<close>: whitespace is blank, tab, CR and LF; control
  characters are not allowed in strings; a repeated key keeps its place and takes the last value;
  \<open>NaN\<close>, \<open>Infinity\<close> and \<open>-Infinity\<close> are accepted; an integer has at most 4300 digits.  \<open>ft\<close> gives
  \<open>float.__repr__\<close> of the float a decimal numeral denotes.  \<open>None\<close> is a \<open>ValueError\<close>; a text that
  denotes characters beyond 255 is outside the modelled strings and reads as \<open>None\<close> too.  The fuel of
  the descent bounds the calls, of which a text of \<open>n\<close> characters makes at most \<open>2 * n + 2\<close>.
\<close>

fun skip_ws :: "string \<Rightarrow> string" where
  "skip_ws [] = []"
| "skip_ws (c # cs) = (if code c \<in> {9, 10, 13, 32} then skip_ws cs else c # cs)"

definition hex_value :: "char \<Rightarrow> nat option" where
  "hex_value c =
     (if is_digit c then Some (code c - 48)
      else if 97 \<le> code c \<and> code c \<le> 102 then Some (code c - 87)
      else if 65 \<le> code c \<and> code c \<le> 70 then Some (code c - 55)
      else None)"

definition hex4 :: "char \<Rightarrow> char \<Rightarrow> char \<Rightarrow> char \<Rightarrow> nat option" where
  "hex4 a b c d =
     (case (hex_value a, hex_value b, hex_value c, hex_value d) of
        (Some w, Some x, Some y, Some z) \<Rightarrow> Some (((w * 16 + x) * 16 + y) * 16 + z)
      | _ \<Rightarrow> None)"

definition short_escape :: "char \<Rightarrow> char option" where
  "short_escape c =
     map_of [(CHR 0x22, CHR 0x22), (CHR 0x5C, CHR 0x5C), (CHR ''/'', CHR ''/''), (CHR ''b'', CHR 0x08),
       (CHR ''f'', CHR 0x0C), (CHR ''n'', CHR 0x0A), (CHR ''r'', CHR 0x0D), (CHR ''t'', CHR 0x09)] c"

definition push_char :: "char \<Rightarrow> (string \<times> string) option \<Rightarrow> (string \<times> string) option" where
  "push_char c = map_option (\<lambda>(s, rest). (c # s, rest))"

text \<open>The characters up to the closing quote, and what follows it.\<close>

fun scan_string :: "string \<Rightarrow> (string \<times> string) option" where
  "scan_string [] = None"
| "scan_string (c # cs) =
     (if code c = 34 then Some ([], cs)
      else if code c = 92 then
        (case cs of
           [] \<Rightarrow> None
         | e # es \<Rightarrow>
             (case short_escape e of
                Some d \<Rightarrow> push_char d (scan_string es)
              | None \<Rightarrow>
                  if e = CHR ''u'' then
                    (case es of
                       h1 # h2 # h3 # h4 # hs \<Rightarrow>
                         (case hex4 h1 h2 h3 h4 of
                            None \<Rightarrow> None
                          | Some n \<Rightarrow> if n < 256 then push_char (char_of n) (scan_string hs) else None)
                     | _ \<Rightarrow> None)
                  else None))
      else if code c < 32 then None
      else push_char c (scan_string cs))"

definition scan_fraction :: "string \<Rightarrow> string \<times> string" where
  "scan_fraction s =
     (case s of
        c # d # cs \<Rightarrow>
          if c = CHR ''.'' \<and> is_digit d
          then (c # takeWhile is_digit (d # cs), dropWhile is_digit (d # cs)) else ([], s)
      | _ \<Rightarrow> ([], s))"

definition scan_exponent :: "string \<Rightarrow> string \<times> string" where
  "scan_exponent s =
     (case s of
        [] \<Rightarrow> ([], s)
      | c # cs \<Rightarrow>
          let sign = (case cs of d # _ \<Rightarrow> if d = CHR ''+'' \<or> d = CHR ''-'' then [d] else [] | [] \<Rightarrow> []);
              ds = drop (length sign) cs in
          if (c = CHR ''e'' \<or> c = CHR ''E'') \<and> takeWhile is_digit ds \<noteq> []
          then (c # sign @ takeWhile is_digit ds, dropWhile is_digit ds) else ([], s))"

definition scan_int :: "string \<Rightarrow> (string \<times> string) option" where
  "scan_int s =
     (case s of
        [] \<Rightarrow> None
      | c # cs \<Rightarrow>
          if c = CHR ''0'' then Some ([c], cs)
          else if is_digit c then Some (takeWhile is_digit s, dropWhile is_digit s) else None)"

definition scan_number :: "(string \<Rightarrow> string) \<Rightarrow> string \<Rightarrow> (json \<times> string) option" where
  "scan_number ft s =
     (let neg = startswith s ''-'' in
      case scan_int (if neg then tl s else s) of
        None \<Rightarrow> None
      | Some (digits, r1) \<Rightarrow>
          (case scan_fraction r1 of (fr, r2) \<Rightarrow>
           (case scan_exponent r2 of (ex, r3) \<Rightarrow>
              if fr = [] \<and> ex = [] then
                if 4300 < length digits then None
                else Some (JInt ((if neg then -1 else 1) * int (nat_of_digits digits)), r3)
              else Some (JFloat (ft ((if neg then ''-'' else []) @ digits @ fr @ ex)), r3))))"

definition keyword :: "string \<Rightarrow> (string \<times> json) option" where
  "keyword s =
     find (\<lambda>(w, j). startswith s w)
       [(''null'', JNull), (''true'', JBool True), (''false'', JBool False), (''NaN'', JFloat ''NaN''),
        (''Infinity'', JFloat ''Infinity''), (''-Infinity'', JFloat ''-Infinity'')]"

definition build_object :: "(string \<times> json) list \<Rightarrow> json" where
  "build_object kvs = JObj (fold (\<lambda>(k, v). AList.update k v) kvs [])"

fun json_value :: "(string \<Rightarrow> string) \<Rightarrow> nat \<Rightarrow> string \<Rightarrow> (json \<times> string) option"
and json_elements :: "(string \<Rightarrow> string) \<Rightarrow> nat \<Rightarrow> string \<Rightarrow> (json list \<times> string) option"
and json_members :: "(string \<Rightarrow> string) \<Rightarrow> nat \<Rightarrow> string \<Rightarrow> ((string \<times> json) list \<times> string) option" where
  "json_value ft 0 s = None"
| "json_value ft (Suc n) [] = None"
| "json_value ft (Suc n) (c # cs) =
     (if code c = 34 then map_option (\<lambda>(t, rest). (JStr t, rest)) (scan_string cs)
      else if c = CHR ''{'' then
        (case skip_ws cs of
           [] \<Rightarrow> None
         | d # ds \<Rightarrow>
             if d = CHR ''}'' then Some (JObj [], ds)
             else map_option (\<lambda>(kvs, rest). (build_object kvs, rest)) (json_members ft n (d # ds)))
      else if c = CHR ''['' then
        (case skip_ws cs of
           [] \<Rightarrow> None
         | d # ds \<Rightarrow>
             if d = CHR '']'' then Some (JArr [], ds)
             else map_option (\<lambda>(xs, rest). (JArr xs, rest)) (json_elements ft n (d # ds)))
      else
        (case keyword (c # cs) of
           Some (w, j) \<Rightarrow> Some (j, drop (length w) (c # cs))
         | None \<Rightarrow> scan_number ft (c # cs)))"
| "json_elements ft 0 s = None"
| "json_elements ft (Suc n) s =
     (case json_value ft n s of
        None \<Rightarrow> None
      | Some (j, rest) \<Rightarrow>
          (case skip_ws rest of
             [] \<Rightarrow> None
           | d # ds \<Rightarrow>
               if d = CHR '']'' then Some ([j], ds)
               else if d = CHR '','' then
                 map_option (\<lambda>(js, rest). (j # js, rest)) (json_elements ft n (skip_ws ds))
               else None))"
| "json_members ft 0 s = None"
| "json_members ft (Suc n) s =
     (case s of
        [] \<Rightarrow> None
      | q # qs \<Rightarrow>
          if code q \<noteq> 34 then None
          else
            (case scan_string qs of
               None \<Rightarrow> None
             | Some (k, r1) \<Rightarrow>
                 (case skip_ws r1 of
                    [] \<Rightarrow> None
                  | p # ps \<Rightarrow>
                      if p \<noteq> CHR '':'' then None
                      else
                        (case json_value ft n (skip_ws ps) of
                           None \<Rightarrow> None
                         | Some (j, r2) \<Rightarrow>
                             (case skip_ws r2 of
                                [] \<Rightarrow> None
                              | d # ds \<Rightarrow>
                                  if d = CHR ''}'' then Some ([(k, j)], ds)
                                  else if d = CHR '','' then
                                    map_option (\<lambda>(kvs, rest). ((k, j) # kvs, rest))
                                      (json_members ft n (skip_ws ds))
                                  else None)))))"

definition json_loads :: "(string \<Rightarrow> string) \<Rightarrow> string \<Rightarrow> json option" where
  "json_loads ft s =
     (case json_value ft (2 * length s + 2) (skip_ws s) of
        None \<Rightarrow> None
      | Some (j, rest) \<Rightarrow> if skip_ws rest = [] then Some j else None)"

text \<open>Bytes are decoded first: as UTF-8, unless a leading NUL or byte-order mark says otherwise.\<close>

fun utf8_decode :: "string \<Rightarrow> string option" where
  "utf8_decode [] = Some []"
| "utf8_decode (c # cs) =
     (if code c < 128 then map_option ((#) c) (utf8_decode cs)
      else
        (case cs of
           [] \<Rightarrow> None
         | d # ds \<Rightarrow>
             if (code c = 194 \<or> code c = 195) \<and> 128 \<le> code d \<and> code d < 192
             then map_option ((#) (char_of ((code c - 192) * 64 + code d - 128))) (utf8_decode ds)
             else None))"

definition json_loads_bytes :: "(string \<Rightarrow> string) \<Rightarrow> string \<Rightarrow> json option" where
  "json_loads_bytes ft raw =
     (if CHR 0x00 \<in> set (take 2 raw) then None
      else (case utf8_decode raw of None \<Rightarrow> None | Some s \<Rightarrow> json_loads ft s))"

section \<open>Reading back what was written\<close>

fun json_canon :: "json \<Rightarrow> json" where
  "json_canon (JArr xs) = JArr (map json_canon xs)"
| "json_canon (JObj kvs) = JObj (sort_key fst (map (\<lambda>(k, v). (k, json_canon v)) kvs))"
| "json_canon j = j"

text \<open>No float, and the keys of every object are distinct.\<close>

fun json_plain :: "json \<Rightarrow> bool" where
  "json_plain (JFloat t) \<longleftrightarrow> False"
| "json_plain (JInt i) \<longleftrightarrow> length (str_of_int i) \<le> 4300"
| "json_plain (JArr xs) \<longleftrightarrow> list_all json_plain xs"
| "json_plain (JObj kvs) \<longleftrightarrow> distinct (map fst kvs) \<and> list_all (\<lambda>(k, v). json_plain v) kvs"
| "json_plain _ \<longleftrightarrow> True"

text \<open>What \<open>float.__repr__\<close> writes for a finite float: an integer part, then a fraction, an exponent or
  both.\<close>

definition float_fraction :: "string \<Rightarrow> bool" where
  "float_fraction fr \<longleftrightarrow> fr = [] \<or> (\<exists>d ds. fr = CHR ''.'' # d # ds \<and> list_all is_digit (d # ds))"

definition float_exponent :: "string \<Rightarrow> bool" where
  "float_exponent ex \<longleftrightarrow> ex = [] \<or> (\<exists>esign d ds. ex = CHR ''e'' # esign @ d # ds \<and> esign \<in> {''+'', ''-''} \<and>
     list_all is_digit (d # ds))"

definition finite_float_text :: "string \<Rightarrow> bool" where
  "finite_float_text t \<longleftrightarrow>
     (\<exists>sign n fr ex. t = sign @ str_of_nat n @ fr @ ex \<and> (sign = [] \<or> sign = ''-'') \<and>
        float_fraction fr \<and> float_exponent ex \<and> (fr \<noteq> [] \<or> ex \<noteq> []))"

text \<open>What reads back as written: the keys of every object are distinct, and every float is finite and its
  text, read as a numeral, gives that text again.\<close>

fun json_readable :: "(string \<Rightarrow> string) \<Rightarrow> json \<Rightarrow> bool" where
  "json_readable ft (JFloat t) \<longleftrightarrow> finite_float_text t \<and> ft t = t"
| "json_readable ft (JInt i) \<longleftrightarrow> length (str_of_int i) \<le> 4300"
| "json_readable ft (JArr xs) \<longleftrightarrow> list_all (json_readable ft) xs"
| "json_readable ft (JObj kvs) \<longleftrightarrow> distinct (map fst kvs) \<and> list_all (\<lambda>(k, v). json_readable ft v) kvs"
| "json_readable ft _ \<longleftrightarrow> True"

lemma plain_readable: "json_plain j \<Longrightarrow> json_readable ft j"
  by (induction j) (auto simp: list_all_iff)

lemma hex_value_digit [simp]: "n < 16 \<Longrightarrow> hex_value (hex_digit n) = Some n"
  by (auto simp: hex_value_def hex_digit_def is_digit_def)

lemma hex4_low [simp]: "hex4 (CHR ''0'') (CHR ''0'') (hex_digit (code c div 16)) (hex_digit (code c mod 16)) = Some (code c)"
proof -
  have "hex_value (CHR ''0'') = Some 0" by (simp add: hex_value_def is_digit_def code_def)
  moreover have "code c div 16 < 16" by (simp add: less_mult_imp_div_less)
  ultimately show ?thesis by (simp add: hex4_def div_mult_mod_eq)
qed

lemma scan_short:
  "short_escape e = Some d \<Longrightarrow> scan_string (char_of (92::nat) # e # s) = push_char d (scan_string s)"
  by simp

lemma short_escapes:
  "short_escape (char_of (34::nat)) = Some (char_of (34::nat))"
  "short_escape (char_of (92::nat)) = Some (char_of (92::nat))"
  "short_escape (CHR ''n'') = Some (char_of (10::nat))"
  "short_escape (CHR ''r'') = Some (char_of (13::nat))"
  "short_escape (CHR ''t'') = Some (char_of (9::nat))"
  "short_escape (CHR ''f'') = Some (char_of (12::nat))"
  "short_escape (CHR ''b'') = Some (char_of (8::nat))"
  by code_simp+

lemma short_escape_u [simp]: "short_escape (CHR ''u'') = None"
  by code_simp

lemma code_eq_iff: "n < 256 \<Longrightarrow> code c = n \<longleftrightarrow> c = char_of n"
  by (auto simp: code_def)

lemma scan_escaped_char: "scan_string (json_escape_char c @ s) = push_char c (scan_string s)"
proof (cases "code c \<in> {34, 92, 10, 13, 9, 12, 8}")
  case True
  then show ?thesis
    by (auto simp: code_eq_iff json_escape_char_def scan_short[OF short_escapes(1)]
        scan_short[OF short_escapes(2)] scan_short[OF short_escapes(3)] scan_short[OF short_escapes(4)]
        scan_short[OF short_escapes(5)] scan_short[OF short_escapes(6)] scan_short[OF short_escapes(7)]
        simp del: scan_string.simps)
next
  case False
  show ?thesis
  proof (cases "32 \<le> code c \<and> code c \<le> 126")
    case True
    then show ?thesis using False by (simp add: json_escape_char_def)
  next
    case out: False
    then have "json_escape_char c = [char_of (92::nat), CHR ''u'', CHR ''0'', CHR ''0'',
        hex_digit (code c div 16), hex_digit (code c mod 16)]"
      using False by (simp add: json_escape_char_def)
    then show ?thesis by simp
  qed
qed

lemma scan_quoted: "scan_string (concat (map json_escape_char k) @ char_of (34::nat) # s) = Some (k, s)"
  by (induction k) (simp_all add: scan_escaped_char push_char_def)

lemma scan_json_quote: "scan_string (tl (json_quote k) @ s) = Some (k, s)"
  by (simp add: json_quote_def scan_quoted)

lemma json_quote_Cons: "json_quote k = char_of (34::nat) # tl (json_quote k)"
  by (simp add: json_quote_def)

lemma takeWhile_digits:
  "\<forall>c \<in> set ds. is_digit c \<Longrightarrow> (case rest of [] \<Rightarrow> True | c # _ \<Rightarrow> \<not> is_digit c) \<Longrightarrow>
   takeWhile is_digit (ds @ rest) = ds \<and> dropWhile is_digit (ds @ rest) = rest"
  by (induction ds) (auto split: list.splits)

text \<open>What may follow a value.\<close>

definition after_value :: "string \<Rightarrow> bool" where
  "after_value rest \<longleftrightarrow> (case rest of [] \<Rightarrow> True | c # _ \<Rightarrow> c \<in> {CHR '','', CHR '']'', CHR ''}''})"

lemma str_of_nat_zero: "hd (str_of_nat n) = CHR ''0'' \<Longrightarrow> str_of_nat n = ''0''"
proof (induction n rule: str_of_nat.induct)
  case (1 n)
  show ?case
  proof (cases "n < 10")
    case True
    then show ?thesis using 1(2) by (simp add: str_of_nat.simps[of n])
  next
    case False
    then have "hd (str_of_nat (n div 10)) = CHR ''0''" using 1(2) by (simp add: str_of_nat.simps[of n])
    then have "str_of_nat (n div 10) = ''0''" using 1(1) False by simp
    then have "n div 10 = nat_of_digits ''0''" by (metis nat_of_digits_str_of_nat)
    then show ?thesis using False by (simp add: nat_of_digits_def digit_value_def code_def)
  qed
qed

lemma scan_int_nat:
  assumes "after_value rest"
  shows "scan_int (str_of_nat n @ rest) = Some (str_of_nat n, rest)"
proof -
  obtain c cs where c: "str_of_nat n = c # cs" by (cases "str_of_nat n") auto
  have d: "\<forall>c \<in> set (str_of_nat n). is_digit c" by (rule str_of_nat_digits)
  have r: "case rest of [] \<Rightarrow> True | c # _ \<Rightarrow> \<not> is_digit c"
    using assms by (auto simp: after_value_def is_digit_def code_def split: list.splits)
  show ?thesis
  proof (cases "c = CHR ''0''")
    case True
    then have "str_of_nat n = ''0''" using str_of_nat_zero[of n] c by simp
    then show ?thesis by (simp add: scan_int_def)
  next
    case False
    then show ?thesis using takeWhile_digits[OF d r] c d by (simp add: scan_int_def)
  qed
qed

lemma scan_number_int:
  assumes "after_value rest" "length (str_of_int i) \<le> 4300"
  shows "scan_number ft (str_of_int i @ rest) = Some (JInt i, rest)"
proof -
  have f: "scan_fraction rest = ([], rest)" "scan_exponent rest = ([], rest)"
    using assms(1) by (auto simp: after_value_def scan_fraction_def scan_exponent_def Let_def split: list.splits)
  obtain c cs where c: "str_of_nat (nat i) = c # cs" "is_digit c"
    using str_of_nat_digits[of "nat i"] by (cases "str_of_nat (nat i)") auto
  have "c \<noteq> CHR ''-''" using c(2) by (auto simp: is_digit_def code_def)
  then have n: "\<not> startswith (str_of_nat (nat i) @ rest) ''-''"
    unfolding c by (simp add: startswith_def)
  show ?thesis
  proof (cases "i < 0")
    case True
    then show ?thesis using assms(2) f scan_int_nat[OF assms(1), of "nat (- i)"]
      by (simp add: scan_number_def str_of_int_def startswith_def)
  next
    case False
    then show ?thesis using assms(2) f n scan_int_nat[OF assms(1), of "nat i"]
      by (simp add: scan_number_def str_of_int_def Let_def)
  qed
qed

lemma str_of_nat_first:
  obtains c cs where "str_of_nat n = c # cs" "is_digit c"
  using str_of_nat_digits[of n] by (cases "str_of_nat n") auto

text \<open>The first character of a written value decides which reader takes it.\<close>

lemma startswith_Cons [simp]: "startswith (c # s) (d # p) \<longleftrightarrow> c = d \<and> startswith s p"
  by (auto simp: startswith_def)

lemma startswith_Nil_Cons [simp]: "\<not> startswith [] (d # p)"
  by (simp add: startswith_def)

lemma keyword_digit: "is_digit d \<Longrightarrow> keyword (d # s) = None"
proof -
  assume "is_digit d"
  then have "d \<notin> {CHR ''n'', CHR ''t'', CHR ''f'', CHR ''N'', CHR ''I'', CHR ''-''}"
    by (auto simp: is_digit_def code_def)
  then show ?thesis by (simp add: keyword_def)
qed

lemma keyword_minus: "is_digit e \<Longrightarrow> keyword (CHR ''-'' # e # s) = None"
proof -
  assume "is_digit e"
  then have "e \<noteq> CHR ''I''" by (auto simp: is_digit_def code_def)
  then show ?thesis by (simp add: keyword_def)
qed

lemma value_int:
  assumes "after_value rest" "length (str_of_int i) \<le> 4300"
  shows "json_value ft (Suc n) (str_of_int i @ rest) = Some (JInt i, rest)"
proof (cases "i < 0")
  case True
  obtain e es where "str_of_nat (nat (- i)) = e # es" "is_digit e" by (rule str_of_nat_first)
  then have "str_of_int i = CHR ''-'' # e # es" "is_digit e" using True by (simp_all add: str_of_int_def)
  then show ?thesis using scan_number_int[OF assms, of ft] by (simp add: keyword_minus code_def)
next
  case False
  obtain e es where "str_of_nat (nat i) = e # es" "is_digit e" by (rule str_of_nat_first)
  then have e: "str_of_int i = e # es" "is_digit e" using False by (simp_all add: str_of_int_def)
  then have "code e \<noteq> 34" "e \<noteq> CHR ''{''" "e \<noteq> CHR ''[''" by (auto simp: is_digit_def code_def)
  then show ?thesis using scan_number_int[OF assms, of ft] e by (simp add: keyword_digit)
qed

lemma after_value_scan:
  "after_value rest \<Longrightarrow> scan_fraction rest = ([], rest)"
  "after_value rest \<Longrightarrow> scan_exponent rest = ([], rest)"
  "after_value rest \<Longrightarrow> (case rest of [] \<Rightarrow> True | c # _ \<Rightarrow> \<not> is_digit c)"
  by (auto simp: after_value_def scan_fraction_def scan_exponent_def Let_def is_digit_def code_def split: list.splits)

lemma exponent_first: "float_exponent ex \<Longrightarrow> after_value rest \<Longrightarrow>
  (case ex @ rest of [] \<Rightarrow> True | c # _ \<Rightarrow> \<not> is_digit c \<and> c \<noteq> CHR ''.'')"
  by (auto simp: float_exponent_def after_value_def is_digit_def code_def split: list.splits)

lemma scan_exponent_float:
  assumes "float_exponent ex" "after_value rest"
  shows "scan_exponent (ex @ rest) = (ex, rest)"
proof (cases "ex = []")
  case True
  then show ?thesis using after_value_scan(2)[OF assms(2)] by simp
next
  case False
  then obtain esign d ds where ex: "ex = CHR ''e'' # esign @ d # ds" "esign \<in> {''+'', ''-''}"
    "list_all is_digit (d # ds)"
    using assms(1) by (auto simp: float_exponent_def)
  have "takeWhile is_digit ((d # ds) @ rest) = d # ds \<and> dropWhile is_digit ((d # ds) @ rest) = rest"
    using ex(3) after_value_scan(3)[OF assms(2)] by (intro takeWhile_digits) (auto simp: list_all_iff)
  then show ?thesis using ex(2) unfolding ex(1) by (auto simp: scan_exponent_def Let_def)
qed

lemma scan_fraction_float:
  assumes "float_fraction fr" "float_exponent ex" "after_value rest"
  shows "scan_fraction (fr @ ex @ rest) = (fr, ex @ rest)"
proof (cases "fr = []")
  case True
  then show ?thesis using exponent_first[OF assms(2,3)] by (auto simp: scan_fraction_def split: list.splits)
next
  case False
  then obtain d ds where fr: "fr = CHR ''.'' # d # ds" "list_all is_digit (d # ds)"
    using assms(1) by (auto simp: float_fraction_def)
  have "takeWhile is_digit ((d # ds) @ ex @ rest) = d # ds \<and> dropWhile is_digit ((d # ds) @ ex @ rest) = ex @ rest"
    using fr(2) exponent_first[OF assms(2,3)]
    by (intro takeWhile_digits) (auto simp: list_all_iff split: list.splits)
  then show ?thesis using fr by (simp add: scan_fraction_def)
qed

lemma scan_int_float:
  assumes "case rest of [] \<Rightarrow> True | c # _ \<Rightarrow> \<not> is_digit c"
  shows "scan_int (str_of_nat n @ rest) = Some (str_of_nat n, rest)"
proof -
  obtain c cs where c: "str_of_nat n = c # cs" "is_digit c" by (rule str_of_nat_first)
  show ?thesis
  proof (cases "c = CHR ''0''")
    case True
    then have "str_of_nat n = ''0''" using str_of_nat_zero[of n] c by simp
    then show ?thesis by (simp add: scan_int_def)
  next
    case False
    then show ?thesis using takeWhile_digits[OF str_of_nat_digits[of n] assms] c by (simp add: scan_int_def)
  qed
qed

lemma float_cases:
  assumes "finite_float_text t"
  obtains sign n fr ex where "t = sign @ str_of_nat n @ fr @ ex" "sign = [] \<or> sign = ''-''"
    "float_fraction fr" "float_exponent ex" "fr \<noteq> [] \<or> ex \<noteq> []"
  using assms unfolding finite_float_text_def by (elim exE conjE) (rule that)

lemma value_float:
  assumes "finite_float_text t" "ft t = t" "after_value rest"
  shows "json_value ft (Suc n) (t @ rest) = Some (JFloat t, rest)"
proof -
  obtain sign m fr ex where t: "t = sign @ str_of_nat m @ fr @ ex" "sign = [] \<or> sign = ''-''"
    "float_fraction fr" "float_exponent ex" "fr \<noteq> [] \<or> ex \<noteq> []"
    using assms(1) by (rule float_cases)
  obtain c cs where c: "str_of_nat m = c # cs" "is_digit c" by (rule str_of_nat_first)
  have first: "case fr @ ex @ rest of [] \<Rightarrow> True | c # _ \<Rightarrow> \<not> is_digit c"
  proof (cases "fr = []")
    case True
    then show ?thesis using exponent_first[OF t(4) assms(3)] by (auto split: list.splits)
  next
    case False
    then show ?thesis using t(3) by (auto simp: float_fraction_def is_digit_def code_def)
  qed
  have int: "scan_int (str_of_nat m @ fr @ ex @ rest) = Some (str_of_nat m, fr @ ex @ rest)"
    by (rule scan_int_float[OF first])
  have "\<not> startswith (str_of_nat m @ fr @ ex @ rest) ''-''"
    using c by (auto simp: startswith_def is_digit_def code_def)
  then have num: "scan_number ft (t @ rest) = Some (JFloat t, rest)"
    using t(2,5) assms(2) int scan_fraction_float[OF t(3,4) assms(3)] scan_exponent_float[OF t(4) assms(3)]
    unfolding t(1) by (auto simp: scan_number_def Let_def startswith_def)
  show ?thesis
    using t(2)
  proof
    assume "sign = []"
    then have "t @ rest = c # cs @ fr @ ex @ rest" using t(1) c by simp
    moreover have "code c \<noteq> 34" "c \<noteq> CHR ''{''" "c \<noteq> CHR ''[''" using c(2) by (auto simp: is_digit_def code_def)
    ultimately show ?thesis using num c(2) by (simp add: keyword_digit)
  next
    assume "sign = ''-''"
    then have "t @ rest = CHR ''-'' # c # cs @ fr @ ex @ rest" using t(1) c by simp
    then show ?thesis using num c(2) by (simp add: keyword_minus code_def)
  qed
qed

lemma float_text_first:
  assumes "finite_float_text t"
  obtains c cs where "t = c # cs" "c = CHR ''-'' \<or> is_digit c"
proof -
  obtain sign m fr ex where t: "t = sign @ str_of_nat m @ fr @ ex" "sign = [] \<or> sign = ''-''"
    using assms by (rule float_cases)
  obtain c cs where c: "str_of_nat m = c # cs" "is_digit c" by (rule str_of_nat_first)
  show ?thesis using t(2) that[of c "cs @ fr @ ex"] that[of "CHR ''-''" "str_of_nat m @ fr @ ex"] c unfolding t(1) by auto
qed

lemma value_keywords:
  "json_value ft (Suc n) (''null'' @ rest) = Some (JNull, rest)"
  "json_value ft (Suc n) (''true'' @ rest) = Some (JBool True, rest)"
  "json_value ft (Suc n) (''false'' @ rest) = Some (JBool False, rest)"
  by (simp_all add: keyword_def startswith_def code_def)

lemma value_string: "json_value ft (Suc n) (json_quote t @ rest) = Some (JStr t, rest)"
  by (subst json_quote_Cons) (simp add: scan_json_quote)

lemma skip_ws_fixed [simp]: "code c \<notin> {9, 10, 13, 32} \<Longrightarrow> skip_ws (c # cs) = c # cs"
  by simp

lemma after_value_simps [simp]:
  "after_value []" "after_value (CHR '','' # s)" "after_value (CHR '']'' # s)" "after_value (CHR ''}'' # s)"
  by (simp_all add: after_value_def)

definition reads :: "(string \<Rightarrow> string) \<Rightarrow> json \<Rightarrow> bool" where
  "reads ft j \<longleftrightarrow>
     (\<forall>n rest. 2 * length (json_dumps j) \<le> n \<longrightarrow> after_value rest \<longrightarrow>
        json_value ft n (json_dumps j @ rest) = Some (json_canon j, rest))"

lemma readsD:
  "reads ft j \<Longrightarrow> 2 * length (json_dumps j) \<le> n \<Longrightarrow> after_value rest \<Longrightarrow>
   json_value ft n (json_dumps j @ rest) = Some (json_canon j, rest)"
  by (simp add: reads_def)

lemma dumps_first:
  assumes "json_readable ft j"
  obtains c cs where "json_dumps j = c # cs" "code c \<notin> {9, 10, 13, 32}" "c \<noteq> CHR '']''"
proof (cases j)
  case (JFloat t)
  then have "finite_float_text t" using assms by simp
  then obtain c cs where c: "t = c # cs" "c = CHR ''-'' \<or> is_digit c" by (rule float_text_first)
  then have "c \<noteq> CHR '']''" "code c \<notin> {9, 10, 13, 32}" by (auto simp: is_digit_def code_def)
  then show ?thesis using that[of c cs] c(1) JFloat by simp
next
  case (JInt i)
  obtain c cs where c: "str_of_nat (nat i) = c # cs" "is_digit c" by (rule str_of_nat_first)
  then have "c \<noteq> CHR '']''" "code c \<notin> {9, 10, 13, 32}" by (auto simp: is_digit_def code_def)
  with c show ?thesis using that[of c cs] that[of "CHR ''-''"] JInt
    by (cases "i < 0") (simp_all add: str_of_int_def code_def)
next
  case (JStr t)
  have "char_of (34::nat) \<noteq> CHR '']''" by code_simp
  then show ?thesis using that[of "char_of (34::nat)"] JStr by (simp add: json_quote_def)
next
  case (JBool b)
  then show ?thesis using that by (cases b) (auto simp: code_def)
qed (use assms that in \<open>auto simp: code_def json_quote_def\<close>)

lemma read_elements:
  assumes "xs \<noteq> []" "list_all (reads ft) xs" "list_all (json_readable ft) xs"
    "2 * length (join '','' (map json_dumps xs)) < n"
  shows "json_elements ft n (join '','' (map json_dumps xs) @ CHR '']'' # rest) =
    Some (map json_canon xs, rest)"
  using assms
proof (induction xs arbitrary: n rule: list_nonempty_induct)
  case (single x)
  then obtain k where n: "n = Suc k" by (cases n) auto
  then show ?case using readsD[of ft x k "CHR '']'' # rest"] single by (simp add: code_def)
next
  case (cons x xs)
  then obtain y ys where xs: "xs = y # ys" by (cases xs) auto
  obtain k where n: "n = Suc k" using cons.prems by (cases n) auto
  let ?text = "join '','' (map json_dumps xs)"
  have len: "2 * length (json_dumps x) \<le> k" "2 * length ?text < k"
    using cons.prems(3) n unfolding xs by simp_all
  obtain c cs where c: "json_dumps y = c # cs" "code c \<notin> {9, 10, 13, 32}" "c \<noteq> CHR '']''"
    using dumps_first[of ft y] cons.prems(2) xs by (metis list.pred_inject(2))
  have "skip_ws (?text @ CHR '']'' # rest) = ?text @ CHR '']'' # rest"
    using c(1,2) unfolding xs by (cases ys) simp_all
  then show ?case
    using readsD[of ft x k "CHR '','' # ?text @ CHR '']'' # rest"] cons.IH[of k] cons.prems len n
    unfolding xs by (simp add: code_def)
qed

definition entry_text :: "string \<times> json \<Rightarrow> string" where
  "entry_text e = json_quote (fst e) @ '':'' @ json_dumps (snd e)"

lemma entry_text_first: "entry_text e = char_of (34::nat) # tl (json_quote (fst e)) @ '':'' @ json_dumps (snd e)"
  unfolding entry_text_def by (subst json_quote_Cons) simp

lemma entry_text_length: "length (json_dumps (snd e)) \<le> length (entry_text e)"
  by (simp add: entry_text_def)

lemma read_members:
  assumes "es \<noteq> []" "list_all (\<lambda>e. reads ft (snd e)) es" "list_all (\<lambda>e. json_readable ft (snd e)) es"
    "2 * length (join '','' (map entry_text es)) < n"
  shows "json_members ft n (join '','' (map entry_text es) @ CHR ''}'' # rest) =
    Some (map (\<lambda>e. (fst e, json_canon (snd e))) es, rest)"
  using assms
proof (induction es arbitrary: n rule: list_nonempty_induct)
  case (single e)
  then obtain k where n: "n = Suc k" by (cases n) auto
  obtain c cs where c: "json_dumps (snd e) = c # cs" "code c \<notin> {9, 10, 13, 32}" "c \<noteq> CHR '']''"
    using dumps_first[of ft "snd e"] single.prems by (metis list.pred_inject(2))
  have "skip_ws (json_dumps (snd e) @ CHR ''}'' # rest) = json_dumps (snd e) @ CHR ''}'' # rest"
    using c by simp
  then show ?case
    using readsD[of ft "snd e" k "CHR ''}'' # rest"] single n
    by (simp add: entry_text_first scan_json_quote code_def)
next
  case (cons e es)
  then obtain y ys where es: "es = y # ys" by (cases es) auto
  obtain k where n: "n = Suc k" using cons.prems by (cases n) auto
  let ?text = "join '','' (map entry_text es)"
  have len: "2 * length (json_dumps (snd e)) \<le> k" "2 * length ?text < k"
    using cons.prems(3) n entry_text_length[of e] unfolding es by simp_all
  obtain c cs where c: "json_dumps (snd e) = c # cs" "code c \<notin> {9, 10, 13, 32}" "c \<noteq> CHR '']''"
    using dumps_first[of ft "snd e"] cons.prems by (metis list.pred_inject(2))
  have "skip_ws (json_dumps (snd e) @ CHR '','' # s) = json_dumps (snd e) @ CHR '','' # s" for s
    using c by simp
  moreover have "skip_ws (?text @ CHR ''}'' # rest) = ?text @ CHR ''}'' # rest"
    unfolding es by (cases ys) (simp_all add: entry_text_first)
  moreover have "join '','' (map entry_text (e # es)) @ CHR ''}'' # rest =
      char_of (34::nat) # tl (json_quote (fst e)) @ CHR '':'' # json_dumps (snd e) @ CHR '','' # ?text @ CHR ''}'' # rest"
    unfolding es by (simp add: entry_text_first[of e])
  moreover have "json_value ft k (json_dumps (snd e) @ CHR '','' # ?text @ CHR ''}'' # rest) =
      Some (json_canon (snd e), CHR '','' # ?text @ CHR ''}'' # rest)"
    using cons.prems len(1) by (intro readsD) simp_all
  moreover have "json_members ft k (?text @ CHR ''}'' # rest) =
      Some (map (\<lambda>e. (fst e, json_canon (snd e))) es, rest)"
    using cons.IH[of k] cons.prems len(2) by simp
  ultimately show ?case unfolding n by (simp add: scan_json_quote code_def del: join.simps)
qed

lemma insort_key_map: "insort_key f (g x) (map g ys) = map g (insort_key (\<lambda>x. f (g x)) x ys)"
  by (induction ys) simp_all

lemma sort_key_map: "sort_key f (map g xs) = map g (sort_key (\<lambda>x. f (g x)) xs)"
  by (induction xs) (simp_all add: insort_key_map)

lemma dumps_object:
  "json_dumps (JObj kvs) = ''{'' @ join '','' (map entry_text (sort_key fst kvs)) @ ''}''"
proof -
  have "sort_key fst (map (\<lambda>(k, v). (k, json_quote k @ '':'' @ json_dumps v)) kvs) =
      map (\<lambda>e. (fst e, entry_text e)) (sort_key fst kvs)"
    by (simp add: entry_text_def case_prod_beta sort_key_map)
  then show ?thesis by (simp add: comp_def)
qed

lemma canon_object:
  "json_canon (JObj kvs) = JObj (map (\<lambda>e. (fst e, json_canon (snd e))) (sort_key fst kvs))"
  by (simp add: case_prod_beta sort_key_map)

lemma update_new: "k \<notin> fst ` set al \<Longrightarrow> AList.update k v al = al @ [(k, v)]"
  by (induction al) auto

lemma build_object_distinct:
  assumes "distinct (map fst es)"
  shows "build_object es = JObj es"
proof -
  have "fold (\<lambda>(k, v). AList.update k v) es acc = acc @ es"
    if "distinct (map fst es)" "fst ` set acc \<inter> fst ` set es = {}" for acc
    using that
  proof (induction es arbitrary: acc)
    case (Cons e es)
    have "AList.update (fst e) (snd e) acc = acc @ [e]"
      using Cons.prems(2) by (simp add: update_new)
    then show ?case using Cons by (simp add: case_prod_beta)
  qed simp
  from this[of "[]"] show ?thesis using assms by (simp add: build_object_def)
qed

lemma reads_Suc:
  assumes "json_dumps j \<noteq> []"
    and "\<And>n rest. after_value rest \<Longrightarrow> json_value ft (Suc n) (json_dumps j @ rest) = Some (json_canon j, rest)"
  shows "reads ft j"
  unfolding reads_def
proof (intro allI impI)
  fix n rest assume "2 * length (json_dumps j) \<le> n" "after_value rest"
  then show "json_value ft n (json_dumps j @ rest) = Some (json_canon j, rest)"
    using assms by (cases n) simp_all
qed

lemma reads_literal:
  "reads ft JNull" "reads ft (JBool b)" "reads ft (JStr t)"
  "length (str_of_int i) \<le> 4300 \<Longrightarrow> reads ft (JInt i)"
  by (rule reads_Suc; use value_keywords value_string value_int in
      \<open>simp add: json_quote_def str_of_int_def del: json_value.simps\<close>)+

lemma reads_array:
  assumes "list_all (reads ft) xs" "list_all (json_readable ft) xs"
  shows "reads ft (JArr xs)"
  unfolding reads_def
proof (intro allI impI)
  fix n rest assume n: "2 * length (json_dumps (JArr xs)) \<le> n" and rest: "after_value rest"
  then obtain k where k: "n = Suc k" by (cases n) auto
  show "json_value ft n (json_dumps (JArr xs) @ rest) = Some (json_canon (JArr xs), rest)"
  proof (cases xs)
    case Nil
    then show ?thesis using k by (simp add: code_def)
  next
    case (Cons x ys)
    let ?text = "join '','' (map json_dumps xs)"
    have "json_elements ft k (?text @ CHR '']'' # rest) = Some (map json_canon xs, rest)"
      using assms n k Cons by (intro read_elements) simp_all
    moreover obtain c cs where "json_dumps x = c # cs" "code c \<notin> {9, 10, 13, 32}" "c \<noteq> CHR '']''"
      using dumps_first[of ft x] assms(2) Cons by (metis list.pred_inject(2))
    then have "\<exists>d ds. ?text @ CHR '']'' # rest = d # ds \<and> d \<noteq> CHR '']'' \<and>
        skip_ws (?text @ CHR '']'' # rest) = d # ds"
      unfolding Cons by (cases ys) simp_all
    ultimately show ?thesis using k by (auto simp: code_def)
  qed
qed

lemma list_all_sorted: "list_all P (sort_key f xs) = list_all P xs"
  by (simp add: list_all_iff)

lemma reads_object:
  assumes "list_all (\<lambda>e. reads ft (snd e)) kvs" "list_all (\<lambda>e. json_readable ft (snd e)) kvs"
    "distinct (map fst kvs)"
  shows "reads ft (JObj kvs)"
  unfolding reads_def dumps_object canon_object
proof (intro allI impI)
  let ?es = "sort_key fst kvs"
  let ?text = "join '','' (map entry_text ?es)"
  fix n rest assume n: "2 * length (''{'' @ ?text @ ''}'') \<le> n" and rest: "after_value rest"
  then obtain k where k: "n = Suc k" by (cases n) auto
  have d: "distinct (map fst (map (\<lambda>e. (fst e, json_canon (snd e))) ?es))"
    using assms(3) by (simp add: comp_def distinct_map inj_on_def)
  show "json_value ft n ((''{'' @ ?text @ ''}'') @ rest) =
      Some (JObj (map (\<lambda>e. (fst e, json_canon (snd e))) ?es), rest)"
  proof (cases ?es)
    case Nil
    then show ?thesis using k by (simp add: code_def)
  next
    case (Cons e ys)
    have "json_members ft k (?text @ CHR ''}'' # rest) =
        Some (map (\<lambda>e. (fst e, json_canon (snd e))) ?es, rest)"
    proof (rule read_members)
      show "list_all (\<lambda>e. reads ft (snd e)) ?es" "list_all (\<lambda>e. json_readable ft (snd e)) ?es"
        using assms(1,2) by (simp_all only: list_all_sorted)
    qed (use n k Cons in simp_all)
    moreover have "\<exists>ds. ?text @ CHR ''}'' # rest = char_of (34::nat) # ds"
      unfolding Cons by (cases ys) (simp_all add: entry_text_first)
    moreover have "char_of (34::nat) \<noteq> CHR ''}''" by code_simp
    ultimately show ?thesis using k build_object_distinct[OF d] by (auto simp: code_def)
  qed
qed

lemma reads_float: "finite_float_text t \<Longrightarrow> ft t = t \<Longrightarrow> reads ft (JFloat t)"
proof (rule reads_Suc)
  assume t: "finite_float_text t" "ft t = t"
  obtain c cs where "t = c # cs" using t(1) by (rule float_text_first)
  then show "json_dumps (JFloat t) \<noteq> []" by simp
  show "json_value ft (Suc n) (json_dumps (JFloat t) @ rest) = Some (json_canon (JFloat t), rest)"
    if "after_value rest" for n rest
    using value_float[of t ft rest n] t that by simp
qed

lemma reads_readable: "json_readable ft j \<Longrightarrow> reads ft j"
proof (induction j)
  case (JObj kvs)
  then show ?case
    by (intro reads_object) (auto simp: list_all_iff case_prod_beta)
next
  case (JArr xs)
  then show ?case by (intro reads_array) (auto simp: list_all_iff)
qed (simp_all add: reads_literal reads_float)

lemma readable_roundtrip:
  assumes "json_readable ft j"
  shows "json_loads ft (json_dumps j) = Some (json_canon j)"
proof -
  obtain c cs where "json_dumps j = c # cs" "code c \<notin> {9, 10, 13, 32}" using assms by (rule dumps_first)
  then have "skip_ws (json_dumps j) = json_dumps j" by simp
  then show ?thesis
    using readsD[OF reads_readable[OF assms], of "2 * length (json_dumps j) + 2" "[]"]
    by (simp add: json_loads_def)
qed

theorem json_roundtrip:
  assumes "json_plain j"
  shows "json_loads ft (json_dumps j) = Some (json_canon j)"
  by (rule readable_roundtrip[OF plain_readable[OF assms]])

text \<open>A written text is printable ASCII, so its bytes decode to it.\<close>

lemma utf8_decode_ascii: "list_all (\<lambda>c. code c < 128) s \<Longrightarrow> utf8_decode s = Some s"
  by (induction s) simp_all

definition printable :: "string \<Rightarrow> bool" where
  "printable s \<longleftrightarrow> list_all (\<lambda>c. 32 \<le> code c \<and> code c < 128) s"

lemma printable_simps [simp]:
  "printable []" "printable (c # s) \<longleftrightarrow> 32 \<le> code c \<and> code c < 128 \<and> printable s"
  "printable (s @ t) \<longleftrightarrow> printable s \<and> printable t"
  by (auto simp: printable_def)

lemma printable_join: "printable sep \<Longrightarrow> list_all printable xs \<Longrightarrow> printable (join sep xs)"
  by (induction sep xs rule: join.induct) simp_all

lemma printable_hex: "n < 16 \<Longrightarrow> printable [hex_digit n]"
  by (simp add: hex_digit_def)

lemma escape_codes:
  "code (CHR ''u'') = 117" "code (CHR ''0'') = 48" "code (CHR ''n'') = 110" "code (CHR ''r'') = 114"
  "code (CHR ''t'') = 116" "code (CHR ''f'') = 102" "code (CHR ''b'') = 98"
  by (simp_all add: code_def)

lemma printable_escape: "printable (json_escape_char c)"
proof -
  have "printable [hex_digit (code c div 16)]" "printable [hex_digit (code c mod 16)]"
    by (rule printable_hex, simp add: less_mult_imp_div_less)+
  then show ?thesis unfolding json_escape_char_def
    by (simp add: escape_codes split del: if_split split: if_split)
qed

lemma printable_quote: "printable (json_quote s)"
proof -
  have "printable (concat (map json_escape_char s))" by (induction s) (simp_all add: printable_escape)
  then show ?thesis by (simp add: json_quote_def)
qed

lemma printable_digits: "printable (str_of_nat n)"
  using str_of_nat_digits[of n] by (auto simp: printable_def list_all_iff is_digit_def)

lemma printable_all_digits: "list_all is_digit ds \<Longrightarrow> printable ds"
  by (auto simp: printable_def list_all_iff is_digit_def)

lemma printable_float: "finite_float_text t \<Longrightarrow> printable t"
proof -
  assume "finite_float_text t"
  then obtain sign n fr ex where t: "t = sign @ str_of_nat n @ fr @ ex" "sign = [] \<or> sign = ''-''"
    "float_fraction fr" "float_exponent ex" by (rule float_cases)
  have "printable fr" using t(3) printable_all_digits by (auto simp: float_fraction_def code_def is_digit_def)
  moreover have "printable ex" using t(4) printable_all_digits by (auto simp: float_exponent_def code_def is_digit_def)
  ultimately show ?thesis using t(2) unfolding t(1) by (auto simp: printable_digits code_def)
qed

lemma printable_dumps: "json_readable ft j \<Longrightarrow> printable (json_dumps j)"
proof (induction j)
  case (JObj kvs)
  then have "list_all printable (map entry_text (sort_key fst kvs))"
    by (auto simp: list_all_iff entry_text_def printable_quote code_def)
  then show ?case unfolding dumps_object by (simp add: printable_join code_def)
next
  case (JArr xs)
  then have "list_all printable (map json_dumps xs)" by (auto simp: list_all_iff)
  then show ?case by (simp add: printable_join code_def)
qed (auto simp: str_of_int_def printable_digits printable_quote printable_float code_def)

theorem readable_bytes_roundtrip:
  assumes "json_readable ft j"
  shows "json_loads_bytes ft (json_dumps j) = Some (json_canon j)"
proof -
  note p = printable_dumps[OF assms]
  have "CHR 0x00 \<notin> set (json_dumps j)" using p by (auto simp: printable_def list_all_iff code_def)
  then have "CHR 0x00 \<notin> set (take 2 (json_dumps j))" by (meson in_set_takeD)
  moreover have "list_all (\<lambda>c. code c < 128) (json_dumps j)" using p by (simp add: printable_def list_all_iff)
  ultimately show ?thesis
    by (simp add: json_loads_bytes_def utf8_decode_ascii readable_roundtrip[OF assms])
qed

theorem json_bytes_roundtrip:
  assumes "json_plain j"
  shows "json_loads_bytes ft (json_dumps j) = Some (json_canon j)"
  by (rule readable_bytes_roundtrip[OF plain_readable[OF assms]])

end
