(* ===== verification/Access.thy ===== *)
theory Access
  imports Base64 Json_Parse Events
begin

text \<open>
  Session capabilities of the isolated agent host (\<open>diffuse_protocol/access.py\<close> and
  \<open>investigation.py\<close>, with the bearer check of \<open>investigation/context_api.py\<close>).

  Parameters: \<open>hmac key message\<close> is HMAC-SHA256 as bytes, \<open>sha256\<close> the hexadecimal digest of a
  string's UTF-8 bytes; \<open>ft\<close>, \<open>fint\<close> and \<open>fmicros\<close> are what Python does with a float: its \<open>repr\<close> for
  a numeral, \<open>int(x)\<close> and \<open>datetime.fromtimestamp(x, UTC)\<close> (or the exception they raise).  A key is
  its bytes, a moment its microseconds since the epoch.  Errors carry the check that failed instead
  of a worded message.
\<close>

section \<open>Runtimes and roles\<close>

definition AGENT_RUNTIME_NAMES :: "string list" where
  "AGENT_RUNTIME_NAMES = [''claude'', ''codex'']"

datatype investigation_role = Candidate | Verifier

definition parse_agent_runtime_name :: "string \<Rightarrow> string option" where
  "parse_agent_runtime_name value =
     (let normalized = lower (strip value) in
      if normalized \<in> set AGENT_RUNTIME_NAMES then Some normalized else None)"

definition opposite_agent_runtime :: "string \<Rightarrow> string option" where
  "opposite_agent_runtime value =
     map_option (\<lambda>runtime. if runtime = ''claude'' then ''codex'' else ''claude'')
       (parse_agent_runtime_name value)"

definition parse_agent_investigation_role :: "string \<Rightarrow> investigation_role option" where
  "parse_agent_investigation_role value =
     map_of [(''candidate'', Candidate), (''verifier'', Verifier)] (lower (strip value))"

record agent_runtime_config =
  rc_runtime :: string
  rc_turn_budget :: int
  rc_timeout_seconds :: int
  rc_max_result_bytes :: int

definition check_runtime_config :: "agent_runtime_config \<Rightarrow> string unit_result" where
  "check_runtime_config c =
     (if rc_runtime c \<notin> set AGENT_RUNTIME_NAMES then Inl ''runtime''
      else if rc_turn_budget c \<le> 0 then Inl ''turn_budget must be positive''
      else if rc_timeout_seconds c \<le> 0 then Inl ''timeout_seconds must be positive''
      else if rc_max_result_bytes c \<le> 0 then Inl ''max_result_bytes must be positive''
      else Inr ())"

section \<open>Scopes and capabilities\<close>

definition CAPABILITY_OPERATIONS :: "string set" where
  "CAPABILITY_OPERATIONS =
     set [''search_code'', ''get_diff'', ''get_file'', ''get_symbol'', ''get_pr_metadata'',
       ''list_prior_findings'', ''get_applicable_policy'']"

definition MAX_CAPABILITY_TTL :: time where
  "MAX_CAPABILITY_TTL = 15 * 60 * 1000000"

record session_scope =
  sc_repository_id :: int
  sc_pull_request_id :: int
  sc_snapshot_id :: int
  sc_head_sha :: string
  sc_operations :: "string set"

definition is_commit_id :: "string \<Rightarrow> bool" where
  "is_commit_id s \<longleftrightarrow> length s = 40 \<and> list_all is_hex_lower s"

text \<open>\<open>SessionScope.__post_init__\<close>; the scope it leaves has the normalised commit.\<close>

definition make_scope :: "session_scope \<Rightarrow> string + session_scope" where
  "make_scope s =
     (if sc_repository_id s \<le> 0 then Inl ''repository_id must be positive''
      else if sc_pull_request_id s \<le> 0 then Inl ''pull_request_id must be positive''
      else if sc_snapshot_id s \<le> 0 then Inl ''snapshot_id must be positive''
      else
        (let sha = lower (strip (sc_head_sha s));
             unknown = sorted_list_of_set (sc_operations s - CAPABILITY_OPERATIONS) in
         if \<not> is_commit_id sha
         then Inl ''head_sha must be a full 40-character hexadecimal git commit''
         else if unknown \<noteq> []
         then Inl (''operations contains unsupported values: '' @ join '', '' unknown)
         else if sc_operations s = {}
         then Inl ''operations must authorize at least one read-only tool''
         else Inr (s\<lparr>sc_head_sha := sha\<rparr>)))"

record session_capability =
  cap_id :: string
  cap_runtime :: string
  cap_scope :: session_scope
  cap_issued_at :: time
  cap_expires_at :: time
  cap_token_hash :: "string option"

definition allows :: "session_capability \<Rightarrow> string \<Rightarrow> bool" where
  "allows c operation \<longleftrightarrow> operation \<in> sc_operations (cap_scope c)"

datatype py_error = Type_error | Value_error | Overflow_error | Os_error

datatype malformed =
    Bad_shape | Bad_signature | Bad_json | Not_object | Incomplete | Bad_version | Bad_id
  | Bad_runtime | Bad_scope

datatype mismatch =
    Other_runtime | Other_repository | Other_pull_request | Other_snapshot | Other_head_sha
  | Not_an_operation | Not_authorized

datatype capability_error =
    Malformed malformed
  | Expired
  | Scope_mismatch mismatch
  | Refused string
  | Escapes py_error

section \<open>Minting\<close>

text \<open>\<open>int(moment.timestamp())\<close>\<close>

definition whole_seconds :: "time \<Rightarrow> int" where
  "whole_seconds t = (if 0 \<le> t then t div 1000000 else - ((- t) div 1000000))"

definition last_moment :: time where
  "last_moment = 253402300799 * 1000000 + 999999"

definition capability_payload :: "string \<Rightarrow> string \<Rightarrow> session_scope \<Rightarrow> time \<Rightarrow> time \<Rightarrow> json" where
  "capability_payload token_id runtime scope issued_at expires_at =
     JObj
       [(''v'', JInt 1),
        (''jti'', JStr token_id),
        (''runtime'', JStr runtime),
        (''repository_id'', JInt (sc_repository_id scope)),
        (''pull_request_id'', JInt (sc_pull_request_id scope)),
        (''snapshot_id'', JInt (sc_snapshot_id scope)),
        (''head_sha'', JStr (sc_head_sha scope)),
        (''operations'', JStrs (sorted_list_of_set (sc_operations scope))),
        (''iat'', JInt (whole_seconds issued_at)),
        (''exp'', JInt (whole_seconds expires_at))]"

definition capability_token :: "(string \<Rightarrow> string \<Rightarrow> string) \<Rightarrow> string \<Rightarrow> json \<Rightarrow> string" where
  "capability_token hmac key payload =
     (let body = b64url_encode (json_dumps payload) in
      ''diffuse-cap.'' @ body @ ''.'' @ b64url_encode (hmac key body))"

definition mint_session_capability ::
    "(string \<Rightarrow> string \<Rightarrow> string) \<Rightarrow> (string \<Rightarrow> string) \<Rightarrow> string \<Rightarrow> string \<Rightarrow> string \<Rightarrow> session_scope \<Rightarrow>
     time \<Rightarrow> time \<Rightarrow> string option \<Rightarrow> capability_error + string \<times> session_capability" where
  "mint_session_capability hmac sha256 fresh key runtime scope ttl now capability_id =
     (if key = [] then Inl (Refused ''signing_key must be non-empty'')
      else if ttl \<le> 0 then Inl (Refused ''ttl must be positive'')
      else if MAX_CAPABILITY_TTL < ttl then Inl (Refused ''ttl must not exceed 900 seconds'')
      else
        (case parse_agent_runtime_name runtime of
           None \<Rightarrow> Inl (Refused ''runtime'')
         | Some selected \<Rightarrow>
             let expires_at = now + ttl;
                 token_id = (case capability_id of None \<Rightarrow> fresh | Some i \<Rightarrow> if i = [] then fresh else i);
                 token = capability_token hmac key
                   (capability_payload token_id selected scope now expires_at) in
             if last_moment < expires_at then Inl (Escapes Overflow_error)
             else Inr (token,
               \<lparr>cap_id = token_id, cap_runtime = selected, cap_scope = scope, cap_issued_at = now,
                cap_expires_at = expires_at, cap_token_hash = Some (sha256 token)\<rparr>)))"

section \<open>Verifying\<close>

definition parse_payload ::
    "(string \<Rightarrow> string \<Rightarrow> string) \<Rightarrow> (string \<Rightarrow> string) \<Rightarrow> string \<Rightarrow> string \<Rightarrow>
     capability_error + (string \<times> json) list" where
  "parse_payload hmac ft token key =
     (case split_on (CHR ''.'') token of
        [lead, body, signature] \<Rightarrow>
          if lead \<noteq> ''diffuse-cap'' then Inl (Malformed Bad_shape)
          else if \<not> is_ascii body then Inl (Escapes Value_error)
          else if \<not> is_ascii signature then Inl (Escapes Type_error)
          else if signature \<noteq> b64url_encode (hmac key body) then Inl (Malformed Bad_signature)
          else
            (case b64url_decode body of
               None \<Rightarrow> Inl (Malformed Bad_json)
             | Some raw \<Rightarrow>
                 (case json_loads_bytes ft raw of
                    None \<Rightarrow> Inl (Malformed Bad_json)
                  | Some (JObj kvs) \<Rightarrow> Inr kvs
                  | Some _ \<Rightarrow> Inl (Malformed Not_object)))
      | _ \<Rightarrow> Inl (Malformed Bad_shape))"

text \<open>The elements of \<open>frozenset(value)\<close>; \<open>None\<close> is a \<open>TypeError\<close>.\<close>

definition frozenset_of :: "json \<Rightarrow> json list option" where
  "frozenset_of value =
     (case value of
        JArr xs \<Rightarrow>
          if list_ex (\<lambda>x. case x of JArr _ \<Rightarrow> True | JObj _ \<Rightarrow> True | _ \<Rightarrow> False) xs then None else Some xs
      | JStr s \<Rightarrow> Some (map (\<lambda>c. JStr [c]) s)
      | JObj kvs \<Rightarrow> Some (map (\<lambda>e. JStr (fst e)) kvs)
      | _ \<Rightarrow> None)"

definition from_timestamp :: "(string \<Rightarrow> py_error + time) \<Rightarrow> json \<Rightarrow> py_error + time" where
  "from_timestamp fmicros value =
     (let of_int = (\<lambda>i::int.
            if - 62135596800 \<le> i \<and> i \<le> 253402300799 then Inr (i * 1000000)
            else if - 67768040609740800 \<le> i \<and> i \<le> 67768036191676799 then Inl Value_error
            else if - (2 ^ 63) \<le> i \<and> i < 2 ^ 63 then Inl Os_error
            else Inl Overflow_error) in
      case value of
        JInt i \<Rightarrow> of_int i
      | JBool b \<Rightarrow> of_int (of_bool b)
      | JFloat t \<Rightarrow> fmicros t
      | _ \<Rightarrow> Inl Type_error)"

fun no_stray_underscore :: "bool \<Rightarrow> string \<Rightarrow> bool" where
  "no_stray_underscore after_digit [] = after_digit"
| "no_stray_underscore after_digit (c # cs) =
     (if c = CHR ''_'' then after_digit \<and> no_stray_underscore False cs
      else is_digit c \<and> no_stray_underscore True cs)"

text \<open>\<open>int(text)\<close>\<close>

definition int_of_text :: "string \<Rightarrow> int option" where
  "int_of_text s =
     (let t = strip s;
          digits = (if t \<noteq> [] \<and> (hd t = CHR ''-'' \<or> hd t = CHR ''+'') then tl t else t);
          plain = filter is_digit digits in
      if no_stray_underscore False digits \<and> length plain \<le> 4300
      then Some ((if t \<noteq> [] \<and> hd t = CHR ''-'' then -1 else 1) * int (nat_of_digits plain)) else None)"

definition int_of :: "(string \<Rightarrow> py_error + int) \<Rightarrow> json \<Rightarrow> py_error + int" where
  "int_of fint value =
     (case value of
        JInt i \<Rightarrow> Inr i
      | JBool b \<Rightarrow> Inr (of_bool b)
      | JFloat t \<Rightarrow> fint t
      | JStr s \<Rightarrow> (case int_of_text s of None \<Rightarrow> Inl Value_error | Some i \<Rightarrow> Inr i)
      | _ \<Rightarrow> Inl Type_error)"

text \<open>\<open>str(value)\<close>; of a list or an object only the bracket it starts with.\<close>

definition text_of :: "json \<Rightarrow> string" where
  "text_of value =
     (case value of
        JNull \<Rightarrow> ''None''
      | JBool b \<Rightarrow> if b then ''True'' else ''False''
      | JInt i \<Rightarrow> str_of_int i
      | JFloat t \<Rightarrow> t
      | JStr s \<Rightarrow> s
      | JArr _ \<Rightarrow> ''[''
      | JObj _ \<Rightarrow> ''{'')"

text \<open>An exception of a \<open>try\<close> block whose \<open>except\<close> clause names \<open>TypeError\<close> and \<open>ValueError\<close>.\<close>

definition caught :: "malformed \<Rightarrow> py_error \<Rightarrow> capability_error" where
  "caught m e = (if e = Type_error \<or> e = Value_error then Malformed m else Escapes e)"

definition guarded :: "malformed \<Rightarrow> py_error + 'a \<Rightarrow> ('a \<Rightarrow> capability_error + 'b) \<Rightarrow> capability_error + 'b" where
  "guarded m r f = (case r of Inl e \<Rightarrow> Inl (caught m e) | Inr x \<Rightarrow> f x)"

definition field :: "(string \<times> json) list \<Rightarrow> string \<Rightarrow> (json \<Rightarrow> capability_error + 'b) \<Rightarrow> capability_error + 'b" where
  "field kvs k f = (case map_of kvs k of None \<Rightarrow> Inl (Malformed Incomplete) | Some v \<Rightarrow> f v)"

definition is_version :: "json \<Rightarrow> bool" where
  "is_version v \<longleftrightarrow> v = JInt 1 \<or> v = JBool True \<or> v = JFloat ''1.0''"

definition string_elements :: "json list \<Rightarrow> string set option" where
  "string_elements xs =
     (if list_all (\<lambda>x. case x of JStr _ \<Rightarrow> True | _ \<Rightarrow> False) xs
      then Some (set (map text_of xs)) else None)"

text \<open>The scope of a payload: \<open>SessionScope(repository_id=int(\<dots>), \<dots>)\<close>.\<close>

definition payload_scope ::
    "(string \<Rightarrow> py_error + int) \<Rightarrow> json \<Rightarrow> json \<Rightarrow> json \<Rightarrow> json \<Rightarrow> json list \<Rightarrow> capability_error + session_scope" where
  "payload_scope fint repository pull_request snapshot head operations =
     guarded Bad_scope (int_of fint repository) (\<lambda>r.
     guarded Bad_scope (int_of fint pull_request) (\<lambda>p.
     guarded Bad_scope (int_of fint snapshot) (\<lambda>s.
       (case string_elements operations of
          None \<Rightarrow> Inl (Malformed Bad_scope)
        | Some names \<Rightarrow>
            (case make_scope \<lparr>sc_repository_id = r, sc_pull_request_id = p, sc_snapshot_id = s,
                sc_head_sha = text_of head, sc_operations = names\<rparr> of
               Inl _ \<Rightarrow> Inl (Malformed Bad_scope)
             | Inr scope \<Rightarrow> Inr scope)))))"

definition payload_capability ::
    "(string \<Rightarrow> py_error + int) \<Rightarrow> (string \<Rightarrow> py_error + time) \<Rightarrow> (string \<times> json) list \<Rightarrow>
     capability_error + session_capability" where
  "payload_capability fint fmicros kvs =
     field kvs ''v'' (\<lambda>version. field kvs ''jti'' (\<lambda>jti. field kvs ''runtime'' (\<lambda>runtime.
     field kvs ''repository_id'' (\<lambda>repository. field kvs ''pull_request_id'' (\<lambda>pull_request.
     field kvs ''snapshot_id'' (\<lambda>snapshot. field kvs ''head_sha'' (\<lambda>head.
     field kvs ''operations'' (\<lambda>ops.
       (case frozenset_of ops of
          None \<Rightarrow> Inl (Malformed Incomplete)
        | Some operations \<Rightarrow>
     field kvs ''iat'' (\<lambda>iat. guarded Incomplete (from_timestamp fmicros iat) (\<lambda>issued_at.
     field kvs ''exp'' (\<lambda>ex. guarded Incomplete (from_timestamp fmicros ex) (\<lambda>expires_at.
       if \<not> is_version version then Inl (Malformed Bad_version)
       else
         (case jti of
            JStr token_id \<Rightarrow>
              if token_id = [] then Inl (Malformed Bad_id)
              else
                (case runtime of
                   JStr name \<Rightarrow>
                     if name \<notin> set AGENT_RUNTIME_NAMES then Inl (Malformed Bad_runtime)
                     else bind_result (payload_scope fint repository pull_request snapshot head operations)
                       (\<lambda>scope. Inr \<lparr>cap_id = token_id, cap_runtime = name, cap_scope = scope,
                          cap_issued_at = issued_at, cap_expires_at = expires_at, cap_token_hash = None\<rparr>)
                 | _ \<Rightarrow> Inl (Malformed Bad_runtime))
          | _ \<Rightarrow> Inl (Malformed Bad_id)))))))))))))))"

record requirement =
  rq_operation :: "string option"
  rq_repository_id :: "int option"
  rq_pull_request_id :: "int option"
  rq_snapshot_id :: "int option"
  rq_head_sha :: "string option"
  rq_runtime :: "string option"

definition no_requirement :: requirement where
  "no_requirement = \<lparr>rq_operation = None, rq_repository_id = None, rq_pull_request_id = None,
     rq_snapshot_id = None, rq_head_sha = None, rq_runtime = None\<rparr>"

definition differs :: "'a option \<Rightarrow> 'a \<Rightarrow> bool" where
  "differs required actual = (case required of None \<Rightarrow> False | Some r \<Rightarrow> actual \<noteq> r)"

definition check_requirement :: "requirement \<Rightarrow> session_capability \<Rightarrow> capability_error unit_result" where
  "check_requirement q c =
     (let scope = cap_scope c in
      if rq_runtime q \<noteq> None \<and> parse_agent_runtime_name (the (rq_runtime q)) = None
      then Inl (Refused ''runtime'')
      else if rq_runtime q \<noteq> None \<and> parse_agent_runtime_name (the (rq_runtime q)) \<noteq> Some (cap_runtime c)
      then Inl (Scope_mismatch Other_runtime)
      else if differs (rq_repository_id q) (sc_repository_id scope)
      then Inl (Scope_mismatch Other_repository)
      else if differs (rq_pull_request_id q) (sc_pull_request_id scope)
      then Inl (Scope_mismatch Other_pull_request)
      else if differs (rq_snapshot_id q) (sc_snapshot_id scope)
      then Inl (Scope_mismatch Other_snapshot)
      else if differs (map_option (\<lambda>s. lower (strip s)) (rq_head_sha q)) (sc_head_sha scope)
      then Inl (Scope_mismatch Other_head_sha)
      else
        (case rq_operation q of
           None \<Rightarrow> Inr ()
         | Some operation \<Rightarrow>
             if operation \<notin> CAPABILITY_OPERATIONS then Inl (Scope_mismatch Not_an_operation)
             else if \<not> allows c operation then Inl (Scope_mismatch Not_authorized) else Inr ()))"

definition verify_session_capability ::
    "(string \<Rightarrow> string \<Rightarrow> string) \<Rightarrow> (string \<Rightarrow> string) \<Rightarrow> (string \<Rightarrow> string) \<Rightarrow>
     (string \<Rightarrow> py_error + int) \<Rightarrow> (string \<Rightarrow> py_error + time) \<Rightarrow>
     string \<Rightarrow> string \<Rightarrow> time \<Rightarrow> requirement \<Rightarrow> capability_error + session_capability" where
  "verify_session_capability hmac sha256 ft fint fmicros token key now q =
     (if key = [] then Inl (Refused ''signing_key must be non-empty'')
      else
        bind_result (parse_payload hmac ft token key) (\<lambda>kvs.
        bind_result (payload_capability fint fmicros kvs) (\<lambda>c.
          if cap_expires_at c \<le> now then Inl Expired
          else
            (let capability = c\<lparr>cap_token_hash := Some (sha256 token)\<rparr> in
             bind_result (check_requirement q capability) (\<lambda>_. Inr capability)))))"

section \<open>The bearer check of the tool endpoint\<close>

text \<open>\<open>_bearer_token\<close>: an HTTP status, or the token.\<close>

fun partition_space :: "string \<Rightarrow> string \<times> string" where
  "partition_space [] = ([], [])"
| "partition_space (c # cs) =
     (if c = CHR '' '' then ([], cs) else (case partition_space cs of (a, b) \<Rightarrow> (c # a, b)))"

definition bearer_token :: "string option \<Rightarrow> nat + string" where
  "bearer_token authorization =
     (case authorization of
        None \<Rightarrow> Inl 401
      | Some header \<Rightarrow>
          (case partition_space header of
             (scheme, token) \<Rightarrow> if lower scheme \<noteq> ''bearer'' \<or> token = [] then Inl 401 else Inr token))"

text \<open>\<open>session_capability_signing_key\<close>, of the value the environment variable has.\<close>

definition utf8_encode :: "string \<Rightarrow> string" where
  "utf8_encode s =
     concat (map (\<lambda>c. if code c < 128 then [c]
       else [char_of (192 + code c div 64), char_of (128 + code c mod 64)]) s)"

definition session_capability_signing_key :: "string \<Rightarrow> string option" where
  "session_capability_signing_key value =
     (if length (utf8_encode value) < 32 then None else Some (utf8_encode value))"

text \<open>\<open>_session_capability\<close>: what its handlers do not name is a server error.\<close>

fun status_of :: "capability_error \<Rightarrow> nat" where
  "status_of Expired = 401"
| "status_of (Scope_mismatch _) = 403"
| "status_of (Malformed _) = 401"
| "status_of (Refused _) = 401"
| "status_of (Escapes e) = (if e = Value_error then 401 else 500)"

definition session_capability_of ::
    "(string \<Rightarrow> string \<Rightarrow> string) \<Rightarrow> (string \<Rightarrow> string) \<Rightarrow> (string \<Rightarrow> string) \<Rightarrow>
     (string \<Rightarrow> py_error + int) \<Rightarrow> (string \<Rightarrow> py_error + time) \<Rightarrow>
     string \<Rightarrow> time \<Rightarrow> string option \<Rightarrow> nat + session_capability" where
  "session_capability_of hmac sha256 ft fint fmicros env now authorization =
     bind_result (bearer_token authorization) (\<lambda>token.
       case session_capability_signing_key env of
         None \<Rightarrow> Inl 401
       | Some key \<Rightarrow>
           (case verify_session_capability hmac sha256 ft fint fmicros token key now
                  (no_requirement\<lparr>rq_operation := Some ''search_code''\<rparr>) of
              Inl e \<Rightarrow> Inl (status_of e)
            | Inr c \<Rightarrow> Inr c))"

end
