(* ===== verification/Investigations.thy ===== *)
theory Investigations
  imports Access Rows
begin

text \<open>
  The durable lifecycle of agent investigations (\<open>database/agent_investigation.py\<close> over the table
  \<open>agent_investigations\<close>).  The table is a list of rows; \<open>now\<close> is the time of the transaction;
  \<open>sha256\<close> is the hexadecimal digest of bytes.  A session id is the canonical text of its UUID, so
  comparing texts is comparing UUIDs.  A statement that violates a CHECK or UNIQUE constraint raises
  \<open>Constraint_violated\<close> and leaves the table as it was; foreign keys are not modelled.
\<close>

datatype investigation_status =
  Dispatched | Accepted | Running | Completed | Failed | Cancelled | Expired_session

record investigation =
  iv_id :: string
  iv_review_job_id :: int
  iv_runtime :: string
  iv_repository_id :: int
  iv_pull_request_id :: int
  iv_snapshot_id :: int
  iv_base_sha :: string
  iv_head_sha :: string
  iv_capability_id :: string
  iv_capability_hash :: string
  iv_context_plan_fingerprint :: string
  iv_role :: investigation_role
  iv_turn_budget :: int
  iv_timeout_seconds :: int
  iv_max_result_bytes :: int
  iv_source_archive_digest :: string
  iv_source_manifest_digest :: string
  iv_input_result_digest :: "string option"
  iv_expires_at :: time
  iv_status :: investigation_status
  iv_result_digest :: "string option"
  iv_created_at :: time
  iv_completed_at :: "time option"
  iv_runner_id :: "string option"
  iv_accepted_at :: "time option"
  iv_started_at :: "time option"
  iv_last_heartbeat_at :: "time option"
  iv_cancel_requested_at :: "time option"
  iv_error_code :: "string option"

type_synonym investigations = "investigation list"

datatype investigation_error = Invalid string | Replay string | Constraint_violated

section \<open>Validation\<close>

definition is_sha256 :: "string \<Rightarrow> bool" where
  "is_sha256 s \<longleftrightarrow> length s = 64 \<and> list_all is_hex_lower s"

definition validated_sha1 :: "string \<Rightarrow> string \<Rightarrow> investigation_error + string" where
  "validated_sha1 field_name value =
     (let normalized = lower (strip value) in
      if is_commit_id normalized then Inr normalized else Inl (Invalid field_name))"

definition validated_sha256 :: "string \<Rightarrow> string \<Rightarrow> investigation_error + string" where
  "validated_sha256 field_name value =
     (let normalized = lower (strip value) in
      if is_sha256 normalized then Inr normalized else Inl (Invalid field_name))"

definition is_error_code :: "string \<Rightarrow> bool" where
  "is_error_code s \<longleftrightarrow>
     s \<noteq> [] \<and> is_lower_alpha (hd s) \<and> length s \<le> 100 \<and>
     list_all (\<lambda>c. is_lower_alpha c \<or> is_digit c \<or> c = CHR ''_'') (tl s)"

definition validated_error_code :: "string \<Rightarrow> investigation_error + string" where
  "validated_error_code value =
     (let normalized = lower (strip value) in
      if is_error_code normalized then Inr normalized else Inl (Invalid ''error_code''))"

text \<open>The CHECK constraints of the table.\<close>

definition row_ok :: "investigation \<Rightarrow> bool" where
  "row_ok r \<longleftrightarrow>
     iv_runtime r \<in> set AGENT_RUNTIME_NAMES \<and> is_commit_id (iv_head_sha r) \<and>
     is_sha256 (iv_capability_hash r) \<and> is_commit_id (iv_base_sha r) \<and>
     is_sha256 (iv_context_plan_fingerprint r) \<and>
     0 < iv_turn_budget r \<and> iv_turn_budget r < 2 ^ 31 \<and>
     0 < iv_timeout_seconds r \<and> iv_timeout_seconds r < 2 ^ 31 \<and>
     0 < iv_max_result_bytes r \<and> iv_max_result_bytes r < 2 ^ 31 \<and>
     is_sha256 (iv_source_archive_digest r) \<and> is_sha256 (iv_source_manifest_digest r) \<and>
     (case iv_input_result_digest r of
        None \<Rightarrow> iv_role r = Candidate
      | Some d \<Rightarrow> iv_role r = Verifier \<and> is_sha256 d) \<and>
     (case iv_error_code r of None \<Rightarrow> True | Some e \<Rightarrow> is_error_code e)"

definition open_status :: "investigation_status \<Rightarrow> bool" where
  "open_status s \<longleftrightarrow> s = Dispatched \<or> s = Accepted \<or> s = Running"

definition addressed :: "string \<Rightarrow> string \<Rightarrow> string \<Rightarrow> investigation \<Rightarrow> bool" where
  "addressed session_id runtime capability_id r \<longleftrightarrow>
     iv_id r = session_id \<and> iv_runtime r = runtime \<and> iv_capability_id r = capability_id"

section \<open>Dispatch\<close>

record dispatch_spec =
  ds_review_job_id :: int
  ds_base_sha :: string
  ds_context_plan_fingerprint :: string
  ds_role :: string
  ds_turn_budget :: int
  ds_timeout_seconds :: int
  ds_max_result_bytes :: int
  ds_source_archive_digest :: string
  ds_source_manifest_digest :: string
  ds_input_result_digest :: "string option"

record investigation_handle =
  hd_session_id :: string
  hd_runtime :: string
  hd_capability_id :: string
  hd_expires_at :: time

definition validated_input :: "investigation_role \<Rightarrow> string option \<Rightarrow> investigation_error + string option" where
  "validated_input role digest =
     (case role of
        Candidate \<Rightarrow> if digest \<noteq> None then Inl (Invalid ''input_result_digest'') else Inr None
      | Verifier \<Rightarrow>
          (case digest of
             None \<Rightarrow> Inl (Invalid ''input_result_digest'')
           | Some d \<Rightarrow> bind_result (validated_sha256 ''input_result_digest'' d) (\<lambda>v. Inr (Some v))))"

text \<open>The row inserted, of the validated values.\<close>

definition dispatch_row ::
    "string \<Rightarrow> time \<Rightarrow> session_capability \<Rightarrow> string \<Rightarrow> dispatch_spec \<Rightarrow> investigation_role \<Rightarrow> string option \<Rightarrow>
     string \<Rightarrow> string \<Rightarrow> string \<Rightarrow> string \<Rightarrow> investigation" where
  "dispatch_row session_id now capability token_hash spec role input base plan archive manifest =
     \<lparr>iv_id = session_id, iv_review_job_id = ds_review_job_id spec,
      iv_runtime = cap_runtime capability,
      iv_repository_id = sc_repository_id (cap_scope capability),
      iv_pull_request_id = sc_pull_request_id (cap_scope capability),
      iv_snapshot_id = sc_snapshot_id (cap_scope capability), iv_base_sha = base,
      iv_head_sha = sc_head_sha (cap_scope capability), iv_capability_id = cap_id capability,
      iv_capability_hash = token_hash, iv_context_plan_fingerprint = plan, iv_role = role,
      iv_turn_budget = ds_turn_budget spec, iv_timeout_seconds = ds_timeout_seconds spec,
      iv_max_result_bytes = ds_max_result_bytes spec, iv_source_archive_digest = archive,
      iv_source_manifest_digest = manifest, iv_input_result_digest = input,
      iv_expires_at = cap_expires_at capability, iv_status = Dispatched,
      iv_result_digest = None, iv_created_at = now, iv_completed_at = None,
      iv_runner_id = None, iv_accepted_at = None, iv_started_at = None,
      iv_last_heartbeat_at = None, iv_cancel_requested_at = None, iv_error_code = None\<rparr>"

definition create_agent_investigation ::
    "(string \<Rightarrow> string) \<Rightarrow> string \<Rightarrow> time \<Rightarrow> session_capability \<Rightarrow> string \<Rightarrow> dispatch_spec \<Rightarrow> investigations \<Rightarrow>
     investigation_error + investigation_handle \<times> investigations" where
  "create_agent_investigation sha256 session_id now capability token spec rows =
     (if ds_review_job_id spec \<le> 0 then Inl (Invalid ''review_job_id'')
      else if token = [] then Inl (Invalid ''capability_token'')
      else if ds_turn_budget spec \<le> 0 then Inl (Invalid ''turn_budget'')
      else if ds_timeout_seconds spec \<le> 0 then Inl (Invalid ''timeout_seconds'')
      else if ds_max_result_bytes spec \<le> 0 then Inl (Invalid ''max_result_bytes'')
      else
        (case parse_agent_investigation_role (ds_role spec) of
           None \<Rightarrow> Inl (Invalid ''role'')
         | Some role \<Rightarrow>
     bind_result (validated_sha1 ''base_sha'' (ds_base_sha spec)) (\<lambda>base.
     bind_result (validated_sha256 ''context_plan_fingerprint'' (ds_context_plan_fingerprint spec)) (\<lambda>plan.
     bind_result (validated_sha256 ''source_archive_digest'' (ds_source_archive_digest spec)) (\<lambda>archive.
     bind_result (validated_sha256 ''source_manifest_digest'' (ds_source_manifest_digest spec)) (\<lambda>manifest.
     bind_result (validated_input role (ds_input_result_digest spec)) (\<lambda>input.
       let row = dispatch_row session_id now capability (sha256 token) spec role input base plan archive manifest in
       if \<not> row_ok row \<or>
          list_ex (\<lambda>r. iv_id r = session_id \<or> iv_capability_id r = cap_id capability) rows
       then Inl Constraint_violated
       else Inr (\<lparr>hd_session_id = session_id, hd_runtime = cap_runtime capability,
               hd_capability_id = cap_id capability, hd_expires_at = cap_expires_at capability\<rparr>,
             rows @ [row]))))))))"

section \<open>Which review attempt a capability may write to\<close>

datatype review_status =
  Rv_generating | Rv_ready | Rv_skipped | Rv_publishing | Rv_published | Rv_failed | Rv_superseded

record review_row =
  rr_id :: int
  rr_workflow_job_id :: int
  rr_repository_id :: int
  rr_pull_request_id :: int
  rr_index_snapshot_id :: "int option"
  rr_head_sha :: string
  rr_status :: review_status
  rr_started_at :: time

record review_attempt =
  ra_review_run_id :: int
  ra_attempt_started_at :: time

definition attempt_matches ::
    "time \<Rightarrow> session_capability \<Rightarrow> string \<Rightarrow> investigation \<Rightarrow> review_row \<Rightarrow> bool" where
  "attempt_matches now c h s review \<longleftrightarrow>
     rr_workflow_job_id review = iv_review_job_id s \<and> rr_repository_id review = iv_repository_id s \<and>
     rr_pull_request_id review = iv_pull_request_id s \<and>
     rr_index_snapshot_id review = Some (iv_snapshot_id s) \<and> rr_head_sha review = iv_head_sha s \<and>
     iv_capability_id s = cap_id c \<and> iv_capability_hash s = h \<and> iv_runtime s = cap_runtime c \<and>
     iv_repository_id s = sc_repository_id (cap_scope c) \<and>
     iv_pull_request_id s = sc_pull_request_id (cap_scope c) \<and>
     iv_snapshot_id s = sc_snapshot_id (cap_scope c) \<and> iv_head_sha s = sc_head_sha (cap_scope c) \<and>
     open_status (iv_status s) \<and> now < iv_expires_at s \<and> rr_status review = Rv_generating \<and>
     rr_started_at review \<le> iv_created_at s"

text \<open>A capability has one session and a job one review, so the join has at most one row.\<close>

definition resolve_agent_investigation_review_attempt ::
    "time \<Rightarrow> session_capability \<Rightarrow> investigations \<Rightarrow> review_row list \<Rightarrow> review_attempt option" where
  "resolve_agent_investigation_review_attempt now c rows reviews =
     (case cap_token_hash c of
        None \<Rightarrow> None
      | Some h \<Rightarrow>
          (case filter (\<lambda>(s, review). attempt_matches now c h s review) (List.product rows reviews) of
             [] \<Rightarrow> None
           | (s, review) # _ \<Rightarrow>
               Some \<lparr>ra_review_run_id = rr_id review, ra_attempt_started_at = rr_started_at review\<rparr>))"

section \<open>Transitions\<close>

definition or_else :: "'a option \<Rightarrow> 'a \<Rightarrow> 'a option" where
  "or_else m d = (case m of None \<Rightarrow> Some d | Some x \<Rightarrow> Some x)"

definition abandon_agent_investigation ::
    "time \<Rightarrow> string \<Rightarrow> string \<Rightarrow> string \<Rightarrow> string \<Rightarrow> string option \<Rightarrow> investigations \<Rightarrow>
     investigation_error + bool \<times> investigations" where
  "abandon_agent_investigation now session_id runtime capability_id status error_code rows =
     (case map_of [(''failed'', Failed), (''cancelled'', Cancelled)] status of
        None \<Rightarrow> Inl (Invalid ''status'')
      | Some st \<Rightarrow>
          let fallback = (if st = Cancelled then ''cancelled'' else ''runner_execution_failed'');
              code_text = (case error_code of None \<Rightarrow> fallback | Some e \<Rightarrow> if e = [] then fallback else e) in
          bind_result (validated_error_code code_text) (\<lambda>recorded.
            let (n, rows') = update_counted
                  (\<lambda>r. addressed session_id runtime capability_id r \<and> open_status (iv_status r))
                  (\<lambda>r. r\<lparr>iv_status := st, iv_error_code := Some recorded,
                         iv_completed_at := or_else (iv_completed_at r) now\<rparr>) rows in
            Inr (n = 1, rows')))"

definition record_lifecycle_row :: "time \<Rightarrow> string \<Rightarrow> investigation_status \<Rightarrow> investigation \<Rightarrow> investigation" where
  "record_lifecycle_row now runner_id st r =
     r\<lparr>iv_status := st, iv_runner_id := or_else (iv_runner_id r) runner_id,
       iv_accepted_at := or_else (iv_accepted_at r) now,
       iv_started_at := (if st = Running then or_else (iv_started_at r) now else iv_started_at r),
       iv_last_heartbeat_at := Some now, iv_error_code := None\<rparr>"

definition record_agent_investigation_lifecycle ::
    "time \<Rightarrow> string \<Rightarrow> string \<Rightarrow> string \<Rightarrow> string \<Rightarrow> string \<Rightarrow> investigations \<Rightarrow>
     investigation_error + bool \<times> investigations" where
  "record_agent_investigation_lifecycle now session_id runtime capability_id runner_id status rows =
     (case map_of [(''accepted'', Accepted), (''running'', Running)] status of
        None \<Rightarrow> Inl (Invalid ''status'')
      | Some st \<Rightarrow>
          if runner_id = [] \<or> 255 < length runner_id then Inl (Invalid ''runner_id'')
          else
            (let allowed_prior = (if st = Accepted then [Dispatched] else [Dispatched, Accepted]);
                 (n, rows') = update_counted
                   (\<lambda>r. addressed session_id runtime capability_id r \<and>
                        (iv_runner_id r = None \<or> iv_runner_id r = Some runner_id) \<and>
                        iv_status r \<in> set allowed_prior)
                   (record_lifecycle_row now runner_id st) rows in
             if n = 1 then Inr (True, rows')
             else
               (case filter (addressed session_id runtime capability_id) rows' of
                  r # _ \<Rightarrow>
                    if (iv_runner_id r = None \<or> iv_runner_id r = Some runner_id) \<and> iv_status r = st
                    then Inr (False, rows') else Inl (Replay ''lifecycle'')
                | [] \<Rightarrow> Inl (Replay ''lifecycle''))))"

definition request_agent_investigation_cancellation ::
    "time \<Rightarrow> string \<Rightarrow> string \<Rightarrow> string \<Rightarrow> investigations \<Rightarrow> bool \<times> investigations" where
  "request_agent_investigation_cancellation now session_id runtime capability_id rows =
     (let (n, rows') = update_counted
            (\<lambda>r. addressed session_id runtime capability_id r \<and> open_status (iv_status r))
            (\<lambda>r. r\<lparr>iv_cancel_requested_at := or_else (iv_cancel_requested_at r) now\<rparr>) rows in
      (n = 1, rows'))"

definition accept_agent_investigation_completion ::
    "(string \<Rightarrow> string) \<Rightarrow> time \<Rightarrow> string \<Rightarrow> string \<Rightarrow> string \<Rightarrow> string \<Rightarrow> investigations \<Rightarrow>
     investigation_error + bool \<times> investigations" where
  "accept_agent_investigation_completion sha256 now session_id runtime capability_id result rows =
     (let digest = sha256 result;
          (n, rows') = update_counted
            (\<lambda>r. addressed session_id runtime capability_id r \<and> open_status (iv_status r) \<and>
                 now < iv_expires_at r)
            (\<lambda>r. r\<lparr>iv_status := Completed, iv_result_digest := Some digest,
                   iv_completed_at := Some now, iv_error_code := None\<rparr>) rows in
      if n = 1 then Inr (True, rows')
      else
        (case filter (\<lambda>r. iv_id r = session_id) rows' of
           [] \<Rightarrow> Inl (Replay ''unknown'')
         | r # _ \<Rightarrow>
             if iv_runtime r = runtime \<and> iv_capability_id r = capability_id \<and>
                iv_status r = Completed \<and> iv_result_digest r = Some digest
             then Inr (False, rows') else Inl (Replay ''completion'')))"

end
