(* ===== verification/Investigation_Props.thy ===== *)
theory Investigation_Props
  imports Investigations
begin

text \<open>
  The table of investigations under any sequence of dispatches, lifecycle reports, cancellations,
  completions and abandonments: its rows stay well-formed and only move forward, and a completion is
  accepted once.
\<close>

section \<open>Steps and runs\<close>

datatype investigation_op =
    Create string session_capability string dispatch_spec
  | Lifecycle string string string string string
  | Request_cancel string string string
  | Abandon string string string string "string option"
  | Complete string string string string

fun investigation_step ::
    "(string \<Rightarrow> string) \<Rightarrow> time \<Rightarrow> investigation_op \<Rightarrow> investigations \<Rightarrow> investigations" where
  "investigation_step sha256 now (Create i c token spec) rows =
     (case create_agent_investigation sha256 i now c token spec rows of Inl _ \<Rightarrow> rows | Inr (_, rows') \<Rightarrow> rows')"
| "investigation_step sha256 now (Lifecycle i rt c runner st) rows =
     (case record_agent_investigation_lifecycle now i rt c runner st rows of
        Inl _ \<Rightarrow> rows | Inr (_, rows') \<Rightarrow> rows')"
| "investigation_step sha256 now (Request_cancel i rt c) rows =
     snd (request_agent_investigation_cancellation now i rt c rows)"
| "investigation_step sha256 now (Abandon i rt c st e) rows =
     (case abandon_agent_investigation now i rt c st e rows of Inl _ \<Rightarrow> rows | Inr (_, rows') \<Rightarrow> rows')"
| "investigation_step sha256 now (Complete i rt c result) rows =
     (case accept_agent_investigation_completion sha256 now i rt c result rows of
        Inl _ \<Rightarrow> rows | Inr (_, rows') \<Rightarrow> rows')"

inductive investigation_runs ::
    "(string \<Rightarrow> string) \<Rightarrow> investigations \<Rightarrow> investigations \<Rightarrow> bool" for sha256 where
  none: "investigation_runs sha256 rows rows"
| more: "investigation_runs sha256 rows rows' \<Longrightarrow>
    investigation_runs sha256 rows (investigation_step sha256 now p rows')"

section \<open>Rows only move forward\<close>

definition stage :: "investigation_status \<Rightarrow> nat" where
  "stage s =
     (case s of Dispatched \<Rightarrow> 0 | Accepted \<Rightarrow> 1 | Running \<Rightarrow> 2
      | Completed \<Rightarrow> 3 | Failed \<Rightarrow> 3 | Cancelled \<Rightarrow> 3 | Expired_session \<Rightarrow> 3)"

text \<open>The part of a row fixed at dispatch.\<close>

definition spec_of :: "investigation \<Rightarrow> investigation" where
  "spec_of r = r\<lparr>iv_status := Dispatched, iv_result_digest := None, iv_completed_at := None,
     iv_runner_id := None, iv_accepted_at := None, iv_started_at := None,
     iv_last_heartbeat_at := None, iv_cancel_requested_at := None, iv_error_code := None\<rparr>"

definition keeps :: "'a option \<Rightarrow> 'a option \<Rightarrow> bool" where
  "keeps m m' \<longleftrightarrow> m = None \<or> m' = m"

definition moves_on :: "investigation \<Rightarrow> investigation \<Rightarrow> bool" where
  "moves_on r r' \<longleftrightarrow>
     spec_of r' = spec_of r \<and> stage (iv_status r) \<le> stage (iv_status r') \<and>
     (open_status (iv_status r) \<or> r' = r) \<and> keeps (iv_runner_id r) (iv_runner_id r') \<and>
     keeps (iv_accepted_at r) (iv_accepted_at r') \<and> keeps (iv_started_at r) (iv_started_at r') \<and>
     keeps (iv_cancel_requested_at r) (iv_cancel_requested_at r')"

lemma keeps_trans: "keeps a b \<Longrightarrow> keeps b c \<Longrightarrow> keeps a c"
  by (auto simp: keeps_def)

lemma stage_open: "open_status s \<longleftrightarrow> stage s < 3"
  by (cases s) (simp_all add: open_status_def stage_def)

interpretation iv: evolving_rows moves_on
proof
  show "moves_on r r" for r by (simp add: moves_on_def keeps_def)
  show "moves_on r t" if "moves_on r s" "moves_on s t" for r s t
    using that keeps_trans unfolding moves_on_def stage_open by (metis order_trans)
qed

lemma keeps_or_else [simp]: "keeps m m" "keeps m (or_else m d)"
  by (auto simp: keeps_def or_else_def split: option.splits)

lemma spec_of_lifecycle [simp]: "spec_of (record_lifecycle_row now runner st r) = spec_of r"
  by (simp add: record_lifecycle_row_def spec_of_def)

lemma moves_on_lifecycle:
  assumes "iv_status r \<in> set (if st = Accepted then [Dispatched] else [Dispatched, Accepted])"
    "st = Accepted \<or> st = Running"
  shows "moves_on r (record_lifecycle_row now runner st r)"
proof -
  have "open_status (iv_status r)" "stage (iv_status r) \<le> stage st"
    using assms by (auto simp: open_status_def stage_def split: if_splits)
  then show ?thesis by (simp add: moves_on_def) (simp add: record_lifecycle_row_def)
qed

lemma moves_on_close:
  assumes "open_status (iv_status r)" "\<not> open_status st"
  shows "moves_on r (r\<lparr>iv_status := st, iv_error_code := e, iv_completed_at := t\<rparr>)"
    "moves_on r (r\<lparr>iv_status := st, iv_result_digest := d, iv_completed_at := t, iv_error_code := e\<rparr>)"
  using assms by (auto simp: moves_on_def spec_of_def stage_open)

lemma moves_on_cancel:
  "open_status (iv_status r) \<Longrightarrow>
   moves_on r (r\<lparr>iv_cancel_requested_at := or_else (iv_cancel_requested_at r) now\<rparr>)"
  by (simp add: moves_on_def spec_of_def)

section \<open>What an operation does to the table\<close>

lemma created_rows:
  assumes "create_agent_investigation sha256 i now c token spec rows = Inr (h, rows')"
  obtains row where "rows' = rows @ [row]" "row_ok row" "iv_id row = i" "iv_capability_id row = cap_id c"
    "iv_status row = Dispatched" "iv_result_digest row = None" "iv_completed_at row = None"
    "iv_runner_id row = None" "iv_accepted_at row = None" "iv_started_at row = None" "iv_error_code row = None"
    "i \<notin> iv_id ` set rows" "cap_id c \<notin> iv_capability_id ` set rows"
proof -
  obtain h role input base plan archive manifest where row:
    "rows' = rows @ [dispatch_row i now c h spec role input base plan archive manifest]"
    "row_ok (dispatch_row i now c h spec role input base plan archive manifest)"
    "\<not> list_ex (\<lambda>r. iv_id r = i \<or> iv_capability_id r = cap_id c) rows"
    using assms unfolding create_agent_investigation_def Let_def guard_Inr bind_result_Inr_iff de_Morgan_disj not_not
    by (elim exE conjE) (simp only: sum.inject prod.inject, blast)
  show thesis using row(3) by (intro that[OF row(1,2)]) (auto simp: list_ex_iff dispatch_row_def)
qed

lemma lifecycle_rows:
  assumes "record_agent_investigation_lifecycle now i rt c runner status rows = Inr (b, rows')"
  obtains st where "st = Accepted \<or> st = Running" "runner \<noteq> []" "length runner \<le> 255"
    "rows' = snd (update_counted (\<lambda>r. addressed i rt c r \<and>
        (iv_runner_id r = None \<or> iv_runner_id r = Some runner) \<and>
        iv_status r \<in> set (if st = Accepted then [Dispatched] else [Dispatched, Accepted]))
      (record_lifecycle_row now runner st) rows)"
proof -
  obtain st where st: "map_of [(''accepted'', Accepted), (''running'', Running)] status = Some st"
    "\<not> (runner = [] \<or> 255 < length runner)"
    using assms unfolding record_agent_investigation_lifecycle_def guard_Inr by blast
  then have "st = Accepted \<or> st = Running" by (auto split: if_splits)
  moreover have "rows' = snd (update_counted (\<lambda>r. addressed i rt c r \<and>
        (iv_runner_id r = None \<or> iv_runner_id r = Some runner) \<and>
        iv_status r \<in> set (if st = Accepted then [Dispatched] else [Dispatched, Accepted]))
      (record_lifecycle_row now runner st) rows)"
    using assms unfolding record_agent_investigation_lifecycle_def st(1) option.case Let_def
    by (simp only: st(2) if_False split_def) (auto simp del: update_counted_rows split: if_splits list.splits)
  ultimately show thesis using st(2) by (intro that) auto
qed

lemma abandon_rows:
  assumes "abandon_agent_investigation now i rt c status e rows = Inr (b, rows')"
  obtains st code_text where "st = Failed \<or> st = Cancelled" "is_error_code code_text"
    "rows' = snd (update_counted (\<lambda>r. addressed i rt c r \<and> open_status (iv_status r))
      (\<lambda>r. r\<lparr>iv_status := st, iv_error_code := Some code_text,
             iv_completed_at := or_else (iv_completed_at r) now\<rparr>) rows)"
proof -
  obtain st where st: "map_of [(''failed'', Failed), (''cancelled'', Cancelled)] status = Some st"
    using assms unfolding abandon_agent_investigation_def guard_Inr by blast
  then have k: "st = Failed \<or> st = Cancelled" by (auto split: if_splits)
  obtain entered recorded where r: "validated_error_code entered = Inr recorded"
    "rows' = snd (update_counted (\<lambda>r. addressed i rt c r \<and> open_status (iv_status r))
      (\<lambda>r. r\<lparr>iv_status := st, iv_error_code := Some recorded,
             iv_completed_at := or_else (iv_completed_at r) now\<rparr>) rows)"
    using assms unfolding abandon_agent_investigation_def st option.case Let_def bind_result_Inr_iff split_def
    by (auto simp del: update_counted_rows)
  then have "is_error_code recorded"
    by (auto simp: validated_error_code_def Let_def split: if_splits)
  then show thesis using that k r(2) by blast
qed

lemma cancel_rows:
  "snd (request_agent_investigation_cancellation now i rt c rows) =
   snd (update_counted (\<lambda>r. addressed i rt c r \<and> open_status (iv_status r))
     (\<lambda>r. r\<lparr>iv_cancel_requested_at := or_else (iv_cancel_requested_at r) now\<rparr>) rows)"
  by (simp add: request_agent_investigation_cancellation_def split_def Let_def)

lemma completion_rows:
  assumes "accept_agent_investigation_completion sha256 now i rt c result rows = Inr (b, rows')"
  shows "rows' = snd (update_counted
      (\<lambda>r. addressed i rt c r \<and> open_status (iv_status r) \<and> now < iv_expires_at r)
      (\<lambda>r. r\<lparr>iv_status := Completed, iv_result_digest := Some (sha256 result),
             iv_completed_at := Some now, iv_error_code := None\<rparr>) rows)"
  using assms unfolding accept_agent_investigation_completion_def Let_def split_def
  by (auto simp del: update_counted_rows split: if_splits list.splits)

section \<open>Rows stay well-formed\<close>

text \<open>What the columns of a row say together, beyond the CHECK constraints.\<close>

definition stage_ok :: "investigation \<Rightarrow> bool" where
  "stage_ok r \<longleftrightarrow>
     iv_status r \<noteq> Expired_session \<and>
     (iv_result_digest r \<noteq> None \<longleftrightarrow> iv_status r = Completed) \<and>
     (iv_completed_at r \<noteq> None \<longleftrightarrow> \<not> open_status (iv_status r)) \<and>
     (iv_error_code r \<noteq> None \<longleftrightarrow> iv_status r = Failed \<or> iv_status r = Cancelled) \<and>
     (iv_runner_id r \<noteq> None \<longleftrightarrow> iv_accepted_at r \<noteq> None) \<and>
     (iv_status r = Dispatched \<longrightarrow> iv_accepted_at r = None) \<and>
     (iv_status r = Accepted \<longrightarrow> iv_accepted_at r \<noteq> None) \<and>
     (iv_status r = Running \<longrightarrow> iv_accepted_at r \<noteq> None \<and> iv_started_at r \<noteq> None) \<and>
     (case iv_runner_id r of None \<Rightarrow> True | Some n \<Rightarrow> n \<noteq> [] \<and> length n \<le> 255)"

definition version_ok :: "investigation \<Rightarrow> bool" where
  "version_ok r \<longleftrightarrow> row_ok r \<and> stage_ok r"

lemma row_ok_spec:
  "row_ok r \<longleftrightarrow> row_ok (spec_of r) \<and> (case iv_error_code r of None \<Rightarrow> True | Some e \<Rightarrow> is_error_code e)"
  by (auto simp: row_ok_def spec_of_def split: option.splits)

lemma version_okI:
  assumes "version_ok r" "moves_on r s" "stage_ok s"
    "case iv_error_code s of None \<Rightarrow> True | Some e \<Rightarrow> is_error_code e"
  shows "version_ok s"
  using assms row_ok_spec[of r] row_ok_spec[of s] by (simp add: version_ok_def moves_on_def)

lemma or_else_simps [simp]:
  "or_else m d \<noteq> None" "or_else None d = Some d" "or_else (Some x) d = Some x"
  by (auto simp: or_else_def split: option.splits)

text \<open>An update that the code makes: every row it changes moves on and stays well-formed.\<close>

definition sound_update :: "(investigation \<Rightarrow> bool) \<Rightarrow> (investigation \<Rightarrow> investigation) \<Rightarrow> bool" where
  "sound_update p f \<longleftrightarrow> (\<forall>r. p r \<longrightarrow> moves_on r (f r) \<and> (version_ok r \<longrightarrow> version_ok (f r)))"

lemma sound_updateI:
  assumes "\<And>r. p r \<Longrightarrow> moves_on r (f r)" "\<And>r. p r \<Longrightarrow> stage_ok r \<Longrightarrow> stage_ok (f r)"
    and "\<And>r. p r \<Longrightarrow> version_ok r \<Longrightarrow> case iv_error_code (f r) of None \<Rightarrow> True | Some e \<Rightarrow> is_error_code e"
  shows "sound_update p f"
  unfolding sound_update_def
proof (intro allI impI conjI)
  fix r assume p: "p r"
  show "moves_on r (f r)" using assms(1) p .
  show "version_ok (f r)" if v: "version_ok r"
    using version_okI[OF v assms(1)[OF p] assms(2)[OF p] assms(3)[OF p v]] v by (simp add: version_ok_def)
qed

lemma stage_ok_lifecycle:
  assumes "stage_ok r" "st = Accepted \<or> st = Running" "runner \<noteq> []" "length runner \<le> 255"
    "iv_runner_id r = None \<or> iv_runner_id r = Some runner" "open_status (iv_status r)"
  shows "stage_ok (record_lifecycle_row now runner st r)"
proof -
  have "iv_result_digest r = None" "iv_completed_at r = None"
    using assms(1,6) by (auto simp: stage_ok_def open_status_def)
  moreover have "or_else (iv_runner_id r) runner = Some runner" using assms(5) by auto
  ultimately show ?thesis using assms(2-4)
    by (elim disjE) (simp_all add: stage_ok_def record_lifecycle_row_def open_status_def)
qed

lemma sound_lifecycle:
  assumes "st = Accepted \<or> st = Running" "runner \<noteq> []" "length runner \<le> 255"
  shows "sound_update (\<lambda>r. addressed i rt c r \<and>
        (iv_runner_id r = None \<or> iv_runner_id r = Some runner) \<and>
        iv_status r \<in> set (if st = Accepted then [Dispatched] else [Dispatched, Accepted]))
      (record_lifecycle_row now runner st)"
proof (rule sound_updateI)
  fix r assume p: "addressed i rt c r \<and> (iv_runner_id r = None \<or> iv_runner_id r = Some runner) \<and>
      iv_status r \<in> set (if st = Accepted then [Dispatched] else [Dispatched, Accepted])"
  then show "moves_on r (record_lifecycle_row now runner st r)"
    using assms(1) by (intro moves_on_lifecycle) auto
  have "open_status (iv_status r)" using p by (auto simp: open_status_def split: if_splits)
  with p show "stage_ok (record_lifecycle_row now runner st r)" if "stage_ok r"
    using that p assms by (intro stage_ok_lifecycle) auto
  show "case iv_error_code (record_lifecycle_row now runner st r) of None \<Rightarrow> True | Some e \<Rightarrow> is_error_code e"
    by (simp add: record_lifecycle_row_def)
qed

lemma sound_cancel:
  "sound_update (\<lambda>r. addressed i rt c r \<and> open_status (iv_status r))
     (\<lambda>r. r\<lparr>iv_cancel_requested_at := or_else (iv_cancel_requested_at r) now\<rparr>)"
  by (rule sound_updateI) (auto intro: moves_on_cancel simp: stage_ok_def version_ok_def row_ok_def)

lemma sound_abandon:
  assumes "st = Failed \<or> st = Cancelled" "is_error_code e"
  shows "sound_update (\<lambda>r. addressed i rt c r \<and> open_status (iv_status r))
     (\<lambda>r. r\<lparr>iv_status := st, iv_error_code := Some e, iv_completed_at := or_else (iv_completed_at r) now\<rparr>)"
  by (rule sound_updateI; (rule moves_on_close(1))?)
    (use assms in \<open>auto simp: stage_ok_def open_status_def\<close>)

lemma sound_complete:
  "sound_update (\<lambda>r. addressed i rt c r \<and> open_status (iv_status r) \<and> now < iv_expires_at r)
     (\<lambda>r. r\<lparr>iv_status := Completed, iv_result_digest := Some d, iv_completed_at := Some now,
            iv_error_code := None\<rparr>)"
  by (rule sound_updateI; (rule moves_on_close(2))?) (auto simp: stage_ok_def open_status_def)

lemma step_shape:
  obtains (same) "investigation_step sha256 now p rows = rows"
  | (insert) row where "investigation_step sha256 now p rows = rows @ [row]" "version_ok row"
      "iv_id row \<notin> iv_id ` set rows" "iv_capability_id row \<notin> iv_capability_id ` set rows"
  | (update) q f where "investigation_step sha256 now p rows = snd (update_counted q f rows)" "sound_update q f"
proof (cases p)
  case (Create i c token spec)
  show thesis
  proof (cases "create_agent_investigation sha256 i now c token spec rows")
    case (Inr a)
    obtain h rows' where a: "a = (h, rows')" by (cases a)
    from Inr[unfolded a] show thesis
    proof (rule created_rows)
      fix row assume row: "rows' = rows @ [row]" "row_ok row" "iv_id row = i" "iv_capability_id row = cap_id c"
        "iv_status row = Dispatched" "iv_result_digest row = None" "iv_completed_at row = None"
        "iv_runner_id row = None" "iv_accepted_at row = None" "iv_started_at row = None"
        "iv_error_code row = None" "i \<notin> iv_id ` set rows" "cap_id c \<notin> iv_capability_id ` set rows"
      then have "version_ok row" by (simp add: version_ok_def stage_ok_def open_status_def)
      moreover have "iv_id row \<notin> iv_id ` set rows" "iv_capability_id row \<notin> iv_capability_id ` set rows"
        unfolding row(3,4) by (rule row(12), rule row(13))
      ultimately show thesis using row(1) Inr Create a by (intro insert[of row]) simp_all
    qed
  qed (use same Create in simp)
next
  case (Lifecycle i rt c runner st)
  show thesis
  proof (cases "record_agent_investigation_lifecycle now i rt c runner st rows")
    case (Inr a)
    obtain b rows' where a: "a = (b, rows')" by (cases a)
    have step: "investigation_step sha256 now p rows = rows'" using Inr Lifecycle a by simp
    show thesis using Inr[unfolded a]
      by (rule lifecycle_rows) (rule update[OF step[THEN trans]], assumption, rule sound_lifecycle)
  qed (use same Lifecycle in simp)
next
  case (Request_cancel i rt c)
  then show thesis using update[OF _ sound_cancel] by (simp add: cancel_rows del: update_counted_rows)
next
  case (Abandon i rt c st e)
  show thesis
  proof (cases "abandon_agent_investigation now i rt c st e rows")
    case (Inr a)
    obtain b rows' where a: "a = (b, rows')" by (cases a)
    have step: "investigation_step sha256 now p rows = rows'" using Inr Abandon a by simp
    show thesis using Inr[unfolded a]
      by (rule abandon_rows) (rule update[OF step[THEN trans]], assumption, rule sound_abandon)
  qed (use same Abandon in simp)
next
  case (Complete i rt c result)
  show thesis
  proof (cases "accept_agent_investigation_completion sha256 now i rt c result rows")
    case (Inr a)
    obtain b rows' where a: "a = (b, rows')" by (cases a)
    have step: "investigation_step sha256 now p rows = rows'" using Inr Complete a by simp
    show thesis by (rule update[OF step[THEN trans, OF completion_rows[OF Inr[unfolded a]]] sound_complete])
  qed (use same Complete in simp)
qed

lemma step_evolves: "iv.table_evolves rows (investigation_step sha256 now p rows)"
proof (cases rule: step_shape[of sha256 now p rows])
  case same
  then show ?thesis by (simp add: iv.table_refl)
next
  case (insert row)
  then show ?thesis by (simp add: iv.table_insert)
next
  case (update q f)
  then show ?thesis unfolding update(1) update_counted_rows sound_update_def by (intro iv.table_update) blast
qed

lemma runs_evolve: "investigation_runs sha256 rows rows' \<Longrightarrow> iv.table_evolves rows rows'"
  by (induction rule: investigation_runs.induct) (blast intro: iv.table_refl iv.table_trans step_evolves)+

definition table_ok :: "investigations \<Rightarrow> bool" where
  "table_ok rows \<longleftrightarrow>
     distinct (map iv_id rows) \<and> distinct (map iv_capability_id rows) \<and> list_all version_ok rows"

lemma moves_on_keys:
  assumes "moves_on r s"
  shows "iv_id s = iv_id r" "iv_capability_id s = iv_capability_id r" "iv_runtime s = iv_runtime r"
    "iv_expires_at s = iv_expires_at r"
proof -
  have e: "spec_of s = spec_of r" using assms by (simp add: moves_on_def)
  show "iv_id s = iv_id r" using arg_cong[OF e, of iv_id] by (simp add: spec_of_def)
  show "iv_capability_id s = iv_capability_id r" using arg_cong[OF e, of iv_capability_id] by (simp add: spec_of_def)
  show "iv_runtime s = iv_runtime r" using arg_cong[OF e, of iv_runtime] by (simp add: spec_of_def)
  show "iv_expires_at s = iv_expires_at r" using arg_cong[OF e, of iv_expires_at] by (simp add: spec_of_def)
qed

lemma step_table_ok:
  assumes ok: "table_ok rows"
  shows "table_ok (investigation_step sha256 now p rows)"
proof (cases rule: step_shape[of sha256 now p rows])
  case same
  then show ?thesis using ok by simp
next
  case (insert row)
  then show ?thesis using ok by (simp add: table_ok_def)
next
  case (update q f)
  have f: "moves_on r (f r)" "version_ok r \<Longrightarrow> version_ok (f r)" if "q r" for r
    using update(2) that by (auto simp: sound_update_def)
  have "map iv_id (update_where q f rows) = map iv_id rows"
    "map iv_capability_id (update_where q f rows) = map iv_capability_id rows"
    using f(1) moves_on_keys by (intro update_where_keys; blast)+
  moreover have "list_all version_ok (update_where q f rows)"
    using ok f(2) by (auto simp: table_ok_def list_all_iff ball_update_where)
  ultimately show ?thesis using ok unfolding update(1) by (simp add: table_ok_def)
qed

lemma runs_table_ok: "investigation_runs sha256 rows rows' \<Longrightarrow> table_ok rows \<Longrightarrow> table_ok rows'"
  by (induction rule: investigation_runs.induct) (simp_all add: step_table_ok)

section \<open>Closed sessions\<close>

lemma closed_stays:
  assumes "investigation_runs sha256 rows rows'" "r \<in> set rows" "\<not> open_status (iv_status r)"
  shows "r \<in> set rows'"
  using iv.table_member[OF runs_evolve[OF assms(1)] assms(2)] assms(3) by (auto simp: moves_on_def)

lemma unique_row:
  assumes "table_ok rows" "r \<in> set rows" "s \<in> set rows"
  shows "iv_id s = iv_id r \<longleftrightarrow> s = r" "iv_capability_id s = iv_capability_id r \<longleftrightarrow> s = r"
  using assms by (auto simp: table_ok_def distinct_map inj_on_def)

lemma closed_not_resolved:
  assumes "table_ok rows" "r \<in> set rows" "\<not> open_status (iv_status r)" "cap_id c = iv_capability_id r"
  shows "resolve_agent_investigation_review_attempt now c rows reviews = None"
proof -
  have "\<not> attempt_matches now c h s review" if "s \<in> set rows" for h s review
    using unique_row(2)[OF assms(1,2) that] assms(3,4) by (auto simp: attempt_matches_def)
  then have "filter (\<lambda>(s, review). attempt_matches now c h s review) (List.product rows reviews) = []" for h
    by (auto simp: filter_empty_conv)
  then show ?thesis by (simp add: resolve_agent_investigation_review_attempt_def split: option.split)
qed

lemma closed_completion:
  assumes ok: "table_ok rows" and r: "r \<in> set rows" "\<not> open_status (iv_status r)"
  shows "accept_agent_investigation_completion sha256 now (iv_id r) (iv_runtime r) (iv_capability_id r) result rows =
    (if iv_status r = Completed \<and> iv_result_digest r = Some (sha256 result) then Inr (False, rows)
     else Inl (Replay ''completion''))"
proof -
  have "\<forall>s \<in> set rows. \<not> (addressed (iv_id r) (iv_runtime r) (iv_capability_id r) s \<and>
      open_status (iv_status s) \<and> now < iv_expires_at s)"
    using unique_row(1)[OF ok r(1)] r(2) by (auto simp: addressed_def)
  note none = update_counted_none[OF this]
  have "filter (\<lambda>s. iv_id s = iv_id r) rows = [r]"
    using ok by (intro filter_key_single[where k = iv_id] r(1)) (auto simp: table_ok_def)
  then show ?thesis unfolding accept_agent_investigation_completion_def none by auto
qed

lemma accepted_row:
  assumes ok: "table_ok rows"
    and acc: "accept_agent_investigation_completion sha256 now i rt c result rows = Inr (True, rows')"
  obtains r where "r \<in> set rows'" "iv_id r = i" "iv_runtime r = rt" "iv_capability_id r = c"
    "iv_status r = Completed" "iv_result_digest r = Some (sha256 result)"
proof -
  let ?p = "\<lambda>r. addressed i rt c r \<and> open_status (iv_status r) \<and> now < iv_expires_at r"
  have "length (filter ?p rows) = 1"
    using acc unfolding accept_agent_investigation_completion_def update_counted_def Let_def
    by (auto split: if_splits list.splits)
  then have "filter ?p rows \<noteq> []" by (metis list.size(3) zero_neq_one)
  then obtain r where r: "r \<in> set rows" "?p r" unfolding filter_empty_conv by blast
  let ?f = "\<lambda>r. r\<lparr>iv_status := Completed, iv_result_digest := Some (sha256 result),
      iv_completed_at := Some now, iv_error_code := None\<rparr>"
  have "?f r \<in> set rows'" using in_update_whereI[OF r(1), of ?p ?f] r(2) unfolding completion_rows[OF acc] by simp
  then show thesis using r(2) by (intro that[of "?f r"]) (simp_all add: addressed_def)
qed

text \<open>Whatever dispatches, lifecycle reports, cancellations, completions and abandonments occur, in
  whatever order and at whatever times, every row satisfies the CHECK constraints; it has a result
  digest exactly when it is completed, an error code exactly when it failed or was cancelled, a
  completion time exactly when it is closed and a runner exactly when it was accepted; and session
  and capability ids identify rows.\<close>

lemma investigations_stay_well_formed:
  assumes "investigation_runs sha256 [] rows"
  shows "table_ok rows"
  using runs_table_ok[OF assms] by (simp add: table_ok_def)

text \<open>C24: A row never disappears and only moves forward: its execution specification is immutable, its
  status only advances, the runner that accepted it and the times of acceptance, start and
  cancellation request stay what they were first, and once it is closed nothing in it changes.\<close>

theorem investigations_move_forward:
  assumes "investigation_runs sha256 rows rows'" "r \<in> set rows"
  shows "\<exists>r' \<in> set rows'. moves_on r r'"
  by (rule iv.table_member[OF runs_evolve[OF assms(1)] assms(2)])

text \<open>Once the completion of a session has been accepted, then whatever happens later, only an
  identical retransmission is acknowledged, without effect; every other result is a replay error;
  and the capability of the session resolves to no review attempt any more.\<close>

lemma completion_is_final:
  assumes "investigation_runs sha256 [] rows"
    and "accept_agent_investigation_completion sha256 now i rt c result rows = Inr (True, rows1)"
    and "investigation_runs sha256 rows1 rows2"
  shows "accept_agent_investigation_completion sha256 later i rt c result' rows2 =
      (if sha256 result' = sha256 result then Inr (False, rows2) else Inl (Replay ''completion'')) \<and>
    (cap_id cap = c \<longrightarrow> resolve_agent_investigation_review_attempt later cap rows2 reviews = None)"
proof -
  have ok: "table_ok rows" using runs_table_ok[OF assms(1)] by (simp add: table_ok_def)
  have "rows1 = investigation_step sha256 now (Complete i rt c result) rows" using assms(2) by simp
  then have "table_ok rows1" using step_table_ok[OF ok] by (simp only:)
  then have ok2: "table_ok rows2" by (rule runs_table_ok[OF assms(3)])
  obtain r where r: "r \<in> set rows1" "iv_id r = i" "iv_runtime r = rt" "iv_capability_id r = c"
    "iv_status r = Completed" "iv_result_digest r = Some (sha256 result)"
    using accepted_row[OF ok assms(2)] .
  then have closed: "\<not> open_status (iv_status r)" by (simp add: open_status_def)
  note r2 = closed_stays[OF assms(3) r(1) closed]
  show ?thesis
    using closed_completion[OF ok2 r2 closed] closed_not_resolved[OF ok2 r2 closed] r by auto
qed

section \<open>A session from dispatch to completion\<close>

definition sample_cap :: session_capability where
  "sample_cap = \<lparr>cap_id = ''cap'', cap_runtime = ''codex'',
     cap_scope = \<lparr>sc_repository_id = 3, sc_pull_request_id = 5, sc_snapshot_id = 7,
       sc_head_sha = replicate 40 (CHR ''a''), sc_operations = {''search_code''}\<rparr>,
     cap_issued_at = 0, cap_expires_at = 900, cap_token_hash = Some (replicate 64 (CHR ''0''))\<rparr>"

definition sample_spec :: dispatch_spec where
  "sample_spec = \<lparr>ds_review_job_id = 1, ds_base_sha = replicate 40 (CHR ''b''),
     ds_context_plan_fingerprint = replicate 64 (CHR ''c''), ds_role = ''candidate'',
     ds_turn_budget = 24, ds_timeout_seconds = 600, ds_max_result_bytes = 256000,
     ds_source_archive_digest = replicate 64 (CHR ''d''),
     ds_source_manifest_digest = replicate 64 (CHR ''e''), ds_input_result_digest = None\<rparr>"

definition sample_digest :: "string \<Rightarrow> string" where
  "sample_digest s = replicate 63 (CHR ''0'') @ (if s = ''r'' then ''1'' else ''2'')"

definition sample_running :: investigations where
  "sample_running = investigation_step sample_digest 20 (Lifecycle ''s'' ''codex'' ''cap'' ''host'' ''running'')
     (investigation_step sample_digest 10 (Create ''s'' sample_cap ''token'' sample_spec) [])"

lemma sample_runs: "investigation_runs sample_digest [] sample_running"
  unfolding sample_running_def by (intro investigation_runs.intros)

lemma sample_values:
  "case sample_running of [r] \<Rightarrow> iv_status r = Running \<and> iv_started_at r = Some 20 | _ \<Rightarrow> False"
  "case accept_agent_investigation_completion sample_digest 30 ''s'' ''codex'' ''cap'' ''r'' sample_running of
     Inr (b, _) \<Rightarrow> b | _ \<Rightarrow> False"
  by code_simp+

lemma sample_row: "\<exists>r. sample_running = [r] \<and> iv_status r = Running"
  using sample_values(1) by (auto split: list.splits)

theorem investigations_stay_well_formed_witness: "table_ok sample_running \<and> sample_running \<noteq> []"
  using investigations_stay_well_formed[OF sample_runs] sample_row by (metis list.distinct(1))

theorem investigations_move_forward_witness:
  "\<exists>r \<in> set sample_running. \<exists>r' \<in> set (investigation_step sample_digest 30
      (Complete ''s'' ''codex'' ''cap'' ''r'') sample_running). iv_status r = Running \<and> moves_on r r'"
proof -
  obtain r where r: "sample_running = [r]" "iv_status r = Running"
    using sample_row by (elim exE conjE)
  have m: "r \<in> set sample_running" unfolding r(1) by (rule list.set_intros)
  have "investigation_runs sample_digest sample_running
      (investigation_step sample_digest 30 (Complete ''s'' ''codex'' ''cap'' ''r'') sample_running)"
    by (intro investigation_runs.intros)
  from investigations_move_forward[OF this m] m r(2) show ?thesis by blast
qed

theorem completion_is_final_witness:
  "\<exists>rows. accept_agent_investigation_completion sample_digest 30 ''s'' ''codex'' ''cap'' ''r'' sample_running
      = Inr (True, rows) \<and>
    accept_agent_investigation_completion sample_digest 40 ''s'' ''codex'' ''cap'' ''r'' rows = Inr (False, rows) \<and>
    accept_agent_investigation_completion sample_digest 40 ''s'' ''codex'' ''cap'' ''x'' rows
      = Inl (Replay ''completion'') \<and>
    resolve_agent_investigation_review_attempt 40 sample_cap rows [] = None"
proof -
  obtain rows where acc: "accept_agent_investigation_completion sample_digest 30 ''s'' ''codex'' ''cap'' ''r''
      sample_running = Inr (True, rows)"
    using sample_values(2) by (auto split: sum.splits)
  note final = completion_is_final[OF sample_runs acc investigation_runs.none]
  show ?thesis
    using acc final[where later = 40 and result' = "''r''"] final[where later = 40 and result' = "''x''"]
      final[where later = 40 and cap = sample_cap]
    by (intro exI[of _ rows] conjI) (simp_all add: sample_digest_def sample_cap_def)
qed

text \<open>A further report of a running session is acknowledged but not recorded: its heartbeat time stays
  that of the transition.\<close>

lemma repeated_heartbeat_not_recorded:
  assumes ok: "table_ok rows" and r: "r \<in> set rows" "iv_status r = Running" "iv_runner_id r = Some runner"
  shows "record_agent_investigation_lifecycle now (iv_id r) (iv_runtime r) (iv_capability_id r) runner
    ''running'' rows = Inr (False, rows)"
proof -
  have "version_ok r" using ok r(1) by (simp add: table_ok_def list_all_iff)
  then have len: "\<not> (runner = [] \<or> 255 < length runner)" using r(3) by (simp add: version_ok_def stage_ok_def)
  have "\<forall>s \<in> set rows. \<not> (addressed (iv_id r) (iv_runtime r) (iv_capability_id r) s \<and>
      (iv_runner_id s = None \<or> iv_runner_id s = Some runner) \<and>
      iv_status s \<in> set (if Running = Accepted then [Dispatched] else [Dispatched, Accepted]))"
    using unique_row(1)[OF ok r(1)] r(2) by (auto simp: addressed_def)
  note none = update_counted_none[OF this]
  have "filter (addressed (iv_id r) (iv_runtime r) (iv_capability_id r)) rows = [r]"
    using ok by (intro filter_key_single[where k = iv_id] r(1)) (auto simp: table_ok_def addressed_def)
  then show ?thesis
    using r(2,3) none len by (simp add: record_agent_investigation_lifecycle_def)
qed

end
