(* ===== verification/Access_Props.thy ===== *)
theory Access_Props
  imports Access
begin

text \<open>
  A minted capability reads back as itself until it expires, and nothing else than a token signed
  under the key is ever accepted.
\<close>

section \<open>Scopes\<close>

lemma lower_hex: "is_hex_lower c \<Longrightarrow> lower_char c = c"
  by (auto simp: is_hex_lower_def is_digit_def lower_char_def is_upper_alpha_def)

lemma hex_no_space: "is_hex_lower c \<Longrightarrow> \<not> is_space c"
  by (auto simp: is_hex_lower_def is_digit_def is_space_def)

lemma lower_strip_hex:
  assumes "list_all is_hex_lower s"
  shows "lower (strip s) = s"
proof -
  have "lstrip t = t" if "list_all is_hex_lower t" for t
    using that hex_no_space by (cases t) auto
  then have "strip s = s" using assms by (simp add: strip_def list_all_rev)
  moreover have "map lower_char s = s" using assms by (induction s) (simp_all add: lower_hex)
  ultimately show ?thesis by (simp add: lower_def)
qed

definition valid_scope :: "session_scope \<Rightarrow> bool" where
  "valid_scope s \<longleftrightarrow>
     0 < sc_repository_id s \<and> 0 < sc_pull_request_id s \<and> 0 < sc_snapshot_id s \<and>
     is_commit_id (sc_head_sha s) \<and> sc_operations s \<noteq> {} \<and> sc_operations s \<subseteq> CAPABILITY_OPERATIONS"

lemma finite_operations [simp]: "finite CAPABILITY_OPERATIONS"
  by (simp add: CAPABILITY_OPERATIONS_def)

lemma make_scope_valid:
  assumes "make_scope s = Inr scope" "finite (sc_operations s)"
  shows "valid_scope scope"
  using assms by (auto simp: make_scope_def valid_scope_def Let_def split: if_splits)

lemma make_scope_id: "valid_scope s \<Longrightarrow> make_scope s = Inr s"
proof -
  assume v: "valid_scope s"
  then have empty: "sc_operations s - CAPABILITY_OPERATIONS = {}" by (auto simp: valid_scope_def)
  show ?thesis using v unfolding make_scope_def empty
    by (simp add: valid_scope_def is_commit_id_def lower_strip_hex not_le)
qed

section \<open>The payload\<close>

lemma length_str_of_nat: "n < 10 ^ k \<Longrightarrow> 0 < k \<Longrightarrow> length (str_of_nat n) \<le> k"
proof (induction n arbitrary: k rule: str_of_nat.induct)
  case (1 n)
  show ?case
  proof (cases "n < 10")
    case True
    then show ?thesis using 1(3) by (simp add: str_of_nat.simps[of n])
  next
    case False
    then obtain l where k: "k = Suc l" "0 < l" using 1(2,3) by (cases k; cases "k - 1") auto
    then have "n div 10 < 10 ^ l" using 1(2) by (simp add: less_mult_imp_div_less mult.commute)
    then show ?thesis using 1(1)[OF False, of l] k False by (simp add: str_of_nat.simps[of n])
  qed
qed

lemma bigint_digits: "0 \<le> i \<Longrightarrow> i < 2 ^ 63 \<Longrightarrow> length (str_of_int i) \<le> 4300"
proof -
  assume "0 \<le> i" "i < 2 ^ 63"
  then have "nat i < 10 ^ 19" by simp
  from length_str_of_nat[OF this] show ?thesis using \<open>0 \<le> i\<close> by (simp add: str_of_int_def)
qed

lemma map_of_sort_key:
  assumes "distinct (map fst kvs)"
  shows "map_of (sort_key fst kvs) = map_of kvs"
  using assms by (intro map_of_inject_set[THEN iffD2]) (simp_all add: distinct_map)

lemma canon_lookup:
  assumes "distinct (map fst kvs)"
  shows "map_of (map (\<lambda>e. (fst e, json_canon (snd e))) (sort_key fst kvs)) k =
    map_option json_canon (map_of kvs k)"
  using map_of_sort_key[OF assms] by (simp add: map_of_map[of json_canon, unfolded case_prod_beta])

lemma payload_read:
  assumes "valid_scope scope" "0 \<le> iat" "iat < 2 ^ 63" "0 \<le> ex" "ex < 2 ^ 63"
    and "sc_repository_id scope < 2 ^ 63" "sc_pull_request_id scope < 2 ^ 63" "sc_snapshot_id scope < 2 ^ 63"
    and "whole_seconds issued = iat" "whole_seconds expires = ex"
  shows "json_plain (capability_payload token_id runtime scope issued expires)"
  using assms by (auto simp: capability_payload_def JStrs_def valid_scope_def list_all_iff bigint_digits)

lemma token_parts:
  "split_on (CHR ''.'') (capability_token hmac key payload) =
    [''diffuse-cap'', b64url_encode (json_dumps payload),
     b64url_encode (hmac key (b64url_encode (json_dumps payload)))]"
proof -
  have dot: "CHR ''.'' \<notin> set (b64url_encode raw)" for raw
    using b64url_encode_alphabet[of "CHR ''.''" raw] b64_char_ne_dot by metis
  have "split_on (CHR ''.'') (''diffuse-cap'' @ CHR ''.'' # a @ CHR ''.'' # b) = [''diffuse-cap'', a, b]"
    if "CHR ''.'' \<notin> set a" "CHR ''.'' \<notin> set b" for a b
    using that by (subst split_on_append_sep) (simp_all add: split_on_append_sep split_on_no_sep_id)
  from this[OF dot dot] show ?thesis by (simp add: capability_token_def Let_def)
qed

lemma b64url_ascii: "is_ascii (b64url_encode raw)"
  using b64url_encode_alphabet[of _ raw] b64_char_code by (fastforce simp: is_ascii_def list_all_iff)

lemma parse_minted:
  assumes "json_plain (JObj kvs)"
  shows "parse_payload hmac ft (capability_token hmac key (JObj kvs)) key =
    Inr (map (\<lambda>e. (fst e, json_canon (snd e))) (sort_key fst kvs))"
  by (simp add: parse_payload_def token_parts b64url_ascii b64url_roundtrip
      json_bytes_roundtrip[OF assms] canon_object del: json_dumps.simps json_canon.simps)

lemma whole_seconds_bounds:
  assumes "0 \<le> t" "t \<le> last_moment"
  shows "0 \<le> whole_seconds t" "whole_seconds t \<le> 253402300799"
proof -
  show "0 \<le> whole_seconds t" using assms(1) by (simp add: whole_seconds_def)
  have "t div 1000000 \<le> last_moment div 1000000" using assms(2) by (simp add: zdiv_mono1)
  then show "whole_seconds t \<le> 253402300799" using assms(1) by (simp add: whole_seconds_def last_moment_def)
qed

lemma payload_capability_minted:
  assumes scope: "valid_scope scope" and id: "token_id \<noteq> []" and run: "runtime \<in> set AGENT_RUNTIME_NAMES"
    and t: "0 \<le> issued" "issued \<le> last_moment" "0 \<le> expires" "expires \<le> last_moment"
    and kvs: "capability_payload token_id runtime scope issued expires = JObj kvs"
  shows "payload_capability fint fmicros (map (\<lambda>e. (fst e, json_canon (snd e))) (sort_key fst kvs)) =
    Inr \<lparr>cap_id = token_id, cap_runtime = runtime, cap_scope = scope,
      cap_issued_at = whole_seconds issued * 1000000, cap_expires_at = whole_seconds expires * 1000000,
      cap_token_hash = None\<rparr>"
proof -
  have k: "distinct (map fst kvs)" using kvs by (auto simp: capability_payload_def)
  note w = whole_seconds_bounds[OF t(1,2)] whole_seconds_bounds[OF t(3,4)]
  have fin: "finite (sc_operations scope)"
    using scope finite_subset[OF _ finite_operations] by (auto simp: valid_scope_def)
  have ops: "frozenset_of (json_canon (JStrs (sorted_list_of_set (sc_operations scope)))) =
      Some (map JStr (sorted_list_of_set (sc_operations scope)))"
    by (simp add: frozenset_of_def JStrs_def list_ex_iff comp_def)
  have names: "string_elements (map JStr (sorted_list_of_set (sc_operations scope))) = Some (sc_operations scope)"
    using fin by (simp add: string_elements_def list_all_iff comp_def text_of_def)
  have ps: "payload_scope fint (JInt (sc_repository_id scope)) (JInt (sc_pull_request_id scope))
      (JInt (sc_snapshot_id scope)) (JStr (sc_head_sha scope))
      (map JStr (sorted_list_of_set (sc_operations scope))) = Inr scope"
    using make_scope_id[OF scope] by (cases scope) (use names in \<open>simp add: payload_scope_def guarded_def int_of_def text_of_def\<close>)
  show ?thesis
    using kvs[symmetric] id run w unfolding payload_capability_def field_def canon_lookup[OF k]
    by (simp add: capability_payload_def ops ps guarded_def from_timestamp_def is_version_def)
qed

section \<open>Round trip and authenticity\<close>

lemma check_requirement_cong:
  "cap_scope c = cap_scope d \<Longrightarrow> cap_runtime c = cap_runtime d \<Longrightarrow>
   check_requirement q c = check_requirement q d"
  by (simp only: check_requirement_def allows_def)

lemma mint_result:
  assumes "mint_session_capability hmac sha256 fresh key runtime scope ttl now capability_id = Inr (token, cap)"
    and "fresh \<noteq> []"
  shows "key \<noteq> []" "0 < ttl" "ttl \<le> MAX_CAPABILITY_TTL" "now + ttl \<le> last_moment"
    "cap_runtime cap \<in> set AGENT_RUNTIME_NAMES" "cap_id cap \<noteq> []"
    "token = capability_token hmac key (capability_payload (cap_id cap) (cap_runtime cap) scope now (now + ttl))"
    "cap = \<lparr>cap_id = cap_id cap, cap_runtime = cap_runtime cap, cap_scope = scope, cap_issued_at = now,
       cap_expires_at = now + ttl, cap_token_hash = Some (sha256 token)\<rparr>"
  using assms unfolding mint_session_capability_def parse_agent_runtime_name_def
  by (auto simp: Let_def split: if_splits option.splits)

lemma capability_verifies:
  assumes "make_scope s = Inr scope" "finite (sc_operations s)"
    and "sc_repository_id scope < 2 ^ 63" "sc_pull_request_id scope < 2 ^ 63" "sc_snapshot_id scope < 2 ^ 63"
    and "mint_session_capability hmac sha256 fresh key runtime scope ttl now capability_id = Inr (token, cap)"
    and "fresh \<noteq> []" "0 \<le> now"
  shows "verify_session_capability hmac sha256 ft fint fmicros token key later q =
      (if whole_seconds (now + ttl) * 1000000 \<le> later then Inl Expired
       else bind_result (check_requirement q cap) (\<lambda>_. Inr
         (cap\<lparr>cap_issued_at := whole_seconds now * 1000000,
              cap_expires_at := whole_seconds (now + ttl) * 1000000\<rparr>))) \<and>
    whole_seconds (now + ttl) * 1000000 \<le> now + MAX_CAPABILITY_TTL"
proof -
  note m = mint_result[OF assms(6,7)]
  have scope: "valid_scope scope" using assms(1,2) by (rule make_scope_valid)
  have t: "now \<le> last_moment" "0 \<le> now + ttl" using m(2,4) assms(8) by simp_all
  note w = whole_seconds_bounds[OF assms(8) t(1)] whole_seconds_bounds[OF t(2) m(4)]
  obtain kvs where kvs: "capability_payload (cap_id cap) (cap_runtime cap) scope now (now + ttl) = JObj kvs"
    by (simp add: capability_payload_def)
  have "json_plain (JObj kvs)"
    unfolding kvs[symmetric] using w by (intro payload_read[OF scope _ _ _ _ assms(3-5) refl refl]) simp_all
  from parse_minted[OF this] have parsed: "parse_payload hmac ft token key =
      Inr (map (\<lambda>e. (fst e, json_canon (snd e))) (sort_key fst kvs))" unfolding m(7) kvs .
  have "whole_seconds (now + ttl) * 1000000 \<le> now + ttl"
    using t(2) by (simp add: whole_seconds_def)
  then have "whole_seconds (now + ttl) * 1000000 \<le> now + MAX_CAPABILITY_TTL" using m(3) by simp
  moreover note payload_capability_minted[OF scope m(6,5) assms(8) t m(4) kvs, of fint fmicros]
  moreover have "cap\<lparr>cap_issued_at := a, cap_expires_at := b\<rparr> =
      \<lparr>cap_id = cap_id cap, cap_runtime = cap_runtime cap, cap_scope = scope, cap_issued_at = a,
       cap_expires_at = b, cap_token_hash = Some (sha256 token)\<rparr>" for a b
    by (subst m(8)) simp
  moreover have "check_requirement q \<lparr>cap_id = cap_id cap, cap_runtime = cap_runtime cap, cap_scope = scope,
      cap_issued_at = a, cap_expires_at = b, cap_token_hash = h\<rparr> = check_requirement q cap" for a b h
    using m(8) by (intro check_requirement_cong) (metis session_capability.select_convs)+
  ultimately show ?thesis using m(1) parsed by (simp add: verify_session_capability_def)
qed

text \<open>C22: A minted capability reads back, under the same key, as itself with its times cut to whole
  seconds - and is then held to whatever scope, runtime and operation the caller requires - at every
  moment before its expiry, and as expired from then on; the expiry is never more than fifteen
  minutes after the minting.\<close>

theorem minted_capability_reads_back:
  assumes "make_scope s = Inr scope" "finite (sc_operations s)"
    and "sc_repository_id scope < 2 ^ 63" "sc_pull_request_id scope < 2 ^ 63" "sc_snapshot_id scope < 2 ^ 63"
    and "mint_session_capability hmac sha256 fresh key runtime scope ttl now capability_id = Inr (token, cap)"
    and "fresh \<noteq> []" "0 \<le> now"
  shows "verify_session_capability hmac sha256 ft fint fmicros token key later q =
      (if whole_seconds (now + ttl) * 1000000 \<le> later then Inl Expired
       else bind_result (check_requirement q cap) (\<lambda>_. Inr
         (cap\<lparr>cap_issued_at := whole_seconds now * 1000000,
              cap_expires_at := whole_seconds (now + ttl) * 1000000\<rparr>))) \<and>
    whole_seconds (now + ttl) * 1000000 \<le> now + MAX_CAPABILITY_TTL"
  by (rule capability_verifies[OF assms])

definition sample_scope :: session_scope where
  "sample_scope = \<lparr>sc_repository_id = 3, sc_pull_request_id = 5, sc_snapshot_id = 7,
     sc_head_sha = replicate 40 (CHR ''a''), sc_operations = {''search_code''}\<rparr>"

lemma sample_scope_valid: "make_scope sample_scope = Inr sample_scope"
  by (rule make_scope_id)
    (simp add: valid_scope_def sample_scope_def is_commit_id_def list_all_iff is_hex_lower_def
      code_def CAPABILITY_OPERATIONS_def)

lemma sample_minted:
  "\<exists>token cap. mint_session_capability (\<lambda>k m. k) (\<lambda>s. s) ''fresh'' ''key'' ''claude'' sample_scope
     600000000 1000000 None = Inr (token, cap)"
proof -
  have "parse_agent_runtime_name ''claude'' = Some ''claude''" by code_simp
  then show ?thesis
    by (simp add: mint_session_capability_def MAX_CAPABILITY_TTL_def last_moment_def Let_def)
qed

theorem minted_capability_reads_back_witness:
  "\<exists>token cap cap'. mint_session_capability (\<lambda>k m. k) (\<lambda>s. s) ''fresh'' ''key'' ''claude'' sample_scope
      600000000 1000000 None = Inr (token, cap) \<and>
    verify_session_capability (\<lambda>k m. k) (\<lambda>s. s) (\<lambda>s. s) (\<lambda>s. Inl Value_error) (\<lambda>s. Inl Value_error)
      token ''key'' 2000000 no_requirement = Inr cap' \<and>
    verify_session_capability (\<lambda>k m. k) (\<lambda>s. s) (\<lambda>s. s) (\<lambda>s. Inl Value_error) (\<lambda>s. Inl Value_error)
      token ''key'' 601000000 no_requirement = Inl Expired"
proof -
  obtain token cap where m: "mint_session_capability (\<lambda>k m. k) (\<lambda>s. s) ''fresh'' ''key'' ''claude''
      sample_scope 600000000 1000000 None = Inr (token, cap)"
    using sample_minted by (elim exE)
  note reads_back = minted_capability_reads_back[OF sample_scope_valid _ _ _ _ m]
  have q: "check_requirement no_requirement cap = Inr ()"
    by (simp add: check_requirement_def no_requirement_def differs_def)
  show ?thesis using m reads_back[of "\<lambda>s. s" "\<lambda>s. Inl Value_error" "\<lambda>s. Inl Value_error" _ no_requirement] q
    by (intro exI[of _ token] exI[of _ cap] exI conjI)
      (simp_all add: sample_scope_def whole_seconds_def)
qed

lemma parse_payload_signed:
  assumes "parse_payload hmac ft token key = Inr kvs"
  shows "\<exists>body. token = ''diffuse-cap.'' @ body @ ''.'' @ b64url_encode (hmac key body)"
proof -
  obtain lead body signature where parts: "split_on (CHR ''.'') token = [lead, body, signature]"
    "lead = ''diffuse-cap''" "signature = b64url_encode (hmac key body)"
    using assms by (auto simp: parse_payload_def split: list.splits if_splits)
  have "token = join ''.'' (split_on (CHR ''.'') token)" by (simp add: join_split_on)
  then show ?thesis unfolding parts by auto
qed

lemma guarded_Inr: "guarded m r f = Inr y \<longleftrightarrow> (\<exists>x. r = Inr x \<and> f x = Inr y)"
  by (cases r) (auto simp: guarded_def)

lemma field_Inr: "field kvs k f = Inr y \<longleftrightarrow> (\<exists>v. map_of kvs k = Some v \<and> f v = Inr y)"
  by (auto simp: field_def split: option.splits)

lemma string_only_Inr:
  "(case j of JStr s \<Rightarrow> g s | _ \<Rightarrow> Inl e) = Inr y \<longleftrightarrow> (\<exists>s. j = JStr s \<and> g s = Inr y)"
  by (auto split: json.splits)

lemmas accepted_iff = field_Inr guarded_Inr guard_Inr string_only_Inr bind_result_Inr_iff

lemma payload_scope_valid:
  assumes "payload_scope fint r p s h ops = Inr scope"
  shows "valid_scope scope"
proof -
  obtain names raw where n: "string_elements ops = Some names" "make_scope raw = Inr scope"
    "sc_operations raw = names"
    using assms unfolding payload_scope_def accepted_iff
    by (elim exE conjE) (rule that, assumption+, simp)
  have "finite names" using n(1) by (auto simp: string_elements_def split: if_splits)
  then show ?thesis using make_scope_valid[OF n(2)] n(3) by simp
qed

lemma payload_capability_valid:
  assumes "payload_capability fint fmicros kvs = Inr c"
  shows "valid_scope (cap_scope c)" "cap_runtime c \<in> set AGENT_RUNTIME_NAMES" "cap_id c \<noteq> []"
proof -
  obtain token_id name scope t u r p s h ops where c:
    "payload_scope fint r p s h ops = Inr scope" "token_id \<noteq> []" "name \<in> set AGENT_RUNTIME_NAMES"
    "c = \<lparr>cap_id = token_id, cap_runtime = name, cap_scope = scope, cap_issued_at = t,
      cap_expires_at = u, cap_token_hash = None\<rparr>"
    using assms unfolding payload_capability_def accepted_iff by (elim exE conjE) (rule that, blast+)
  show "valid_scope (cap_scope c)" "cap_runtime c \<in> set AGENT_RUNTIME_NAMES" "cap_id c \<noteq> []"
    using c(2,3) payload_scope_valid[OF c(1)] unfolding c(4) by simp_all
qed

lemma check_requirement_ok:
  assumes "check_requirement q c = Inr u"
  shows "\<not> differs (rq_repository_id q) (sc_repository_id (cap_scope c))"
    "\<not> differs (rq_pull_request_id q) (sc_pull_request_id (cap_scope c))"
    "\<not> differs (rq_snapshot_id q) (sc_snapshot_id (cap_scope c))"
    "\<not> differs (map_option (\<lambda>s. lower (strip s)) (rq_head_sha q)) (sc_head_sha (cap_scope c))"
    "case rq_operation q of None \<Rightarrow> True | Some operation \<Rightarrow> operation \<in> sc_operations (cap_scope c)"
  using assms unfolding check_requirement_def Let_def guard_Inr allows_def
  by (simp_all split: option.splits if_splits)

lemma check_requirement_runtime:
  assumes "check_requirement q c = Inr u"
  shows "\<not> differs (map_option (\<lambda>r. lower (strip r)) (rq_runtime q)) (cap_runtime c)"
proof (cases "rq_runtime q")
  case (Some r)
  then have "parse_agent_runtime_name r = Some (cap_runtime c)"
    using assms unfolding check_requirement_def Let_def by (auto split: if_splits)
  then show ?thesis using Some by (simp add: parse_agent_runtime_name_def differs_def Let_def split: if_splits)
qed (simp add: differs_def)

text \<open>C23: A token is accepted only if it carries the tag that the key gives to its body, before its
  expiry, and for a well-formed scope: positive ids, a full commit id, a known runtime and a
  non-empty set of read-only operations.  A required runtime, repository, pull request, snapshot or
  commit is the one of the token, and a required operation is among those it grants.\<close>

theorem accepted_capability_is_authentic:
  assumes "verify_session_capability hmac sha256 ft fint fmicros token key now q = Inr cap"
  shows "(\<exists>body. token = ''diffuse-cap.'' @ body @ ''.'' @ b64url_encode (hmac key body)) \<and>
    now < cap_expires_at cap \<and> cap_token_hash cap = Some (sha256 token) \<and> valid_scope (cap_scope cap) \<and>
    cap_runtime cap \<in> set AGENT_RUNTIME_NAMES \<and> cap_id cap \<noteq> [] \<and>
    \<not> differs (map_option (\<lambda>r. lower (strip r)) (rq_runtime q)) (cap_runtime cap) \<and>
    \<not> differs (rq_repository_id q) (sc_repository_id (cap_scope cap)) \<and>
    \<not> differs (rq_pull_request_id q) (sc_pull_request_id (cap_scope cap)) \<and>
    \<not> differs (rq_snapshot_id q) (sc_snapshot_id (cap_scope cap)) \<and>
    \<not> differs (map_option (\<lambda>s. lower (strip s)) (rq_head_sha q)) (sc_head_sha (cap_scope cap)) \<and>
    (case rq_operation q of None \<Rightarrow> True | Some operation \<Rightarrow> operation \<in> sc_operations (cap_scope cap))"
proof -
  obtain kvs c where p: "parse_payload hmac ft token key = Inr kvs"
    "payload_capability fint fmicros kvs = Inr c" "now < cap_expires_at c"
    "cap = c\<lparr>cap_token_hash := Some (sha256 token)\<rparr>" "check_requirement q cap = Inr ()"
    using assms unfolding verify_session_capability_def
    by (auto simp: bind_result_Inr_iff Let_def split: if_splits)
  show ?thesis
    using parse_payload_signed[OF p(1)] payload_capability_valid[OF p(2)] p(3) check_requirement_ok[OF p(5)]
      check_requirement_runtime[OF p(5)]
    unfolding p(4) by simp
qed

definition sample_requirement :: requirement where
  "sample_requirement = \<lparr>rq_operation = Some ''search_code'', rq_repository_id = Some 3,
     rq_pull_request_id = Some 5, rq_snapshot_id = Some 7, rq_head_sha = Some (replicate 40 (CHR ''A'')),
     rq_runtime = Some '' Claude ''\<rparr>"

lemma sample_requirement_met:
  assumes "mint_session_capability hmac sha256 fresh key ''claude'' sample_scope ttl now i = Inr (token, cap)"
  shows "check_requirement sample_requirement cap = Inr ()"
proof -
  have r: "parse_agent_runtime_name ''claude'' = Some ''claude''"
    "parse_agent_runtime_name '' Claude '' = Some ''claude''"
    "lower (strip (replicate 40 (CHR ''A''))) = replicate 40 (CHR ''a'')"
    "''search_code'' \<in> CAPABILITY_OPERATIONS"
    by code_simp+
  have "cap_runtime cap = ''claude'' \<and> cap_scope cap = sample_scope"
    using assms r(1) by (auto simp: mint_session_capability_def Let_def split: if_splits option.splits)
  then show ?thesis
    unfolding check_requirement_def Let_def sample_requirement_def requirement.simps
    using r by (simp add: differs_def allows_def sample_scope_def)
qed

theorem accepted_capability_is_authentic_witness:
  "\<exists>token cap. verify_session_capability (\<lambda>k m. k) (\<lambda>s. s) (\<lambda>s. s) (\<lambda>s. Inl Value_error)
      (\<lambda>s. Inl Value_error) token ''key'' 2000000 sample_requirement = Inr cap \<and>
    valid_scope (cap_scope cap) \<and> cap_runtime cap = ''claude'' \<and>
    ''search_code'' \<in> sc_operations (cap_scope cap)"
proof -
  obtain token cap where m: "mint_session_capability (\<lambda>k m. k) (\<lambda>s. s) ''fresh'' ''key'' ''claude''
      sample_scope 600000000 1000000 None = Inr (token, cap)"
    using sample_minted by (elim exE)
  obtain cap' where v: "verify_session_capability (\<lambda>k m. k) (\<lambda>s. s) (\<lambda>s. s) (\<lambda>s. Inl Value_error)
      (\<lambda>s. Inl Value_error) token ''key'' 2000000 sample_requirement = Inr cap'"
    using capability_verifies[OF sample_scope_valid _ _ _ _ m] sample_requirement_met[OF m]
    by (simp add: sample_scope_def whole_seconds_def)
  have "lower (strip '' Claude '') = ''claude''" by code_simp
  then show ?thesis
    using v accepted_capability_is_authentic[OF v]
    by (intro exI[of _ token] exI[of _ cap'] conjI) (simp_all add: sample_requirement_def differs_def)
qed

text \<open>A bearer token with a character outside ASCII in its signature is not refused but fails: the
  comparison of the tags raises an exception that no handler names.\<close>

lemma nonascii_signature_escapes:
  "session_capability_of hmac sha256 ft fint fmicros (replicate 32 (CHR ''k'')) now
     (Some (''Bearer diffuse-cap.x.'' @ [char_of (233::nat)])) = Inl 500"
proof -
  have b: "bearer_token (Some (''Bearer diffuse-cap.x.'' @ [char_of (233::nat)])) =
      Inr (''diffuse-cap.x.'' @ [char_of (233::nat)])" by code_simp
  have k: "session_capability_signing_key (replicate 32 (CHR ''k'')) = Some (replicate 32 (CHR ''k''))"
    by code_simp
  have "split_on (CHR ''.'') (''diffuse-cap.x.'' @ [char_of (233::nat)]) =
      [''diffuse-cap'', ''x'', [char_of (233::nat)]]" by code_simp
  moreover have "is_ascii ''x''" "\<not> is_ascii [char_of (233::nat)]" by code_simp+
  ultimately have "verify_session_capability hmac sha256 ft fint fmicros
      (''diffuse-cap.x.'' @ [char_of (233::nat)]) (replicate 32 (CHR ''k'')) now q = Inl (Escapes Type_error)" for q
    by (simp add: verify_session_capability_def parse_payload_def)
  then show ?thesis unfolding session_capability_of_def b k bind_result_simps option.case by (simp only: sum.case status_of.simps py_error.distinct if_False)
qed

end
