(* ===== verification/Regex.thy ===== *)
theory Regex
  imports Prelude
begin

text \<open>
  The part of Python's \<open>re\<close> that the chunker uses.  A position is the character before it and the
  text after it; \<open>ends r p\<close> lists the positions where a match of \<open>r\<close> from \<open>p\<close> may end, in the order
  in which the backtracking engine tries them, so its head is the match the engine reports.  An
  iteration of a star that consumes nothing is not tried again, as in the engine.  \<open>reaches\<close> is the
  declarative reading of the same expressions, and \<open>ends_reaches\<close> relates the two.
\<close>

type_synonym pos = "char option \<times> string"

datatype re =
    Chr "char \<Rightarrow> bool"
  | Eps
  | Line_start
  | Text_start
  | Word_boundary
  | Cat re re
  | Alt re re
  | Star re
  | Atomic re

text \<open>\<open>\w\<close> on the code points below 256: letters, numbers and the underscore.\<close>

definition is_word :: "char \<Rightarrow> bool" where
  "is_word c \<longleftrightarrow> is_lower_alpha c \<or> is_upper_alpha c \<or> is_digit c \<or> c = CHR ''_'' \<or>
     code c \<in> {170, 178, 179, 181, 185, 186, 188, 189, 190} \<or>
     (192 \<le> code c \<and> code c \<noteq> 215 \<and> code c \<noteq> 247)"

definition word_at :: "char option \<Rightarrow> bool" where
  "word_at m = (case m of None \<Rightarrow> False | Some c \<Rightarrow> is_word c)"

definition next_char :: "string \<Rightarrow> char option" where
  "next_char s = (case s of [] \<Rightarrow> None | c # _ \<Rightarrow> Some c)"

definition holds_at :: "bool \<Rightarrow> pos \<Rightarrow> pos list" where
  "holds_at b p = (if b then [p] else [])"

definition at_line_start :: "pos \<Rightarrow> bool" where
  "at_line_start p \<longleftrightarrow> (case fst p of None \<Rightarrow> True | Some c \<Rightarrow> code c = 10)"

definition at_word_boundary :: "pos \<Rightarrow> bool" where
  "at_word_boundary p \<longleftrightarrow> word_at (fst p) \<noteq> word_at (next_char (snd p))"

function ends :: "re \<Rightarrow> pos \<Rightarrow> pos list" where
  "ends (Chr f) p =
     (case snd p of [] \<Rightarrow> [] | c # s \<Rightarrow> if f c then [(Some c, s)] else [])"
| "ends Eps p = [p]"
| "ends Line_start p = holds_at (at_line_start p) p"
| "ends Text_start p = holds_at (fst p = None) p"
| "ends Word_boundary p = holds_at (at_word_boundary p) p"
| "ends (Cat a b) p = concat (map (ends b) (ends a p))"
| "ends (Alt a b) p = ends a p @ ends b p"
| "ends (Star a) p =
     concat (map (\<lambda>q. if length (snd q) < length (snd p) then ends (Star a) q else []) (ends a p)) @ [p]"
| "ends (Atomic a) p = take 1 (ends a p)"
  by pat_completeness auto
termination
  by (relation "measures [\<lambda>(r, _). size r, \<lambda>(_, p). length (snd p)]") auto

text \<open>Literals, repetition and option, as the patterns write them.\<close>

fun lit :: "string \<Rightarrow> re" where
  "lit [] = Eps"
| "lit (c # s) = Cat (Chr (\<lambda>d. d = c)) (lit s)"

fun alts :: "re list \<Rightarrow> re" where
  "alts [] = Chr (\<lambda>_. False)"
| "alts [r] = r"
| "alts (r # s # rs) = Alt r (alts (s # rs))"

fun seqs :: "re list \<Rightarrow> re" where
  "seqs [] = Eps"
| "seqs [r] = r"
| "seqs (r # s # rs) = Cat r (seqs (s # rs))"

definition plus_re :: "re \<Rightarrow> re" where
  "plus_re r = Cat r (Star r)"

definition opt_re :: "re \<Rightarrow> re" where
  "opt_re r = Alt r Eps"

definition spaces_re :: re where
  "spaces_re = plus_re (Chr is_space)"

definition words_re :: "string list \<Rightarrow> re" where
  "words_re ws = alts (map lit ws)"

section \<open>Search\<close>

text \<open>
  \<open>match.start()\<close> of the matches of \<open>finditer\<close>, as offsets: the next search starts where the match
  ended.  No pattern of the code matches the empty string; after an empty match the search would go on
  one character later.
\<close>

definition step_pos :: "pos \<Rightarrow> pos" where
  "step_pos p = (case snd p of [] \<Rightarrow> p | c # s \<Rightarrow> (Some c, s))"

function match_starts :: "re \<Rightarrow> nat \<Rightarrow> pos \<Rightarrow> nat list" where
  "match_starts r n p =
     (let after = (case ends r p of q # _ \<Rightarrow> q | [] \<Rightarrow> step_pos p);
          here = (if ends r p = [] then [] else [n]) in
      if snd p = [] then here
      else if length (snd after) < length (snd p)
        then here @ match_starts r (n + (length (snd p) - length (snd after))) after
      else here @ match_starts r (Suc n) (step_pos p))"
  by pat_completeness auto
termination
  by (relation "measure (\<lambda>(_, _, p). length (snd p))")
     (auto simp: step_pos_def split: list.splits)

declare match_starts.simps [simp del]

definition finditer_starts :: "re \<Rightarrow> string \<Rightarrow> nat list" where
  "finditer_starts r s = match_starts r 0 (None, s)"

text \<open>\<open>re.search\<close> of a pattern \<open>a(g)b\<close>, and its group 1.\<close>

definition group_here :: "re \<Rightarrow> re \<Rightarrow> re \<Rightarrow> pos \<Rightarrow> string option" where
  "group_here a g b p =
     (case concat (map (\<lambda>q. concat (map (\<lambda>e. map (\<lambda>_. (q, e)) (ends b e)) (ends g q))) (ends a p)) of
        [] \<Rightarrow> None
      | (q, e) # _ \<Rightarrow> Some (take (length (snd q) - length (snd e)) (snd q)))"

fun search_group_from :: "re \<Rightarrow> re \<Rightarrow> re \<Rightarrow> char option \<Rightarrow> string \<Rightarrow> string option" where
  "search_group_from a g b before [] = group_here a g b (before, [])"
| "search_group_from a g b before (c # s) =
     (case group_here a g b (before, c # s) of
        Some w \<Rightarrow> Some w
      | None \<Rightarrow> search_group_from a g b (Some c) s)"

definition search_group :: "re \<Rightarrow> re \<Rightarrow> re \<Rightarrow> string \<Rightarrow> string option" where
  "search_group a g b s = search_group_from a g b None s"

section \<open>The declarative reading\<close>

inductive reaches :: "re \<Rightarrow> pos \<Rightarrow> pos \<Rightarrow> bool" where
  r_chr: "f c \<Longrightarrow> reaches (Chr f) (b, c # s) (Some c, s)"
| r_eps: "reaches Eps p p"
| r_line: "at_line_start p \<Longrightarrow> reaches Line_start p p"
| r_text: "fst p = None \<Longrightarrow> reaches Text_start p p"
| r_word: "at_word_boundary p \<Longrightarrow> reaches Word_boundary p p"
| r_cat: "reaches a p q \<Longrightarrow> reaches b q e \<Longrightarrow> reaches (Cat a b) p e"
| r_alt1: "reaches a p q \<Longrightarrow> reaches (Alt a b) p q"
| r_alt2: "reaches b p q \<Longrightarrow> reaches (Alt a b) p q"
| r_star0: "reaches (Star a) p p"
| r_star: "reaches a p q \<Longrightarrow> reaches (Star a) q e \<Longrightarrow> reaches (Star a) p e"
| r_atomic: "reaches a p q \<Longrightarrow> reaches (Atomic a) p q"

inductive_cases reaches_chrE: "reaches (Chr f) p q"
inductive_cases reaches_catE: "reaches (Cat a b) p q"
inductive_cases reaches_altE: "reaches (Alt a b) p q"
inductive_cases reaches_starE: "reaches (Star a) p q"

inductive_simps reaches_simps:
  "reaches Eps p q" "reaches Line_start p q" "reaches Text_start p q" "reaches Word_boundary p q"
  "reaches (Cat a b) p q" "reaches (Alt a b) p q" "reaches (Chr f) p q"

fun backtracks :: "re \<Rightarrow> bool" where
  "backtracks (Atomic a) = False"
| "backtracks (Cat a b) = (backtracks a \<and> backtracks b)"
| "backtracks (Alt a b) = (backtracks a \<and> backtracks b)"
| "backtracks (Star a) = backtracks a"
| "backtracks _ = True"

text \<open>A match ends at or after its start, and where nothing is consumed the position is the same.\<close>

lemma reaches_suffix:
  "reaches r p q \<Longrightarrow> \<exists>w. snd p = w @ snd q \<and> fst q = (if w = [] then fst p else Some (last w))"
proof (induction rule: reaches.induct)
  case (r_cat a p q b e)
  then obtain v w where "snd p = v @ snd q" "fst q = (if v = [] then fst p else Some (last v))"
    "snd q = w @ snd e" "fst e = (if w = [] then fst q else Some (last w))" by blast
  then show ?case by (intro exI[of _ "v @ w"]) auto
next
  case (r_star a p q e)
  then obtain v w where "snd p = v @ snd q" "fst q = (if v = [] then fst p else Some (last v))"
    "snd q = w @ snd e" "fst e = (if w = [] then fst q else Some (last w))" by blast
  then show ?case by (intro exI[of _ "v @ w"]) auto
qed auto

lemma reaches_shorter:
  assumes "reaches r p q"
  shows "length (snd q) < length (snd p) \<or> q = p"
proof -
  obtain w where w: "snd p = w @ snd q" "fst q = (if w = [] then fst p else Some (last w))"
    using reaches_suffix[OF assms] by (elim exE conjE)
  show ?thesis
  proof (cases "w = []")
    case True
    then have "q = p" using w by (intro prod_eqI) simp_all
    then show ?thesis ..
  next
    case False
    then show ?thesis using w(1) by simp
  qed
qed

lemma ends_star_iff:
  "e \<in> set (ends (Star a) p) \<longleftrightarrow>
   e = p \<or> (\<exists>q \<in> set (ends a p). length (snd q) < length (snd p) \<and> e \<in> set (ends (Star a) q))"
  by (subst ends.simps(8)) (auto simp del: ends.simps(8) split: if_splits)

declare ends.simps(8) [simp del]

lemma ends_sound: "q \<in> set (ends r p) \<Longrightarrow> reaches r p q"
proof (induction r p arbitrary: q rule: ends.induct)
  case (1 f p)
  then show ?case by (cases p) (auto split: list.splits if_splits intro: r_chr)
next
  case (6 a b p)
  from 6(3) obtain e where "e \<in> set (ends a p)" "q \<in> set (ends b e)" by auto
  then show ?case using r_cat[OF 6(1) 6(2)] by blast
next
  case (8 a p)
  from 8(3) consider "q = p"
    | e where "e \<in> set (ends a p)" "length (snd e) < length (snd p)" "q \<in> set (ends (Star a) e)"
    by (subst (asm) ends_star_iff) blast
  then show ?case
    by cases (use 8(1,2) in \<open>blast intro: r_star0 r_star\<close>)+
next
  case (9 a p)
  then have "q \<in> set (ends a p)" by (simp only: ends.simps) (rule in_set_takeD)
  then show ?case by (intro r_atomic 9(1))
qed (auto simp: holds_at_def split: if_splits intro: reaches.intros)

lemma ends_complete: "reaches r p q \<Longrightarrow> backtracks r \<Longrightarrow> q \<in> set (ends r p)"
proof (induction rule: reaches.induct)
  case (r_star a p q e)
  from reaches_shorter[OF r_star.hyps(1)] show ?case
  proof
    assume "length (snd q) < length (snd p)"
    moreover have "q \<in> set (ends a p)" "e \<in> set (ends (Star a) q)" using r_star.IH r_star.prems by simp_all
    ultimately show ?thesis by (subst ends_star_iff) blast
  next
    assume "q = p"
    then show ?thesis using r_star.IH(2) r_star.prems by simp
  qed
next
  case (r_star0 a p)
  show ?case by (subst ends_star_iff) simp
qed (auto simp: holds_at_def)

theorem ends_reaches: "backtracks r \<Longrightarrow> set (ends r p) = {q. reaches r p q}"
  using ends_sound ends_complete by blast

lemma backtracks_lit [simp]: "backtracks (lit s)"
  by (induction s) auto

lemma ends_length: "q \<in> set (ends r p) \<Longrightarrow> length (snd q) \<le> length (snd p)"
  using reaches_shorter[OF ends_sound] by fastforce

text \<open>Expressions that match no empty text, and the offsets at which they match.\<close>

fun consumes :: "re \<Rightarrow> bool" where
  "consumes (Chr f) = True"
| "consumes (Cat a b) = (consumes a \<or> consumes b)"
| "consumes (Alt a b) = (consumes a \<and> consumes b)"
| "consumes (Atomic a) = consumes a"
| "consumes _ = False"

lemma reaches_length: "reaches r p q \<Longrightarrow> length (snd q) \<le> length (snd p)"
  using reaches_shorter by fastforce

lemma reaches_consumes: "reaches r p q \<Longrightarrow> consumes r \<Longrightarrow> length (snd q) < length (snd p)"
proof (induction rule: reaches.induct)
  case (r_cat a p q b e)
  then show ?case using reaches_length[OF r_cat.hyps(1)] reaches_length[OF r_cat.hyps(2)] by auto
qed auto

lemma ends_at_end: "consumes r \<Longrightarrow> ends r (b, []) = []"
  using reaches_consumes[OF ends_sound, of _ r "(b, [])"] by (metis list.set_intros(1) list.exhaust list.size(3) not_less_zero snd_conv)

lemma match_starts_bound:
  "m \<in> set (match_starts r n p) \<Longrightarrow> consumes r \<Longrightarrow> n \<le> m \<and> m < n + length (snd p)"
proof (induction r n p rule: match_starts.induct)
  case (1 r n p)
  define after where "after = (case ends r p of q # _ \<Rightarrow> q | [] \<Rightarrow> step_pos p)"
  show ?case
  proof (cases "snd p = []")
    case True
    then have "ends r p = []" using 1(4) ends_at_end[of r "fst p"] by (cases p) simp
    then show ?thesis using 1(3) True by (subst (asm) match_starts.simps) simp
  next
    case False
    then have l: "0 < length (snd p)" by simp
    have s: "length (snd (step_pos p)) = length (snd p) - 1"
      by (auto simp: step_pos_def split: list.splits)
    show ?thesis
    proof (cases "length (snd after) < length (snd p)")
      case True
      from 1(3) have "m = n \<or> m \<in> set (match_starts r (n + (length (snd p) - length (snd after))) after)"
        using False True unfolding after_def
        by (subst (asm) match_starts.simps) (auto simp: Let_def split: if_splits)
      then show ?thesis using 1(1)[OF refl refl False] 1(4) True l unfolding after_def by fastforce
    next
      case nomove: False
      from 1(3) have "m = n \<or> m \<in> set (match_starts r (Suc n) (step_pos p))"
        using False nomove unfolding after_def
        by (subst (asm) match_starts.simps) (auto simp: Let_def split: if_splits)
      then show ?thesis using 1(2)[OF refl refl False] 1(4) nomove l s unfolding after_def by linarith
    qed
  qed
qed

lemma finditer_starts_bound: "m \<in> set (finditer_starts r s) \<Longrightarrow> consumes r \<Longrightarrow> m < length s"
  using match_starts_bound[of m r 0 "(None, s)"] by (simp add: finditer_starts_def)

lemma consumes_lit [simp]: "consumes (lit s) \<longleftrightarrow> s \<noteq> []"
  by (induction s) auto

end
