(* ===== verification/Chunker.thy ===== *)
theory Chunker
  imports Regex Policy_Models
begin

text \<open>
  Splitting of repository files into retrieval chunks (\<open>repository/indexing/chunker.py\<close>).  Line numbers
  of spans are 0-based natural numbers with an exclusive end, those of chunks are 1-based, as in the
  code.  A span loop that never returns is \<open>None\<close> and becomes the error \<open>Does_not_return\<close>; reading a line
  past the end is the error \<open>Index_error\<close>.  The bytes of a file are decoded by the parameter
  \<open>decode\<close> (UTF-8, ignoring errors), its symbols come from the code graph, the parameter \<open>extract\<close>.
\<close>

datatype chunk_error = Index_error nat | Does_not_return

type_synonym span = "nat \<times> nat \<times> string option"

record code_symbol =
  sy_stable_key :: string
  sy_file_path :: string
  sy_language :: string
  sy_kind :: string
  sy_name :: string
  sy_qualified_name :: string
  sy_start_line :: int
  sy_end_line :: int
  sy_signature :: "string option"
  sy_docstring :: "string option"
  sy_content_hash :: string

record chunk =
  ck_file_path :: string
  ck_start_line :: nat
  ck_end_line :: nat
  ck_content :: string
  ck_symbol_name :: "string option"

definition content_hash :: "(string \<Rightarrow> string) \<Rightarrow> chunk \<Rightarrow> string" where
  "content_hash sha256_utf8 c = sha256_utf8 (ck_content c)"

section \<open>Patterns\<close>

definition name_start :: "char \<Rightarrow> bool" where
  "name_start c \<longleftrightarrow> is_lower_alpha c \<or> is_upper_alpha c \<or> c = CHR ''_''"

definition dollar :: "(char \<Rightarrow> bool) \<Rightarrow> char \<Rightarrow> bool" where
  "dollar f c \<longleftrightarrow> f c \<or> c = CHR ''$''"

definition name_re :: re where
  "name_re = Cat (Chr name_start) (Star (Chr is_word))"

definition js_name_re :: re where
  "js_name_re = Cat (Chr (dollar name_start)) (Star (Chr (dollar is_word)))"

definition ruby_name_re :: re where
  "ruby_name_re = plus_re (Chr (\<lambda>c. is_word c \<or> c \<in> set '':!?=''))"

definition words1_re :: re where
  "words1_re = plus_re (Chr is_word)"

text \<open>The keywords before the name, shared by the two tables of patterns.\<close>

definition py_head :: re where
  "py_head = Cat (alts [seqs [lit ''async'', spaces_re, lit ''def''], lit ''def'', lit ''class'']) spaces_re"

definition export_re :: re where
  "export_re = opt_re (seqs [lit ''export'', spaces_re, opt_re (Cat (lit ''default'') spaces_re)])"

definition function_re :: re where
  "function_re = Cat (opt_re (Cat (lit ''async'') spaces_re)) (lit ''function'')"

definition js_head :: re where
  "js_head = seqs [export_re, Alt function_re (words_re [''class'', ''const'', ''let'']), spaces_re]"

definition ts_head :: re where
  "ts_head =
     seqs [export_re,
           Alt function_re (words_re [''class'', ''interface'', ''type'', ''enum'', ''const'', ''let'']),
           spaces_re]"

definition go_head :: re where
  "go_head =
     Cat (Alt (Cat (lit ''func'')
                   (opt_re (seqs [spaces_re, lit ''('', Star (Chr (\<lambda>c. c \<noteq> CHR '')'')), lit '')''])))
              (lit ''type''))
         spaces_re"

definition rb_head :: re where
  "rb_head = Cat (words_re [''def'', ''class'', ''module'']) spaces_re"

definition blanks_re :: re where
  "blanks_re = Chr (\<lambda>c. c = CHR '' '' \<or> code c = 9)"

definition java_type_re :: re where
  "java_type_re = plus_re (Chr (\<lambda>c. is_word c \<or> c \<in> set ''<>[],?''))"

definition java_re :: re where
  "java_re =
     seqs [Star blanks_re,
           Star (Cat (words_re [''public'', ''private'', ''protected'', ''static'', ''final'', ''abstract'',
                                ''synchronized'']) (plus_re blanks_re)),
           Alt (seqs [Alt (words_re [''class'', ''interface'', ''enum'', ''record''])
                          (seqs [java_type_re, Star (Cat (plus_re (lit '' '')) java_type_re), spaces_re]),
                      words1_re,
                      Alt (Cat (Star (Chr is_space)) (lit ''('')) spaces_re])
               (seqs [Chr is_upper_alpha, Star (Chr is_word), Star blanks_re, lit ''(''])]"

definition DEFINITION_PATTERNS :: "(string \<times> re) list" where
  "DEFINITION_PATTERNS =
     [(''.py'', seqs [Line_start, py_head, words1_re]),
      (''.js'', seqs [Line_start, js_head, words1_re]),
      (''.jsx'', seqs [Line_start, js_head, words1_re]),
      (''.ts'', seqs [Line_start, ts_head, words1_re]),
      (''.tsx'', seqs [Line_start, ts_head, words1_re]),
      (''.go'', seqs [Line_start, go_head, words1_re]),
      (''.java'', Cat Line_start java_re),
      (''.rb'', seqs [Line_start, rb_head, ruby_name_re])]"

definition SYMBOL_PATTERNS :: "(string \<times> re \<times> re) list" where
  "SYMBOL_PATTERNS =
     [(''.py'', Cat Text_start py_head, name_re),
      (''.js'', Cat Text_start js_head, js_name_re),
      (''.jsx'', Cat Text_start js_head, js_name_re),
      (''.ts'', Cat Text_start ts_head, js_name_re),
      (''.tsx'', Cat Text_start ts_head, js_name_re),
      (''.go'', Cat Text_start go_head, name_re),
      (''.rb'', Cat Text_start rb_head, ruby_name_re)]"

definition extract_symbol :: "string \<Rightarrow> string \<Rightarrow> string option" where
  "extract_symbol line extension =
     (let stripped = strip line in
      case map_of SYMBOL_PATTERNS extension of
        Some (head, grp) \<Rightarrow> search_group head grp Eps stripped
      | None \<Rightarrow>
          (case search_group Word_boundary (Cat (Chr name_start) (Atomic (Star (Chr is_word))))
                  (Cat (Atomic (Star (Chr is_space))) (lit ''('')) stripped of
             Some w \<Rightarrow> Some w
           | None \<Rightarrow>
               search_group (seqs [Word_boundary, words_re [''class'', ''interface'', ''enum'', ''record''],
                                   spaces_re])
                 name_re Eps stripped))"

section \<open>Spans\<close>

definition FALLBACK_WINDOW_LINES :: nat where "FALLBACK_WINDOW_LINES = 80"
definition FALLBACK_OVERLAP_LINES :: nat where "FALLBACK_OVERLAP_LINES = 12"
definition MAX_DEFINITION_CHUNK_LINES :: nat where "MAX_DEFINITION_CHUNK_LINES = 160"
definition DEFINITION_OVERLAP_LINES :: nat where "DEFINITION_OVERLAP_LINES = 20"
definition MAX_FILE_BYTES :: nat where "MAX_FILE_BYTES = 400000"

definition DEFINITION_SYMBOL_KINDS :: "string list" where
  "DEFINITION_SYMBOL_KINDS =
     [''class'', ''enum'', ''function'', ''implementation'', ''interface'', ''method'', ''namespace'',
      ''trait'', ''type'']"

text \<open>The loop of \<open>_split_span\<close>; its cursor is an integer, since \<open>chunk_end - overlap\<close> may be negative.\<close>

partial_function (option) split_loop ::
    "int \<Rightarrow> int \<Rightarrow> 'a \<Rightarrow> int \<Rightarrow> int \<Rightarrow> (int \<times> int \<times> 'a) list \<Rightarrow> (int \<times> int \<times> 'a) list option" where
  "split_loop window overlap symbol stop cursor spans =
     (if cursor < stop then
        (let chunk_end = min (cursor + window) stop;
             spans = spans @ [(cursor, chunk_end, symbol)] in
         if chunk_end = stop then Some spans
         else split_loop window overlap symbol stop (chunk_end - overlap) spans)
      else Some spans)"

declare split_loop.simps [code]

definition split_span :: "int \<Rightarrow> int \<Rightarrow> 'a \<Rightarrow> int \<Rightarrow> int \<Rightarrow> (int \<times> int \<times> 'a) list option" where
  "split_span start stop symbol window overlap = split_loop window overlap symbol stop start []"

definition spans_of :: "nat \<Rightarrow> nat \<Rightarrow> string option \<Rightarrow> nat \<Rightarrow> nat \<Rightarrow> chunk_error + span list" where
  "spans_of start stop symbol window overlap =
     (case split_span (int start) (int stop) symbol (int window) (int overlap) of
        None \<Rightarrow> Inl Does_not_return
      | Some spans \<Rightarrow> Inr (map (\<lambda>(a, b, s). (nat a, nat b, s)) spans))"

definition definition_spans :: "nat \<Rightarrow> nat \<Rightarrow> string option \<Rightarrow> chunk_error + span list" where
  "definition_spans start stop symbol =
     spans_of start stop symbol MAX_DEFINITION_CHUNK_LINES DEFINITION_OVERLAP_LINES"

text \<open>The loop over the starts of the definitions, after the part before the first one.\<close>

fun spans_between ::
    "(nat \<Rightarrow> chunk_error + string option) \<Rightarrow> nat \<Rightarrow> nat list \<Rightarrow> chunk_error + span list" where
  "spans_between name_at count [] = Inr []"
| "spans_between name_at count (start # starts) =
     (let stop = (case starts of [] \<Rightarrow> count | next # _ \<Rightarrow> next) in
      bind_result (name_at start) (\<lambda>symbol.
      bind_result (definition_spans start stop symbol) (\<lambda>here.
      bind_result (spans_between name_at count starts) (\<lambda>rest. Inr (here @ rest)))))"

definition spans_with_preamble ::
    "(nat \<Rightarrow> chunk_error + string option) \<Rightarrow> nat \<Rightarrow> nat list \<Rightarrow> chunk_error + span list" where
  "spans_with_preamble name_at count starts =
     bind_result (if 0 < hd starts then definition_spans 0 (hd starts) None else Inr []) (\<lambda>first.
     bind_result (spans_between name_at count starts) (\<lambda>rest. Inr (first @ rest)))"

text \<open>\<open>_offset_to_line\<close>: the binary search of the line that holds an offset.\<close>

function offset_search :: "nat list \<Rightarrow> nat \<Rightarrow> nat \<Rightarrow> nat \<Rightarrow> nat" where
  "offset_search offsets offset low high =
     (if low < high then
        (let middle = (low + high + 1) div 2 in
         if offsets ! middle \<le> offset then offset_search offsets offset middle high
         else offset_search offsets offset low (middle - 1))
      else low)"
  by pat_completeness auto
termination by (relation "measure (\<lambda>(_, _, low, high). high - low)") auto

declare offset_search.simps [simp del]

definition offset_to_line :: "nat list \<Rightarrow> nat \<Rightarrow> nat" where
  "offset_to_line offsets offset = offset_search offsets offset 0 (length offsets - 1)"

text \<open>\<open>str.splitlines(keepends=True)\<close>\<close>

fun keepends_acc :: "string \<Rightarrow> string \<Rightarrow> string list" where
  "keepends_acc acc [] = (if acc = [] then [] else [rev acc])"
| "keepends_acc acc [c] = [rev (c # acc)]"
| "keepends_acc acc (c # d # cs) =
     (if code c = 13 \<and> code d = 10 then rev (d # c # acc) # keepends_acc [] cs
      else if is_line_break c then rev (c # acc) # keepends_acc [] (d # cs)
      else keepends_acc (c # acc) (d # cs))"

definition splitlines_keepends :: "string \<Rightarrow> string list" where
  "splitlines_keepends s = keepends_acc [] s"

fun running_offsets :: "nat \<Rightarrow> string list \<Rightarrow> nat list" where
  "running_offsets n [] = [n]"
| "running_offsets n (l # ls) = n # running_offsets (n + length l) ls"

definition nth_line :: "string list \<Rightarrow> nat \<Rightarrow> chunk_error + string" where
  "nth_line lines i = (if i < length lines then Inr (lines ! i) else Inl (Index_error i))"

definition definition_starts :: "string \<Rightarrow> re \<Rightarrow> nat list" where
  "definition_starts body pattern =
     (let offsets = running_offsets 0 (splitlines_keepends body) in
      sort (dedup (map (offset_to_line offsets) (finditer_starts pattern body))))"

definition chunk_by_definitions :: "string \<Rightarrow> re \<Rightarrow> string \<Rightarrow> chunk_error + span list" where
  "chunk_by_definitions body pattern extension =
     (let lines = splitlines body in
      if finditer_starts pattern body = [] then Inr []
      else spans_with_preamble
             (\<lambda>start. bind_result (nth_line lines start) (\<lambda>line. Inr (extract_symbol line extension)))
             (length lines) (definition_starts body pattern))"

definition chunk_by_window :: "string \<Rightarrow> chunk_error + span list" where
  "chunk_by_window body =
     (let lines = splitlines body in
      if lines = [] then Inr []
      else spans_of 0 (length lines) None FALLBACK_WINDOW_LINES FALLBACK_OVERLAP_LINES)"

definition is_definition :: "nat \<Rightarrow> code_symbol \<Rightarrow> bool" where
  "is_definition count s \<longleftrightarrow>
     sy_kind s \<in> set DEFINITION_SYMBOL_KINDS \<and> 1 \<le> sy_start_line s \<and> sy_start_line s \<le> int count"

definition symbol_order :: "code_symbol \<Rightarrow> int \<times> int \<times> string" where
  "symbol_order s = (sy_start_line s, sy_end_line s, sy_qualified_name s)"

definition setdefault :: "'k \<Rightarrow> 'v \<Rightarrow> ('k \<times> 'v) list \<Rightarrow> ('k \<times> 'v) list" where
  "setdefault k v d = (if map_of d k = None then d @ [(k, v)] else d)"

definition names_by_start :: "nat \<Rightarrow> code_symbol list \<Rightarrow> (nat \<times> string) list" where
  "names_by_start count symbols =
     fold (\<lambda>s. setdefault (nat (sy_start_line s - 1)) (sy_name s))
       (sort_key symbol_order (filter (is_definition count) symbols)) []"

definition chunk_by_symbols :: "string \<Rightarrow> code_symbol list \<Rightarrow> chunk_error + span list" where
  "chunk_by_symbols body symbols =
     (let lines = splitlines body; names = names_by_start (length lines) symbols in
      if names = [] then Inr []
      else spans_with_preamble (\<lambda>start. Inr (map_of names start)) (length lines) (sort (map fst names)))"

section \<open>Files\<close>

record repo_file =
  rf_path :: string
  rf_bytes :: "string option"
  rf_size :: nat
  rf_is_file :: bool
  rf_is_symlink :: bool

definition SKIP_DIRS :: "string list" where
  "SKIP_DIRS =
     [''.git'', ''.idea'', ''.next'', ''.venv'', ''.vscode'', ''__pycache__'', ''build'', ''coverage'', ''dist'',
      ''node_modules'', ''target'', ''vendor'', ''venv'']"

definition SKIP_EXTENSIONS :: "string list" where
  "SKIP_EXTENSIONS =
     [''.avif'', ''.class'', ''.dll'', ''.dylib'', ''.gif'', ''.ico'', ''.jar'', ''.jpeg'', ''.jpg'', ''.lock'',
      ''.map'', ''.o'', ''.pdf'', ''.png'', ''.pyc'', ''.so'', ''.svg'', ''.ttf'', ''.webp'', ''.woff'', ''.woff2'',
      ''.zip'']"

definition is_candidate :: "repo_file \<Rightarrow> bool" where
  "is_candidate f \<longleftrightarrow>
     rf_is_file f \<and> \<not> rf_is_symlink f \<and> rf_size f \<le> MAX_FILE_BYTES \<and>
     \<not> list_ex (\<lambda>part. part \<in> set SKIP_DIRS) (butlast (posix_parts (rf_path f))) \<and>
     lower (posix_suffix (posix_name (rf_path f))) \<notin> set SKIP_EXTENSIONS \<and>
     \<not> list_ex (endswith (lower (posix_name (rf_path f)))) [''.min.js'', ''.min.css''] \<and>
     \<not> is_sensitive_repo_path (rf_path f)"

definition file_spans :: "string \<Rightarrow> string \<Rightarrow> code_symbol list \<Rightarrow> chunk_error + span list" where
  "file_spans body extension symbols =
     bind_result (chunk_by_symbols body symbols) (\<lambda>spans.
     bind_result
       (if spans \<noteq> [] then Inr spans
        else (case map_of DEFINITION_PATTERNS extension of
                None \<Rightarrow> Inr []
              | Some pattern \<Rightarrow> chunk_by_definitions body pattern extension)) (\<lambda>spans.
     if spans \<noteq> [] then Inr spans else chunk_by_window body))"

definition span_content :: "string list \<Rightarrow> nat \<Rightarrow> nat \<Rightarrow> string" where
  "span_content lines start stop = strip (join newline (take (stop - start) (drop start lines)))"

fun chunks_of_spans :: "string \<Rightarrow> string list \<Rightarrow> span list \<Rightarrow> chunk list" where
  "chunks_of_spans path lines [] = []"
| "chunks_of_spans path lines ((start, stop, symbol) # spans) =
     (if span_content lines start stop \<noteq> [] then
        [\<lparr>ck_file_path = path, ck_start_line = start + 1, ck_end_line = stop,
          ck_content = span_content lines start stop, ck_symbol_name = symbol\<rparr>]
      else []) @ chunks_of_spans path lines spans"

definition chunk_text :: "string \<Rightarrow> string \<Rightarrow> code_symbol list \<Rightarrow> chunk_error + chunk list" where
  "chunk_text path body symbols =
     bind_result (file_spans body (lower (posix_suffix (posix_name path))) symbols) (\<lambda>spans.
     Inr (chunks_of_spans path (splitlines body) spans))"

text \<open>
  \<open>extract f\<close> is \<open>None\<close> where the graph extractor raises \<open>RecursionError\<close>, which \<open>chunk_repo\<close> catches.
\<close>

definition chunk_file ::
    "(string \<Rightarrow> string) \<Rightarrow> (repo_file \<Rightarrow> code_symbol list option) \<Rightarrow> code_symbol list option \<Rightarrow> repo_file \<Rightarrow>
     (chunk_error + chunk list) option" where
  "chunk_file decode extract symbols f =
     (case rf_bytes f of
        None \<Rightarrow> Some (Inr [])
      | Some raw \<Rightarrow>
          if CHR 0x00 \<in> set raw then Some (Inr [])
          else
            (let body = decode raw in
             if strip body = [] then Some (Inr [])
             else map_option (chunk_text (rf_path f) body)
                    (case symbols of Some given \<Rightarrow> Some given | None \<Rightarrow> extract f)))"

definition symbols_by_file :: "code_symbol list \<Rightarrow> string \<Rightarrow> code_symbol list option" where
  "symbols_by_file symbols path =
     (let mine = filter (\<lambda>s. sy_file_path s = path) symbols in if mine = [] then None else Some mine)"

definition chunk_repo ::
    "(string \<Rightarrow> string) \<Rightarrow> (repo_file \<Rightarrow> code_symbol list option) \<Rightarrow> code_symbol list option \<Rightarrow> repo_file list \<Rightarrow>
     chunk_error + chunk list" where
  "chunk_repo decode extract symbols files =
     bind_result
       (map_result
          (\<lambda>f. case chunk_file decode extract
                  (case symbols of None \<Rightarrow> None | Some all_symbols \<Rightarrow> symbols_by_file all_symbols (rf_path f)) f of
                 None \<Rightarrow> Inr []
               | Some result \<Rightarrow> result)
          (filter is_candidate files))
       (\<lambda>chunks. Inr (concat chunks))"

end
