(* ===== verification/Chunker_Props.thy ===== *)
theory Chunker_Props
  imports Chunker
begin

text \<open>
  The chunker loses no line: its span loop returns exactly when its cursor moves forward, the spans of
  a file tile its lines, and each chunk is a bounded, non-blank piece that starts where its definition
  starts.
\<close>

section \<open>The span loop\<close>

lemma split_loop_step:
  "split_loop w ov symb stop cursor spans =
     (if stop \<le> cursor then Some spans
      else if stop \<le> cursor + w then Some (spans @ [(cursor, stop, symb)])
      else split_loop w ov symb stop (cursor + w - ov) (spans @ [(cursor, cursor + w, symb)]))"
  by (subst split_loop.simps) (auto simp: Let_def min_def)

lemma split_loop_stuck:
  assumes "split_loop w ov symb stop cursor spans = Some r" "w \<le> ov"
  shows "stop \<le> cursor \<or> stop \<le> cursor + w"
  using assms
proof (induction rule: split_loop.raw_induct[rotated, consumes 1])
  case (1 loop w ov symb stop cursor spans r)
  show ?case
  proof (rule ccontr)
    assume far: "\<not> (stop \<le> cursor \<or> stop \<le> cursor + w)"
    then have "loop w ov symb stop (cursor + w - ov) (spans @ [(cursor, cursor + w, symb)]) = Some r"
      using 1(2) by (auto simp: Let_def min_def split: if_splits)
    then show False using 1(1) 1(3) far by fastforce
  qed
qed

lemma split_loop_near: "stop \<le> cursor \<or> stop \<le> cursor + w \<Longrightarrow> \<exists>r. split_loop w ov symb stop cursor spans = Some r"
  by (subst split_loop_step) auto

lemma split_loop_returns:
  "ov < w \<Longrightarrow> \<exists>r. split_loop w ov symb stop cursor spans = Some r"
proof (induction "nat (stop - cursor)" arbitrary: cursor spans rule: less_induct)
  case less
  show ?case
  proof (cases "stop \<le> cursor \<or> stop \<le> cursor + w")
    case True
    then show ?thesis by (rule split_loop_near)
  next
    case False
    then have "nat (stop - (cursor + w - ov)) < nat (stop - cursor)" using less.prems by linarith
    then have "\<exists>r. split_loop w ov symb stop (cursor + w - ov) (spans @ [(cursor, cursor + w, symb)]) = Some r"
      using less by blast
    then show ?thesis using False by (subst split_loop_step) simp
  qed
qed

section \<open>Tiles\<close>

definition tiles :: "nat \<Rightarrow> nat \<Rightarrow> nat \<Rightarrow> span list \<Rightarrow> bool" where
  "tiles lo hi w spans \<longleftrightarrow>
     (\<forall>(a, b, s) \<in> set spans. lo \<le> a \<and> a < b \<and> b \<le> hi \<and> b \<le> a + w) \<and>
     (\<forall>i. lo \<le> i \<and> i < hi \<longrightarrow> (\<exists>(a, b, s) \<in> set spans. a \<le> i \<and> i < b))"

lemma tiles_join:
  assumes "tiles lo m w xs" "tiles n hi w ys" "lo \<le> n" "n \<le> m" "m \<le> hi"
  shows "tiles lo hi w (xs @ ys)"
  unfolding tiles_def
proof (intro conjI allI impI)
  show "\<forall>(a, b, s) \<in> set (xs @ ys). lo \<le> a \<and> a < b \<and> b \<le> hi \<and> b \<le> a + w"
    using assms unfolding tiles_def by fastforce
next
  fix i assume i: "lo \<le> i \<and> i < hi"
  then consider "lo \<le> i \<and> i < m" | "n \<le> i \<and> i < hi" using assms(4) by linarith
  then show "\<exists>(a, b, s) \<in> set (xs @ ys). a \<le> i \<and> i < b"
  proof cases
    case 1
    then have "\<exists>(a, b, s) \<in> set xs. a \<le> i \<and> i < b" using assms(1) by (simp add: tiles_def)
    then show ?thesis by auto
  next
    case 2
    then have "\<exists>(a, b, s) \<in> set ys. a \<le> i \<and> i < b" using assms(2) by (simp add: tiles_def)
    then show ?thesis by auto
  qed
qed

lemma tiles_append: "tiles lo mid w xs \<Longrightarrow> tiles mid hi w ys \<Longrightarrow> lo \<le> mid \<Longrightarrow> mid \<le> hi \<Longrightarrow> tiles lo hi w (xs @ ys)"
  by (rule tiles_join[where m = mid and n = mid]) simp_all

lemma tiles_wider: "tiles lo hi w xs \<Longrightarrow> w \<le> w' \<Longrightarrow> tiles lo hi w' xs"
  unfolding tiles_def by fastforce

lemma tiles_single: "lo < hi \<Longrightarrow> hi \<le> lo + w \<Longrightarrow> tiles lo hi w [(lo, hi, s)]"
  by (simp add: tiles_def)

lemma tiles_cons:
  assumes "tiles mid hi w xs" "lo < lo + w" "mid \<le> lo + w" "lo \<le> mid" "lo + w \<le> hi"
  shows "tiles lo hi w ((lo, lo + w, s) # xs)"
  using tiles_join[OF tiles_single[OF assms(2)] assms(1)] assms by simp

definition to_span :: "int \<times> int \<times> string option \<Rightarrow> span" where
  "to_span = (\<lambda>(a, b, s). (nat a, nat b, s))"

lemma split_loop_tiles:
  assumes "ov < w" "cursor < stop"
  shows "\<exists>more. split_loop (int w) (int ov) symb (int stop) (int cursor) spans = Some (spans @ more) \<and>
     tiles cursor stop w (map to_span more) \<and> to_span (hd more) \<in> to_span ` set more \<and>
     fst (hd more) = int cursor \<and> more \<noteq> [] \<and> (\<forall>(a, b, s) \<in> set more. s = symb)"
  using assms(2)
proof (induction "stop - cursor" arbitrary: cursor spans rule: less_induct)
  case less
  show ?case
  proof (cases "stop \<le> cursor + w")
    case True
    then show ?thesis using less.prems
      by (intro exI[of _ "[(int cursor, int stop, symb)]"], subst split_loop_step)
         (simp add: to_span_def tiles_single)
  next
    case False
    let ?n = "cursor + w - ov"
    have n: "stop - ?n < stop - cursor" "?n < stop" using False less.prems assms(1) by linarith+
    have i: "int cursor + int w - int ov = int ?n" using assms(1) by (simp add: of_nat_diff)
    from less.hyps[OF n, of "spans @ [(int cursor, int (cursor + w), symb)]"] obtain more where more:
      "split_loop (int w) (int ov) symb (int stop) (int ?n) (spans @ [(int cursor, int (cursor + w), symb)]) =
         Some ((spans @ [(int cursor, int (cursor + w), symb)]) @ more)"
      "tiles ?n stop w (map to_span more)" "\<forall>(a, b, s) \<in> set more. s = symb" by (elim exE conjE)
    have "tiles cursor stop w (map to_span ((int cursor, int (cursor + w), symb) # more))"
      using tiles_cons[OF more(2), of cursor symb] False assms(1) by (simp add: to_span_def nat_int_add)
    then show ?thesis
      using more(1,3) False less.prems
      by (subst split_loop_step) (intro exI[of _ "(int cursor, int (cursor + w), symb) # more"], simp add: i)
  qed
qed

lemma spans_of_tiles:
  assumes "ov < w" "start < stop"
  shows "\<exists>spans. spans_of start stop symb w ov = Inr spans \<and> tiles start stop w spans \<and>
     (\<exists>b. (start, b, symb) \<in> set spans)"
proof -
  obtain more where more: "split_loop (int w) (int ov) symb (int stop) (int start) [] = Some more"
    "tiles start stop w (map to_span more)" "fst (hd more) = int start" "more \<noteq> []"
    "\<forall>(a, b, s) \<in> set more. s = symb"
    using split_loop_tiles[OF assms, of symb "[]"] by (elim exE conjE) simp
  obtain a b s where h: "hd more = (a, b, s)" by (cases "hd more")
  then have "(a, b, s) \<in> set more" using more(4) hd_in_set by metis
  moreover have "to_span (a, b, s) = (start, nat b, symb)"
    using more(3,5) h calculation by (auto simp: to_span_def)
  ultimately have "(start, nat b, symb) \<in> set (map to_span more)" by (metis image_eqI set_map)
  moreover have "spans_of start stop symb w ov = Inr (map to_span more)"
    using more(1) by (simp add: spans_of_def split_span_def to_span_def)
  ultimately show ?thesis using more(2) by blast
qed

lemmas definition_spans_tiles =
  spans_of_tiles[of DEFINITION_OVERLAP_LINES MAX_DEFINITION_CHUNK_LINES, folded definition_spans_def]

lemma overlap_below_window [simp]:
  "DEFINITION_OVERLAP_LINES < MAX_DEFINITION_CHUNK_LINES" "FALLBACK_OVERLAP_LINES < FALLBACK_WINDOW_LINES"
  by (simp_all add: DEFINITION_OVERLAP_LINES_def MAX_DEFINITION_CHUNK_LINES_def
        FALLBACK_OVERLAP_LINES_def FALLBACK_WINDOW_LINES_def)

text \<open>Where every start is a line and has a name, the spans tile the file and start at the starts.\<close>

lemma spans_between_tiles:
  assumes "sorted_wrt (<) (start # starts)" "\<forall>s \<in> set (start # starts). s < count \<and> name_at s = Inr (f s)"
  shows "\<exists>spans. spans_between name_at count (start # starts) = Inr spans \<and>
     tiles start count MAX_DEFINITION_CHUNK_LINES spans \<and>
     (\<forall>s \<in> set (start # starts). \<exists>b. (s, b, f s) \<in> set spans)"
  using assms
proof (induction starts arbitrary: start)
  case Nil
  obtain spans where "definition_spans start count (f start) = Inr spans"
    "tiles start count MAX_DEFINITION_CHUNK_LINES spans" "\<exists>b. (start, b, f start) \<in> set spans"
    using definition_spans_tiles[of start count "f start"] Nil by auto
  then show ?case using Nil by auto
next
  case (Cons next_start starts)
  have lt: "start < next_start" "next_start < count" using Cons.prems by auto
  obtain here where here: "definition_spans start next_start (f start) = Inr here"
    "tiles start next_start MAX_DEFINITION_CHUNK_LINES here" "\<exists>b. (start, b, f start) \<in> set here"
    using definition_spans_tiles[of start next_start "f start"] lt by auto
  obtain rest where rest: "spans_between name_at count (next_start # starts) = Inr rest"
    "tiles next_start count MAX_DEFINITION_CHUNK_LINES rest"
    "\<forall>s \<in> set (next_start # starts). \<exists>b. (s, b, f s) \<in> set rest"
    using Cons.IH[of next_start] Cons.prems by auto
  have "spans_between name_at count (start # next_start # starts) = Inr (here @ rest)"
    using Cons.prems(2) here(1) rest(1) by (subst spans_between.simps) (simp del: spans_between.simps)
  moreover have "tiles start count MAX_DEFINITION_CHUNK_LINES (here @ rest)"
    using tiles_append[OF here(2) rest(2)] lt by simp
  ultimately show ?case using here(3) rest(3) by fastforce
qed

lemma spans_with_preamble_tiles:
  assumes "sorted_wrt (<) starts" "starts \<noteq> []" "\<forall>s \<in> set starts. s < count \<and> name_at s = Inr (f s)"
  shows "\<exists>spans. spans_with_preamble name_at count starts = Inr spans \<and>
     tiles 0 count MAX_DEFINITION_CHUNK_LINES spans \<and> (\<forall>s \<in> set starts. \<exists>b. (s, b, f s) \<in> set spans)"
proof -
  obtain start others where s: "starts = start # others" using assms(2) by (cases starts) auto
  obtain rest where rest: "spans_between name_at count starts = Inr rest"
    "tiles start count MAX_DEFINITION_CHUNK_LINES rest" "\<forall>s \<in> set starts. \<exists>b. (s, b, f s) \<in> set rest"
    using spans_between_tiles[of start others count name_at f] assms s by auto
  show ?thesis
  proof (cases "0 < start")
    case True
    then obtain first where "definition_spans 0 start None = Inr first"
      "tiles 0 start MAX_DEFINITION_CHUNK_LINES first"
      using definition_spans_tiles[of 0 start None] by auto
    moreover from this have "tiles 0 count MAX_DEFINITION_CHUNK_LINES (first @ rest)"
      using tiles_append[OF _ rest(2), of 0 first] assms(3) s by simp
    ultimately show ?thesis using rest s True by (auto simp: spans_with_preamble_def)
  next
    case False
    then show ?thesis using rest s by (auto simp: spans_with_preamble_def)
  qed
qed

section \<open>The line of an offset\<close>

text \<open>The loop invariant of the search: the line at \<open>low\<close> starts at or before the offset, those after \<open>high\<close> after it.\<close>

lemma offset_search_correct:
  assumes "sorted offsets" "low \<le> high" "high < length offsets" "offsets ! low \<le> offset"
    "\<forall>j. high < j \<and> j < length offsets \<longrightarrow> offset < offsets ! j"
  shows "offset_search offsets offset low high \<le> high \<and>
    offsets ! offset_search offsets offset low high \<le> offset \<and>
    (\<forall>j. offset_search offsets offset low high < j \<and> j < length offsets \<longrightarrow> offset < offsets ! j)"
  using assms
proof (induction offsets offset low high rule: offset_search.induct)
  case (1 offsets offset low high)
  let ?mid = "(low + high + 1) div 2"
  show ?case
  proof (cases "low < high")
    case True
    then have mid: "low < ?mid" "?mid \<le> high" by linarith+
    show ?thesis
    proof (cases "offsets ! ?mid \<le> offset")
      case le: True
      then have "offset_search offsets offset low high = offset_search offsets offset ?mid high"
        using True by (subst offset_search.simps) (simp add: Let_def)
      then show ?thesis using 1(1)[OF True refl le 1(3) mid(2) 1(5) le 1(7)] by simp
    next
      case gt: False
      have above: "\<forall>j. ?mid - 1 < j \<and> j < length offsets \<longrightarrow> offset < offsets ! j"
      proof (intro allI impI)
        fix j assume "?mid - 1 < j \<and> j < length offsets"
        then have "offsets ! ?mid \<le> offsets ! j" using 1(3) mid by (intro sorted_nth_mono) linarith+
        then show "offset < offsets ! j" using gt by simp
      qed
      moreover have "offset_search offsets offset low high = offset_search offsets offset low (?mid - 1)"
        using True gt by (subst offset_search.simps) (simp add: Let_def)
      moreover have b: "low \<le> ?mid - 1" "?mid - 1 < length offsets" "?mid - 1 \<le> high" using mid 1(5) by linarith+
      ultimately show ?thesis
        using 1(2)[OF True refl gt 1(3) b(1,2) 1(6) above] le_trans[OF _ b(3)] by (simp only: simp_thms) blast
    qed
  next
    case False
    then have "low = high" using 1(4) by simp
    then show ?thesis using 1(6,7) by (subst (1 2 3) offset_search.simps) simp
  qed
qed

lemma keepends_acc_concat: "concat (keepends_acc acc s) = rev acc @ s"
  by (induction acc s rule: keepends_acc.induct) auto

lemma keepends_acc_length: "length (keepends_acc acc s) = length (splitlines_acc acc s)"
  by (induction acc s rule: keepends_acc.induct) auto

lemma running_offsets_length [simp]: "length (running_offsets n ls) = length ls + 1"
  by (induction n ls rule: running_offsets.induct) auto

lemma running_offsets_bounds: "m \<in> set (running_offsets n ls) \<Longrightarrow> n \<le> m"
  by (induction n ls rule: running_offsets.induct) auto

lemma running_offsets_sorted: "sorted (running_offsets n ls)"
  by (induction n ls rule: running_offsets.induct) (auto dest: running_offsets_bounds)

lemma running_offsets_nth: "i \<le> length ls \<Longrightarrow> running_offsets n ls ! i = n + length (concat (take i ls))"
  by (induction n ls arbitrary: i rule: running_offsets.induct) (auto simp: nth_Cons take_Cons split: nat.splits)

definition line_offsets :: "string \<Rightarrow> nat list" where
  "line_offsets body = running_offsets 0 (splitlines_keepends body)"

lemma line_offsets_length [simp]: "length (line_offsets body) = length (splitlines body) + 1"
  by (simp add: line_offsets_def splitlines_keepends_def splitlines_def keepends_acc_length)

lemma line_offsets_last: "line_offsets body ! length (splitlines body) = length body"
proof -
  have l: "length (splitlines body) = length (splitlines_keepends body)"
    by (simp add: splitlines_keepends_def splitlines_def keepends_acc_length)
  have "line_offsets body ! length (splitlines_keepends body) = length (concat (splitlines_keepends body))"
    unfolding line_offsets_def by (subst running_offsets_nth) simp_all
  then show ?thesis by (simp add: l splitlines_keepends_def keepends_acc_concat)
qed

text \<open>
  \<open>_offset_to_line\<close> finds the line: it starts at or before the offset and the next one after it, and no
  offset of the text falls on the entry past the last line.
\<close>

lemma offset_to_line_correct:
  assumes "offset < length body"
  shows "offset_to_line (line_offsets body) offset < length (splitlines body)"
    and "line_offsets body ! offset_to_line (line_offsets body) offset \<le> offset"
    and "offset < line_offsets body ! (offset_to_line (line_offsets body) offset + 1)"
proof -
  let ?o = "line_offsets body"
  let ?r = "offset_to_line ?o offset"
  have sorted: "sorted ?o" by (simp add: line_offsets_def running_offsets_sorted)
  have first: "?o ! 0 = 0"
    unfolding line_offsets_def by (subst running_offsets_nth) simp_all
  have r: "?r \<le> length ?o - 1 \<and> ?o ! ?r \<le> offset \<and> (\<forall>j. ?r < j \<and> j < length ?o \<longrightarrow> offset < ?o ! j)"
    unfolding offset_to_line_def using offset_search_correct[OF sorted, of 0 "length ?o - 1" offset] first by simp
  have "?r \<noteq> length (splitlines body)"
  proof
    assume "?r = length (splitlines body)"
    then have "?o ! length (splitlines body) \<le> offset" using r by simp
    then show False using assms by (simp add: line_offsets_last)
  qed
  then show lt: "?r < length (splitlines body)" using r by simp
  show "?o ! ?r \<le> offset" using r by simp
  have "?r < ?r + 1 \<and> ?r + 1 < length ?o" using lt by simp
  then show "offset < ?o ! (?r + 1)" using r by blast
qed

section \<open>Starts\<close>

lemma sort_dedup_strict: "sorted_wrt (<) (sort (dedup (xs :: nat list)))"
  by (simp add: strict_sorted_iff)

lemma patterns_consume: "map_of DEFINITION_PATTERNS extension = Some r \<Longrightarrow> consumes r"
proof -
  assume "map_of DEFINITION_PATTERNS extension = Some r"
  then have "(extension, r) \<in> set DEFINITION_PATTERNS" by (rule map_of_SomeD)
  moreover have "\<forall>(e, p) \<in> set DEFINITION_PATTERNS. consumes p"
    by (simp add: DEFINITION_PATTERNS_def words1_re_def plus_re_def ruby_name_re_def java_re_def)
  ultimately show ?thesis by blast
qed

lemma definition_starts_lines:
  assumes "consumes r" "s \<in> set (definition_starts body r)"
  shows "s < length (splitlines body)"
proof -
  from assms(2) obtain m where "m \<in> set (finditer_starts r body)" "s = offset_to_line (line_offsets body) m"
    by (auto simp: definition_starts_def line_offsets_def)
  then show ?thesis using finditer_starts_bound[OF _ assms(1)] offset_to_line_correct(1) by blast
qed

lemma chunk_by_definitions_tiles:
  assumes "consumes r" "finditer_starts r body \<noteq> []"
  shows "\<exists>spans. chunk_by_definitions body r extension = Inr spans \<and>
     tiles 0 (length (splitlines body)) MAX_DEFINITION_CHUNK_LINES spans"
proof -
  let ?starts = "definition_starts body r"
  let ?f = "\<lambda>start. extract_symbol (splitlines body ! start) extension"
  have ne: "?starts \<noteq> []"
  proof
    assume "?starts = []"
    then have "set ?starts = {}" by simp
    then show False using assms(2) by (simp add: definition_starts_def Let_def)
  qed
  have sorted: "sorted_wrt (<) ?starts" by (simp add: definition_starts_def Let_def sort_dedup_strict)
  have names: "\<forall>s \<in> set ?starts. s < length (splitlines body) \<and>
      bind_result (nth_line (splitlines body) s) (\<lambda>line. Inr (extract_symbol line extension)) = Inr (?f s)"
    using definition_starts_lines[OF assms(1)] by (simp add: nth_line_def)
  show ?thesis
    using spans_with_preamble_tiles[OF sorted ne names] assms(2)
    unfolding chunk_by_definitions_def Let_def by auto
qed

lemma fold_setdefault:
  "map_of (fold (\<lambda>s. setdefault (k s) (v s)) xs d) key =
     (case map_of d key of Some x \<Rightarrow> Some x | None \<Rightarrow> map_option v (find (\<lambda>s. k s = key) xs))"
  by (induction xs arbitrary: d) (auto simp: setdefault_def map_add_def split: option.splits)

lemma fold_setdefault_distinct:
  "distinct (map fst d) \<Longrightarrow> distinct (map fst (fold (\<lambda>s. setdefault (k s) (v s)) xs d))"
  by (induction xs arbitrary: d) (auto simp: setdefault_def map_of_eq_None_iff)

lemma sorted_find_least:
  "sorted (map f xs) \<Longrightarrow> find P xs = Some x \<Longrightarrow> y \<in> set xs \<Longrightarrow> P y \<Longrightarrow> f x \<le> f y"
  by (induction xs) (auto split: if_splits)

lemma find_member: "find P xs = Some x \<Longrightarrow> x \<in> set xs \<and> P x"
  by (induction xs) (auto split: if_splits)

lemma names_by_start_find:
  "map_of (names_by_start count symbols) line =
     map_option sy_name (find (\<lambda>s. nat (sy_start_line s - 1) = line)
       (sort_key symbol_order (filter (is_definition count) symbols)))"
  by (simp add: names_by_start_def fold_setdefault)

lemma names_by_start_distinct: "distinct (map fst (names_by_start count symbols))"
  by (simp add: names_by_start_def fold_setdefault_distinct)

text \<open>The name recorded for a line is that of the least definition that starts there.\<close>

lemma names_by_start_name:
  assumes "s \<in> set symbols" "is_definition count s"
  shows "\<exists>t \<in> set symbols. is_definition count t \<and> sy_start_line t = sy_start_line s \<and>
    symbol_order t \<le> symbol_order s \<and>
    map_of (names_by_start count symbols) (nat (sy_start_line s - 1)) = Some (sy_name t)"
proof -
  let ?xs = "sort_key symbol_order (filter (is_definition count) symbols)"
  let ?P = "\<lambda>t. nat (sy_start_line t - 1) = nat (sy_start_line s - 1)"
  have s: "s \<in> set ?xs" using assms by simp
  then obtain t where t: "find ?P ?xs = Some t"
    using find_None_iff[of ?P ?xs] by (cases "find ?P ?xs") auto
  then have in_xs: "t \<in> set ?xs" "?P t" using find_member by fastforce+
  have "symbol_order t \<le> symbol_order s"
    using sorted_find_least[of symbol_order, OF _ t s] by simp
  moreover have "sy_start_line t = sy_start_line s"
    using in_xs assms(2) by (auto simp: is_definition_def)
  ultimately show ?thesis using in_xs t by (auto simp: names_by_start_find)
qed

lemma names_by_start_lines:
  assumes "map_of (names_by_start count symbols) line = Some n"
  shows "line < count"
proof -
  obtain t where "t \<in> set (filter (is_definition count) symbols)" "nat (sy_start_line t - 1) = line"
    using assms by (auto simp: names_by_start_find dest!: find_member)
  then show ?thesis by (auto simp: is_definition_def)
qed

lemma chunk_by_symbols_tiles:
  assumes "names_by_start (length (splitlines body)) symbols \<noteq> []"
  shows "\<exists>spans. chunk_by_symbols body symbols = Inr spans \<and>
     tiles 0 (length (splitlines body)) MAX_DEFINITION_CHUNK_LINES spans \<and>
     (\<forall>line n. map_of (names_by_start (length (splitlines body)) symbols) line = Some n \<longrightarrow>
        (\<exists>b. (line, b, Some n) \<in> set spans))"
proof -
  let ?names = "names_by_start (length (splitlines body)) symbols"
  let ?starts = "sort (map fst ?names)"
  have sorted: "sorted_wrt (<) ?starts"
    by (simp add: strict_sorted_iff names_by_start_distinct)
  have ne: "?starts \<noteq> []" using assms by simp
  have lines: "\<forall>s \<in> set ?starts. s < length (splitlines body) \<and> Inr (map_of ?names s) = Inr (map_of ?names s)"
    using names_by_start_lines weak_map_of_SomeI by fastforce
  have "(\<exists>b. (line, b, Some n) \<in> set spans)"
    if "\<forall>s \<in> set ?starts. \<exists>b. (s, b, map_of ?names s) \<in> set spans" "map_of ?names line = Some n"
    for spans :: "span list" and line n
    using that map_of_SomeD[OF that(2)] by fastforce
  then show ?thesis
    using spans_with_preamble_tiles[OF sorted ne lines] assms
    unfolding chunk_by_symbols_def Let_def by auto
qed

section \<open>Contents\<close>

lemma lstrip_front: "\<exists>x. s = x @ lstrip s"
  by (induction s) (auto intro: exI[of _ "_ # _"])

lemma lstrip_keeps: "m \<noteq> [] \<Longrightarrow> \<not> is_space (hd m) \<Longrightarrow> \<exists>u. lstrip (x @ m @ y) = u @ m @ y"
  by (induction x) (auto simp: lstrip_fixed intro: exI[of _ "_ # _"])

lemma strip_keeps:
  assumes "m \<noteq> []" "\<not> is_space (hd m)" "\<not> is_space (last m)"
  shows "\<exists>u v. strip (x @ m @ y) = u @ m @ v"
proof -
  obtain u where u: "lstrip (x @ m @ y) = u @ m @ y" using lstrip_keeps[OF assms(1,2)] by blast
  have "rev m \<noteq> []" "\<not> is_space (hd (rev m))" using assms by (simp_all add: hd_rev)
  then obtain v where "lstrip (rev y @ rev m @ rev u) = v @ rev m @ rev u" using lstrip_keeps by blast
  then have "strip (x @ m @ y) = u @ m @ rev v" using u by (simp add: strip_def)
  then show ?thesis by blast
qed

lemma strip_split: "\<exists>x y. s = x @ strip s @ y"
proof -
  obtain x where x: "s = x @ lstrip s" using lstrip_front by blast
  obtain y where "rev (lstrip s) = y @ lstrip (rev (lstrip s))" using lstrip_front by blast
  then have "lstrip s = strip s @ rev y" unfolding strip_def by (metis rev_append rev_rev_ident)
  then show ?thesis using x by metis
qed

lemma join_member: "l \<in> set ls \<Longrightarrow> \<exists>x y. join sep ls = x @ l @ y"
proof (induction sep ls rule: join.induct)
  case (3 sep a b ls)
  then consider "l = a" | x y where "join sep (b # ls) = x @ l @ y" by auto
  then show ?case
  proof cases
    case 1
    then show ?thesis by (intro exI[of _ "[]"] exI[of _ "sep @ join sep (b # ls)"]) simp
  next
    case 2
    then show ?thesis by (intro exI[of _ "a @ sep @ x"] exI[of _ y]) simp
  qed
next
  case (2 sep a)
  then show ?case by (intro exI[of _ "[]"]) simp
qed simp

text \<open>The text of a line, stripped, is inside the content of a span that holds the line.\<close>

lemma span_content_line:
  assumes "a \<le> i" "i < b" "i < length ls" "strip (ls ! i) \<noteq> []"
  shows "contains_str (strip (ls ! i)) (span_content ls a b)"
proof -
  let ?m = "strip (ls ! i)"
  have "ls ! i = take (b - a) (drop a ls) ! (i - a)" "i - a < length (take (b - a) (drop a ls))"
    using assms by auto
  then have "ls ! i \<in> set (take (b - a) (drop a ls))" by (metis nth_mem)
  then obtain x y where "join newline (take (b - a) (drop a ls)) = x @ ls ! i @ y" using join_member by blast
  moreover obtain x' y' where "ls ! i = x' @ ?m @ y'" using strip_split by blast
  ultimately have "join newline (take (b - a) (drop a ls)) = (x @ x') @ ?m @ (y' @ y)" by simp
  then obtain u v where "span_content ls a b = u @ ?m @ v"
    unfolding span_content_def using strip_keeps[OF assms(4) strip_hd_last[OF assms(4)]] by metis
  then show ?thesis by (auto simp: contains_str_iff)
qed

definition chunk_of_span :: "string \<Rightarrow> string list \<Rightarrow> span \<Rightarrow> chunk" where
  "chunk_of_span path ls = (\<lambda>(a, b, s).
     \<lparr>ck_file_path = path, ck_start_line = a + 1, ck_end_line = b, ck_content = span_content ls a b,
      ck_symbol_name = s\<rparr>)"

lemma chunks_of_spans_map:
  "chunks_of_spans path ls spans =
     map (chunk_of_span path ls) (filter (\<lambda>(a, b, s). span_content ls a b \<noteq> []) spans)"
  by (induction path ls spans rule: chunks_of_spans.induct) (auto simp: chunk_of_span_def)

lemma chunks_of_spans_set:
  "set (chunks_of_spans path ls spans) =
     chunk_of_span path ls ` {(a, b, s) \<in> set spans. span_content ls a b \<noteq> []}"
  by (auto simp: chunks_of_spans_map)

section \<open>Files\<close>

lemma tiles_not_empty: "tiles 0 n w spans \<Longrightarrow> 0 < n \<Longrightarrow> spans \<noteq> []"
  by (auto simp: tiles_def)

lemma file_spans_tile:
  assumes "splitlines body \<noteq> []"
  shows "\<exists>spans. file_spans body extension symbols = Inr spans \<and>
     tiles 0 (length (splitlines body)) MAX_DEFINITION_CHUNK_LINES spans \<and>
     (\<forall>line n. map_of (names_by_start (length (splitlines body)) symbols) line = Some n \<longrightarrow>
        (\<exists>b. (line, b, Some n) \<in> set spans))"
proof (cases "names_by_start (length (splitlines body)) symbols = []")
  case False
  then show ?thesis
    using chunk_by_symbols_tiles[OF False] tiles_not_empty assms by (fastforce simp: file_spans_def)
next
  case none: True
  then have sym: "chunk_by_symbols body symbols = Inr []" by (simp add: chunk_by_symbols_def)
  have "FALLBACK_WINDOW_LINES \<le> MAX_DEFINITION_CHUNK_LINES"
    by (simp add: FALLBACK_WINDOW_LINES_def MAX_DEFINITION_CHUNK_LINES_def)
  then obtain win where win: "chunk_by_window body = Inr win"
    "tiles 0 (length (splitlines body)) MAX_DEFINITION_CHUNK_LINES win"
    using spans_of_tiles[of FALLBACK_OVERLAP_LINES FALLBACK_WINDOW_LINES 0 "length (splitlines body)" None]
      tiles_wider assms by (fastforce simp: chunk_by_window_def)
  show ?thesis
  proof (cases "map_of DEFINITION_PATTERNS extension")
    case None
    then show ?thesis using win none by (simp add: file_spans_def sym)
  next
    case (Some r)
    show ?thesis
    proof (cases "finditer_starts r body = []")
      case True
      then show ?thesis using win none Some by (simp add: file_spans_def sym chunk_by_definitions_def)
    next
      case False
      then obtain spans where "chunk_by_definitions body r extension = Inr spans"
        "tiles 0 (length (splitlines body)) MAX_DEFINITION_CHUNK_LINES spans"
        using chunk_by_definitions_tiles[OF patterns_consume[OF Some]] by blast
      then show ?thesis using tiles_not_empty assms none Some by (fastforce simp: file_spans_def sym)
    qed
  qed
qed

text \<open>C25: The span loop of the chunker (_split_span) returns exactly when nothing is left after the first
  window or the overlap is smaller than the window; with an overlap as large as the window it would run
  forever on a longer span.  The windows the module uses (80 lines with 12 shared, 160 with 20) are of the
  first kind.
\<close>

theorem split_span_terminates_iff:
  "(\<exists>spans. split_span start stop symbol window overlap = Some spans) \<longleftrightarrow>
   stop \<le> start \<or> stop \<le> start + window \<or> overlap < window"
  unfolding split_span_def
  using split_loop_stuck[of window overlap symbol stop start] split_loop_near split_loop_returns
  by (metis not_le)

text \<open>C26: Chunking loses nothing and stays bounded: whatever the text and the symbols given for it, chunking
  returns (no endless loop, no line index out of range), every chunk is a non-blank stripped piece of at
  most 160 lines inside the file, and every line that is not blank has its stripped text inside the
  content of a chunk whose line range holds it.
\<close>

theorem chunks_cover_the_file:
  assumes "splitlines body \<noteq> []"
  shows "\<exists>chunks. chunk_text path body symbols = Inr chunks \<and>
    (\<forall>c \<in> set chunks. ck_file_path c = path \<and> 1 \<le> ck_start_line c \<and> ck_start_line c \<le> ck_end_line c \<and>
       ck_end_line c \<le> length (splitlines body) \<and> ck_end_line c < ck_start_line c + 160 \<and>
       ck_content c = span_content (splitlines body) (ck_start_line c - 1) (ck_end_line c) \<and>
       ck_content c \<noteq> []) \<and>
    (\<forall>i < length (splitlines body). strip (splitlines body ! i) \<noteq> [] \<longrightarrow>
       (\<exists>c \<in> set chunks. ck_start_line c \<le> i + 1 \<and> i + 1 \<le> ck_end_line c \<and>
          contains_str (strip (splitlines body ! i)) (ck_content c)))"
proof -
  let ?ls = "splitlines body"
  obtain spans where spans: "file_spans body (lower (posix_suffix (posix_name path))) symbols = Inr spans"
    and tiled: "tiles 0 (length ?ls) MAX_DEFINITION_CHUNK_LINES spans"
    using file_spans_tile[OF assms] by blast
  let ?chunks = "chunks_of_spans path ?ls spans"
  have "chunk_text path body symbols = Inr ?chunks" using spans by (simp add: chunk_text_def)
  moreover have "ck_file_path c = path \<and> 1 \<le> ck_start_line c \<and> ck_start_line c \<le> ck_end_line c \<and>
       ck_end_line c \<le> length ?ls \<and> ck_end_line c < ck_start_line c + 160 \<and>
       ck_content c = span_content ?ls (ck_start_line c - 1) (ck_end_line c) \<and> ck_content c \<noteq> []"
    if "c \<in> set ?chunks" for c
    using that tiled
    by (fastforce simp: chunks_of_spans_set chunk_of_span_def tiles_def MAX_DEFINITION_CHUNK_LINES_def)
  moreover have "\<exists>c \<in> set ?chunks. ck_start_line c \<le> i + 1 \<and> i + 1 \<le> ck_end_line c \<and>
          contains_str (strip (?ls ! i)) (ck_content c)"
    if i: "i < length ?ls" "strip (?ls ! i) \<noteq> []" for i
  proof -
    obtain a b s where abs: "(a, b, s) \<in> set spans" "a \<le> i" "i < b"
      using tiled i(1) unfolding tiles_def by blast
    have content: "contains_str (strip (?ls ! i)) (span_content ?ls a b)"
      using span_content_line[OF abs(2,3) i] .
    then have "span_content ?ls a b \<noteq> []" using i(2) by auto
    then have "chunk_of_span path ?ls (a, b, s) \<in> set ?chunks" using abs(1) by (auto simp: chunks_of_spans_set)
    then show ?thesis using abs(2,3) content by (intro bexI) (auto simp: chunk_of_span_def)
  qed
  ultimately show ?thesis by blast
qed

text \<open>A symbol of the code graph starts its chunk: for every definition symbol whose first line lies in
  the file and is not blank, there is a chunk that starts at that line and carries the name of the least
  (by end line, then qualified name) of the definitions that start there.
\<close>

lemma definition_starts_its_chunk:
  assumes "s \<in> set symbols" "is_definition (length (splitlines body)) s"
    "strip (splitlines body ! nat (sy_start_line s - 1)) \<noteq> []"
  shows "\<exists>chunks. chunk_text path body symbols = Inr chunks \<and>
    (\<exists>t \<in> set symbols. \<exists>c \<in> set chunks.
       is_definition (length (splitlines body)) t \<and> sy_start_line t = sy_start_line s \<and>
       symbol_order t \<le> symbol_order s \<and>
       int (ck_start_line c) = sy_start_line s \<and> ck_symbol_name c = Some (sy_name t))"
proof -
  let ?ls = "splitlines body"
  let ?line = "nat (sy_start_line s - 1)"
  have line: "?line < length ?ls" "int ?line + 1 = sy_start_line s" using assms(2) by (auto simp: is_definition_def)
  then have ne: "?ls \<noteq> []" by auto
  obtain t where t: "t \<in> set symbols" "is_definition (length ?ls) t" "sy_start_line t = sy_start_line s"
    "symbol_order t \<le> symbol_order s" "map_of (names_by_start (length ?ls) symbols) ?line = Some (sy_name t)"
    using names_by_start_name[OF assms(1,2)] by blast
  obtain spans b where spans: "file_spans body (lower (posix_suffix (posix_name path))) symbols = Inr spans"
    and tiled: "tiles 0 (length ?ls) MAX_DEFINITION_CHUNK_LINES spans"
    and b: "(?line, b, Some (sy_name t)) \<in> set spans"
    using file_spans_tile[OF ne, of "lower (posix_suffix (posix_name path))" symbols] t(5) by blast
  have "?line < b" using tiled b unfolding tiles_def by blast
  then have "contains_str (strip (?ls ! ?line)) (span_content ?ls ?line b)"
    using span_content_line[OF order_refl _ line(1) assms(3)] by blast
  then have "span_content ?ls ?line b \<noteq> []" using assms(3) by auto
  then have c: "chunk_of_span path ?ls (?line, b, Some (sy_name t)) \<in> set (chunks_of_spans path ?ls spans)"
    using b by (auto simp: chunks_of_spans_set)
  have "int (ck_start_line (chunk_of_span path ?ls (?line, b, Some (sy_name t)))) = sy_start_line s"
    "ck_symbol_name (chunk_of_span path ?ls (?line, b, Some (sy_name t))) = Some (sy_name t)"
    using line(2) by (simp_all add: chunk_of_span_def)
  then show ?thesis using spans c t(1-4) by (fastforce simp: chunk_text_def)
qed

definition sample_source :: string where
  "sample_source = join newline [''import os'', [], ''def f(x):'', ''    return x'', ''class A:'', ''    pass'']"

definition sample_symbol :: code_symbol where
  "sample_symbol =
     \<lparr>sy_stable_key = ''k'', sy_file_path = ''a.py'', sy_language = ''python'', sy_kind = ''function'',
      sy_name = ''f'', sy_qualified_name = ''a.f'', sy_start_line = 3, sy_end_line = 4,
      sy_signature = None, sy_docstring = None, sy_content_hash = []\<rparr>"

lemma sample_lines:
  "splitlines sample_source = [''import os'', [], ''def f(x):'', ''    return x'', ''class A:'', ''    pass'']"
  by code_simp

text \<open>The spans of the sample by its patterns: the preamble, the function and the class with their names.\<close>

lemma sample_spans:
  "file_spans sample_source ''.py'' [] = Inr [(0, 2, None), (2, 4, Some ''f''), (4, 6, Some ''A'')]"
  by code_simp

lemma chunks_cover_the_file_witness:
  "\<exists>chunks. chunk_text ''a.py'' sample_source [] = Inr chunks \<and>
     (\<exists>c \<in> set chunks. ck_start_line c \<le> 4 \<and> 4 \<le> ck_end_line c \<and>
        contains_str ''return x'' (ck_content c))"
proof -
  have "splitlines sample_source \<noteq> []" by (simp add: sample_lines)
  from chunks_cover_the_file[OF this, of "''a.py''" "[]"] obtain chunks where c:
    "chunk_text ''a.py'' sample_source [] = Inr chunks"
    "\<forall>i < length (splitlines sample_source). strip (splitlines sample_source ! i) \<noteq> [] \<longrightarrow>
       (\<exists>c \<in> set chunks. ck_start_line c \<le> i + 1 \<and> i + 1 \<le> ck_end_line c \<and>
          contains_str (strip (splitlines sample_source ! i)) (ck_content c))" by (elim exE conjE)
  have "strip (splitlines sample_source ! 3) = ''return x''" by (simp add: sample_lines) code_simp
  moreover have "3 < length (splitlines sample_source)" by (simp add: sample_lines)
  ultimately have "\<exists>c \<in> set chunks. ck_start_line c \<le> 3 + 1 \<and> 3 + 1 \<le> ck_end_line c \<and>
        contains_str ''return x'' (ck_content c)" using c(2) by (metis list.distinct(1))
  then show ?thesis using c(1) by simp
qed

lemma definition_starts_its_chunk_witness:
  "\<exists>chunks. chunk_text ''a.py'' sample_source [sample_symbol] = Inr chunks \<and>
     (\<exists>c \<in> set chunks. ck_start_line c = 3 \<and> ck_symbol_name c = Some ''f'')"
proof -
  have m: "sample_symbol \<in> set [sample_symbol]" by simp
  have d: "is_definition (length (splitlines sample_source)) sample_symbol"
    by (simp add: sample_lines is_definition_def sample_symbol_def DEFINITION_SYMBOL_KINDS_def)
  have l: "strip (splitlines sample_source ! nat (sy_start_line sample_symbol - 1)) \<noteq> []"
    by (simp add: sample_lines sample_symbol_def) code_simp
  show ?thesis
    using definition_starts_its_chunk[OF m d l, of "''a.py''"] by (auto simp: sample_symbol_def)
qed

end
