(* ===== verification/Secret.thy ===== *)
theory Secret
  imports Base64
begin

text \<open>
  Sealed secrets (\<open>diffuse_protocol/secret.py\<close>, repeated word for word in \<open>diffuse_relay/sealed_secret.py\<close>):
  the wire format, the key ids that let a key be rotated, and the reasons a sealed value is refused.
  The cipher is a parameter: \<open>close key nonce plain aad\<close> is \<open>AESGCM(key).encrypt\<close> of the UTF-8 bytes of
  the texts, \<open>open_text key nonce ciphertext aad\<close> is \<open>AESGCM(key).decrypt(\<dots>).decode("utf-8")\<close>, \<open>None\<close>
  where either raises.  Bytes are strings; \<open>sha256\<close> is the hexadecimal digest.
\<close>

type_synonym closer = "string \<Rightarrow> string \<Rightarrow> string \<Rightarrow> string \<Rightarrow> string"
type_synonym opener = "string \<Rightarrow> string \<Rightarrow> string \<Rightarrow> string \<Rightarrow> string option"

datatype secret_error =
    Not_configured
  | Not_base64
  | Bad_key_length
  | Not_sealed
  | Bad_secret_shape
  | Bad_secret_payload
  | Truncated_payload
  | Authentication_failed
  | Unknown_key_id

definition NONCE_BYTES :: nat where "NONCE_BYTES = 12"
definition KEY_BYTES :: nat where "KEY_BYTES = 32"
definition KEY_ID_HEX_CHARS :: nat where "KEY_ID_HEX_CHARS = 8"

definition key_id_for :: "(string \<Rightarrow> string) \<Rightarrow> string \<Rightarrow> string" where
  "key_id_for sha256 kek = take KEY_ID_HEX_CHARS (sha256 kek)"

definition decode_kek :: "string \<Rightarrow> secret_error + string" where
  "decode_kek value =
     (case b64url_decode (strip value) of
        None \<Rightarrow> Inl Not_base64
      | Some raw \<Rightarrow> if length raw \<noteq> KEY_BYTES then Inl Bad_key_length else Inr raw)"

text \<open>The values of the two environment variables, empty where one is not set.\<close>

definition load_keks_from_env :: "string \<Rightarrow> string option \<Rightarrow> secret_error + string list" where
  "load_keks_from_env primary_value previous_value =
     (let primary = strip primary_value in
      if primary = [] then Inl Not_configured
      else
        bind_result (decode_kek primary) (\<lambda>current.
          (case previous_value of
             None \<Rightarrow> Inr [current]
           | Some value \<Rightarrow>
               (let previous = strip value in
                if previous = [] then Inr [current]
                else
                  bind_result (decode_kek previous) (\<lambda>previous_key.
                    Inr (if previous_key \<noteq> current then [current, previous_key] else [current]))))))"

definition is_sealed :: "string \<Rightarrow> bool" where
  "is_sealed value \<longleftrightarrow> startswith value ''diffuse-secret.v1.''"

definition seal ::
    "closer \<Rightarrow> (string \<Rightarrow> string) \<Rightarrow> string \<Rightarrow> string \<Rightarrow> string \<Rightarrow> string \<Rightarrow> secret_error + string" where
  "seal close sha256 nonce plaintext kek aad =
     (if length kek \<noteq> KEY_BYTES then Inl Bad_key_length
      else
        Inr (''diffuse-secret.v1.'' @ key_id_for sha256 kek @ ''.'' @
             b64url_encode (nonce @ close kek nonce plaintext aad)))"

fun unseal_with ::
    "opener \<Rightarrow> (string \<Rightarrow> string) \<Rightarrow> string \<Rightarrow> string \<Rightarrow> string \<Rightarrow> string \<Rightarrow> string list \<Rightarrow> secret_error + string" where
  "unseal_with open_text sha256 expected nonce ciphertext aad [] = Inl Unknown_key_id"
| "unseal_with open_text sha256 expected nonce ciphertext aad (kek # keks) =
     (if key_id_for sha256 kek \<noteq> expected then unseal_with open_text sha256 expected nonce ciphertext aad keks
      else
        (case open_text kek nonce ciphertext aad of
           None \<Rightarrow> Inl Authentication_failed
         | Some plain \<Rightarrow> Inr plain))"

definition unseal ::
    "opener \<Rightarrow> (string \<Rightarrow> string) \<Rightarrow> string \<Rightarrow> string list \<Rightarrow> string \<Rightarrow> bool \<Rightarrow> secret_error + string" where
  "unseal open_text sha256 value keks aad allow_legacy_plaintext =
     (if \<not> is_sealed value then (if allow_legacy_plaintext then Inr value else Inl Not_sealed)
      else
        (case split_on (CHR ''.'') value of
           [a, b, expected, payload] \<Rightarrow>
             if a @ ''.'' @ b \<noteq> ''diffuse-secret.v1'' then Inl Bad_secret_shape
             else
               (case b64url_decode payload of
                  None \<Rightarrow> Inl Bad_secret_payload
                | Some packed \<Rightarrow>
                    if length packed \<le> NONCE_BYTES then Inl Truncated_payload
                    else unseal_with open_text sha256 expected (take NONCE_BYTES packed)
                           (drop NONCE_BYTES packed) aad keks)
         | _ \<Rightarrow> Inl Bad_secret_shape))"

section \<open>Round trip and rotation\<close>

lemma unseal_with_find:
  "unseal_with open_text sha256 expected nonce ciphertext aad keks =
     (case find (\<lambda>k. key_id_for sha256 k = expected) keks of
        None \<Rightarrow> Inl Unknown_key_id
      | Some kek \<Rightarrow>
          (case open_text kek nonce ciphertext aad of None \<Rightarrow> Inl Authentication_failed | Some plain \<Rightarrow> Inr plain))"
  by (induction keks) auto

lemma b64url_encode_no_dot: "CHR ''.'' \<notin> set (b64url_encode raw)"
proof
  assume "CHR ''.'' \<in> set (b64url_encode raw)"
  then obtain n where "n < 64" "CHR ''.'' = b64_char n" using b64url_encode_alphabet by blast
  then show False
    by (auto simp: b64_char_def code_def split: if_splits dest!: arg_cong[of _ _ "of_char :: char \<Rightarrow> nat"])
qed

text \<open>
  A sealed secret opens under any list of keys in which the sealing key is the first with its key id, so
  also after the key has become the previous one.
\<close>

lemma unseal_seal:
  assumes sealed: "seal close sha256 nonce plaintext kek aad = Inr value"
    and nonce: "length nonce = NONCE_BYTES" and cipher: "close kek nonce plaintext aad \<noteq> []"
    and opens: "open_text kek nonce (close kek nonce plaintext aad) aad = Some plaintext"
    and ids: "CHR ''.'' \<notin> set (key_id_for sha256 kek)"
    and found: "find (\<lambda>k. key_id_for sha256 k = key_id_for sha256 kek) keks = Some kek"
  shows "unseal open_text sha256 value keks aad legacy = Inr plaintext"
proof -
  let ?payload = "b64url_encode (nonce @ close kek nonce plaintext aad)"
  have shape: "value = ''diffuse-secret.v1.'' @ key_id_for sha256 kek @ ''.'' @ ?payload"
    using sealed by (auto simp: seal_def split: if_splits)
  have "value = join ''.'' [''diffuse-secret'', ''v1'', key_id_for sha256 kek, ?payload]"
    using shape by simp
  then have "split_on (CHR ''.'') value = [''diffuse-secret'', ''v1'', key_id_for sha256 kek, ?payload]"
    using split_on_join[of "[''diffuse-secret'', ''v1'', key_id_for sha256 kek, ?payload]" "CHR ''.''"]
      ids b64url_encode_no_dot by simp
  moreover have "is_sealed value" using shape by (simp add: is_sealed_def startswith_iff)
  moreover have "NONCE_BYTES < length (nonce @ close kek nonce plaintext aad)" using nonce cipher by simp
  ultimately show ?thesis
    using nonce opens found by (simp add: unseal_def b64url_roundtrip unseal_with_find)
qed

end
