(* ===== verification/Relay.thy ===== *)
theory Relay
  imports Secret Json Rows Events
begin

text \<open>
  The store of the GitHub relay (\<open>packages/relay/src/diffuse_relay/store.py\<close> over \<open>migrations/schema.sql\<close>).
  Each operation is one transaction at the time \<open>now\<close>; random tokens, identifiers and nonces are
  arguments.  \<open>Inl\<close> is an exception, after which the store is as before.  UNIQUE, CHECK and FOREIGN KEY
  constraints raise \<open>Violates_constraint\<close>; deleting an event deletes its receipts (ON DELETE CASCADE).
  Of the columns \<open>created_at\<close> and \<open>updated_at\<close> only those of an instance are read, so only those are
  kept.  A payload is kept as the JSON value it was parsed to.
\<close>

datatype relay_error = Bad_argument string | Violates_constraint | Null_column | Cannot_seal | Cannot_decrypt

record relay_keys =
  rk_hash :: "string \<Rightarrow> string"
  rk_keks :: "string list"
  rk_sha256 :: "string \<Rightarrow> string"
  rk_close :: closer
  rk_open :: opener
  rk_hmac :: "string \<Rightarrow> string \<Rightarrow> string"

record oauth_state =
  os_hash :: string
  os_installation :: "int option"
  os_session :: "string option"
  os_expires_at :: time

record installation =
  il_id :: int
  il_user_id :: int
  il_login :: string
  il_active :: bool

record enrollment_code =
  ec_hash :: string
  ec_installation :: int
  ec_expires_at :: time
  ec_redeemed_at :: "time option"

record instance_row =
  in_id :: string
  in_installation :: int
  in_display_name :: string
  in_credential_hash :: string
  in_signing_key :: string
  in_revoked_at :: "time option"
  in_created_at :: time
  in_updated_at :: time

record candidate_installation =
  ci_id :: int
  ci_account_login :: string
  ci_account_type :: string

datatype session_status = Pending | Ready | Consumed | Failed_session

record connect_session =
  cn_id :: string
  cn_poll_secret_hash :: string
  cn_display_name :: string
  cn_status :: session_status
  cn_installation :: "int option"
  cn_instance_id :: "string option"
  cn_token_sealed :: "string option"
  cn_key_sealed :: "string option"
  cn_candidates :: "candidate_installation list option"
  cn_user_id :: "int option"
  cn_login :: "string option"
  cn_error_message :: "string option"
  cn_expires_at :: time

record webhook_event =
  we_delivery_id :: string
  we_installation :: int
  we_name :: string
  we_payload :: json
  we_payload_sha256 :: string
  we_received_at :: time

record receipt =
  rc_delivery_id :: string
  rc_instance_id :: string
  rc_attempts :: nat
  rc_leased_until :: "time option"
  rc_acknowledged_at :: "time option"

record relay =
  r_oauth_states :: "oauth_state list"
  r_installations :: "installation list"
  r_codes :: "enrollment_code list"
  r_instances :: "instance_row list"
  r_sessions :: "connect_session list"
  r_events :: "webhook_event list"
  r_receipts :: "receipt list"

definition minutes :: "int \<Rightarrow> time" where "minutes n = n * 60 * 1000000"
definition days :: "int \<Rightarrow> time" where "days n = n * 86400 * 1000000"
definition EVENT_LEASE_SECONDS :: int where "EVENT_LEASE_SECONDS = 60"
definition EVENT_RETENTION_DAYS :: int where "EVENT_RETENTION_DAYS = 30"
definition DELIVERY_SIGNING_KEY_AAD :: string where
  "DELIVERY_SIGNING_KEY_AAD = ''github_integration.event_signing_key''"
definition CONNECT_INSTANCE_TOKEN_AAD :: string where
  "CONNECT_INSTANCE_TOKEN_AAD = ''github_integration.connect_instance_token''"
definition CONNECT_DELIVERY_SIGNING_KEY_AAD :: string where
  "CONNECT_DELIVERY_SIGNING_KEY_AAD = ''github_integration.connect_event_signing_key''"

section \<open>Sealing of the delivery signing key\<close>

definition seal_text :: "relay_keys \<Rightarrow> string \<Rightarrow> string \<Rightarrow> string \<Rightarrow> relay_error + string" where
  "seal_text K nonce plain aad =
     (case seal (rk_close K) (rk_sha256 K) nonce plain (hd (rk_keks K)) aad of
        Inl _ \<Rightarrow> Inl Cannot_seal
      | Inr sealed \<Rightarrow> Inr sealed)"

definition unseal_text :: "relay_keys \<Rightarrow> string \<Rightarrow> string \<Rightarrow> bool \<Rightarrow> relay_error + string" where
  "unseal_text K sealed aad legacy =
     (case unseal (rk_open K) (rk_sha256 K) sealed (rk_keks K) aad legacy of
        Inl _ \<Rightarrow> Inl Cannot_decrypt
      | Inr plain \<Rightarrow> Inr plain)"

definition needs_reseal :: "relay_keys \<Rightarrow> string \<Rightarrow> bool" where
  "needs_reseal K stored \<longleftrightarrow>
     \<not> is_sealed stored \<or>
     (case split_on (CHR ''.'') stored of
        [a, b, key_id, payload] \<Rightarrow> key_id \<noteq> key_id_for (rk_sha256 K) (hd (rk_keks K))
      | _ \<Rightarrow> True)"

definition maybe_reseal ::
    "relay_keys \<Rightarrow> time \<Rightarrow> string \<Rightarrow> string \<Rightarrow> string \<Rightarrow> string \<Rightarrow> instance_row list \<Rightarrow> instance_row list" where
  "maybe_reseal K now nonce instance_id stored plain rows =
     (if \<not> needs_reseal K stored then rows
      else
        (case seal_text K nonce plain DELIVERY_SIGNING_KEY_AAD of
           Inl _ \<Rightarrow> rows
         | Inr resealed \<Rightarrow>
             update_where
               (\<lambda>i. in_id i = instance_id \<and> in_revoked_at i = None \<and> in_signing_key i = stored)
               (\<lambda>i. i\<lparr>in_signing_key := resealed, in_updated_at := now\<rparr>) rows))"

section \<open>OAuth states\<close>

definition create_oauth_state ::
    "relay_keys \<Rightarrow> time \<Rightarrow> string \<Rightarrow> int option \<Rightarrow> string option \<Rightarrow> relay \<Rightarrow> relay_error + string \<times> relay" where
  "create_oauth_state K now state installation_id session_id r =
     (if installation_id = None \<and> session_id = None then Inl (Bad_argument ''state'')
      else if (case installation_id of None \<Rightarrow> False | Some i \<Rightarrow> i \<le> 0)
        then Inl (Bad_argument ''installation_id'')
      else if list_ex (\<lambda>s. os_hash s = rk_hash K state) (r_oauth_states r) then Inl Violates_constraint
      else
        Inr (state,
          r\<lparr>r_oauth_states := r_oauth_states r @
              [\<lparr>os_hash = rk_hash K state, os_installation = installation_id, os_session = session_id,
                os_expires_at = now + minutes 10\<rparr>]\<rparr>))"

definition consume_oauth_state ::
    "relay_keys \<Rightarrow> time \<Rightarrow> string \<Rightarrow> relay \<Rightarrow> (int option \<times> string option) option \<times> relay" where
  "consume_oauth_state K now state r =
     (let hit = (\<lambda>s. os_hash s = rk_hash K state \<and> now < os_expires_at s) in
      (map_option (\<lambda>s. (os_installation s, os_session s)) (select_one hit (r_oauth_states r)),
       r\<lparr>r_oauth_states := filter (\<lambda>s. \<not> hit s) (r_oauth_states r)\<rparr>))"

section \<open>Installations and enrollment\<close>

definition upsert_installation ::
    "int \<Rightarrow> int \<Rightarrow> string \<Rightarrow> installation list \<Rightarrow> relay_error + installation list" where
  "upsert_installation installation_id user_id login rows =
     (if installation_id \<le> 0 \<or> user_id \<le> 0 then Inl Violates_constraint
      else if list_ex (\<lambda>i. il_id i = installation_id) rows
        then Inr (update_where (\<lambda>i. il_id i = installation_id)
               (\<lambda>i. i\<lparr>il_user_id := user_id, il_login := login, il_active := True\<rparr>) rows)
      else Inr (rows @ [\<lparr>il_id = installation_id, il_user_id = user_id, il_login = login, il_active = True\<rparr>]))"

definition record_verified_installation :: "int \<Rightarrow> int \<Rightarrow> string \<Rightarrow> relay \<Rightarrow> relay_error + relay" where
  "record_verified_installation installation_id user_id login r =
     bind_result (upsert_installation installation_id user_id login (r_installations r))
       (\<lambda>rows. Inr (r\<lparr>r_installations := rows\<rparr>))"

definition has_installation :: "int \<Rightarrow> relay \<Rightarrow> bool" where
  "has_installation installation_id r \<longleftrightarrow> list_ex (\<lambda>i. il_id i = installation_id) (r_installations r)"

definition create_connection_code ::
    "relay_keys \<Rightarrow> time \<Rightarrow> string \<Rightarrow> int \<Rightarrow> relay \<Rightarrow> relay_error + string \<times> relay" where
  "create_connection_code K now fresh installation_id r =
     (if list_ex (\<lambda>c. ec_hash c = rk_hash K fresh) (r_codes r) \<or> \<not> has_installation installation_id r
      then Inl Violates_constraint
      else
        Inr (fresh,
          r\<lparr>r_codes := r_codes r @
              [\<lparr>ec_hash = rk_hash K fresh, ec_installation = installation_id,
                ec_expires_at = now + minutes 15, ec_redeemed_at = None\<rparr>]\<rparr>))"

record credentials =
  cr_instance_id :: string
  cr_token :: string
  cr_signing_key :: string
  cr_installation :: int

text \<open>The random values of one enrollment.\<close>

record fresh_instance =
  fr_token :: string
  fr_signing_key :: string
  fr_id :: string
  fr_nonce :: string

definition is_live :: "int \<Rightarrow> instance_row \<Rightarrow> bool" where
  "is_live installation_id i \<longleftrightarrow> in_installation i = installation_id \<and> in_revoked_at i = None"

definition new_instance :: "relay_keys \<Rightarrow> time \<Rightarrow> fresh_instance \<Rightarrow> int \<Rightarrow> string \<Rightarrow> string \<Rightarrow> instance_row" where
  "new_instance K now fresh installation_id name sealed =
     \<lparr>in_id = fr_id fresh, in_installation = installation_id, in_display_name = name,
      in_credential_hash = rk_hash K (fr_token fresh), in_signing_key = sealed, in_revoked_at = None,
      in_created_at = now, in_updated_at = now\<rparr>"

definition renew_instance ::
    "relay_keys \<Rightarrow> time \<Rightarrow> fresh_instance \<Rightarrow> string \<Rightarrow> string \<Rightarrow> instance_row \<Rightarrow> instance_row" where
  "renew_instance K now fresh name sealed i =
     i\<lparr>in_display_name := name, in_credential_hash := rk_hash K (fr_token fresh), in_signing_key := sealed,
       in_updated_at := now\<rparr>"

definition instance_credentials :: "fresh_instance \<Rightarrow> int \<Rightarrow> string \<Rightarrow> credentials" where
  "instance_credentials fresh installation_id instance_id =
     \<lparr>cr_instance_id = instance_id, cr_token = fr_token fresh, cr_signing_key = fr_signing_key fresh,
      cr_installation = installation_id\<rparr>"

definition insert_instance_credentials ::
    "relay_keys \<Rightarrow> time \<Rightarrow> fresh_instance \<Rightarrow> int \<Rightarrow> string \<Rightarrow> relay \<Rightarrow> relay_error + credentials \<times> relay" where
  "insert_instance_credentials K now fresh installation_id display_name r =
     bind_result (seal_text K (fr_nonce fresh) (fr_signing_key fresh) DELIVERY_SIGNING_KEY_AAD) (\<lambda>sealed.
       (case select_one (is_live installation_id) (r_instances r) of
          Some live \<Rightarrow>
            if list_ex (\<lambda>i. in_credential_hash i = rk_hash K (fr_token fresh) \<and> \<not> is_live installation_id i)
                 (r_instances r)
            then Inl Violates_constraint
            else
              Inr (instance_credentials fresh installation_id (in_id live),
                r\<lparr>r_instances := update_where (is_live installation_id)
                    (renew_instance K now fresh (strip display_name) sealed) (r_instances r)\<rparr>)
        | None \<Rightarrow>
            if \<not> has_installation installation_id r \<or>
               list_ex (\<lambda>i. in_id i = fr_id fresh \<or> in_credential_hash i = rk_hash K (fr_token fresh)) (r_instances r)
            then Inl Violates_constraint
            else
              Inr (instance_credentials fresh installation_id (fr_id fresh),
                r\<lparr>r_instances := r_instances r @
                    [new_instance K now fresh installation_id (strip display_name) sealed]\<rparr>)))"

definition name_ok :: "string \<Rightarrow> bool" where
  "name_ok display_name \<longleftrightarrow> 1 \<le> length (strip display_name) \<and> length (strip display_name) \<le> 200"

definition redeem_connection_code ::
    "relay_keys \<Rightarrow> time \<Rightarrow> fresh_instance \<Rightarrow> string \<Rightarrow> string \<Rightarrow> relay \<Rightarrow> relay_error + credentials option \<times> relay" where
  "redeem_connection_code K now fresh given display_name r =
     (if \<not> name_ok display_name then Inl (Bad_argument ''display_name'')
      else
        (let hit = (\<lambda>c. ec_hash c = rk_hash K given \<and> ec_redeemed_at c = None \<and> now < ec_expires_at c) in
         case select_one hit (r_codes r) of
           None \<Rightarrow> Inr (None, r)
         | Some found \<Rightarrow>
             bind_result
               (insert_instance_credentials K now fresh (ec_installation found) display_name
                  (r\<lparr>r_codes := update_where hit (\<lambda>c. c\<lparr>ec_redeemed_at := Some now\<rparr>) (r_codes r)\<rparr>))
               (\<lambda>(creds, r'). Inr (Some creds, r'))))"

record relay_instance =
  ri_id :: string
  ri_installation :: int
  ri_signing_key :: string

definition authenticate_instance ::
    "relay_keys \<Rightarrow> time \<Rightarrow> string \<Rightarrow> string \<Rightarrow> relay \<Rightarrow> relay_error + relay_instance option \<times> relay" where
  "authenticate_instance K now nonce token r =
     (case select_one (\<lambda>i. in_credential_hash i = rk_hash K token \<and> in_revoked_at i = None) (r_instances r) of
        None \<Rightarrow> Inr (None, r)
      | Some i \<Rightarrow>
          bind_result (unseal_text K (in_signing_key i) DELIVERY_SIGNING_KEY_AAD True) (\<lambda>plain.
            Inr (Some \<lparr>ri_id = in_id i, ri_installation = in_installation i, ri_signing_key = plain\<rparr>,
              r\<lparr>r_instances := maybe_reseal K now nonce (in_id i) (in_signing_key i) plain (r_instances r)\<rparr>)))"

section \<open>Webhook events\<close>

text \<open>\<open>DELETE FROM github_webhook_events\<close>, with the cascade to the receipts.\<close>

definition delete_events :: "(webhook_event \<Rightarrow> bool) \<Rightarrow> relay \<Rightarrow> relay" where
  "delete_events gone r =
     r\<lparr>r_events := filter (\<lambda>e. \<not> gone e) (r_events r),
       r_receipts := filter (\<lambda>c. \<not> list_ex (\<lambda>e. gone e \<and> we_delivery_id e = rc_delivery_id c) (r_events r))
                       (r_receipts r)\<rparr>"

definition record_webhook_event ::
    "time \<Rightarrow> string \<Rightarrow> int \<Rightarrow> string \<Rightarrow> json \<Rightarrow> string \<Rightarrow> relay \<Rightarrow> bool \<times> relay" where
  "record_webhook_event now delivery_id installation_id event_name payload payload_sha256 r =
     (let r = delete_events (\<lambda>e. we_received_at e < now - days EVENT_RETENTION_DAYS) r in
      if list_ex (\<lambda>i. il_id i = installation_id \<and> il_active i) (r_installations r) \<and>
         \<not> list_ex (\<lambda>e. we_delivery_id e = delivery_id) (r_events r)
      then (True, r\<lparr>r_events := r_events r @
               [\<lparr>we_delivery_id = delivery_id, we_installation = installation_id, we_name = event_name,
                 we_payload = payload, we_payload_sha256 = payload_sha256, we_received_at = now\<rparr>]\<rparr>)
      else (False, r))"

definition receipt_of :: "string \<Rightarrow> string \<Rightarrow> relay \<Rightarrow> receipt option" where
  "receipt_of delivery_id instance_id r =
     select_one (\<lambda>c. rc_delivery_id c = delivery_id \<and> rc_instance_id c = instance_id) (r_receipts r)"

definition is_pending :: "string \<Rightarrow> int \<Rightarrow> relay \<Rightarrow> webhook_event \<Rightarrow> bool" where
  "is_pending instance_id installation_id r e \<longleftrightarrow>
     we_installation e = installation_id \<and>
     (case receipt_of (we_delivery_id e) instance_id r of
        None \<Rightarrow> True
      | Some c \<Rightarrow> rc_acknowledged_at c = None)"

definition is_available :: "time \<Rightarrow> relay_instance \<Rightarrow> relay \<Rightarrow> webhook_event \<Rightarrow> bool" where
  "is_available now inst r e \<longleftrightarrow>
     is_pending (ri_id inst) (ri_installation inst) r e \<and>
     (case receipt_of (we_delivery_id e) (ri_id inst) r of
        None \<Rightarrow> True
      | Some c \<Rightarrow> (case rc_leased_until c of None \<Rightarrow> True | Some t \<Rightarrow> t < now))"

definition claim_receipt :: "time \<Rightarrow> string \<Rightarrow> string \<Rightarrow> receipt list \<Rightarrow> receipt list" where
  "claim_receipt now instance_id delivery_id rows =
     (let hit = (\<lambda>c. rc_delivery_id c = delivery_id \<and> rc_instance_id c = instance_id);
          till = now + EVENT_LEASE_SECONDS * 1000000 in
      if list_ex hit rows
      then update_where hit (\<lambda>c. c\<lparr>rc_attempts := rc_attempts c + 1, rc_leased_until := Some till\<rparr>) rows
      else rows @ [\<lparr>rc_delivery_id = delivery_id, rc_instance_id = instance_id, rc_attempts = 1,
                    rc_leased_until = Some till, rc_acknowledged_at = None\<rparr>])"

definition canonical_event :: "string \<Rightarrow> string \<Rightarrow> json \<Rightarrow> string" where
  "canonical_event delivery_id event_name payload =
     json_dumps (JObj [(''delivery'', JStr delivery_id), (''event'', JStr event_name), (''payload'', payload)])"

record delivery_event =
  de_delivery_id :: string
  de_event_name :: string
  de_payload :: json
  de_signature :: string

text \<open>
  \<open>locked\<close> are the deliveries whose rows other transactions hold (SKIP LOCKED).  The statement does not
  order its result; the order of the claim is taken.
\<close>

definition available_events :: "time \<Rightarrow> string set \<Rightarrow> nat \<Rightarrow> relay_instance \<Rightarrow> relay \<Rightarrow> webhook_event list" where
  "available_events now locked limit inst r =
     take limit (sort_key we_received_at
       (filter (\<lambda>e. is_available now inst r e \<and> we_delivery_id e \<notin> locked) (r_events r)))"

definition pull_events ::
    "relay_keys \<Rightarrow> time \<Rightarrow> string set \<Rightarrow> relay_instance \<Rightarrow> int \<Rightarrow> relay \<Rightarrow> relay_error + delivery_event list \<times> relay" where
  "pull_events K now locked inst limit r =
     (if limit < 1 \<or> 50 < limit then Inl (Bad_argument ''limit'')
      else
        (let available = available_events now locked (nat limit) inst r in
         if available \<noteq> [] \<and> \<not> list_ex (\<lambda>i. in_id i = ri_id inst) (r_instances r) then Inl Violates_constraint
         else
           Inr (map (\<lambda>e. \<lparr>de_delivery_id = we_delivery_id e, de_event_name = we_name e,
                   de_payload = we_payload e,
                   de_signature = rk_hmac K (ri_signing_key inst)
                     (canonical_event (we_delivery_id e) (we_name e) (we_payload e))\<rparr>) available,
             r\<lparr>r_receipts := fold (\<lambda>e. claim_receipt now (ri_id inst) (we_delivery_id e)) available
                 (r_receipts r)\<rparr>)))"

definition acknowledge_event :: "time \<Rightarrow> relay_instance \<Rightarrow> string \<Rightarrow> relay \<Rightarrow> bool \<times> relay" where
  "acknowledge_event now inst delivery_id r =
     (let hit = (\<lambda>c. rc_instance_id c = ri_id inst \<and> rc_delivery_id c = delivery_id \<and> rc_acknowledged_at c = None);
          acknowledged = list_ex hit (r_receipts r);
          gone = (\<lambda>e. acknowledged \<and> we_delivery_id e = delivery_id);
          r' = r\<lparr>r_receipts := update_where hit
                   (\<lambda>c. c\<lparr>rc_acknowledged_at := Some now, rc_leased_until := None\<rparr>) (r_receipts r)\<rparr> in
      (list_ex gone (r_events r'), delete_events gone r'))"

section \<open>Installation lifecycle\<close>

definition revoke_where :: "time \<Rightarrow> (instance_row \<Rightarrow> bool) \<Rightarrow> instance_row list \<Rightarrow> instance_row list" where
  "revoke_where now p rows =
     update_where (\<lambda>i. p i \<and> in_revoked_at i = None) (\<lambda>i. i\<lparr>in_revoked_at := Some now, in_updated_at := now\<rparr>) rows"

definition set_installation_active :: "time \<Rightarrow> int \<Rightarrow> bool \<Rightarrow> bool \<Rightarrow> relay \<Rightarrow> bool \<times> relay" where
  "set_installation_active now installation_id active revoke_instances r =
     (let r' = r\<lparr>r_installations := update_where (\<lambda>i. il_id i = installation_id)
                   (\<lambda>i. i\<lparr>il_active := active\<rparr>) (r_installations r)\<rparr> in
      if \<not> has_installation installation_id r then (False, r')
      else if revoke_instances
        then (True, r'\<lparr>r_instances := revoke_where now (\<lambda>i. in_installation i = installation_id) (r_instances r')\<rparr>)
      else (True, r'))"

definition revoke_instance :: "relay_keys \<Rightarrow> time \<Rightarrow> string \<Rightarrow> relay \<Rightarrow> bool \<times> relay" where
  "revoke_instance K now token r =
     (let hit = (\<lambda>i. in_credential_hash i = rk_hash K token) in
      (list_ex (\<lambda>i. hit i \<and> in_revoked_at i = None) (r_instances r),
       r\<lparr>r_instances := revoke_where now hit (r_instances r)\<rparr>))"

record instance_status_row =
  st_instance_id :: string
  st_installation :: int
  st_display_name :: string
  st_installation_active :: bool
  st_pending_events :: nat
  st_created_at :: time
  st_updated_at :: time

definition instance_status :: "relay_keys \<Rightarrow> string \<Rightarrow> relay \<Rightarrow> instance_status_row option" where
  "instance_status K token r =
     Option.bind (select_one (\<lambda>i. in_credential_hash i = rk_hash K token \<and> in_revoked_at i = None) (r_instances r))
       (\<lambda>i. map_option
          (\<lambda>installation. \<lparr>st_instance_id = in_id i, st_installation = in_installation i,
             st_display_name = in_display_name i, st_installation_active = il_active installation,
             st_pending_events = length (filter (is_pending (in_id i) (in_installation i) r) (r_events r)),
             st_created_at = in_created_at i, st_updated_at = in_updated_at i\<rparr>)
          (select_one (\<lambda>l. il_id l = in_installation i) (r_installations r)))"

section \<open>Connect sessions\<close>

record connect_session_created =
  cc_session_id :: string
  cc_poll_secret :: string
  cc_expires_in_seconds :: int

definition new_session :: "relay_keys \<Rightarrow> time \<Rightarrow> string \<Rightarrow> string \<Rightarrow> string \<Rightarrow> connect_session" where
  "new_session K now session_id poll_secret name =
     \<lparr>cn_id = session_id, cn_poll_secret_hash = rk_hash K poll_secret, cn_display_name = name,
      cn_status = Pending, cn_installation = None, cn_instance_id = None, cn_token_sealed = None,
      cn_key_sealed = None, cn_candidates = None, cn_user_id = None, cn_login = None,
      cn_error_message = None, cn_expires_at = now + minutes 15\<rparr>"

definition create_connect_session ::
    "relay_keys \<Rightarrow> time \<Rightarrow> string \<Rightarrow> string \<Rightarrow> string \<Rightarrow> relay \<Rightarrow> relay_error + connect_session_created \<times> relay" where
  "create_connect_session K now session_id poll_secret display_name r =
     (if \<not> name_ok display_name then Inl (Bad_argument ''display_name'')
      else if list_ex (\<lambda>s. cn_id s = session_id \<or> cn_poll_secret_hash s = rk_hash K poll_secret) (r_sessions r)
        then Inl Violates_constraint
      else
        Inr (\<lparr>cc_session_id = session_id, cc_poll_secret = poll_secret, cc_expires_in_seconds = 900\<rparr>,
          r\<lparr>r_sessions := r_sessions r @ [new_session K now session_id poll_secret (strip display_name)]\<rparr>))"

definition get_pending_connect_session :: "time \<Rightarrow> string \<Rightarrow> relay \<Rightarrow> connect_session option" where
  "get_pending_connect_session now session_id r =
     select_one (\<lambda>s. cn_id s = session_id \<and> now < cn_expires_at s \<and> (cn_status s = Pending \<or> cn_status s = Ready))
       (r_sessions r)"

definition update_session ::
    "(connect_session \<Rightarrow> bool) \<Rightarrow> (connect_session \<Rightarrow> connect_session) \<Rightarrow> relay \<Rightarrow> bool \<times> relay" where
  "update_session hit change r =
     (list_ex hit (r_sessions r), r\<lparr>r_sessions := update_where hit change (r_sessions r)\<rparr>)"

definition set_connect_session_candidates ::
    "time \<Rightarrow> string \<Rightarrow> candidate_installation list \<Rightarrow> int \<Rightarrow> string \<Rightarrow> relay \<Rightarrow> bool \<times> relay" where
  "set_connect_session_candidates now session_id candidates user_id login r =
     update_session (\<lambda>s. cn_id s = session_id \<and> cn_status s = Pending \<and> now < cn_expires_at s)
       (\<lambda>s. s\<lparr>cn_candidates := Some candidates, cn_user_id := Some user_id, cn_login := Some login\<rparr>) r"

definition fail_connect_session :: "string \<Rightarrow> string \<Rightarrow> relay \<Rightarrow> relay" where
  "fail_connect_session session_id message r =
     snd (update_session (\<lambda>s. cn_id s = session_id \<and> cn_status s = Pending)
       (\<lambda>s. s\<lparr>cn_status := Failed_session, cn_error_message := Some (take 500 message), cn_candidates := None\<rparr>) r)"

definition allowed_installations :: "int set option \<Rightarrow> connect_session \<Rightarrow> int set option" where
  "allowed_installations given session =
     (case given of
        Some ids \<Rightarrow> Some ids
      | None \<Rightarrow> map_option (\<lambda>cs. set (map ci_id cs)) (cn_candidates session))"

definition ready_session :: "int \<Rightarrow> string \<Rightarrow> string \<Rightarrow> string \<Rightarrow> connect_session \<Rightarrow> connect_session" where
  "ready_session installation_id instance_id token_sealed key_sealed s =
     s\<lparr>cn_status := Ready, cn_installation := Some installation_id, cn_instance_id := Some instance_id,
       cn_token_sealed := Some token_sealed, cn_key_sealed := Some key_sealed, cn_candidates := None\<rparr>"

text \<open>\<open>nonces\<close> are the two random values of the sealing.\<close>

definition complete_connect_session ::
    "relay_keys \<Rightarrow> time \<Rightarrow> fresh_instance \<Rightarrow> string \<times> string \<Rightarrow> string \<Rightarrow> int \<Rightarrow> int \<Rightarrow> string \<Rightarrow> int set option \<Rightarrow>
     relay \<Rightarrow> relay_error + credentials option \<times> relay" where
  "complete_connect_session K now fresh nonces session_id installation_id user_id login allowed_ids r =
     (if installation_id \<le> 0 then Inl (Bad_argument ''installation_id'')
      else
        (case select_one (\<lambda>s. cn_id s = session_id \<and> now < cn_expires_at s) (r_sessions r) of
           None \<Rightarrow> Inr (None, r)
         | Some session \<Rightarrow>
             if cn_status session \<noteq> Pending then Inr (None, r)
             else if (case allowed_installations allowed_ids session of
                        None \<Rightarrow> False | Some ids \<Rightarrow> installation_id \<notin> ids) then Inr (None, r)
             else
               bind_result (record_verified_installation installation_id user_id login r) (\<lambda>r.
               bind_result (insert_instance_credentials K now fresh installation_id (cn_display_name session) r)
                 (\<lambda>(creds, r).
               bind_result (seal_text K (fst nonces) (cr_token creds) CONNECT_INSTANCE_TOKEN_AAD) (\<lambda>token_sealed.
               bind_result (seal_text K (snd nonces) (cr_signing_key creds) CONNECT_DELIVERY_SIGNING_KEY_AAD)
                 (\<lambda>key_sealed.
                  let (changed, r) = update_session (\<lambda>s. cn_id s = session_id \<and> cn_status s = Pending)
                        (ready_session installation_id (cr_instance_id creds) token_sealed key_sealed) r in
                  Inr (if changed then Some creds else None, r)))))))"

datatype claim_result =
    Claim_not_found
  | Claim_expired
  | Claim_pending int
  | Claim_ready credentials
  | Claim_consumed
  | Claim_failed "string option"

definition open_credentials :: "relay_keys \<Rightarrow> connect_session \<Rightarrow> relay_error + credentials" where
  "open_credentials K s =
     (case cn_installation s of None \<Rightarrow> Inl Null_column | Some installation_id \<Rightarrow>
     bind_result (unseal_text K (case cn_token_sealed s of None \<Rightarrow> ''None'' | Some v \<Rightarrow> v)
         CONNECT_INSTANCE_TOKEN_AAD False) (\<lambda>token.
     bind_result (unseal_text K (case cn_key_sealed s of None \<Rightarrow> ''None'' | Some v \<Rightarrow> v)
         CONNECT_DELIVERY_SIGNING_KEY_AAD False) (\<lambda>signing_key.
     Inr \<lparr>cr_instance_id = (case cn_instance_id s of None \<Rightarrow> ''None'' | Some v \<Rightarrow> v), cr_token = token,
          cr_signing_key = signing_key,
          cr_installation = installation_id\<rparr>)))"

text \<open>Whole seconds left, truncated towards zero and at least zero.\<close>

definition seconds_left :: "time \<Rightarrow> connect_session \<Rightarrow> int" where
  "seconds_left now s = max 0 ((cn_expires_at s - now) div 1000000)"

definition consume_session :: "connect_session \<Rightarrow> connect_session" where
  "consume_session s = s\<lparr>cn_status := Consumed, cn_token_sealed := None, cn_key_sealed := None\<rparr>"

definition expire_session :: "connect_session \<Rightarrow> connect_session" where
  "expire_session s = s\<lparr>cn_status := Failed_session, cn_error_message := Some ''Connect session expired''\<rparr>"

definition claim_connect_session ::
    "relay_keys \<Rightarrow> time \<Rightarrow> string \<Rightarrow> string \<Rightarrow> relay \<Rightarrow> relay_error + claim_result \<times> relay" where
  "claim_connect_session K now session_id poll_secret r =
     (case select_one (\<lambda>s. cn_id s = session_id \<and> cn_poll_secret_hash s = rk_hash K poll_secret) (r_sessions r) of
        None \<Rightarrow> Inr (Claim_not_found, r)
      | Some session \<Rightarrow>
          (case cn_status session of
             Pending \<Rightarrow>
               if seconds_left now session \<le> 0
               then Inr (Claim_expired,
                      snd (update_session (\<lambda>s. cn_id s = session_id \<and> cn_status s = Pending) expire_session r))
               else Inr (Claim_pending (seconds_left now session), r)
           | Ready \<Rightarrow>
               bind_result (open_credentials K session) (\<lambda>creds.
                 let (changed, r) = update_session (\<lambda>s. cn_id s = session_id \<and> cn_status s = Ready) consume_session r in
                 Inr (if changed then Claim_ready creds else Claim_consumed, r))
           | Consumed \<Rightarrow> Inr (Claim_consumed, r)
           | Failed_session \<Rightarrow> Inr (Claim_failed (cn_error_message session), r)))"

section \<open>The other end: the delivery poller\<close>

text \<open>\<open>_verify_event\<close> of the self-hosted poller (\<open>github/delivery_poller.py\<close>)\<close>

definition verify_event :: "(string \<Rightarrow> string \<Rightarrow> string) \<Rightarrow> string \<Rightarrow> delivery_event \<Rightarrow> bool" where
  "verify_event hmac signing_key e \<longleftrightarrow>
     hmac signing_key (canonical_event (de_delivery_id e) (de_event_name e) (de_payload e)) = de_signature e"

end
