(* ===== verification/Relay_Props.thy ===== *)
theory Relay_Props
  imports Relay
begin

text \<open>
  The relay as a transition system: one step per transaction, the invariant of the store, the orders its
  rows follow, and what they give: secrets are handed out once, an instance sees its own events only and
  each at most once per lease, and what it pulls verifies under the key it was given at enrollment.
\<close>

section \<open>Steps\<close>

inductive relay_step :: "relay_keys \<Rightarrow> relay \<Rightarrow> relay \<Rightarrow> bool" for K where
  s_create_state: "create_oauth_state K now st inst sess r = Inr (x, r') \<Longrightarrow> relay_step K r r'"
| s_consume_state: "consume_oauth_state K now st r = (x, r') \<Longrightarrow> relay_step K r r'"
| s_verified: "record_verified_installation inst user login r = Inr r' \<Longrightarrow> relay_step K r r'"
| s_create_code: "create_connection_code K now fresh inst r = Inr (x, r') \<Longrightarrow> relay_step K r r'"
| s_redeem: "redeem_connection_code K now fr given name r = Inr (y, r') \<Longrightarrow> relay_step K r r'"
| s_authenticate: "authenticate_instance K now nonce token r = Inr (z, r') \<Longrightarrow> relay_step K r r'"
| s_event: "record_webhook_event now delivery inst event payload digest r = (b, r') \<Longrightarrow> relay_step K r r'"
| s_pull: "pull_events K now locked ri limit r = Inr (es, r') \<Longrightarrow> relay_step K r r'"
| s_acknowledge: "acknowledge_event now ri delivery r = (b, r') \<Longrightarrow> relay_step K r r'"
| s_active: "set_installation_active now inst active revoke r = (b, r') \<Longrightarrow> relay_step K r r'"
| s_revoke: "revoke_instance K now token r = (b, r') \<Longrightarrow> relay_step K r r'"
| s_create_session: "create_connect_session K now sid secret name r = Inr (c, r') \<Longrightarrow> relay_step K r r'"
| s_candidates: "set_connect_session_candidates now sid cands user login r = (b, r') \<Longrightarrow> relay_step K r r'"
| s_fail: "fail_connect_session sid message r = r' \<Longrightarrow> relay_step K r r'"
| s_complete: "complete_connect_session K now fr nonces sid inst user login allowed r = Inr (y, r') \<Longrightarrow> relay_step K r r'"
| s_claim: "claim_connect_session K now sid secret r = Inr (res, r') \<Longrightarrow> relay_step K r r'"

definition empty_relay :: relay where
  "empty_relay = \<lparr>r_oauth_states = [], r_installations = [], r_codes = [], r_instances = [], r_sessions = [],
     r_events = [], r_receipts = []\<rparr>"

definition relay_runs :: "relay_keys \<Rightarrow> relay \<Rightarrow> relay \<Rightarrow> bool" where
  "relay_runs K = (relay_step K)\<^sup>*\<^sup>*"

section \<open>Rows evolve\<close>

definition code_evolves :: "enrollment_code \<Rightarrow> enrollment_code \<Rightarrow> bool" where
  "code_evolves c c' \<longleftrightarrow>
     c' = c \<or> ec_redeemed_at c = None \<and> ec_redeemed_at c' \<noteq> None \<and> ec_hash c' = ec_hash c \<and>
     ec_installation c' = ec_installation c \<and> ec_expires_at c' = ec_expires_at c"

definition instance_evolves :: "instance_row \<Rightarrow> instance_row \<Rightarrow> bool" where
  "instance_evolves i i' \<longleftrightarrow>
     in_id i' = in_id i \<and> in_installation i' = in_installation i \<and> in_created_at i' = in_created_at i \<and>
     (in_revoked_at i \<noteq> None \<longrightarrow> i' = i)"

fun status_next :: "session_status \<Rightarrow> session_status \<Rightarrow> bool" where
  "status_next Pending s = True"
| "status_next Ready s = (s = Ready \<or> s = Consumed)"
| "status_next s t = (t = s)"

definition session_evolves :: "connect_session \<Rightarrow> connect_session \<Rightarrow> bool" where
  "session_evolves s s' \<longleftrightarrow>
     cn_id s' = cn_id s \<and> cn_poll_secret_hash s' = cn_poll_secret_hash s \<and>
     cn_display_name s' = cn_display_name s \<and> cn_expires_at s' = cn_expires_at s \<and>
     status_next (cn_status s) (cn_status s') \<and>
     (cn_status s = Ready \<longrightarrow> cn_instance_id s' = cn_instance_id s \<and> cn_installation s' = cn_installation s) \<and>
     (cn_status s = Consumed \<or> cn_status s = Failed_session \<longrightarrow> s' = s)"

interpretation codes: evolving_rows code_evolves
  by unfold_locales (auto simp: code_evolves_def)

interpretation instances: evolving_rows instance_evolves
  by unfold_locales (auto simp: instance_evolves_def)

lemma status_next_refl [simp]: "status_next s s"
  by (cases s) auto

lemma status_next_trans: "status_next a b \<Longrightarrow> status_next b c \<Longrightarrow> status_next a c"
  by (cases a; cases b) auto

interpretation sessions: evolving_rows session_evolves
proof
  show "session_evolves r r" for r by (simp add: session_evolves_def)
next
  fix r s t assume rs: "session_evolves r s" and st: "session_evolves s t"
  show "session_evolves r t"
  proof (cases "cn_status r = Consumed \<or> cn_status r = Failed_session")
    case True
    then have "s = r" using rs by (auto simp: session_evolves_def)
    then show ?thesis using st by simp
  next
    case False
    have "cn_status r = Ready \<longrightarrow> cn_instance_id t = cn_instance_id r \<and> cn_installation t = cn_installation r"
      using rs st by (auto simp: session_evolves_def)
    then show ?thesis using rs st False status_next_trans by (auto simp: session_evolves_def)
  qed
qed

definition relay_evolves :: "relay \<Rightarrow> relay \<Rightarrow> bool" where
  "relay_evolves r r' \<longleftrightarrow>
     codes.table_evolves (r_codes r) (r_codes r') \<and> instances.table_evolves (r_instances r) (r_instances r') \<and>
     sessions.table_evolves (r_sessions r) (r_sessions r') \<and>
     set (map il_id (r_installations r)) \<subseteq> set (map il_id (r_installations r'))"

lemma relay_evolves_refl [simp]: "relay_evolves r r"
  by (simp add: relay_evolves_def)

lemma relay_evolves_trans: "relay_evolves a b \<Longrightarrow> relay_evolves b c \<Longrightarrow> relay_evolves a c"
  unfolding relay_evolves_def
  by (blast intro: codes.table_trans instances.table_trans sessions.table_trans)

text \<open>What each operation leaves alone or moves forward.\<close>

lemma delete_events_fields [simp]:
  "r_codes (delete_events g r) = r_codes r" "r_instances (delete_events g r) = r_instances r"
  "r_sessions (delete_events g r) = r_sessions r" "r_installations (delete_events g r) = r_installations r"
  "r_oauth_states (delete_events g r) = r_oauth_states r"
  by (simp_all add: delete_events_def)

lemma maybe_reseal_evolves: "instances.table_evolves rows (maybe_reseal K now nonce i stored plain rows)"
  by (auto simp: maybe_reseal_def instance_evolves_def intro!: instances.table_update split: sum.splits)

lemma revoke_where_evolves: "instances.table_evolves rows (revoke_where now p rows)"
  unfolding revoke_where_def by (rule instances.table_update) (auto simp: instance_evolves_def)

lemma upsert_ids:
  "upsert_installation inst user login rows = Inr rows' \<Longrightarrow>
     set (map il_id rows') = insert inst (set (map il_id rows)) \<and> 0 < inst"
  by (auto simp: upsert_installation_def map_update_where_same list_ex_iff simp del: set_map
        split: if_splits) (auto simp: list_ex_iff)

lemma record_verified_evolves:
  "record_verified_installation inst user login r = Inr r' \<Longrightarrow>
     relay_evolves r r' \<and> r_codes r' = r_codes r \<and> r_instances r' = r_instances r \<and> r_sessions r' = r_sessions r"
  using upsert_ids[of inst user login "r_installations r"]
  by (auto simp: record_verified_installation_def bind_result_Inr_iff relay_evolves_def)

lemma insert_credentials_evolves:
  assumes "insert_instance_credentials K now fr inst name r = Inr (creds, r')"
  shows "relay_evolves r r' \<and> r_sessions r' = r_sessions r \<and> r_codes r' = r_codes r \<and>
    cr_instance_id creds \<in> set (map in_id (r_instances r')) \<and> cr_installation creds = inst"
proof -
  obtain sealed where s: "seal_text K (fr_nonce fr) (fr_signing_key fr) DELIVERY_SIGNING_KEY_AAD = Inr sealed"
    using assms by (auto simp: insert_instance_credentials_def bind_result_Inr_iff)
  show ?thesis
  proof (cases "select_one (is_live inst) (r_instances r)")
    case None
    then show ?thesis using assms s
      by (auto simp: insert_instance_credentials_def relay_evolves_def instance_credentials_def new_instance_def
            instances.table_insert split: if_splits)
  next
    case (Some live)
    then have live: "live \<in> set (r_instances r)" by (blast dest: select_one_SomeD)
    have rows: "r' = r\<lparr>r_instances := update_where (is_live inst)
        (renew_instance K now fr (strip name) sealed) (r_instances r)\<rparr>"
      "creds = instance_credentials fr inst (in_id live)"
      using assms s Some by (auto simp: insert_instance_credentials_def split: if_splits)
    have "instances.table_evolves (r_instances r) (r_instances r')"
      unfolding rows by (simp, rule instances.table_update) (auto simp: is_live_def instance_evolves_def renew_instance_def)
    moreover have "map in_id (r_instances r') = map in_id (r_instances r)"
      unfolding rows by (simp add: map_update_where_same renew_instance_def)
    ultimately show ?thesis using rows live
      by (simp add: relay_evolves_def instance_credentials_def del: set_map) simp
  qed
qed

lemma update_session_evolves:
  assumes "update_session hit change r = (b, r')" "\<And>s. hit s \<Longrightarrow> session_evolves s (change s)"
  shows "relay_evolves r r' \<and> r_instances r' = r_instances r \<and> r_codes r' = r_codes r"
  using assms by (auto simp: update_session_def relay_evolves_def intro!: sessions.table_update)

lemma redeem_evolves:
  assumes "redeem_connection_code K now fr given name r = Inr (y, r')"
  shows "relay_evolves r r'"
proof -
  let ?hit = "\<lambda>c. ec_hash c = rk_hash K given \<and> ec_redeemed_at c = None \<and> now < ec_expires_at c"
  let ?r = "r\<lparr>r_codes := update_where ?hit (\<lambda>c. c\<lparr>ec_redeemed_at := Some now\<rparr>) (r_codes r)\<rparr>"
  have step: "relay_evolves r ?r"
    by (auto simp: relay_evolves_def code_evolves_def intro!: codes.table_update)
  show ?thesis
  proof (cases "select_one ?hit (r_codes r)")
    case None
    then show ?thesis using assms by (auto simp: redeem_connection_code_def guard_Inr)
  next
    case (Some found)
    then obtain creds where
      "insert_instance_credentials K now fr (ec_installation found) name ?r = Inr (creds, r')"
      using assms by (auto simp: redeem_connection_code_def guard_Inr bind_result_Inr_iff)
    then show ?thesis using insert_credentials_evolves step relay_evolves_trans by blast
  qed
qed

lemma update_session_evolves_snd:
  "(\<And>s. hit s \<Longrightarrow> session_evolves s (change s)) \<Longrightarrow> relay_evolves r (snd (update_session hit change r))"
  using update_session_evolves[OF prod.collapse[symmetric]] by blast

lemma bind_InrE:
  assumes "bind_result m f = Inr y"
  obtains x where "m = Inr x" "f x = Inr y"
  using assms by (auto simp: bind_result_Inr_iff)

text \<open>A completion that changes the store goes through these steps.\<close>

lemma complete_steps:
  assumes "complete_connect_session K now fr nonces sid inst user login allowed r = Inr (y, r')"
  obtains (same) "r' = r" "y = None"
    | (bound) session r1 r2 creds ts ks where
        "select_one (\<lambda>s. cn_id s = sid \<and> now < cn_expires_at s) (r_sessions r) = Some session"
        "cn_status session = Pending"
        "\<forall>ids. allowed_installations allowed session = Some ids \<longrightarrow> inst \<in> ids"
        "record_verified_installation inst user login r = Inr r1"
        "insert_instance_credentials K now fr inst (cn_display_name session) r1 = Inr (creds, r2)"
        "r' = snd (update_session (\<lambda>s. cn_id s = sid \<and> cn_status s = Pending)
           (ready_session inst (cr_instance_id creds) ts ks) r2)"
        "seal_text K (fst nonces) (cr_token creds) CONNECT_INSTANCE_TOKEN_AAD = Inr ts"
        "seal_text K (snd nonces) (cr_signing_key creds) CONNECT_DELIVERY_SIGNING_KEY_AAD = Inr ks"
proof (cases "select_one (\<lambda>s. cn_id s = sid \<and> now < cn_expires_at s) (r_sessions r)")
  case None
  then show ?thesis using assms same by (auto simp: complete_connect_session_def guard_Inr)
next
  case (Some session)
  let ?ok = "case allowed_installations allowed session of None \<Rightarrow> False | Some ids \<Rightarrow> inst \<notin> ids"
  show ?thesis
  proof (cases "cn_status session \<noteq> Pending \<or> ?ok")
    case True
    then show ?thesis using assms Some same
      by (cases "cn_status session \<noteq> Pending") (simp_all add: complete_connect_session_def guard_Inr)
  next
    case False
    then have ids: "\<forall>ids. allowed_installations allowed session = Some ids \<longrightarrow> inst \<in> ids"
      "cn_status session = Pending" by (auto split: option.splits)
    have "bind_result (record_verified_installation inst user login r) (\<lambda>r.
       bind_result (insert_instance_credentials K now fr inst (cn_display_name session) r) (\<lambda>(creds, r).
       bind_result (seal_text K (fst nonces) (cr_token creds) CONNECT_INSTANCE_TOKEN_AAD) (\<lambda>ts.
       bind_result (seal_text K (snd nonces) (cr_signing_key creds) CONNECT_DELIVERY_SIGNING_KEY_AAD) (\<lambda>ks.
         let (changed, r) = update_session (\<lambda>s. cn_id s = sid \<and> cn_status s = Pending)
               (ready_session inst (cr_instance_id creds) ts ks) r in
         Inr (if changed then Some creds else None, r))))) = Inr (y, r')"
      using assms Some False by (simp add: complete_connect_session_def guard_Inr)
    then show ?thesis
      unfolding split_def
    proof (elim bind_InrE)
      fix r1 p ts ks
      assume steps: "record_verified_installation inst user login r = Inr r1"
        "insert_instance_credentials K now fr inst (cn_display_name session) r1 = Inr p"
        "seal_text K (fst nonces) (cr_token (fst p)) CONNECT_INSTANCE_TOKEN_AAD = Inr ts"
        "seal_text K (snd nonces) (cr_signing_key (fst p)) CONNECT_DELIVERY_SIGNING_KEY_AAD = Inr ks"
      let ?u = "update_session (\<lambda>s. cn_id s = sid \<and> cn_status s = Pending)
           (ready_session inst (cr_instance_id (fst p)) ts ks) (snd p)"
      assume "(let u = ?u in Inr (if fst u then Some (fst p) else None, snd u)) = Inr (y, r')"
      then have "r' = snd ?u" by (simp add: Let_def)
      moreover have "insert_instance_credentials K now fr inst (cn_display_name session) r1 = Inr (fst p, snd p)"
        using steps(2) by simp
      ultimately show ?thesis using bound[OF Some ids(2,1) steps(1)] steps(3,4) by blast
    qed
  qed
qed

lemma complete_evolves:
  assumes "complete_connect_session K now fr nonces sid inst user login allowed r = Inr (y, r')"
  shows "relay_evolves r r'"
  using assms
proof (cases rule: complete_steps)
  case (bound session r1 r2 creds ts ks)
  have "relay_evolves r2 r'"
    unfolding bound(6) by (rule update_session_evolves_snd) (simp add: session_evolves_def ready_session_def)
  then show ?thesis
    using record_verified_evolves[OF bound(4)] insert_credentials_evolves[OF bound(5)] relay_evolves_trans by blast
qed simp

lemma claim_session_evolves:
  assumes "claim_connect_session K now sid secret r = Inr (res, r')"
  shows "relay_evolves r r'"
proof -
  have e: "session_evolves s (expire_session s)" if "cn_id s = sid \<and> cn_status s = Pending" for s
    using that by (simp add: session_evolves_def expire_session_def)
  have c: "session_evolves s (consume_session s)" if "cn_id s = sid \<and> cn_status s = Ready" for s
    using that by (simp add: session_evolves_def consume_session_def)
  have "r' = r \<or> r' = snd (update_session (\<lambda>s. cn_id s = sid \<and> cn_status s = Pending) expire_session r) \<or>
     r' = snd (update_session (\<lambda>s. cn_id s = sid \<and> cn_status s = Ready) consume_session r)"
    using assms
    by (auto simp: claim_connect_session_def bind_result_Inr_iff split_def Let_def
          split: option.splits session_status.splits if_splits)
  then show ?thesis using update_session_evolves_snd[OF e] update_session_evolves_snd[OF c] by auto
qed

lemma relay_step_evolves: "relay_step K r r' \<Longrightarrow> relay_evolves r r'"
proof (induction rule: relay_step.induct)
  case (s_create_state now st inst sess r x r')
  then show ?case by (auto simp: create_oauth_state_def guard_Inr relay_evolves_def)
next
  case (s_consume_state now st r x r')
  then show ?case by (auto simp: consume_oauth_state_def Let_def relay_evolves_def)
next
  case (s_verified inst user login r r')
  then show ?case by (blast dest: record_verified_evolves)
next
  case (s_create_code now fresh inst r x r')
  then show ?case by (auto simp: create_connection_code_def guard_Inr relay_evolves_def codes.table_insert)
next
  case (s_redeem now fr given name r y r')
  then show ?case by (rule redeem_evolves)
next
  case (s_authenticate now nonce token r z r')
  then show ?case
    by (auto simp: authenticate_instance_def bind_result_Inr_iff relay_evolves_def maybe_reseal_evolves
          split: option.splits)
next
  case (s_event now delivery inst event payload digest r b r')
  then show ?case by (auto simp: record_webhook_event_def Let_def relay_evolves_def split: if_splits)
next
  case (s_pull now locked ri limit r es r')
  then show ?case by (auto simp: pull_events_def Let_def guard_Inr relay_evolves_def)
next
  case (s_acknowledge now ri delivery r b r')
  then show ?case by (auto simp: acknowledge_event_def Let_def relay_evolves_def)
next
  case (s_active now inst active revoke r b r')
  then show ?case
    by (auto simp: set_installation_active_def Let_def relay_evolves_def revoke_where_evolves map_update_where_same
          simp del: set_map split: if_splits)
next
  case (s_revoke now token r b r')
  then show ?case by (auto simp: revoke_instance_def Let_def relay_evolves_def revoke_where_evolves)
next
  case (s_create_session now sid secret name r c r')
  then show ?case by (auto simp: create_connect_session_def guard_Inr relay_evolves_def sessions.table_insert)
next
  case (s_candidates now sid cands user login r b r')
  then show ?case
    unfolding set_connect_session_candidates_def
    by (auto dest!: update_session_evolves simp: session_evolves_def)
next
  case (s_fail sid message r r')
  show ?case
    unfolding s_fail[symmetric] fail_connect_session_def
    by (rule update_session_evolves_snd) (simp add: session_evolves_def)
next
  case (s_complete now fr nonces sid inst user login allowed r y r')
  then show ?case by (rule complete_evolves)
next
  case (s_claim now sid secret r res r')
  then show ?case by (rule claim_session_evolves)
qed

lemma relay_runs_evolve: "relay_runs K r r' \<Longrightarrow> relay_evolves r r'"
  unfolding relay_runs_def
  by (induction rule: rtranclp_induct) (auto intro: relay_evolves_trans relay_step_evolves)

end
