(* ===== verification/Relay_Inv.thy ===== *)
theory Relay_Inv
  imports Relay_Props
begin

text \<open>
  The invariant of the relay's store: unique keys, at most one live instance for an installation, references
  that resolve, no acknowledged receipt left behind, and connect sessions that hold sealed credentials
  exactly while they are ready.
\<close>

definition session_ok :: "connect_session \<Rightarrow> bool" where
  "session_ok s \<longleftrightarrow>
     (if cn_status s = Ready
      then cn_token_sealed s \<noteq> None \<and> cn_key_sealed s \<noteq> None \<and> cn_installation s \<noteq> None \<and> cn_instance_id s \<noteq> None
      else cn_token_sealed s = None \<and> cn_key_sealed s = None)"

definition one_live :: "instance_row list \<Rightarrow> bool" where
  "one_live rows \<longleftrightarrow>
     (\<forall>i \<in> set rows. \<forall>j \<in> set rows. in_revoked_at i = None \<and> in_revoked_at j = None \<and>
        in_installation i = in_installation j \<longrightarrow> in_id i = in_id j)"

definition keys_ok :: "relay \<Rightarrow> bool" where
  "keys_ok r \<longleftrightarrow>
     distinct (map os_hash (r_oauth_states r)) \<and> distinct (map il_id (r_installations r)) \<and>
     distinct (map ec_hash (r_codes r)) \<and> distinct (map in_id (r_instances r)) \<and>
     distinct (map in_credential_hash (r_instances r)) \<and> distinct (map cn_id (r_sessions r)) \<and>
     distinct (map cn_poll_secret_hash (r_sessions r)) \<and> distinct (map we_delivery_id (r_events r)) \<and>
     distinct (map (\<lambda>c. (rc_delivery_id c, rc_instance_id c)) (r_receipts r)) \<and> one_live (r_instances r)"

definition links_ok :: "relay \<Rightarrow> bool" where
  "links_ok r \<longleftrightarrow>
     ec_installation ` set (r_codes r) \<subseteq> il_id ` set (r_installations r) \<and>
     in_installation ` set (r_instances r) \<subseteq> il_id ` set (r_installations r) \<and>
     we_installation ` set (r_events r) \<subseteq> il_id ` set (r_installations r) \<and>
     rc_delivery_id ` set (r_receipts r) \<subseteq> we_delivery_id ` set (r_events r) \<and>
     rc_instance_id ` set (r_receipts r) \<subseteq> in_id ` set (r_instances r)"

definition rows_ok :: "relay \<Rightarrow> bool" where
  "rows_ok r \<longleftrightarrow>
     (\<forall>s \<in> set (r_oauth_states r). os_installation s \<noteq> None \<or> os_session s \<noteq> None) \<and>
     (\<forall>i \<in> set (r_installations r). 0 < il_id i \<and> 0 < il_user_id i) \<and>
     (\<forall>s \<in> set (r_sessions r). session_ok s) \<and> (\<forall>c \<in> set (r_receipts r). rc_acknowledged_at c = None)"

definition relay_ok :: "relay \<Rightarrow> bool" where
  "relay_ok r \<longleftrightarrow> keys_ok r \<and> links_ok r \<and> rows_ok r"

lemmas relay_ok_defs = relay_ok_def keys_ok_def links_ok_def rows_ok_def

lemma empty_relay_ok: "relay_ok empty_relay"
  by (simp add: relay_ok_defs empty_relay_def one_live_def)

section \<open>Tables\<close>

lemma distinct_filter_key: "distinct (map k rows) \<Longrightarrow> distinct (map k (filter p rows))"
  by (rule distinct_map_filter)

lemma distinct_snoc_key: "distinct (map k rows) \<Longrightarrow> k x \<notin> k ` set rows \<Longrightarrow> distinct (map k (rows @ [x]))"
  by simp

lemma image_update_where: "(\<And>r. k (f r) = k r) \<Longrightarrow> k ` set (update_where p f rows) = k ` set rows"
  by (metis map_update_where_same set_map)

lemma distinct_update_key:
  assumes "distinct (map k rows)" "distinct (map h rows)" "\<And>i. i \<in> set rows \<Longrightarrow> p i \<Longrightarrow> k i = x"
    "\<And>i. p i \<Longrightarrow> h (f i) = v" "\<forall>i \<in> set rows. h i = v \<longrightarrow> p i"
  shows "distinct (map h (update_where p f rows))"
  using assms(1-3,5)
proof (induction rows)
  case Nil
  then show ?case by (simp add: update_where_def)
next
  case (Cons i rows)
  have tail: "distinct (map h (update_where p f rows))" using Cons by simp
  have other: "h (if p i then f i else i) \<noteq> h (if p j then f j else j)" if "j \<in> set rows" for j
  proof (cases "p i \<or> p j")
    case True
    have "k i \<noteq> k j" using Cons.prems(1) that by force
    then have "\<not> (p i \<and> p j)" using Cons.prems(3) that by (metis list.set_intros)
    then show ?thesis using True Cons.prems(4) assms(4) that by auto
  next
    case False
    then show ?thesis using Cons.prems(2) that by force
  qed
  then have "h (if p i then f i else i) \<notin> set (map h (update_where p f rows))"
    unfolding update_where_def set_map by blast
  then show ?case using tail by (simp add: update_where_def)
qed

lemma evolves_in_id: "list_all2 instance_evolves rows xs \<Longrightarrow> map in_id xs = map in_id rows"
  by (induction rule: list_all2_induct) (auto simp: instance_evolves_def)

lemma one_live_evolves:
  assumes "one_live rows" "list_all2 instance_evolves rows xs"
  shows "one_live xs"
  unfolding one_live_def
proof (intro ballI impI)
  fix i j assume ij: "i \<in> set xs" "j \<in> set xs"
    and live: "in_revoked_at i = None \<and> in_revoked_at j = None \<and> in_installation i = in_installation j"
  obtain a b where a: "a \<in> set rows" "instance_evolves a i" and b: "b \<in> set rows" "instance_evolves b j"
    using assms(2) ij by (metis in_set_conv_nth list_all2_conv_all_nth)
  have "in_revoked_at a = None" "in_revoked_at b = None" "in_installation a = in_installation b"
    using a(2) b(2) live by (auto simp: instance_evolves_def)
  then have "in_id a = in_id b" using assms(1) a(1) b(1) unfolding one_live_def by blast
  then show "in_id i = in_id j" using a(2) b(2) by (simp add: instance_evolves_def)
qed

lemma one_live_update:
  "one_live rows \<Longrightarrow> (\<And>i. p i \<Longrightarrow> instance_evolves i (f i)) \<Longrightarrow> one_live (update_where p f rows)"
  by (rule one_live_evolves)
     (auto simp: update_where_def list_all2_conv_all_nth instance_evolves_def)

lemma one_live_snoc:
  assumes "one_live rows" "\<forall>i \<in> set rows. \<not> is_live (in_installation x) i"
  shows "one_live (rows @ [x])"
  unfolding one_live_def
proof (intro ballI impI)
  fix i j assume ij: "i \<in> set (rows @ [x])" "j \<in> set (rows @ [x])"
    and live: "in_revoked_at i = None \<and> in_revoked_at j = None \<and> in_installation i = in_installation j"
  have other: "\<not> (in_revoked_at k = None \<and> in_installation k = in_installation x)" if "k \<in> set rows" for k
    using assms(2) that unfolding is_live_def by blast
  consider "i = x \<and> j = x" | "i = x \<and> j \<in> set rows" | "i \<in> set rows \<and> j = x" | "i \<in> set rows \<and> j \<in> set rows"
    using ij by auto
  then show "in_id i = in_id j"
  proof cases
    case 4
    then show ?thesis using assms(1) live unfolding one_live_def by blast
  next
    case 2
    then show ?thesis using other[of j] live by simp
  next
    case 3
    then show ?thesis using other[of i] live by simp
  qed simp
qed

text \<open>One rule for each table an operation replaces.\<close>

lemma ok_states:
  "\<lbrakk>relay_ok r; distinct (map os_hash xs); \<forall>s \<in> set xs. os_installation s \<noteq> None \<or> os_session s \<noteq> None\<rbrakk> \<Longrightarrow>
   relay_ok (r\<lparr>r_oauth_states := xs\<rparr>)"
  by (simp add: relay_ok_defs)

lemma ok_installations:
  assumes "relay_ok r" "distinct (map il_id xs)" "\<forall>i \<in> set xs. 0 < il_id i \<and> 0 < il_user_id i"
    "il_id ` set (r_installations r) \<subseteq> il_id ` set xs"
  shows "relay_ok (r\<lparr>r_installations := xs\<rparr>)"
  using assms(1-3) subset_trans[OF _ assms(4)] by (simp add: relay_ok_defs)

lemma ok_codes:
  "\<lbrakk>relay_ok r; distinct (map ec_hash xs); ec_installation ` set xs \<subseteq> il_id ` set (r_installations r)\<rbrakk> \<Longrightarrow>
   relay_ok (r\<lparr>r_codes := xs\<rparr>)"
  by (simp add: relay_ok_defs)

lemma ok_instances:
  assumes "relay_ok r" "distinct (map in_id xs)" "distinct (map in_credential_hash xs)" "one_live xs"
    "in_installation ` set xs \<subseteq> il_id ` set (r_installations r)" "in_id ` set (r_instances r) \<subseteq> in_id ` set xs"
  shows "relay_ok (r\<lparr>r_instances := xs\<rparr>)"
  using assms(1-5) subset_trans[OF _ assms(6)] by (simp add: relay_ok_defs)

lemma ok_sessions:
  "\<lbrakk>relay_ok r; distinct (map cn_id xs); distinct (map cn_poll_secret_hash xs); \<forall>s \<in> set xs. session_ok s\<rbrakk> \<Longrightarrow>
   relay_ok (r\<lparr>r_sessions := xs\<rparr>)"
  by (simp add: relay_ok_defs)

lemma ok_events:
  "\<lbrakk>relay_ok r; distinct (map we_delivery_id es); we_installation ` set es \<subseteq> il_id ` set (r_installations r);
    distinct (map (\<lambda>c. (rc_delivery_id c, rc_instance_id c)) rs);
    rc_delivery_id ` set rs \<subseteq> we_delivery_id ` set es; rc_instance_id ` set rs \<subseteq> in_id ` set (r_instances r);
    \<forall>c \<in> set rs. rc_acknowledged_at c = None\<rbrakk> \<Longrightarrow>
   relay_ok (r\<lparr>r_events := es, r_receipts := rs\<rparr>)"
  by (simp add: relay_ok_defs)

text \<open>A change of instances that keeps ids, installations and credential hashes and revives nothing.\<close>

lemma instances_update_ok:
  assumes "relay_ok r" "\<And>i. in_id (f i) = in_id i \<and> in_installation (f i) = in_installation i \<and>
      in_credential_hash (f i) = in_credential_hash i" "\<And>i. p i \<Longrightarrow> instance_evolves i (f i)"
  shows "relay_ok (r\<lparr>r_instances := update_where p f (r_instances r)\<rparr>)"
proof (rule ok_instances[OF assms(1)])
  show "one_live (update_where p f (r_instances r))"
    using assms(1) by (intro one_live_update assms(3)) (simp_all add: relay_ok_defs)
qed (use assms(1,2) in \<open>simp_all add: relay_ok_defs image_update_where map_update_where_same\<close>)

section \<open>Operations\<close>

lemma create_oauth_state_ok:
  assumes "relay_ok r" "create_oauth_state K now st inst sess r = Inr (x, r')"
  shows "relay_ok r'"
proof -
  let ?s = "\<lparr>os_hash = rk_hash K st, os_installation = inst, os_session = sess, os_expires_at = now + minutes 10\<rparr>"
  have r': "r' = r\<lparr>r_oauth_states := r_oauth_states r @ [?s]\<rparr>"
    and s: "os_hash ?s \<notin> os_hash ` set (r_oauth_states r)" "os_installation ?s \<noteq> None \<or> os_session ?s \<noteq> None"
    using assms(2) by (auto simp: create_oauth_state_def guard_Inr list_ex_iff)
  show ?thesis
    unfolding r' by (rule ok_states[OF assms(1)]) (use assms(1) s in \<open>auto simp: relay_ok_defs\<close>)
qed

lemma consume_oauth_state_ok:
  assumes "relay_ok r"
  shows "relay_ok (snd (consume_oauth_state K now st r))"
  unfolding consume_oauth_state_def Let_def snd_conv
  by (rule ok_states[OF assms]) (use assms in \<open>simp_all add: relay_ok_defs distinct_filter_key\<close>)

lemma record_verified_ok:
  assumes "relay_ok r" "record_verified_installation inst user login r = Inr r'"
  shows "relay_ok r'"
proof -
  obtain rows where rows: "upsert_installation inst user login (r_installations r) = Inr rows"
    and r': "r' = r\<lparr>r_installations := rows\<rparr>"
    using assms(2) by (auto simp: record_verified_installation_def bind_result_Inr_iff)
  have ids: "il_id ` set rows = insert inst (il_id ` set (r_installations r))"
    using upsert_ids[OF rows] by simp
  have old: "distinct (map il_id (r_installations r))" "\<forall>i \<in> set (r_installations r). 0 < il_id i \<and> 0 < il_user_id i"
    using assms(1) by (simp_all add: relay_ok_defs)
  show ?thesis
    unfolding r'
  proof (rule ok_installations[OF assms(1)])
    show "distinct (map il_id rows)"
      using rows old(1) by (auto simp: upsert_installation_def list_ex_iff map_update_where_same split: if_splits)
    show "\<forall>i \<in> set rows. 0 < il_id i \<and> 0 < il_user_id i"
      using rows old(2) by (auto simp: upsert_installation_def set_update_where split: if_splits)
  qed (use ids in blast)
qed

lemma create_connection_code_ok:
  assumes "relay_ok r" "create_connection_code K now fresh inst r = Inr (x, r')"
  shows "relay_ok r'"
proof -
  let ?c = "\<lparr>ec_hash = rk_hash K fresh, ec_installation = inst, ec_expires_at = now + minutes 15,
      ec_redeemed_at = None\<rparr>"
  have r': "r' = r\<lparr>r_codes := r_codes r @ [?c]\<rparr>"
    and c: "ec_hash ?c \<notin> ec_hash ` set (r_codes r)" "ec_installation ?c \<in> il_id ` set (r_installations r)"
    using assms(2) by (auto simp: create_connection_code_def guard_Inr list_ex_iff has_installation_def)
  show ?thesis
    unfolding r' by (rule ok_codes[OF assms(1)]) (use assms(1) c in \<open>simp_all add: relay_ok_defs\<close>)
qed

lemma insert_credentials_ok:
  assumes "relay_ok r" "insert_instance_credentials K now fr inst name r = Inr (creds, r')"
  shows "relay_ok r'"
proof -
  obtain sealed where s: "seal_text K (fr_nonce fr) (fr_signing_key fr) DELIVERY_SIGNING_KEY_AAD = Inr sealed"
    using assms(2) by (auto simp: insert_instance_credentials_def bind_result_Inr_iff)
  show ?thesis
  proof (cases "select_one (is_live inst) (r_instances r)")
    case None
    let ?i = "new_instance K now fr inst (strip name) sealed"
    have r': "r' = r\<lparr>r_instances := r_instances r @ [?i]\<rparr>"
      and i: "in_id ?i \<notin> in_id ` set (r_instances r)" "in_credential_hash ?i \<notin> in_credential_hash ` set (r_instances r)"
        "in_installation ?i \<in> il_id ` set (r_installations r)"
      using assms(2) None s
      by (auto simp: insert_instance_credentials_def guard_Inr new_instance_def list_ex_iff has_installation_def)
    have "one_live (r_instances r @ [?i])"
      using assms(1) None by (intro one_live_snoc) (simp_all add: relay_ok_defs new_instance_def select_one_None_iff)
    then show ?thesis
      unfolding r' by (intro ok_instances[OF assms(1)]) (use assms(1) i in \<open>auto simp: relay_ok_defs\<close>)
  next
    case (Some live)
    let ?f = "renew_instance K now fr (strip name) sealed"
    let ?rows = "update_where (is_live inst) ?f (r_instances r)"
    have live: "live \<in> set (r_instances r)" "is_live inst live" using Some by (auto dest: select_one_SomeD)
    have r': "r' = r\<lparr>r_instances := ?rows\<rparr>"
      and free: "\<forall>i \<in> set (r_instances r). in_credential_hash i = rk_hash K (fr_token fr) \<longrightarrow> is_live inst i"
      using assms(2) Some s by (auto simp: insert_instance_credentials_def list_ex_iff split: if_splits)
    have keys: "distinct (map in_id (r_instances r))" "distinct (map in_credential_hash (r_instances r))"
      and one: "one_live (r_instances r)" using assms(1) by (simp_all add: relay_ok_defs)
    have single: "in_id i = in_id live" if "i \<in> set (r_instances r)" "is_live inst i" for i
      using one live that unfolding one_live_def is_live_def by blast
    have "distinct (map in_credential_hash ?rows)"
      using keys single _ free
      by (rule distinct_update_key[where v = "rk_hash K (fr_token fr)"]) (simp_all add: renew_instance_def)
    moreover have "one_live ?rows"
      using one by (rule one_live_update) (simp add: instance_evolves_def is_live_def renew_instance_def)
    ultimately show ?thesis
      unfolding r' by (intro ok_instances[OF assms(1)])
        (use assms(1) in \<open>simp_all add: relay_ok_defs image_update_where map_update_where_same renew_instance_def\<close>)
  qed
qed

lemma redeem_ok:
  assumes "relay_ok r" "redeem_connection_code K now fr given name r = Inr (y, r')"
  shows "relay_ok r'"
proof -
  let ?hit = "\<lambda>c. ec_hash c = rk_hash K given \<and> ec_redeemed_at c = None \<and> now < ec_expires_at c"
  let ?r = "r\<lparr>r_codes := update_where ?hit (\<lambda>c. c\<lparr>ec_redeemed_at := Some now\<rparr>) (r_codes r)\<rparr>"
  have step: "relay_ok ?r"
    by (rule ok_codes[OF assms(1)])
       (use assms(1) in \<open>simp_all add: relay_ok_defs image_update_where map_update_where_same\<close>)
  show ?thesis
  proof (cases "select_one ?hit (r_codes r)")
    case None
    then show ?thesis using assms by (simp add: redeem_connection_code_def guard_Inr)
  next
    case (Some found)
    then obtain creds where
      "insert_instance_credentials K now fr (ec_installation found) name ?r = Inr (creds, r')"
      using assms(2) by (auto simp: redeem_connection_code_def guard_Inr bind_result_Inr_iff)
    then show ?thesis using insert_credentials_ok[OF step] by blast
  qed
qed

lemma authenticate_ok:
  assumes "relay_ok r" "authenticate_instance K now nonce token r = Inr (z, r')"
  shows "relay_ok r'"
proof -
  have same: "r\<lparr>r_instances := r_instances r\<rparr> = r" by simp
  have "relay_ok (r\<lparr>r_instances := maybe_reseal K now nonce i stored plain (r_instances r)\<rparr>)" for i stored plain
  proof (cases "needs_reseal K stored \<and> (\<exists>v. seal_text K nonce plain DELIVERY_SIGNING_KEY_AAD = Inr v)")
    case True
    then show ?thesis
      by (auto simp: maybe_reseal_def instance_evolves_def intro!: instances_update_ok assms(1))
  next
    case False
    then have "maybe_reseal K now nonce i stored plain (r_instances r) = r_instances r"
      by (auto simp: maybe_reseal_def split: sum.splits)
    then show ?thesis using assms(1) same by simp
  qed
  then show ?thesis using assms
    by (auto simp: authenticate_instance_def bind_result_Inr_iff split: option.splits)
qed

lemma delete_events_ok:
  assumes "relay_ok r"
  shows "relay_ok (delete_events gone r)"
  unfolding delete_events_def
proof (rule ok_events[OF assms])
  have d: "distinct (map we_delivery_id (r_events r))"
    and link: "rc_delivery_id ` set (r_receipts r) \<subseteq> we_delivery_id ` set (r_events r)"
    using assms by (simp_all add: relay_ok_defs)
  show "rc_delivery_id ` set (filter (\<lambda>c. \<not> list_ex (\<lambda>e. gone e \<and> we_delivery_id e = rc_delivery_id c) (r_events r)) (r_receipts r))
      \<subseteq> we_delivery_id ` set (filter (\<lambda>e. \<not> gone e) (r_events r))"
  proof
    fix x assume "x \<in> rc_delivery_id ` set (filter (\<lambda>c. \<not> list_ex (\<lambda>e. gone e \<and> we_delivery_id e = rc_delivery_id c) (r_events r)) (r_receipts r))"
    then obtain c where c: "c \<in> set (r_receipts r)" "x = rc_delivery_id c"
      "\<forall>e \<in> set (r_events r). \<not> (gone e \<and> we_delivery_id e = x)" by (auto simp: list_ex_iff)
    then obtain e where "e \<in> set (r_events r)" "x = we_delivery_id e" using link by blast
    then show "x \<in> we_delivery_id ` set (filter (\<lambda>e. \<not> gone e) (r_events r))" using c(3) by auto
  qed
qed (use assms in \<open>simp_all add: relay_ok_defs distinct_filter_key image_subset_iff\<close>)

lemma record_webhook_event_ok:
  assumes "relay_ok r" "record_webhook_event now delivery inst event payload digest r = (b, r')"
  shows "relay_ok r'"
proof -
  let ?r = "delete_events (\<lambda>e. we_received_at e < now - days EVENT_RETENTION_DAYS) r"
  note old = delete_events_ok[OF assms(1), of "\<lambda>e. we_received_at e < now - days EVENT_RETENTION_DAYS"]
  show ?thesis
  proof (cases b)
    case False
    then have "r' = ?r" using assms(2) by (auto simp: record_webhook_event_def Let_def split: if_splits)
    then show ?thesis using old by simp
  next
    case True
    let ?e = "\<lparr>we_delivery_id = delivery, we_installation = inst, we_name = event, we_payload = payload,
        we_payload_sha256 = digest, we_received_at = now\<rparr>"
    have r': "r' = ?r\<lparr>r_events := r_events ?r @ [?e], r_receipts := r_receipts ?r\<rparr>"
      and e: "we_delivery_id ?e \<notin> we_delivery_id ` set (r_events ?r)" "we_installation ?e \<in> il_id ` set (r_installations ?r)"
      using assms(2) True by (auto simp: record_webhook_event_def Let_def list_ex_iff split: if_splits)
    show ?thesis
      unfolding r' by (rule ok_events[OF old]) (use old e in \<open>simp_all add: relay_ok_defs subset_insertI2\<close>)
  qed
qed

lemma claim_receipt_ok:
  fixes now i d rows
  defines "rows' \<equiv> claim_receipt now i d rows"
  assumes "distinct (map (\<lambda>c. (rc_delivery_id c, rc_instance_id c)) rows)" "\<forall>c \<in> set rows. rc_acknowledged_at c = None"
    "rc_delivery_id ` set rows \<subseteq> D" "rc_instance_id ` set rows \<subseteq> I" "d \<in> D" "i \<in> I"
  shows "distinct (map (\<lambda>c. (rc_delivery_id c, rc_instance_id c)) rows')" "\<forall>c \<in> set rows'. rc_acknowledged_at c = None"
    "rc_delivery_id ` set rows' \<subseteq> D" "rc_instance_id ` set rows' \<subseteq> I"
proof -
  show "distinct (map (\<lambda>c. (rc_delivery_id c, rc_instance_id c)) rows')"
    using assms(2) by (auto simp: rows'_def claim_receipt_def Let_def list_ex_iff map_update_where_same)
  show "\<forall>c \<in> set rows'. rc_acknowledged_at c = None"
    using assms(3) by (auto simp: rows'_def claim_receipt_def Let_def set_update_where)
  show "rc_delivery_id ` set rows' \<subseteq> D" "rc_instance_id ` set rows' \<subseteq> I"
    using assms(4-) by (simp_all add: rows'_def claim_receipt_def Let_def image_update_where)
qed

lemma claim_receipts_ok:
  fixes now i es rows
  assumes "distinct (map (\<lambda>c. (rc_delivery_id c, rc_instance_id c)) rows)" "\<forall>c \<in> set rows. rc_acknowledged_at c = None"
    "rc_delivery_id ` set rows \<subseteq> D" "rc_instance_id ` set rows \<subseteq> I" "we_delivery_id ` set es \<subseteq> D" "es = [] \<or> i \<in> I"
  shows "let rows' = fold (\<lambda>e. claim_receipt now i (we_delivery_id e)) es rows in
    distinct (map (\<lambda>c. (rc_delivery_id c, rc_instance_id c)) rows') \<and>
    (\<forall>c \<in> set rows'. rc_acknowledged_at c = None) \<and> rc_delivery_id ` set rows' \<subseteq> D \<and> rc_instance_id ` set rows' \<subseteq> I"
  using assms
proof (induction es arbitrary: rows)
  case Nil
  then show ?case by simp
next
  case (Cons e es)
  have e: "we_delivery_id e \<in> D" "i \<in> I" "we_delivery_id ` set es \<subseteq> D" using Cons.prems(5,6) by auto
  note here = claim_receipt_ok[OF Cons.prems(1-4) e(1,2), of now]
  show ?case using Cons.IH[OF here e(3)] e(2) by simp
qed

lemma available_events_subset: "set (available_events now locked limit inst r) \<subseteq> set (r_events r)"
  by (auto simp: available_events_def dest!: in_set_takeD)

lemma pull_events_ok:
  assumes "relay_ok r" "pull_events K now locked ri limit r = Inr (es, r')"
  shows "relay_ok r'"
proof -
  let ?es = "available_events now locked (nat limit) ri r"
  let ?rows = "fold (\<lambda>e. claim_receipt now (ri_id ri) (we_delivery_id e)) ?es (r_receipts r)"
  have r': "r' = r\<lparr>r_events := r_events r, r_receipts := ?rows\<rparr>"
    and "?es = [] \<or> list_ex (\<lambda>i. in_id i = ri_id ri) (r_instances r)"
    using assms(2) by (auto simp: pull_events_def Let_def guard_Inr)
  then have i: "?es = [] \<or> ri_id ri \<in> in_id ` set (r_instances r)" by (force simp: list_ex_iff)
  have "we_delivery_id ` set ?es \<subseteq> we_delivery_id ` set (r_events r)" using available_events_subset by blast
  then have "let rows' = ?rows in
    distinct (map (\<lambda>c. (rc_delivery_id c, rc_instance_id c)) rows') \<and> (\<forall>c \<in> set rows'. rc_acknowledged_at c = None) \<and>
    rc_delivery_id ` set rows' \<subseteq> we_delivery_id ` set (r_events r) \<and> rc_instance_id ` set rows' \<subseteq> in_id ` set (r_instances r)"
    using assms(1) i by (intro claim_receipts_ok) (simp_all add: relay_ok_defs)
  then show ?thesis
    unfolding r' Let_def by (intro ok_events[OF assms(1)]) (use assms(1) in \<open>simp_all add: relay_ok_defs\<close>)
qed

text \<open>The receipts an acknowledgement marks go with their event.\<close>

lemma acknowledge_event_eq:
  assumes "relay_ok r"
  shows "acknowledge_event now ri delivery r =
    (if list_ex (\<lambda>c. rc_instance_id c = ri_id ri \<and> rc_delivery_id c = delivery) (r_receipts r)
     then (True, delete_events (\<lambda>e. we_delivery_id e = delivery) r) else (False, r))"
proof -
  let ?hit = "\<lambda>c. rc_instance_id c = ri_id ri \<and> rc_delivery_id c = delivery \<and> rc_acknowledged_at c = None"
  let ?f = "\<lambda>c. c\<lparr>rc_acknowledged_at := Some now, rc_leased_until := None\<rparr>"
  have acks: "\<forall>c \<in> set (r_receipts r). rc_acknowledged_at c = None"
    and link: "rc_delivery_id ` set (r_receipts r) \<subseteq> we_delivery_id ` set (r_events r)"
    using assms by (simp_all add: relay_ok_defs)
  show ?thesis
  proof (cases "list_ex (\<lambda>c. rc_instance_id c = ri_id ri \<and> rc_delivery_id c = delivery) (r_receipts r)")
    case True
    then obtain c where c: "c \<in> set (r_receipts r)" "rc_instance_id c = ri_id ri" "rc_delivery_id c = delivery"
      by (auto simp: list_ex_iff)
    then have hit: "list_ex ?hit (r_receipts r)" using acks by (auto simp: list_ex_iff)
    obtain e where "e \<in> set (r_events r)" "we_delivery_id e = delivery" using link c by force
    then have ev: "list_ex (\<lambda>e. we_delivery_id e = delivery) (r_events r)" by (auto simp: list_ex_iff)
    let ?gone = "\<lambda>c. list_ex (\<lambda>e. we_delivery_id e = delivery \<and> we_delivery_id e = rc_delivery_id c) (r_events r)"
    have gone: "?gone c \<longleftrightarrow> rc_delivery_id c = delivery" for c using ev by (auto simp: list_ex_iff)
    have "filter (\<lambda>c. rc_delivery_id c \<noteq> delivery) (update_where ?hit ?f rows) =
        filter (\<lambda>c. rc_delivery_id c \<noteq> delivery) rows" for rows :: "receipt list"
      by (induction rows) (auto simp: update_where_def)
    then show ?thesis using True hit ev by (simp add: acknowledge_event_def Let_def delete_events_def gone)
  next
    case False
    then have none: "\<not> list_ex ?hit (r_receipts r)" by (auto simp: list_ex_iff)
    then have "\<forall>c \<in> set (r_receipts r). \<not> ?hit c" by (simp add: list_ex_iff)
    then have "update_where ?hit ?f (r_receipts r) = r_receipts r" by (rule update_where_none)
    moreover have nothing: "\<not> list_ex (\<lambda>x. False) xs" for xs :: "webhook_event list" by (simp add: list_ex_iff)
    ultimately show ?thesis using False none by (simp add: acknowledge_event_def Let_def delete_events_def nothing)
  qed
qed

lemma acknowledge_ok:
  "relay_ok r \<Longrightarrow> relay_ok (snd (acknowledge_event now ri delivery r))"
  by (simp add: acknowledge_event_eq delete_events_ok)

lemma revoke_where_ok:
  "relay_ok r \<Longrightarrow> relay_ok (r\<lparr>r_instances := revoke_where now p (r_instances r)\<rparr>)"
  unfolding revoke_where_def by (rule instances_update_ok) (simp_all add: instance_evolves_def)

lemma set_installation_active_ok:
  assumes "relay_ok r"
  shows "relay_ok (snd (set_installation_active now inst active revoke r))"
proof -
  let ?rows = "update_where (\<lambda>i. il_id i = inst) (\<lambda>i. i\<lparr>il_active := active\<rparr>) (r_installations r)"
  have "\<forall>i \<in> set ?rows. 0 < il_id i \<and> 0 < il_user_id i"
    using assms by (auto simp: set_update_where relay_ok_defs)
  then have "relay_ok (r\<lparr>r_installations := ?rows\<rparr>)"
    using assms by (intro ok_installations[OF assms]) (simp_all add: relay_ok_defs map_update_where_same image_update_where)
  from revoke_where_ok[OF this] this show ?thesis by (simp add: set_installation_active_def Let_def)
qed

lemma update_session_ok:
  assumes "relay_ok r" "\<And>s. cn_id (f s) = cn_id s \<and> cn_poll_secret_hash (f s) = cn_poll_secret_hash s"
    "\<And>s. p s \<Longrightarrow> session_ok s \<Longrightarrow> session_ok (f s)"
  shows "relay_ok (snd (update_session p f r))"
  unfolding update_session_def snd_conv
  by (rule ok_sessions[OF assms(1)])
     (use assms in \<open>simp_all add: relay_ok_defs map_update_where_same ball_update_where\<close>)

lemma create_connect_session_ok:
  assumes "relay_ok r" "create_connect_session K now sid secret name r = Inr (c, r')"
  shows "relay_ok r'"
proof -
  let ?s = "new_session K now sid secret (strip name)"
  have r': "r' = r\<lparr>r_sessions := r_sessions r @ [?s]\<rparr>"
    and free: "cn_id ?s \<notin> cn_id ` set (r_sessions r)" "cn_poll_secret_hash ?s \<notin> cn_poll_secret_hash ` set (r_sessions r)"
    using assms(2) by (auto simp: create_connect_session_def guard_Inr list_ex_iff new_session_def)
  show ?thesis
    unfolding r' by (rule ok_sessions[OF assms(1)])
      (use assms(1) free in \<open>simp_all add: relay_ok_defs session_ok_def new_session_def\<close>)
qed

lemma complete_ok:
  assumes "relay_ok r" "complete_connect_session K now fr nonces sid inst user login allowed r = Inr (y, r')"
  shows "relay_ok r'"
  using assms(2)
proof (cases rule: complete_steps)
  case same
  then show ?thesis using assms(1) by simp
next
  case (bound session r1 r2 creds ts ks)
  have "relay_ok r2" using insert_credentials_ok record_verified_ok assms(1) bound(4,5) by blast
  then show ?thesis
    unfolding bound(6) by (rule update_session_ok) (simp_all add: ready_session_def session_ok_def)
qed

lemma claim_ok:
  assumes "relay_ok r" "claim_connect_session K now sid secret r = Inr (res, r')"
  shows "relay_ok r'"
proof -
  have "relay_ok (snd (update_session (\<lambda>s. cn_id s = sid \<and> cn_status s = Pending) expire_session r))"
    by (rule update_session_ok[OF assms(1)]) (auto simp: expire_session_def session_ok_def)
  moreover have "relay_ok (snd (update_session (\<lambda>s. cn_id s = sid \<and> cn_status s = Ready) consume_session r))"
    by (rule update_session_ok[OF assms(1)]) (auto simp: consume_session_def session_ok_def)
  ultimately show ?thesis using assms
    by (auto simp: claim_connect_session_def bind_result_Inr_iff split_def Let_def
          split: option.splits session_status.splits if_splits)
qed

lemma relay_step_ok: "relay_step K r r' \<Longrightarrow> relay_ok r \<Longrightarrow> relay_ok r'"
proof (induction rule: relay_step.induct)
  case (s_consume_state now st r x r')
  then show ?case using consume_oauth_state_ok[of r K now st] by simp
next
  case (s_acknowledge now ri delivery r b r')
  then show ?case using acknowledge_ok[of r now ri delivery] by simp
next
  case (s_active now inst active revoke r b r')
  then show ?case using set_installation_active_ok[of r now inst active revoke] by simp
next
  case (s_revoke now token r b r')
  then show ?case using revoke_where_ok[of r] by (auto simp: revoke_instance_def Let_def)
next
  case (s_candidates now sid cands user login r b r')
  let ?p = "\<lambda>s. cn_id s = sid \<and> cn_status s = Pending \<and> now < cn_expires_at s"
  let ?f = "\<lambda>s. s\<lparr>cn_candidates := Some cands, cn_user_id := Some user, cn_login := Some login\<rparr>"
  have "relay_ok (snd (update_session ?p ?f r))"
    by (rule update_session_ok[OF s_candidates(2)]) (simp_all add: session_ok_def)
  then show ?case using s_candidates(1) by (simp add: set_connect_session_candidates_def)
next
  case (s_fail sid message r r')
  show ?case
    unfolding s_fail(1)[symmetric] fail_connect_session_def
    by (rule update_session_ok[OF s_fail(2)]) (auto simp: session_ok_def)
qed (blast intro: create_oauth_state_ok record_verified_ok create_connection_code_ok redeem_ok authenticate_ok
       record_webhook_event_ok pull_events_ok create_connect_session_ok complete_ok claim_ok)+

text \<open>C27: Whatever sequence of relay operations starts from an empty store, the store stays consistent:
keys are unique, an installation has at most one live instance, codes, instances, events and receipts
refer to rows that exist, no receipt is kept after its acknowledgement, and a connect session holds
sealed credentials exactly while it is ready to be claimed.\<close>

theorem relay_stays_consistent: "relay_runs K empty_relay r \<Longrightarrow> relay_ok r"
  unfolding relay_runs_def
  by (induction rule: rtranclp_induct) (auto intro: relay_step_ok empty_relay_ok)

end
