(* ===== verification/Relay_App.thy ===== *)
theory Relay_App
  imports Relay_Inv Access
begin

text \<open>
  The routes of the relay that change its store (\<open>packages/relay/src/diffuse_relay/app.py\<close>).  A handler is a
  sequence of the store's transactions; requests are taken one after the other.  \<open>exchange\<close> is what GitHub
  answers to the code of an authorization: \<open>None\<close> for an error, else the user, the login and the
  installations the user controls.  Pages are their data, not their HTML; \<open>Raised\<close> is an exception the
  handler does not turn into a response.
\<close>

datatype response =
    Refused nat
  | Raised
  | Redirect string
  | Page_connected int string
  | Page_install_needed
  | Page_pick "candidate_installation list"
  | Verified int string
  | Accepted_status string
  | Session_created connect_session_created
  | Session_pending int
  | Session_ready credentials
  | Registered credentials

type_synonym identity = "int \<times> string \<times> candidate_installation list"

section \<open>Helpers\<close>

definition is_hex :: "char \<Rightarrow> bool" where
  "is_hex c \<longleftrightarrow> is_hex_lower (lower_char c)"

text \<open>\<open>_SESSION_ID_RE.fullmatch\<close>\<close>

definition is_session_id :: "string \<Rightarrow> bool" where
  "is_session_id s \<longleftrightarrow>
     map length (split_on (CHR ''-'') s) = [8, 4, 4, 4, 12] \<and>
     list_all (list_all is_hex) (split_on (CHR ''-'') s)"

definition cookie_session_id :: "string \<Rightarrow> string option" where
  "cookie_session_id cookie =
     (let value = strip cookie in
      if value = [] \<or> \<not> is_session_id value then None else Some value)"

definition relay_bearer_token :: "string \<Rightarrow> string option" where
  "relay_bearer_token authorization =
     (if \<not> startswith authorization ''Bearer '' then None
      else (let token = strip (drop 7 authorization) in if token = [] then None else Some token))"

definition finish_connect_session ::
    "relay_keys \<Rightarrow> time \<Rightarrow> fresh_instance \<Rightarrow> string \<times> string \<Rightarrow> string \<Rightarrow> int \<Rightarrow> int \<Rightarrow> string \<Rightarrow> int set option \<Rightarrow>
     relay \<Rightarrow> response \<times> relay" where
  "finish_connect_session K now fresh nonces session_id installation_id user_id login allowed r =
     (case get_pending_connect_session now session_id r of
        None \<Rightarrow> (Refused 400, r)
      | Some session \<Rightarrow>
          (case complete_connect_session K now fresh nonces session_id installation_id user_id login allowed r of
             Inl _ \<Rightarrow> (Raised, r)
           | Inr (None, r') \<Rightarrow>
               (Refused 400, fail_connect_session session_id ''Could not bind the selected installation'' r')
           | Inr (Some creds, r') \<Rightarrow>
               (Page_connected (cr_installation creds) (cn_display_name session), r')))"

section \<open>Connect sessions\<close>

definition connect_sessions_create ::
    "relay_keys \<Rightarrow> time \<Rightarrow> string \<Rightarrow> string \<Rightarrow> string \<Rightarrow> relay \<Rightarrow> response \<times> relay" where
  "connect_sessions_create K now fresh_id fresh_secret display_name r =
     (if display_name = [] \<or> 200 < length display_name then (Refused 422, r)
      else
        (case create_connect_session K now fresh_id fresh_secret display_name r of
           Inl (Bad_argument _) \<Rightarrow> (Refused 400, r)
         | Inl _ \<Rightarrow> (Raised, r)
         | Inr (created, r') \<Rightarrow> (Session_created created, r')))"

definition connect_sessions_poll ::
    "relay_keys \<Rightarrow> time \<Rightarrow> string \<Rightarrow> string \<Rightarrow> relay \<Rightarrow> response \<times> relay" where
  "connect_sessions_poll K now session_id authorization r =
     (if \<not> is_session_id session_id then (Refused 404, r)
      else
        (case relay_bearer_token authorization of
           None \<Rightarrow> (Refused 401, r)
         | Some poll_secret \<Rightarrow>
             (case claim_connect_session K now session_id poll_secret r of
                Inl _ \<Rightarrow> (Raised, r)
              | Inr (claim, r') \<Rightarrow>
                  ((case claim of
                      Claim_not_found \<Rightarrow> Refused 404
                    | Claim_pending left \<Rightarrow> Session_pending left
                    | Claim_ready creds \<Rightarrow> Session_ready creds
                    | Claim_consumed \<Rightarrow> Refused 410
                    | Claim_expired \<Rightarrow> Refused 410
                    | Claim_failed _ \<Rightarrow> Refused 400), r'))))"

definition github_connect_start ::
    "relay_keys \<Rightarrow> time \<Rightarrow> string \<Rightarrow> string \<Rightarrow> relay \<Rightarrow> response \<times> relay" where
  "github_connect_start K now fresh_state session_id r =
     (if \<not> is_session_id session_id then (Refused 404, r)
      else
        (case get_pending_connect_session now session_id r of
           None \<Rightarrow> (Refused 400, r)
         | Some session \<Rightarrow>
             if cn_status session = Ready
             then (Page_connected (case cn_installation session of None \<Rightarrow> 0 | Some i \<Rightarrow> i) (cn_display_name session), r)
             else
               (case create_oauth_state K now fresh_state None (Some session_id) r of
                  Inl _ \<Rightarrow> (Raised, r)
                | Inr (state, r') \<Rightarrow> (Redirect state, r'))))"

definition github_connect_select ::
    "relay_keys \<Rightarrow> time \<Rightarrow> fresh_instance \<Rightarrow> string \<times> string \<Rightarrow> string \<Rightarrow> string \<Rightarrow> int \<Rightarrow> relay \<Rightarrow> response \<times> relay" where
  "github_connect_select K now fresh nonces cookie session_id installation_id r =
     (if \<not> is_session_id session_id then (Refused 404, r)
      else if cookie_session_id cookie \<noteq> Some session_id then (Refused 403, r)
      else
        (case get_pending_connect_session now session_id r of
           None \<Rightarrow> (Refused 400, r)
         | Some session \<Rightarrow>
             if cn_status session \<noteq> Pending then (Refused 400, r)
             else
               (case (cn_user_id session, cn_login session) of
                  (Some user_id, Some login) \<Rightarrow>
                    if login = [] then (Refused 400, r)
                    else finish_connect_session K now fresh nonces session_id installation_id user_id login
                           (Some (set (map ci_id (case cn_candidates session of None \<Rightarrow> [] | Some cs \<Rightarrow> cs)))) r
                | _ \<Rightarrow> (Refused 400, r))))"

definition github_setup :: "relay_keys \<Rightarrow> time \<Rightarrow> string \<Rightarrow> string \<Rightarrow> int \<Rightarrow> relay \<Rightarrow> response \<times> relay" where
  "github_setup K now fresh_state cookie installation_id r =
     (if installation_id \<le> 0 then (Refused 400, r)
      else
        (let session_id = (case cookie_session_id cookie of
                             None \<Rightarrow> None
                           | Some s \<Rightarrow> if get_pending_connect_session now s r \<noteq> None then Some s else None) in
         case create_oauth_state K now fresh_state (Some installation_id) session_id r of
           Inl _ \<Rightarrow> (Raised, r)
         | Inr (state, r') \<Rightarrow> (Redirect state, r')))"

definition callback_with_session ::
    "relay_keys \<Rightarrow> time \<Rightarrow> fresh_instance \<Rightarrow> string \<times> string \<Rightarrow> string \<Rightarrow> int option \<Rightarrow> identity \<Rightarrow> relay \<Rightarrow>
     response \<times> relay" where
  "callback_with_session K now fresh nonces session_id chosen who r =
     (case who of
        (user_id, login, installations) \<Rightarrow>
          (let installation_ids = set (map ci_id installations) in
           case get_pending_connect_session now session_id r of
             None \<Rightarrow> (Refused 400, r)
           | Some session \<Rightarrow>
               (case chosen of
                  Some installation_id \<Rightarrow>
                    if installation_id \<notin> installation_ids
                    then (Refused 403,
                          fail_connect_session session_id ''The authorized user does not control this installation'' r)
                    else finish_connect_session K now fresh nonces session_id installation_id user_id login
                           (Some installation_ids) r
                | None \<Rightarrow>
                    (case installations of
                       [] \<Rightarrow> (Page_install_needed, r)
                     | [only] \<Rightarrow>
                         finish_connect_session K now fresh nonces session_id (ci_id only) user_id login
                           (Some installation_ids) r
                     | _ \<Rightarrow>
                         (Page_pick installations,
                          snd (set_connect_session_candidates now session_id installations user_id login r))))))"

definition callback_without_session ::
    "relay_keys \<Rightarrow> time \<Rightarrow> string \<Rightarrow> int option \<Rightarrow> identity \<Rightarrow> relay \<Rightarrow> response \<times> relay" where
  "callback_without_session K now fresh_code chosen who r =
     (case who of
        (user_id, login, installations) \<Rightarrow>
          (case chosen of
             None \<Rightarrow> (Refused 400, r)
           | Some installation_id \<Rightarrow>
               if installation_id \<notin> set (map ci_id installations) then (Refused 403, r)
               else
                 (case record_verified_installation installation_id user_id login r of
                    Inl _ \<Rightarrow> (Raised, r)
                  | Inr r' \<Rightarrow>
                      (case create_connection_code K now fresh_code installation_id r' of
                         Inl _ \<Rightarrow> (Raised, r')
                       | Inr (given, r'') \<Rightarrow> (Verified installation_id given, r'')))))"

definition github_callback ::
    "relay_keys \<Rightarrow> time \<Rightarrow> fresh_instance \<Rightarrow> string \<times> string \<Rightarrow> string \<Rightarrow> (string \<Rightarrow> identity option) \<Rightarrow> string \<Rightarrow>
     string \<Rightarrow> relay \<Rightarrow> response \<times> relay" where
  "github_callback K now fresh nonces fresh_code exchange given state r =
     (case consume_oauth_state K now state r of
        (None, r') \<Rightarrow> (Refused 400, r')
      | (Some (chosen, session), r') \<Rightarrow>
          (case exchange given of
             None \<Rightarrow> (Refused 502, r')
           | Some who \<Rightarrow>
               (case session of
                  Some session_id \<Rightarrow> callback_with_session K now fresh nonces session_id chosen who r'
                | None \<Rightarrow> callback_without_session K now fresh_code chosen who r')))"

section \<open>Instances and webhooks\<close>

definition register_instance ::
    "relay_keys \<Rightarrow> time \<Rightarrow> fresh_instance \<Rightarrow> string \<Rightarrow> string \<Rightarrow> relay \<Rightarrow> response \<times> relay" where
  "register_instance K now fresh given display_name r =
     (if length given < 32 \<or> 512 < length given \<or> display_name = [] \<or> 200 < length display_name then (Refused 422, r)
      else
        (case redeem_connection_code K now fresh given display_name r of
           Inl _ \<Rightarrow> (Raised, r)
         | Inr (None, r') \<Rightarrow> (Refused 400, r')
         | Inr (Some creds, r') \<Rightarrow> (Registered creds, r')))"

definition instances_disconnect :: "relay_keys \<Rightarrow> time \<Rightarrow> string \<Rightarrow> relay \<Rightarrow> response \<times> relay" where
  "instances_disconnect K now authorization r =
     (case relay_bearer_token authorization of
        None \<Rightarrow> (Refused 401, r)
      | Some token \<Rightarrow>
          (case revoke_instance K now token r of
             (found, r') \<Rightarrow> (if found then Accepted_status ''disconnected'' else Refused 401, r')))"

definition MAX_WEBHOOK_BYTES :: nat where "MAX_WEBHOOK_BYTES = 1000000"

text \<open>\<open>hmac.compare_digest\<close> of two texts raises on a text outside ASCII.\<close>

definition verify_github_signature :: "(string \<Rightarrow> string \<Rightarrow> string) \<Rightarrow> string \<Rightarrow> string \<Rightarrow> string \<Rightarrow> response option" where
  "verify_github_signature hmac secret body signature =
     (if signature = [] then Some (Refused 401)
      else if \<not> is_ascii signature then Some Raised
      else if ''sha256='' @ hmac secret body \<noteq> signature then Some (Refused 401)
      else None)"

definition json_member :: "string \<Rightarrow> json \<Rightarrow> json option" where
  "json_member key value = (case value of JObj kvs \<Rightarrow> map_of kvs key | _ \<Rightarrow> None)"

text \<open>
  \<open>int(payload["installation"]["id"])\<close>; \<open>KeyError\<close>, \<open>TypeError\<close> and \<open>ValueError\<close> are caught, the
  \<open>OverflowError\<close> of an infinite float is not.
\<close>

definition payload_installation :: "(string \<Rightarrow> py_error + int) \<Rightarrow> json \<Rightarrow> py_error + int" where
  "payload_installation fint payload =
     (case Option.bind (json_member ''installation'' payload) (json_member ''id'') of
        None \<Rightarrow> Inl Type_error
      | Some value \<Rightarrow> int_of fint value)"

definition apply_installation_lifecycle ::
    "(string \<Rightarrow> py_error + int) \<Rightarrow> time \<Rightarrow> string \<Rightarrow> json \<Rightarrow> relay \<Rightarrow> string option \<times> relay" where
  "apply_installation_lifecycle fint now event_name payload r =
     (if event_name \<noteq> ''installation'' then (None, r)
      else
        (case payload_installation fint payload of
           Inl _ \<Rightarrow> (None, r)
         | Inr installation_id \<Rightarrow>
             (let action = json_member ''action'' payload in
              if action = Some (JStr ''deleted'')
              then (Some ''installation_revoked'', snd (set_installation_active now installation_id False True r))
              else if action = Some (JStr ''suspend'')
              then (Some ''installation_suspended'', snd (set_installation_active now installation_id False False r))
              else if action = Some (JStr ''unsuspend'')
              then (Some ''installation_resumed'', snd (set_installation_active now installation_id True False r))
              else (None, r))))"

definition github_webhook ::
    "(string \<Rightarrow> string \<Rightarrow> string) \<Rightarrow> (string \<Rightarrow> string) \<Rightarrow> (string \<Rightarrow> string) \<Rightarrow> (string \<Rightarrow> py_error + int) \<Rightarrow> string \<Rightarrow>
     time \<Rightarrow> string \<Rightarrow> string \<Rightarrow> string \<Rightarrow> string \<Rightarrow> relay \<Rightarrow> response \<times> relay" where
  "github_webhook hmac sha256 ft fint secret now body event_name delivery_id signature r =
     (if MAX_WEBHOOK_BYTES < length body then (Refused 413, r)
      else
        (case verify_github_signature hmac secret body signature of
           Some refused \<Rightarrow> (refused, r)
         | None \<Rightarrow>
             (case json_loads_bytes ft body of
                None \<Rightarrow> (Refused 400, r)
              | Some payload \<Rightarrow>
                  (case payload_installation fint payload of
                     Inl e \<Rightarrow> (if e = Overflow_error then Raised else Refused 400, r)
                   | Inr installation_id \<Rightarrow>
                       if delivery_id = [] \<or> event_name = [] then (Refused 400, r)
                       else
                         (case apply_installation_lifecycle fint now event_name payload r of
                            (Some status, r') \<Rightarrow> (Accepted_status status, r')
                          | (None, r') \<Rightarrow>
                              (case record_webhook_event now delivery_id installation_id event_name payload
                                      (sha256 body) r' of
                                 (accepted, r'') \<Rightarrow>
                                   (Accepted_status (if accepted then ''accepted'' else ''deduplicated''), r'')))))))"

text \<open>The routes of an enrolled instance; the limit of a pull defaults to 20.\<close>

definition instance_from_authorization ::
    "relay_keys \<Rightarrow> time \<Rightarrow> string \<Rightarrow> string \<Rightarrow> relay \<Rightarrow> (response + relay_instance) \<times> relay" where
  "instance_from_authorization K now nonce authorization r =
     (if \<not> startswith authorization ''Bearer '' then (Inl (Refused 401), r)
      else
        (case authenticate_instance K now nonce (drop 7 authorization) r of
           Inl _ \<Rightarrow> (Inl Raised, r)
         | Inr (None, r') \<Rightarrow> (Inl (Refused 401), r')
         | Inr (Some inst, r') \<Rightarrow> (Inr inst, r')))"

definition events_pull ::
    "relay_keys \<Rightarrow> time \<Rightarrow> string \<Rightarrow> string set \<Rightarrow> string \<Rightarrow> int \<Rightarrow> relay \<Rightarrow> (response + delivery_event list) \<times> relay" where
  "events_pull K now nonce locked authorization limit r =
     (case instance_from_authorization K now nonce authorization r of
        (Inl refused, r') \<Rightarrow> (Inl refused, r')
      | (Inr inst, r') \<Rightarrow>
          (case pull_events K now locked inst limit r' of
             Inl _ \<Rightarrow> (Inl Raised, r')
           | Inr (events, r'') \<Rightarrow> (Inr events, r'')))"

definition events_acknowledge ::
    "relay_keys \<Rightarrow> time \<Rightarrow> string \<Rightarrow> string \<Rightarrow> string \<Rightarrow> relay \<Rightarrow> response \<times> relay" where
  "events_acknowledge K now nonce authorization delivery_id r =
     (case instance_from_authorization K now nonce authorization r of
        (Inl refused, r') \<Rightarrow> (refused, r')
      | (Inr inst, r') \<Rightarrow>
          (case acknowledge_event now inst delivery_id r' of
             (found, r'') \<Rightarrow> (if found then Accepted_status ''acknowledged'' else Refused 404, r'')))"

text \<open>The ready flag of \<open>/v1/instances/me\<close>, and the gate of \<open>/v1/installation-token\<close>: the installation a token
may be minted for.\<close>

definition instances_me :: "relay_keys \<Rightarrow> string \<Rightarrow> relay \<Rightarrow> response + bool \<times> instance_status_row" where
  "instances_me K authorization r =
     (case relay_bearer_token authorization of
        None \<Rightarrow> Inl (Refused 401)
      | Some token \<Rightarrow>
          (case instance_status K token r of
             None \<Rightarrow> Inl (Refused 401)
           | Some row \<Rightarrow> Inr (st_installation_active row, row)))"

definition installation_token_for :: "relay_keys \<Rightarrow> string \<Rightarrow> relay \<Rightarrow> response + int" where
  "installation_token_for K authorization r =
     (case relay_bearer_token authorization of
        None \<Rightarrow> Inl (Refused 401)
      | Some token \<Rightarrow>
          (case instance_status K token r of
             None \<Rightarrow> Inl (Refused 401)
           | Some row \<Rightarrow>
               if \<not> st_installation_active row then Inl (Refused 403) else Inr (st_installation row)))"

end
