(* ===== verification/Relay_Safety.thy ===== *)
theory Relay_Safety
  imports Relay_Inv
begin

text \<open>
  What the relay promises: secrets are handed out once, an instance pulls only the events of its own
  installation and each at most once per lease, and what it pulls verifies at the poller under the key it
  was given at enrollment.
\<close>

section \<open>One-time secrets\<close>

lemma relay_runs_ok: "relay_runs K r r' \<Longrightarrow> relay_ok r \<Longrightarrow> relay_ok r'"
  unfolding relay_runs_def
  by (induction rule: rtranclp_induct) (auto intro: relay_step_ok)

lemma keyed_unique: "distinct (map k rows) \<Longrightarrow> a \<in> set rows \<Longrightarrow> b \<in> set rows \<Longrightarrow> k a = k b \<Longrightarrow> a = b"
  by (auto simp: distinct_map dest: inj_onD)

lemma claim_ready_consumes:
  assumes "claim_connect_session K now sid secret r = Inr (Claim_ready creds, r1)"
  obtains s where "s \<in> set (r_sessions r1)" "cn_id s = sid" "cn_status s = Consumed"
proof -
  let ?p = "\<lambda>s. cn_id s = sid \<and> cn_poll_secret_hash s = rk_hash K secret"
  obtain s where s: "select_one ?p (r_sessions r) = Some s" "cn_status s = Ready"
    and r1: "r1 = snd (update_session (\<lambda>s. cn_id s = sid \<and> cn_status s = Ready) consume_session r)"
    using assms
    by (auto simp: claim_connect_session_def bind_result_Inr_iff split_def Let_def
          split: option.splits session_status.splits if_splits)
  have mem: "s \<in> set (r_sessions r)" "cn_id s = sid" using select_one_SomeD[OF s(1)] by simp_all
  have "consume_session s \<in> set (r_sessions r1)"
    using in_update_whereI[OF mem(1), of "\<lambda>s. cn_id s = sid \<and> cn_status s = Ready" consume_session] s(2) mem(2)
    by (simp add: r1 update_session_def)
  then show ?thesis using that[of "consume_session s"] mem(2) by (simp add: consume_session_def)
qed

lemma consumed_session_stays:
  assumes "relay_runs K r1 r2" "s \<in> set (r_sessions r1)" "cn_status s = Consumed"
  shows "s \<in> set (r_sessions r2)"
proof -
  have "sessions.table_evolves (r_sessions r1) (r_sessions r2)"
    using relay_runs_evolve[OF assms(1)] by (simp add: relay_evolves_def)
  then obtain s' where "s' \<in> set (r_sessions r2)" "session_evolves s s'"
    using sessions.table_member assms(2) by blast
  then show ?thesis using assms(3) by (simp add: session_evolves_def)
qed

lemma claim_of_consumed:
  assumes "relay_ok r" "s \<in> set (r_sessions r)" "cn_id s = sid" "cn_status s = Consumed"
    "claim_connect_session K now sid secret r = Inr (res, r')"
  shows "res = Claim_not_found \<or> res = Claim_consumed"
proof (cases "select_one (\<lambda>s. cn_id s = sid \<and> cn_poll_secret_hash s = rk_hash K secret) (r_sessions r)")
  case None
  then show ?thesis using assms(5) by (simp add: claim_connect_session_def)
next
  case (Some t)
  have "t \<in> set (r_sessions r) \<and> cn_id t = sid" using select_one_SomeD[OF Some] by simp
  moreover have "distinct (map cn_id (r_sessions r))" using assms(1) by (simp add: relay_ok_defs)
  ultimately have "t = s" using keyed_unique[of cn_id "r_sessions r" t s] assms(2,3) by simp
  then show ?thesis using assms(4,5) Some by (simp add: claim_connect_session_def)
qed

lemma redeemed_code_stays:
  assumes "relay_runs K r1 r2" "c \<in> set (r_codes r1)" "ec_redeemed_at c \<noteq> None"
  shows "c \<in> set (r_codes r2)"
proof -
  have "codes.table_evolves (r_codes r1) (r_codes r2)"
    using relay_runs_evolve[OF assms(1)] by (simp add: relay_evolves_def)
  then obtain c' where "c' \<in> set (r_codes r2)" "code_evolves c c'" using codes.table_member assms(2) by blast
  then show ?thesis using assms(3) by (auto simp: code_evolves_def)
qed

lemma redeem_marks:
  assumes "redeem_connection_code K now fr given name r = Inr (Some creds, r1)"
  obtains c inst where "c \<in> set (r_codes r1)" "ec_hash c = rk_hash K given" "ec_redeemed_at c = Some now"
    "insert_instance_credentials K now fr inst name
       (r\<lparr>r_codes := update_where (\<lambda>c. ec_hash c = rk_hash K given \<and> ec_redeemed_at c = None \<and> now < ec_expires_at c)
           (\<lambda>c. c\<lparr>ec_redeemed_at := Some now\<rparr>) (r_codes r)\<rparr>) = Inr (creds, r1)"
proof -
  let ?hit = "\<lambda>c :: enrollment_code. ec_hash c = rk_hash K given \<and> ec_redeemed_at c = None \<and> now < ec_expires_at c"
  let ?f = "\<lambda>c :: enrollment_code. c\<lparr>ec_redeemed_at := Some now\<rparr>"
  obtain found where found: "select_one ?hit (r_codes r) = Some found"
    using assms by (cases "select_one ?hit (r_codes r)") (simp_all add: redeem_connection_code_def guard_Inr)
  then have ins: "insert_instance_credentials K now fr (ec_installation found) name
       (r\<lparr>r_codes := update_where ?hit ?f (r_codes r)\<rparr>) = Inr (creds, r1)"
    using assms by (auto simp: redeem_connection_code_def guard_Inr bind_result_Inr_iff)
  have "found \<in> set (r_codes r) \<and> ?hit found" using select_one_SomeD[OF found] .
  then have "?f found \<in> set (update_where ?hit ?f (r_codes r))"
    using in_update_whereI[of found "r_codes r" ?hit ?f] by simp
  moreover have "r_codes r1 = update_where ?hit ?f (r_codes r)" using insert_credentials_evolves[OF ins] by simp
  moreover have "ec_hash found = rk_hash K given" using select_one_SomeD[OF found] by simp
  ultimately show ?thesis using that[of "?f found" "ec_installation found"] ins by simp
qed

text \<open>C28: A one-time secret works once. After a connect session has handed out its credentials, no claim
of that session ever returns credentials again, whatever happens in between; after an enrollment code
has been redeemed, it never enrolls again; and an OAuth state that was consumed is gone.\<close>

theorem one_time_secrets:
  assumes ok: "relay_ok r" and runs: "relay_runs K r1 r2"
  shows "(claim_connect_session K now sid secret r = Inr (Claim_ready creds, r1) \<and>
      claim_connect_session K now' sid secret' r2 = Inr (res, r3) \<longrightarrow> res = Claim_not_found \<or> res = Claim_consumed) \<and>
    (redeem_connection_code K now fr given name r = Inr (Some creds, r1) \<and>
      redeem_connection_code K now' fr' given name' r2 = Inr (y, r3) \<longrightarrow> y = None) \<and>
    (consume_oauth_state K now st r = (Some target, r1) \<longrightarrow> fst (consume_oauth_state K now' st r1) = None)"
proof (intro conjI impI)
  assume claims: "claim_connect_session K now sid secret r = Inr (Claim_ready creds, r1) \<and>
      claim_connect_session K now' sid secret' r2 = Inr (res, r3)"
  then obtain s where s: "s \<in> set (r_sessions r1)" "cn_id s = sid" "cn_status s = Consumed"
    using claim_ready_consumes by blast
  have "relay_ok r2" using relay_runs_ok[OF runs] claim_ok[OF ok] claims by blast
  then show "res = Claim_not_found \<or> res = Claim_consumed"
    using claim_of_consumed[OF _ consumed_session_stays[OF runs s(1,3)] s(2,3)] claims by blast
next
  assume redeems: "redeem_connection_code K now fr given name r = Inr (Some creds, r1) \<and>
      redeem_connection_code K now' fr' given name' r2 = Inr (y, r3)"
  then obtain c where c: "c \<in> set (r_codes r1)" "ec_hash c = rk_hash K given" "ec_redeemed_at c = Some now"
    using redeem_marks by blast
  have "relay_ok r2" using relay_runs_ok[OF runs] redeem_ok[OF ok] redeems by blast
  then have unique: "distinct (map ec_hash (r_codes r2))" by (simp add: relay_ok_defs)
  have c2: "c \<in> set (r_codes r2)" using redeemed_code_stays[OF runs c(1)] c(3) by simp
  let ?hit = "\<lambda>c :: enrollment_code. ec_hash c = rk_hash K given \<and> ec_redeemed_at c = None \<and> now' < ec_expires_at c"
  have "\<not> ?hit d" if "d \<in> set (r_codes r2)" for d
    using keyed_unique[OF unique that c2] c(2,3) by auto
  then have "select_one ?hit (r_codes r2) = None" by (simp add: select_one_None_iff)
  then show "y = None" using redeems by (simp add: redeem_connection_code_def guard_Inr)
next
  assume consumed: "consume_oauth_state K now st r = (Some target, r1)"
  then obtain s where s: "s \<in> set (r_oauth_states r)" "os_hash s = rk_hash K st" "now < os_expires_at s"
    and r1: "r1 = r\<lparr>r_oauth_states := filter (\<lambda>s. \<not> (os_hash s = rk_hash K st \<and> now < os_expires_at s)) (r_oauth_states r)\<rparr>"
    by (auto simp: consume_oauth_state_def Let_def dest: select_one_SomeD)
  have unique: "distinct (map os_hash (r_oauth_states r))" using ok by (simp add: relay_ok_defs)
  have "os_hash t \<noteq> rk_hash K st" if "t \<in> set (r_oauth_states r1)" for t
    using keyed_unique[OF unique _ s(1), of t] that s(2,3) by (auto simp: r1)
  then show "fst (consume_oauth_state K now' st r1) = None"
    by (simp add: consume_oauth_state_def Let_def select_one_None_iff)
qed

section \<open>Leases\<close>

lemma select_one_updated_row:
  assumes "\<And>r. p (f r) = p r"
  shows "select_one p (update_where q f rows) = map_option (\<lambda>r. if q r then f r else r) (select_one p rows)"
  by (induction rows) (auto simp: select_one_def update_where_def assms)

lemma select_one_snoc:
  "select_one p (rows @ [x]) = (case select_one p rows of Some r \<Rightarrow> Some r | None \<Rightarrow> if p x then Some x else None)"
  by (induction rows) (auto simp: select_one_def)

abbreviation receipt_in :: "string \<Rightarrow> string \<Rightarrow> receipt list \<Rightarrow> receipt option" where
  "receipt_in d i \<equiv> select_one (\<lambda>c. rc_delivery_id c = d \<and> rc_instance_id c = i)"

definition leased_till :: "time \<Rightarrow> string \<Rightarrow> string \<Rightarrow> receipt list \<Rightarrow> bool" where
  "leased_till t d i rows \<longleftrightarrow> (\<exists>c. receipt_in d i rows = Some c \<and> rc_leased_until c = Some t)"

lemma claim_receipt_leases:
  "leased_till (now + EVENT_LEASE_SECONDS * 1000000) d i (claim_receipt now i d rows)"
proof (cases "receipt_in d i rows")
  case None
  then have "\<not> list_ex (\<lambda>c. rc_delivery_id c = d \<and> rc_instance_id c = i) rows"
    by (simp add: select_one_None_iff list_ex_iff)
  then show ?thesis using None by (simp add: leased_till_def claim_receipt_def Let_def select_one_snoc)
next
  case (Some c)
  have "c \<in> set rows \<and> rc_delivery_id c = d \<and> rc_instance_id c = i" using select_one_SomeD[OF Some] .
  then have "list_ex (\<lambda>c. rc_delivery_id c = d \<and> rc_instance_id c = i) rows" by (auto simp: list_ex_iff)
  then show ?thesis using Some select_one_SomeD[OF Some]
    by (simp add: leased_till_def claim_receipt_def Let_def select_one_updated_row)
qed

lemma claim_receipt_keeps:
  assumes "leased_till (now + EVENT_LEASE_SECONDS * 1000000) d i rows"
  shows "leased_till (now + EVENT_LEASE_SECONDS * 1000000) d i (claim_receipt now i d' rows)"
proof (cases "d' = d")
  case True
  then show ?thesis using claim_receipt_leases by blast
next
  case False
  obtain c where c: "receipt_in d i rows = Some c" "rc_leased_until c = Some (now + EVENT_LEASE_SECONDS * 1000000)"
    using assms by (auto simp: leased_till_def)
  have "rc_delivery_id c = d" using select_one_SomeD[OF c(1)] by simp
  then have "receipt_in d i (claim_receipt now i d' rows) = Some c"
    using c(1) False by (simp add: claim_receipt_def Let_def select_one_updated_row select_one_snoc)
  then show ?thesis using c(2) by (simp add: leased_till_def)
qed

lemma fold_claim_leases:
  "d \<in> we_delivery_id ` set es \<or> leased_till (now + EVENT_LEASE_SECONDS * 1000000) d i rows \<Longrightarrow>
   leased_till (now + EVENT_LEASE_SECONDS * 1000000) d i (fold (\<lambda>e. claim_receipt now i (we_delivery_id e)) es rows)"
proof (induction es arbitrary: rows)
  case (Cons e es)
  have "d \<in> we_delivery_id ` set es \<or>
    leased_till (now + EVENT_LEASE_SECONDS * 1000000) d i (claim_receipt now i (we_delivery_id e) rows)"
    using Cons.prems claim_receipt_leases claim_receipt_keeps by auto
  then show ?case using Cons.IH by simp
qed simp

lemma leased_not_available:
  assumes "leased_till t (we_delivery_id e) (ri_id inst) (r_receipts r)" "now \<le> t"
  shows "\<not> is_available now inst r e"
  using assms by (auto simp: leased_till_def is_available_def receipt_of_def)

lemma pull_events_parts:
  assumes "pull_events K now locked inst limit r = Inr (es, r1)"
  shows "1 \<le> limit" "limit \<le> 50"
    and "map de_delivery_id es = map we_delivery_id (available_events now locked (nat limit) inst r)"
    and "e \<in> set es \<Longrightarrow> \<exists>w \<in> set (available_events now locked (nat limit) inst r).
       e = \<lparr>de_delivery_id = we_delivery_id w, de_event_name = we_name w, de_payload = we_payload w,
            de_signature = rk_hmac K (ri_signing_key inst)
              (canonical_event (we_delivery_id w) (we_name w) (we_payload w))\<rparr>"
    and "r1 = r\<lparr>r_receipts := fold (\<lambda>e. claim_receipt now (ri_id inst) (we_delivery_id e))
         (available_events now locked (nat limit) inst r) (r_receipts r)\<rparr>"
  using assms by (auto simp: pull_events_def Let_def guard_Inr comp_def)

lemma take_sorted_all_or_full:
  fixes f :: "'a \<Rightarrow> 'b::linorder"
  assumes "x \<in> set xs" "x \<notin> set (take n (sort_key f xs))"
  shows "length (take n (sort_key f xs)) = n \<and> (\<forall>y \<in> set (take n (sort_key f xs)). f y \<le> f x)"
proof
  have x: "x \<in> set (drop n (sort_key f xs))"
    using assms append_take_drop_id[of n "sort_key f xs"] by (metis Un_iff set_append set_sort)
  then show "length (take n (sort_key f xs)) = n" by (cases "length xs \<le> n") auto
  have "sorted (map f (take n (sort_key f xs) @ drop n (sort_key f xs)))" by (simp add: append_take_drop_id del: map_append)
  then show "\<forall>y \<in> set (take n (sort_key f xs)). f y \<le> f x" using x by (auto simp: sorted_append simp del: append_take_drop_id)
qed

text \<open>C29: A pull hands out the right events and leases them. It returns at most the asked number of
distinct deliveries, all of the instance's own installation and available; an available event that is not
locked is left out only when the answer is full of events received no later; and until the 60-second lease
has passed, no further pull of the same instance returns any of them, whatever its limit.\<close>

theorem pull_leases_its_events:
  assumes ok: "relay_ok r" and pull: "pull_events K now locked inst limit r = Inr (es, r1)"
  shows "length es \<le> nat limit \<and> distinct (map de_delivery_id es) \<and>
    (\<forall>e \<in> set es. \<exists>w \<in> set (r_events r). we_installation w = ri_installation inst \<and> is_available now inst r w \<and>
       de_delivery_id e = we_delivery_id w \<and> de_event_name e = we_name w \<and> de_payload e = we_payload w) \<and>
    (\<forall>w \<in> set (r_events r). is_available now inst r w \<and> we_delivery_id w \<notin> locked \<and>
       we_delivery_id w \<notin> set (map de_delivery_id es) \<longrightarrow>
       length es = nat limit \<and> (\<forall>v \<in> set (r_events r). we_delivery_id v \<in> set (map de_delivery_id es) \<longrightarrow>
         we_received_at v \<le> we_received_at w)) \<and>
    (\<forall>now' locked' limit' es' r2. now' \<le> now + EVENT_LEASE_SECONDS * 1000000 \<and>
       pull_events K now' locked' inst limit' r1 = Inr (es', r2) \<longrightarrow>
       set (map de_delivery_id es) \<inter> set (map de_delivery_id es') = {})"
proof -
  note parts = pull_events_parts[OF pull]
  let ?av = "available_events now locked (nat limit) inst r"
  have unique: "distinct (map we_delivery_id (r_events r))" using ok by (simp add: relay_ok_defs)
  have sub: "w \<in> set (r_events r) \<and> is_available now inst r w" if "w \<in> set ?av" for w
    using that by (auto simp: available_events_def dest!: in_set_takeD)
  have len: "length es = length ?av" using parts(3) by (metis length_map)
  have "distinct (map we_delivery_id ?av)"
  proof -
    have "distinct (sort_key we_received_at (filter (\<lambda>e. is_available now inst r e \<and> we_delivery_id e \<notin> locked) (r_events r)))"
      using unique by (simp add: distinct_map)
    then have "distinct ?av" by (simp add: available_events_def)
    then show ?thesis using keyed_unique[OF unique] sub by (auto simp: distinct_map inj_on_def)
  qed
  moreover have "length es \<le> nat limit" by (simp add: len available_events_def)
  moreover have "\<exists>w \<in> set (r_events r). we_installation w = ri_installation inst \<and> is_available now inst r w \<and>
       de_delivery_id e = we_delivery_id w \<and> de_event_name e = we_name w \<and> de_payload e = we_payload w"
    if "e \<in> set es" for e
    using parts(4)[OF that] sub by (fastforce simp: is_available_def is_pending_def)
  moreover have "length es = nat limit \<and> (\<forall>v \<in> set (r_events r). we_delivery_id v \<in> set (map de_delivery_id es) \<longrightarrow>
         we_received_at v \<le> we_received_at w)"
    if w: "w \<in> set (r_events r)" "is_available now inst r w" "we_delivery_id w \<notin> locked"
      "we_delivery_id w \<notin> set (map de_delivery_id es)" for w
  proof -
    let ?xs = "filter (\<lambda>e. is_available now inst r e \<and> we_delivery_id e \<notin> locked) (r_events r)"
    have "w \<in> set ?xs" "w \<notin> set (take (nat limit) (sort_key we_received_at ?xs))"
      using w parts(3) by (auto simp: available_events_def)
    from take_sorted_all_or_full[OF this] have full: "length ?av = nat limit"
      "\<forall>y \<in> set ?av. we_received_at y \<le> we_received_at w" by (simp_all add: available_events_def)
    have "v \<in> set ?av" if v: "v \<in> set (r_events r)" "we_delivery_id v \<in> set (map de_delivery_id es)" for v
    proof -
      obtain u where "u \<in> set ?av" "we_delivery_id v = we_delivery_id u" using v(2) parts(3) by auto
      then show ?thesis using keyed_unique[OF unique v(1)] sub by metis
    qed
    then show ?thesis using full(2) len full(1) by (intro conjI ballI impI) (simp only:, metis)
  qed
  moreover have "set (map de_delivery_id es) \<inter> set (map de_delivery_id es') = {}"
    if again: "now' \<le> now + EVENT_LEASE_SECONDS * 1000000" "pull_events K now' locked' inst limit' r1 = Inr (es', r2)"
    for now' locked' limit' es' r2
  proof (rule equals0I)
    fix d assume d: "d \<in> set (map de_delivery_id es) \<inter> set (map de_delivery_id es')"
    then have "d \<in> we_delivery_id ` set ?av" using parts(3) by simp
    then have leased: "leased_till (now + EVENT_LEASE_SECONDS * 1000000) d (ri_id inst) (r_receipts r1)"
      using fold_claim_leases[OF disjI1, of d ?av now "ri_id inst" "r_receipts r"] by (simp add: parts(5))
    obtain w where "w \<in> set (available_events now' locked' (nat limit') inst r1)" "we_delivery_id w = d"
      using d pull_events_parts(3)[OF again(2)] by auto
    then have "is_available now' inst r1 w" by (auto simp: available_events_def dest!: in_set_takeD)
    then show False using leased_not_available[OF _ again(1)] leased \<open>we_delivery_id w = d\<close> by blast
  qed
  ultimately show ?thesis using parts(3) by (intro conjI) (blast | simp)+
qed

section \<open>From enrollment to a verified delivery\<close>

text \<open>What the relay relies on of the cipher and the digest: decryption inverts encryption, no ciphertext is
empty (it carries a tag) and a digest is hexadecimal.\<close>

definition cipher_ok :: "relay_keys \<Rightarrow> bool" where
  "cipher_ok K \<longleftrightarrow>
     (\<forall>k n p a. rk_close K k n p a \<noteq> [] \<and> rk_open K k n (rk_close K k n p a) a = Some p) \<and>
     (\<forall>s. CHR ''.'' \<notin> set (rk_sha256 K s))"

lemma unseal_text_seal:
  assumes "cipher_ok K" "rk_keks K \<noteq> []" "length nonce = NONCE_BYTES" "seal_text K nonce plain aad = Inr sealed"
  shows "unseal_text K sealed aad legacy = Inr plain"
proof -
  let ?kek = "hd (rk_keks K)"
  have sealed: "seal (rk_close K) (rk_sha256 K) nonce plain ?kek aad = Inr sealed"
    using assms(4) by (auto simp: seal_text_def split: sum.splits)
  have "CHR ''.'' \<notin> set (key_id_for (rk_sha256 K) ?kek)"
    using assms(1) by (auto simp: cipher_ok_def key_id_for_def dest: in_set_takeD)
  moreover have "find (\<lambda>k. key_id_for (rk_sha256 K) k = key_id_for (rk_sha256 K) ?kek) (rk_keks K) = Some ?kek"
    using assms(2) by (cases "rk_keks K") auto
  moreover have "rk_close K ?kek nonce plain aad \<noteq> []"
    "rk_open K ?kek nonce (rk_close K ?kek nonce plain aad) aad = Some plain"
    using assms(1) unfolding cipher_ok_def by blast+
  ultimately have "unseal (rk_open K) (rk_sha256 K) sealed (rk_keks K) aad legacy = Inr plain"
    using unseal_seal[OF sealed assms(3)] by blast
  then show ?thesis by (simp add: unseal_text_def)
qed

lemma enrolled_row:
  assumes "insert_instance_credentials K now fr inst name r = Inr (creds, r')"
  obtains i sealed where "i \<in> set (r_instances r')" "in_id i = cr_instance_id creds" "in_installation i = inst"
    "in_revoked_at i = None" "in_credential_hash i = rk_hash K (cr_token creds)" "in_signing_key i = sealed"
    "seal_text K (fr_nonce fr) (cr_signing_key creds) DELIVERY_SIGNING_KEY_AAD = Inr sealed"
proof -
  obtain sealed where s: "seal_text K (fr_nonce fr) (fr_signing_key fr) DELIVERY_SIGNING_KEY_AAD = Inr sealed"
    using assms by (auto simp: insert_instance_credentials_def bind_result_Inr_iff)
  show ?thesis
  proof (cases "select_one (is_live inst) (r_instances r)")
    case None
    let ?i = "new_instance K now fr inst (strip name) sealed"
    have "?i \<in> set (r_instances r')" "creds = instance_credentials fr inst (fr_id fr)"
      using assms None s by (auto simp: insert_instance_credentials_def guard_Inr)
    then show ?thesis using that[of ?i sealed] s by (simp add: new_instance_def instance_credentials_def)
  next
    case (Some live)
    let ?i = "renew_instance K now fr (strip name) sealed live"
    have rows: "r_instances r' = update_where (is_live inst) (renew_instance K now fr (strip name) sealed) (r_instances r)"
      "creds = instance_credentials fr inst (in_id live)"
      using assms Some s by (auto simp: insert_instance_credentials_def guard_Inr)
    have live: "live \<in> set (r_instances r)" "is_live inst live" using select_one_SomeD[OF Some] by simp_all
    have "?i \<in> set (r_instances r')"
      using in_update_whereI[OF live(1), of "is_live inst" "renew_instance K now fr (strip name) sealed"] live(2) rows(1)
      by simp
    then show ?thesis using that[of ?i sealed] s rows(2) live(2)
      by (simp add: renew_instance_def instance_credentials_def is_live_def)
  qed
qed

text \<open>C30: An enrolled instance is connected end to end. With a cipher whose decryption inverts its
encryption, an instance that redeems a code authenticates with the token it was given, as itself, for its
installation and with the signing key it was given; and every event it then pulls carries a signature that
the self-hosted poller verifies under that key.\<close>

theorem enrolled_instance_verifies:
  assumes ok: "relay_ok r" and cipher: "cipher_ok K" "rk_keks K \<noteq> []" "length (fr_nonce fr) = NONCE_BYTES"
    and redeem: "redeem_connection_code K now fr given name r = Inr (Some creds, r1)"
  shows "\<exists>inst r2. authenticate_instance K now' nonce (cr_token creds) r1 = Inr (Some inst, r2) \<and>
    ri_id inst = cr_instance_id creds \<and> ri_installation inst = cr_installation creds \<and>
    ri_signing_key inst = cr_signing_key creds \<and>
    (\<forall>t locked limit es r3. pull_events K t locked inst limit r2 = Inr (es, r3) \<longrightarrow>
       (\<forall>e \<in> set es. verify_event (rk_hmac K) (cr_signing_key creds) e))"
proof -
  obtain n r0 where ins: "insert_instance_credentials K now fr n name r0 = Inr (creds, r1)"
    using redeem_marks[OF redeem] by blast
  obtain i sealed where i: "i \<in> set (r_instances r1)" "in_id i = cr_instance_id creds" "in_installation i = n"
    "in_revoked_at i = None" "in_credential_hash i = rk_hash K (cr_token creds)" "in_signing_key i = sealed"
    "seal_text K (fr_nonce fr) (cr_signing_key creds) DELIVERY_SIGNING_KEY_AAD = Inr sealed"
    using enrolled_row[OF ins] by blast
  have unique: "distinct (map in_credential_hash (r_instances r1))"
    using redeem_ok[OF ok redeem] by (simp add: relay_ok_defs)
  let ?inst = "\<lparr>ri_id = in_id i, ri_installation = in_installation i, ri_signing_key = cr_signing_key creds\<rparr>"
  let ?r2 = "r1\<lparr>r_instances := maybe_reseal K now' nonce (in_id i) (in_signing_key i) (cr_signing_key creds) (r_instances r1)\<rparr>"
  have "select_one (\<lambda>i. in_credential_hash i = rk_hash K (cr_token creds) \<and> in_revoked_at i = None) (r_instances r1) = Some i"
    using i keyed_unique[OF unique] by (intro select_one_unique) auto
  moreover have "unseal_text K (in_signing_key i) DELIVERY_SIGNING_KEY_AAD True = Inr (cr_signing_key creds)"
    using unseal_text_seal[OF cipher i(7)] i(6) by simp
  ultimately have auth: "authenticate_instance K now' nonce (cr_token creds) r1 = Inr (Some ?inst, ?r2)"
    by (simp add: authenticate_instance_def)
  have signed: "\<forall>t locked limit es r3. pull_events K t locked ?inst limit ?r2 = Inr (es, r3) \<longrightarrow>
       (\<forall>e \<in> set es. verify_event (rk_hmac K) (cr_signing_key creds) e)"
    by (auto dest!: pull_events_parts(4) simp: verify_event_def)
  have "cr_installation creds = n" using insert_credentials_evolves[OF ins] by simp
  then show ?thesis using auth signed i(2,3) by (intro exI[of _ ?inst] exI[of _ ?r2] conjI) simp_all
qed

text \<open>An acknowledged delivery leaves no trace, so the same delivery sent again is stored and handed out again.\<close>

lemma acknowledged_delivery_is_accepted_again:
  assumes ok: "relay_ok r" and ack: "acknowledge_event now inst delivery r = (True, r1)"
    and active: "\<exists>i \<in> set (r_installations r). il_id i = n \<and> il_active i"
  shows "\<exists>r2. record_webhook_event now' delivery n event payload digest r1 = (True, r2)"
proof -
  have r1: "r1 = delete_events (\<lambda>e. we_delivery_id e = delivery) r"
    using ack by (auto simp: acknowledge_event_eq[OF ok] split: if_splits)
  have "\<not> list_ex (\<lambda>e. we_delivery_id e = delivery)
      (r_events (delete_events (\<lambda>e. we_received_at e < now' - days EVENT_RETENTION_DAYS) r1))"
    by (auto simp: r1 delete_events_def list_ex_iff)
  moreover have "list_ex (\<lambda>i. il_id i = n \<and> il_active i) (r_installations r1)"
    using active by (auto simp: r1 list_ex_iff)
  ultimately show ?thesis by (simp add: record_webhook_event_def Let_def)
qed

section \<open>Instances\<close>

definition sample_keys :: relay_keys where
  "sample_keys =
     \<lparr>rk_hash = (\<lambda>s. CHR ''h'' # s), rk_keks = [replicate 32 (CHR ''k'')], rk_sha256 = (\<lambda>s. ''0123456789''),
      rk_close = (\<lambda>k n p a. CHR ''t'' # p), rk_open = (\<lambda>k n c a. Some (tl c)), rk_hmac = (\<lambda>k m. k @ m)\<rparr>"

definition sample_fresh :: fresh_instance where
  "sample_fresh = \<lparr>fr_token = ''token'', fr_signing_key = ''key'', fr_id = ''i1'', fr_nonce = replicate 12 (CHR ''n'')\<rparr>"

definition sample_relay :: relay where
  "sample_relay = empty_relay
     \<lparr>r_installations := [\<lparr>il_id = 7, il_user_id = 1, il_login = ''me'', il_active = True\<rparr>],
      r_codes := [\<lparr>ec_hash = ''hcode'', ec_installation = 7, ec_expires_at = 100, ec_redeemed_at = None\<rparr>],
      r_events := [\<lparr>we_delivery_id = ''d1'', we_installation = 7, we_name = ''push'', we_payload = JObj [],
        we_payload_sha256 = ''s'', we_received_at = 3\<rparr>]\<rparr>"

lemma sample_relay_ok: "relay_ok sample_relay"
  by (simp add: relay_ok_defs sample_relay_def empty_relay_def one_live_def)

lemma sample_cipher: "cipher_ok sample_keys" "rk_keks sample_keys \<noteq> []" "length (fr_nonce sample_fresh) = NONCE_BYTES"
  by (simp_all add: cipher_ok_def sample_keys_def sample_fresh_def NONCE_BYTES_def)

lemma sample_redeem:
  "\<exists>creds r1. redeem_connection_code sample_keys 5 sample_fresh ''code'' ''me'' sample_relay = Inr (Some creds, r1) \<and>
     cr_installation creds = 7"
proof -
  have "case redeem_connection_code sample_keys 5 sample_fresh ''code'' ''me'' sample_relay of
      Inl e \<Rightarrow> False | Inr (m, s) \<Rightarrow> (case m of None \<Rightarrow> False | Some w \<Rightarrow> cr_installation w = 7)" by code_simp
  from case_some_result[OF this] show ?thesis by (elim exE conjE) blast
qed

lemma relay_stays_consistent_witness:
  "\<exists>r. relay_runs sample_keys empty_relay r \<and> r_installations r \<noteq> [] \<and> relay_ok r"
proof -
  have "case record_verified_installation 7 1 ''me'' empty_relay of Inl e \<Rightarrow> False | Inr r \<Rightarrow> r_installations r \<noteq> []"
    by code_simp
  then obtain r where r: "record_verified_installation 7 1 ''me'' empty_relay = Inr r" "r_installations r \<noteq> []"
    by (auto split: sum.splits)
  have "relay_runs sample_keys empty_relay r"
    unfolding relay_runs_def using s_verified[OF r(1)] by (rule r_into_rtranclp)
  from this relay_stays_consistent[OF this] r(2) show ?thesis by blast
qed

lemma one_time_secrets_witness:
  "\<exists>creds r1. redeem_connection_code sample_keys 5 sample_fresh ''code'' ''me'' sample_relay = Inr (Some creds, r1) \<and>
     (\<forall>y r3. redeem_connection_code sample_keys 6 sample_fresh ''code'' ''me'' r1 = Inr (y, r3) \<longrightarrow> y = None)"
proof -
  obtain creds r1 where r1:
    "redeem_connection_code sample_keys 5 sample_fresh ''code'' ''me'' sample_relay = Inr (Some creds, r1)"
    using sample_redeem by blast
  have "relay_runs sample_keys r1 r1" by (simp add: relay_runs_def)
  note once = one_time_secrets[OF sample_relay_ok this, THEN conjunct2, THEN conjunct1, rule_format]
  have "y = None" if "redeem_connection_code sample_keys 6 sample_fresh ''code'' ''me'' r1 = Inr (y, r3)" for y r3
    using once[OF conjI[OF r1 that]] .
  then show ?thesis using r1 by blast
qed

definition sample_instance :: relay_instance where
  "sample_instance = \<lparr>ri_id = ''i1'', ri_installation = 7, ri_signing_key = ''key''\<rparr>"

definition enrolled_relay :: relay where
  "enrolled_relay = sample_relay
     \<lparr>r_instances := [\<lparr>in_id = ''i1'', in_installation = 7, in_display_name = ''me'', in_credential_hash = ''htoken'',
        in_signing_key = ''key'', in_revoked_at = None, in_created_at = 1, in_updated_at = 1\<rparr>]\<rparr>"

lemma enrolled_relay_ok: "relay_ok enrolled_relay"
  by (simp add: relay_ok_defs enrolled_relay_def sample_relay_def empty_relay_def one_live_def)

lemma pull_leases_its_events_witness:
  "\<exists>es r1. pull_events sample_keys 10 {} sample_instance 20 enrolled_relay = Inr (es, r1) \<and>
     map de_delivery_id es = [''d1''] \<and>
     (\<forall>es' r2. pull_events sample_keys 20 {} sample_instance 20 r1 = Inr (es', r2) \<longrightarrow>
        ''d1'' \<notin> set (map de_delivery_id es'))"
proof -
  have "case pull_events sample_keys 10 {} sample_instance 20 enrolled_relay of
      Inl e \<Rightarrow> False | Inr (es, r1) \<Rightarrow> map de_delivery_id es = [''d1'']" by code_simp
  from case_result[OF this] obtain es r1 where
    es: "pull_events sample_keys 10 {} sample_instance 20 enrolled_relay = Inr (es, r1)" "map de_delivery_id es = [''d1'']"
    by (elim exE conjE)
  note pulled = pull_leases_its_events[OF enrolled_relay_ok es(1)]
  have later: "(20 :: time) \<le> 10 + EVENT_LEASE_SECONDS * 1000000" by (simp add: EVENT_LEASE_SECONDS_def)
  have "''d1'' \<notin> set (map de_delivery_id es')"
    if "pull_events sample_keys 20 {} sample_instance 20 r1 = Inr (es', r2)" for es' r2
    using pulled[THEN conjunct2, THEN conjunct2, THEN conjunct2, THEN conjunct2, rule_format, OF conjI[OF later that]]
      es(2) by auto
  then show ?thesis using es by (intro exI[of _ es] exI[of _ r1] conjI allI impI) blast+
qed

lemma enrolled_instance_verifies_witness:
  "\<exists>creds r1 inst r2. redeem_connection_code sample_keys 5 sample_fresh ''code'' ''me'' sample_relay = Inr (Some creds, r1) \<and>
     authenticate_instance sample_keys 6 (replicate 12 (CHR ''m'')) (cr_token creds) r1 = Inr (Some inst, r2) \<and>
     ri_installation inst = 7 \<and> ri_signing_key inst = cr_signing_key creds"
proof -
  obtain creds r1 where r1:
    "redeem_connection_code sample_keys 5 sample_fresh ''code'' ''me'' sample_relay = Inr (Some creds, r1)"
    "cr_installation creds = 7" using sample_redeem by blast
  from enrolled_instance_verifies[OF sample_relay_ok sample_cipher r1(1), of 6 "replicate 12 (CHR ''m'')"]
  show ?thesis using r1 by metis
qed

end
