(* ===== verification/Relay_Access.thy ===== *)
theory Relay_Access
  imports Relay_App Relay_Safety
begin

text \<open>
  Who gets in: each route is a run of the store's transactions, and over any sequence of requests an
  installation is recorded, and so an instance bound to it, only for a GitHub user who controls it.
\<close>

inductive request ::
    "relay_keys \<Rightarrow> (string \<Rightarrow> identity option) \<Rightarrow> relay \<Rightarrow> relay \<Rightarrow> bool" for K exchange where
  q_create: "connect_sessions_create K now sid secret name r = (x, r') \<Longrightarrow> request K exchange r r'"
| q_poll: "connect_sessions_poll K now sid authorization r = (x, r') \<Longrightarrow> request K exchange r r'"
| q_start: "github_connect_start K now st sid r = (x, r') \<Longrightarrow> request K exchange r r'"
| q_select: "github_connect_select K now fr nonces cookie sid inst r = (x, r') \<Longrightarrow> request K exchange r r'"
| q_setup: "github_setup K now st cookie inst r = (x, r') \<Longrightarrow> request K exchange r r'"
| q_callback: "github_callback K now fr nonces fc exchange given st r = (x, r') \<Longrightarrow> request K exchange r r'"
| q_register: "register_instance K now fr given name r = (x, r') \<Longrightarrow> request K exchange r r'"
| q_disconnect: "instances_disconnect K now authorization r = (x, r') \<Longrightarrow> request K exchange r r'"
| q_webhook: "github_webhook hmac sha ft fint key now body event delivery signature r = (x, r') \<Longrightarrow>
    request K exchange r r'"
| q_pull: "events_pull K now nonce locked authorization limit r = (es, r') \<Longrightarrow> request K exchange r r'"
| q_acknowledge: "events_acknowledge K now nonce authorization delivery r = (x, r') \<Longrightarrow> request K exchange r r'"

definition requests :: "relay_keys \<Rightarrow> (string \<Rightarrow> identity option) \<Rightarrow> relay \<Rightarrow> relay \<Rightarrow> bool" where
  "requests K exchange = (request K exchange)\<^sup>*\<^sup>*"

section \<open>Ownership\<close>

definition owner_ok :: "(int \<Rightarrow> int set) \<Rightarrow> relay \<Rightarrow> bool" where
  "owner_ok controls r \<longleftrightarrow>
     (\<forall>i \<in> set (r_installations r). il_id i \<in> controls (il_user_id i)) \<and>
     (\<forall>s \<in> set (r_sessions r). \<forall>cs. cn_candidates s = Some cs \<longrightarrow>
        (\<exists>u. cn_user_id s = Some u \<and> set (map ci_id cs) \<subseteq> controls u))"

text \<open>Steps that leave users, and the candidates of sessions, as they are or drop them.\<close>

definition keeps_owners :: "relay \<Rightarrow> relay \<Rightarrow> bool" where
  "keeps_owners r r' \<longleftrightarrow>
     map (\<lambda>i. (il_id i, il_user_id i)) (r_installations r') = map (\<lambda>i. (il_id i, il_user_id i)) (r_installations r) \<and>
     (\<forall>s' \<in> set (r_sessions r'). cn_candidates s' = None \<or>
        (\<exists>s \<in> set (r_sessions r). cn_candidates s' = cn_candidates s \<and> cn_user_id s' = cn_user_id s))"

text \<open>The store's transactions as the routes use them: what grants an installation names a user who controls it.\<close>

inductive granted_step :: "relay_keys \<Rightarrow> (int \<Rightarrow> int set) \<Rightarrow> relay \<Rightarrow> relay \<Rightarrow> bool" for K controls where
  g_plain: "relay_step K r r' \<Longrightarrow> keeps_owners r r' \<Longrightarrow> granted_step K controls r r'"
| g_verified: "record_verified_installation inst user login r = Inr r' \<Longrightarrow> inst \<in> controls user \<Longrightarrow>
    granted_step K controls r r'"
| g_candidates: "set_connect_session_candidates now sid cands user login r = (b, r') \<Longrightarrow>
    set (map ci_id cands) \<subseteq> controls user \<Longrightarrow> granted_step K controls r r'"
| g_complete: "complete_connect_session K now fr nonces sid inst user login (Some ids) r = Inr (y, r') \<Longrightarrow>
    ids \<subseteq> controls user \<Longrightarrow> granted_step K controls r r'"

lemma granted_step_is_step: "granted_step K controls r r' \<Longrightarrow> relay_step K r r'"
  by (induction rule: granted_step.induct) (auto intro: relay_step.intros)

lemma keeps_owners_same:
  "r_installations r' = r_installations r \<Longrightarrow> r_sessions r' = r_sessions r \<Longrightarrow> keeps_owners r r'"
  by (auto simp: keeps_owners_def)

lemma keeps_owners_ok:
  assumes "keeps_owners r r'" "owner_ok controls r"
  shows "owner_ok controls r'"
proof -
  have same: "set (map (\<lambda>i. (il_id i, il_user_id i)) (r_installations r')) =
      set (map (\<lambda>i. (il_id i, il_user_id i)) (r_installations r))"
    using assms(1) by (simp only: keeps_owners_def)
  have "il_id i \<in> controls (il_user_id i)" if i: "i \<in> set (r_installations r')" for i
  proof -
    have "(il_id i, il_user_id i) \<in> set (map (\<lambda>i. (il_id i, il_user_id i)) (r_installations r))"
      unfolding same[symmetric] using i by simp
    then obtain j where "j \<in> set (r_installations r)" "il_id j = il_id i" "il_user_id j = il_user_id i" by auto
    then show ?thesis using assms(2) unfolding owner_ok_def by metis
  qed
  moreover have "\<exists>u. cn_user_id s' = Some u \<and> set (map ci_id cs) \<subseteq> controls u"
    if s': "s' \<in> set (r_sessions r')" "cn_candidates s' = Some cs" for s' cs
  proof -
    obtain s where "s \<in> set (r_sessions r)" "cn_candidates s = Some cs" "cn_user_id s = cn_user_id s'"
      using assms(1) s' unfolding keeps_owners_def by (metis option.distinct(1))
    then show ?thesis using assms(2) unfolding owner_ok_def by metis
  qed
  ultimately show ?thesis unfolding owner_ok_def by blast
qed

lemma update_session_keeps_owners:
  "(\<And>s. cn_candidates (f s) = None \<or> cn_candidates (f s) = cn_candidates s \<and> cn_user_id (f s) = cn_user_id s) \<Longrightarrow>
   keeps_owners r (snd (update_session p f r))"
  unfolding keeps_owners_def update_session_def by (fastforce simp: set_update_where)

lemma verified_owner_ok:
  assumes "record_verified_installation inst user login r = Inr r'" "inst \<in> controls user" "owner_ok controls r"
  shows "owner_ok controls r'"
  using assms
  by (auto simp: record_verified_installation_def upsert_installation_def bind_result_Inr_iff owner_ok_def
        set_update_where split: if_splits)

lemma granted_step_owner_ok: "granted_step K controls r r' \<Longrightarrow> owner_ok controls r \<Longrightarrow> owner_ok controls r'"
proof (induction rule: granted_step.induct)
  case (g_plain r r')
  then show ?case by (blast intro: keeps_owners_ok)
next
  case (g_verified inst user login r r')
  then show ?case by (blast intro: verified_owner_ok)
next
  case (g_candidates now sid cands user login r b r')
  then show ?case
    by (auto simp: set_connect_session_candidates_def update_session_def owner_ok_def set_update_where)
next
  case (g_complete now fr nonces sid inst user login ids r y r')
  from g_complete(1) show ?case
  proof (cases rule: complete_steps)
    case same
    then show ?thesis using g_complete(3) by simp
  next
    case (bound session r1 r2 creds ts ks)
    have "inst \<in> controls user" using bound(3) g_complete(2) by (auto simp: allowed_installations_def)
    then have "owner_ok controls r1" using verified_owner_ok bound(4) g_complete(3) by blast
    moreover have "r_installations r2 = r_installations r1" "r_sessions r2 = r_sessions r1"
      using bound(5) by (auto simp: insert_instance_credentials_def bind_result_Inr_iff guard_Inr split: option.splits)
    ultimately have "owner_ok controls r2" by (simp add: owner_ok_def)
    moreover have "keeps_owners r2 r'"
      unfolding bound(6) by (rule update_session_keeps_owners) (simp add: ready_session_def)
    ultimately show ?thesis by (blast intro: keeps_owners_ok)
  qed
qed

section \<open>Routes\<close>

text \<open>Each plain transaction keeps the owners.\<close>

lemma plain_states:
  "create_oauth_state K now st inst sess r = Inr (x, r') \<Longrightarrow> granted_step K controls r r'"
  by (rule g_plain, erule s_create_state) (auto simp: create_oauth_state_def guard_Inr intro!: keeps_owners_same)

lemma plain_consume:
  "consume_oauth_state K now st r = (x, r') \<Longrightarrow> granted_step K controls r r'"
  by (rule g_plain, erule s_consume_state) (auto simp: consume_oauth_state_def Let_def intro!: keeps_owners_same)

lemma plain_code:
  "create_connection_code K now fresh inst r = Inr (x, r') \<Longrightarrow> granted_step K controls r r'"
  by (rule g_plain, erule s_create_code) (auto simp: create_connection_code_def guard_Inr intro!: keeps_owners_same)

lemma insert_credentials_same:
  "insert_instance_credentials K now fr inst name r = Inr (creds, r') \<Longrightarrow>
     r_installations r' = r_installations r \<and> r_sessions r' = r_sessions r"
  by (auto simp: insert_instance_credentials_def bind_result_Inr_iff guard_Inr split: option.splits)

lemma plain_redeem:
  assumes "redeem_connection_code K now fr given name r = Inr (y, r')"
  shows "granted_step K controls r r'"
proof (rule g_plain)
  show "relay_step K r r'" using assms by (rule s_redeem)
  show "keeps_owners r r'"
    using assms
    by (auto simp: redeem_connection_code_def Let_def guard_Inr bind_result_Inr_iff intro!: keeps_owners_same
          dest!: insert_credentials_same split: option.splits)
qed

lemma plain_authenticate:
  "authenticate_instance K now nonce token r = Inr (z, r') \<Longrightarrow> granted_step K controls r r'"
  by (rule g_plain, erule s_authenticate)
     (auto simp: authenticate_instance_def bind_result_Inr_iff intro!: keeps_owners_same split: option.splits)

lemma plain_event:
  "record_webhook_event now delivery inst event payload digest r = (b, r') \<Longrightarrow> granted_step K controls r r'"
  by (rule g_plain, erule s_event)
     (auto simp: record_webhook_event_def Let_def intro!: keeps_owners_same split: if_splits)

lemma plain_pull:
  "pull_events K now locked ri limit r = Inr (es, r') \<Longrightarrow> granted_step K controls r r'"
  by (rule g_plain, erule s_pull) (auto simp: pull_events_def Let_def guard_Inr intro!: keeps_owners_same)

lemma plain_acknowledge:
  "acknowledge_event now ri delivery r = (b, r') \<Longrightarrow> granted_step K controls r r'"
  by (rule g_plain, erule s_acknowledge) (auto simp: acknowledge_event_def Let_def intro!: keeps_owners_same)

lemma plain_active: "granted_step K controls r (snd (set_installation_active now inst active revoke r))"
proof (rule g_plain)
  show "relay_step K r (snd (set_installation_active now inst active revoke r))"
    by (rule s_active[OF prod.collapse[symmetric]])
  show "keeps_owners r (snd (set_installation_active now inst active revoke r))"
    by (auto simp: set_installation_active_def Let_def keeps_owners_def map_update_where_same)
qed

lemma plain_revoke: "granted_step K controls r (snd (revoke_instance K now token r))"
  by (rule g_plain, rule s_revoke[OF prod.collapse[symmetric]])
     (simp add: revoke_instance_def Let_def keeps_owners_same)

lemma plain_create_session:
  "create_connect_session K now sid secret name r = Inr (c, r') \<Longrightarrow> granted_step K controls r r'"
  by (rule g_plain, erule s_create_session)
     (auto simp: create_connect_session_def guard_Inr keeps_owners_def new_session_def)

lemma plain_fail: "granted_step K controls r (fail_connect_session sid message r)"
  by (rule g_plain, rule s_fail[OF refl], unfold fail_connect_session_def)
     (rule update_session_keeps_owners, simp)

lemma plain_claim:
  assumes "claim_connect_session K now sid secret r = Inr (res, r')"
  shows "granted_step K controls r r'"
proof (rule g_plain)
  show "relay_step K r r'" using assms by (rule s_claim)
  have "keeps_owners r (snd (update_session p expire_session r))" "keeps_owners r (snd (update_session p consume_session r))" for p
    by (rule update_session_keeps_owners, simp add: expire_session_def consume_session_def)+
  then show "keeps_owners r r'"
    using assms
    by (auto simp: claim_connect_session_def bind_result_Inr_iff split_def Let_def keeps_owners_same
          split: option.splits session_status.splits if_splits)
qed

definition honest :: "(int \<Rightarrow> int set) \<Rightarrow> (string \<Rightarrow> identity option) \<Rightarrow> bool" where
  "honest controls exchange \<longleftrightarrow>
     (\<forall>given user login installations. exchange given = Some (user, login, installations) \<longrightarrow>
        set (map ci_id installations) \<subseteq> controls user)"

abbreviation granted :: "relay_keys \<Rightarrow> (int \<Rightarrow> int set) \<Rightarrow> relay \<Rightarrow> relay \<Rightarrow> bool" where
  "granted K controls \<equiv> (granted_step K controls)\<^sup>*\<^sup>*"

lemma granted_one: "granted_step K controls r r' \<Longrightarrow> granted K controls r r'"
  by (rule r_into_rtranclp)

lemma granted_then: "granted_step K controls r r' \<Longrightarrow> granted K controls r' r'' \<Longrightarrow> granted K controls r r''"
  by (rule converse_rtranclp_into_rtranclp)

lemma finish_granted:
  assumes "finish_connect_session K now fr nonces sid inst user login (Some ids) r = (x, r')" "ids \<subseteq> controls user"
  shows "granted K controls r r'"
proof (cases "get_pending_connect_session now sid r")
  case None
  then show ?thesis using assms(1) by (simp add: finish_connect_session_def)
next
  case (Some session)
  show ?thesis
  proof (cases "complete_connect_session K now fr nonces sid inst user login (Some ids) r")
    case (Inl e)
    then show ?thesis using assms(1) Some by (simp add: finish_connect_session_def)
  next
    case (Inr yr)
    obtain y r1 where yr: "yr = (y, r1)" by (cases yr)
    have step: "granted_step K controls r r1"
      by (rule g_complete[where controls = controls and user = user and ids = ids, OF _ assms(2)]) (use Inr yr in simp)
    show ?thesis
    proof (cases y)
      case None
      then have "r' = fail_connect_session sid ''Could not bind the selected installation'' r1"
        using assms(1) Some Inr yr by (simp add: finish_connect_session_def)
      then show ?thesis using granted_then[OF step granted_one[OF plain_fail]] by simp
    next
      case (Some creds)
      then have "r' = r1" using assms(1) \<open>get_pending_connect_session now sid r = Some session\<close> Inr yr
        by (simp add: finish_connect_session_def)
      then show ?thesis using granted_one[OF step] by simp
    qed
  qed
qed

lemma select_granted:
  assumes "github_connect_select K now fr nonces cookie sid inst r = (x, r')" "owner_ok controls r"
  shows "granted K controls r r'"
proof (cases "r' = r")
  case False
  then obtain session user login where session: "get_pending_connect_session now sid r = Some session"
    "cn_user_id session = Some user"
    "finish_connect_session K now fr nonces sid inst user login
       (Some (set (map ci_id (case cn_candidates session of None \<Rightarrow> [] | Some cs \<Rightarrow> cs)))) r = (x, r')"
    using assms(1) by (auto simp: github_connect_select_def split: if_splits option.splits)
  have "session \<in> set (r_sessions r)"
    using session(1) by (auto simp: get_pending_connect_session_def dest: select_one_SomeD)
  then have "set (map ci_id (case cn_candidates session of None \<Rightarrow> [] | Some cs \<Rightarrow> cs)) \<subseteq> controls user"
    using assms(2) session(2) unfolding owner_ok_def by (cases "cn_candidates session") (simp, force)
  then show ?thesis using finish_granted session(3) by blast
qed simp

lemma callback_with_session_granted:
  assumes "callback_with_session K now fr nonces sid chosen (user, login, installations) r = (x, r')"
    "set (map ci_id installations) \<subseteq> controls user"
  shows "granted K controls r r'"
proof (cases "get_pending_connect_session now sid r")
  case None
  then show ?thesis using assms(1) by (simp add: callback_with_session_def Let_def)
next
  case session: (Some session)
  show ?thesis
  proof (cases chosen)
    case (Some inst)
    show ?thesis
    proof (cases "inst \<in> set (map ci_id installations)")
      case True
      then have "finish_connect_session K now fr nonces sid inst user login (Some (set (map ci_id installations))) r = (x, r')"
        using assms(1) session Some by (simp add: callback_with_session_def Let_def)
      then show ?thesis using finish_granted assms(2) by blast
    next
      case False
      then have "r' = fail_connect_session sid ''The authorized user does not control this installation'' r"
        using assms(1) session Some by (simp add: callback_with_session_def Let_def)
      then show ?thesis using granted_one[OF plain_fail] by simp
    qed
  next
    case None
    consider "installations = []" | only where "installations = [only]"
      | a b rest where "installations = a # b # rest" by (metis list.exhaust)
    then show ?thesis
    proof cases
      case 1
      then show ?thesis using assms(1) session None by (simp add: callback_with_session_def Let_def)
    next
      case 2
      then have "finish_connect_session K now fr nonces sid (ci_id only) user login (Some (set (map ci_id installations))) r = (x, r')"
        using assms(1) session None by (simp add: callback_with_session_def Let_def)
      then show ?thesis using finish_granted assms(2) by blast
    next
      case 3
      then have "r' = snd (set_connect_session_candidates now sid installations user login r)"
        using assms(1) session None by (auto simp: callback_with_session_def Let_def)
      then show ?thesis using granted_one[OF g_candidates[where user = user, OF prod.collapse[symmetric]]] assms(2) by blast
    qed
  qed
qed

lemma callback_without_session_granted:
  assumes "callback_without_session K now fc chosen (user, login, installations) r = (x, r')"
    "set (map ci_id installations) \<subseteq> controls user"
  shows "granted K controls r r'"
proof (cases "r' = r")
  case False
  then obtain inst r1 where r1: "inst \<in> set (map ci_id installations)" "chosen = Some inst"
    "record_verified_installation inst user login r = Inr r1"
    using assms(1) by (auto simp: callback_without_session_def split: if_splits option.splits sum.splits)
  have step: "granted_step K controls r r1" using g_verified[OF r1(3)] r1(1) assms(2) by blast
  have "r' = r1 \<or> (\<exists>c. create_connection_code K now fc inst r1 = Inr (c, r'))"
    using assms(1) r1 by (auto simp: callback_without_session_def split: sum.splits)
  then show ?thesis using granted_one[OF step] granted_then[OF step granted_one[OF plain_code]] by blast
qed simp

lemma callback_granted:
  assumes "github_callback K now fr nonces fc exchange given st r = (x, r')" "honest controls exchange"
  shows "granted K controls r r'"
proof -
  obtain target r1 where consumed: "consume_oauth_state K now st r = (target, r1)" by (cases "consume_oauth_state K now st r")
  note step = plain_consume[OF consumed, of controls]
  show ?thesis
  proof (cases "r' = r1")
    case True
    then show ?thesis using granted_one[OF step] by simp
  next
    case False
    then obtain chosen sess where target: "target = Some (chosen, sess)"
      using assms(1) consumed by (auto simp: github_callback_def split: option.splits)
    with False obtain user login installations where who: "exchange given = Some (user, login, installations)"
      using assms(1) consumed by (auto simp: github_callback_def split: option.splits)
    then have owns: "set (map ci_id installations) \<subseteq> controls user"
      using assms(2) unfolding honest_def by blast
    have "granted K controls r1 r'"
    proof (cases sess)
      case None
      then have "callback_without_session K now fc chosen (user, login, installations) r1 = (x, r')"
        using assms(1) consumed target who by (simp add: github_callback_def)
      then show ?thesis using callback_without_session_granted owns by blast
    next
      case (Some sid)
      then have "callback_with_session K now fr nonces sid chosen (user, login, installations) r1 = (x, r')"
        using assms(1) consumed target who by (simp add: github_callback_def)
      then show ?thesis using callback_with_session_granted owns by blast
    qed
    then show ?thesis using granted_then[OF step] by blast
  qed
qed

lemma webhook_granted:
  assumes "github_webhook hmac sha ft fint key now body event delivery signature r = (x, r')"
  shows "granted K controls r r'"
proof -
  have lifecycle: "granted K controls r (snd (apply_installation_lifecycle fint now event payload r))" for payload
    using granted_one[OF plain_active]
    by (auto simp: apply_installation_lifecycle_def Let_def split: sum.splits)
  show ?thesis
  proof (cases "r' = r")
    case False
    then obtain payload inst where payload: "verify_github_signature hmac key body signature = None"
      "json_loads_bytes ft body = Some payload" "payload_installation fint payload = Inr inst"
      using assms by (auto simp: github_webhook_def split: if_splits option.splits sum.splits)
    obtain status r1 where life: "apply_installation_lifecycle fint now event payload r = (status, r1)"
      by (cases "apply_installation_lifecycle fint now event payload r")
    then have r1: "granted K controls r r1" using lifecycle[of payload] by simp
    show ?thesis
    proof (cases status)
      case (Some s)
      then show ?thesis using assms payload life r1 False by (auto simp: github_webhook_def split: if_splits)
    next
      case None
      then have "\<exists>b. record_webhook_event now delivery inst event payload (sha body) r1 = (b, r')"
        using assms payload life False by (auto simp: github_webhook_def split: if_splits prod.splits)
      then show ?thesis using granted_one[OF plain_event] rtranclp_trans[OF r1] by blast
    qed
  qed simp
qed

lemma authorization_granted:
  "instance_from_authorization K now nonce authorization r = (y, r') \<Longrightarrow> granted K controls r r'"
  by (auto simp: instance_from_authorization_def intro: granted_one plain_authenticate
        split: if_splits sum.splits option.splits prod.splits)

lemma request_granted:
  assumes "request K exchange r r'" "honest controls exchange" "owner_ok controls r"
  shows "granted K controls r r'"
  using assms
proof (induction rule: request.induct)
  case (q_create now sid secret name r x r')
  then show ?case
    by (auto simp: connect_sessions_create_def intro: granted_one plain_create_session
          split: if_splits sum.splits relay_error.splits prod.splits)
next
  case (q_poll now sid authorization r x r')
  then show ?case
    by (auto simp: connect_sessions_poll_def intro: granted_one plain_claim
          split: if_splits option.splits sum.splits prod.splits)
next
  case (q_start now st sid r x r')
  then show ?case
    by (auto simp: github_connect_start_def intro: granted_one plain_states
          split: if_splits option.splits sum.splits prod.splits)
next
  case (q_select now fr nonces cookie sid inst r x r')
  then show ?case by (blast intro: select_granted)
next
  case (q_setup now st cookie inst r x r')
  then show ?case
    by (auto simp: github_setup_def Let_def intro: granted_one plain_states split: if_splits sum.splits prod.splits)
next
  case (q_callback now fr nonces fc given st r x r')
  then show ?case by (blast intro: callback_granted)
next
  case (q_register now fr given name r x r')
  then show ?case
    by (auto simp: register_instance_def intro: granted_one plain_redeem
          split: if_splits option.splits sum.splits prod.splits)
next
  case (q_disconnect now authorization r x r')
  have "r' = r \<or> (\<exists>token. r' = snd (revoke_instance K now token r))"
    using q_disconnect(1) by (auto simp: instances_disconnect_def split: option.splits prod.splits) (metis snd_conv)
  then show ?case using granted_one[OF plain_revoke] by auto
next
  case (q_webhook hmac sha ft fint key now body event delivery signature r x r')
  then show ?case by (blast intro: webhook_granted)
next
  case (q_pull now nonce locked authorization limit r es r')
  then obtain y r1 where "instance_from_authorization K now nonce authorization r = (y, r1)"
    "r' = r1 \<or> (\<exists>ri es. pull_events K now locked ri limit r1 = Inr (es, r'))"
    by (auto simp: events_pull_def split: prod.splits sum.splits)
  then show ?case using authorization_granted granted_one[OF plain_pull] rtranclp_trans by metis
next
  case (q_acknowledge now nonce authorization delivery r x r')
  then obtain y r1 where "instance_from_authorization K now nonce authorization r = (y, r1)"
    "r' = r1 \<or> (\<exists>ri b. acknowledge_event now ri delivery r1 = (b, r'))"
    by (auto simp: events_acknowledge_def split: prod.splits sum.splits)
  then show ?case using authorization_granted granted_one[OF plain_acknowledge] rtranclp_trans by metis
qed

lemma requests_invariant:
  assumes "requests K exchange r0 r" "honest controls exchange" "owner_ok controls r0" "relay_ok r0"
  shows "owner_ok controls r \<and> relay_ok r \<and> relay_runs K r0 r"
  using assms(1) unfolding requests_def
proof (induction rule: rtranclp_induct)
  case base
  then show ?case using assms by (simp add: relay_runs_def)
next
  case (step r1 r2)
  have "granted K controls r1 r2" using request_granted step assms(2) by blast
  then have "owner_ok controls r2 \<and> relay_ok r2 \<and> relay_runs K r1 r2"
    using step.IH unfolding relay_runs_def
  proof (induction rule: rtranclp_induct)
    case (step a b)
    then show ?case
      using granted_step_owner_ok granted_step_is_step relay_step_ok by (meson rtranclp.rtrancl_into_rtrancl)
  qed simp
  then show ?case using step.IH unfolding relay_runs_def by (meson rtranclp_trans)
qed

text \<open>C31: An instance is bound only by someone who controls the installation. If GitHub's answers name only
installations the authorizing user controls, then over any sequence of requests to the relay, from an empty
store, every instance and every enrollment code belongs to a recorded installation whose recorded GitHub
user controls it; the store stays consistent.\<close>

theorem instances_belong_to_owners:
  assumes "requests K exchange empty_relay r" "honest controls exchange"
  shows "relay_ok r \<and>
    (\<forall>i \<in> set (r_instances r). \<exists>l \<in> set (r_installations r). il_id l = in_installation i \<and> il_id l \<in> controls (il_user_id l)) \<and>
    (\<forall>c \<in> set (r_codes r). \<exists>l \<in> set (r_installations r). il_id l = ec_installation c \<and> il_id l \<in> controls (il_user_id l))"
proof -
  have "owner_ok controls empty_relay" by (simp add: owner_ok_def empty_relay_def)
  then have ok: "owner_ok controls r" "relay_ok r" using requests_invariant assms empty_relay_ok by blast+
  have owner: "il_id l \<in> controls (il_user_id l)" if "l \<in> set (r_installations r)" for l
    using ok(1) that by (simp add: owner_ok_def)
  have "in_installation ` set (r_instances r) \<subseteq> il_id ` set (r_installations r)"
    "ec_installation ` set (r_codes r) \<subseteq> il_id ` set (r_installations r)"
    using ok(2) by (simp_all add: relay_ok_defs)
  then show ?thesis using ok(2) owner by (intro conjI ballI) (blast, force, force)
qed

section \<open>Revocation\<close>

lemma revoked_row_stays_out:
  assumes "relay_ok r" "i \<in> set (r_instances r)" "in_revoked_at i \<noteq> None" "relay_runs K r r2"
  shows "i \<in> set (r_instances r2)" "relay_ok r2"
proof -
  have "instances.table_evolves (r_instances r) (r_instances r2)"
    using relay_runs_evolve[OF assms(4)] by (simp add: relay_evolves_def)
  then obtain i' where "i' \<in> set (r_instances r2)" "instance_evolves i i'"
    using instances.table_member assms(2) by blast
  then show "i \<in> set (r_instances r2)" using assms(3) by (simp add: instance_evolves_def)
  show "relay_ok r2" using relay_runs_ok assms(1,4) by blast
qed

lemma revoked_hash_refused:
  assumes "relay_ok r" "i \<in> set (r_instances r)" "in_revoked_at i \<noteq> None" "in_credential_hash i = rk_hash K token"
  shows "authenticate_instance K now nonce token r = Inr (None, r)" "instance_status K token r = None"
proof -
  have unique: "distinct (map in_credential_hash (r_instances r))" using assms(1) by (simp add: relay_ok_defs)
  have "\<not> (in_credential_hash j = rk_hash K token \<and> in_revoked_at j = None)" if "j \<in> set (r_instances r)" for j
    using keyed_unique[OF unique that assms(2)] assms(3,4) by auto
  then have none: "select_one (\<lambda>j. in_credential_hash j = rk_hash K token \<and> in_revoked_at j = None) (r_instances r) = None"
    by (simp add: select_one_None_iff)
  then show "authenticate_instance K now nonce token r = Inr (None, r)" by (simp add: authenticate_instance_def)
  show "instance_status K token r = None" using none by (simp add: instance_status_def)
qed

text \<open>C32: A revoked credential stays out. After an instance has disconnected, or the App has been uninstalled
from its installation, its token never again authenticates: whatever runs afterwards (a new enrollment
included), it pulls no event, has no status and is minted no installation token.\<close>

theorem revoked_credentials_stay_out:
  assumes "relay_ok r" "i \<in> set (r_instances r)" "in_revoked_at i = None" "in_credential_hash i = rk_hash K token"
    and revoked: "revoke_instance K now token r = (b, r1) \<or>
      set_installation_active now (in_installation i) False True r = (True, r1)"
    and runs: "relay_runs K r1 r2"
  shows "authenticate_instance K now' nonce token r2 = Inr (None, r2) \<and> instance_status K token r2 = None \<and>
    events_pull K now' nonce locked (''Bearer '' @ token) limit r2 = (Inl (response.Refused 401), r2)"
proof -
  let ?i = "i\<lparr>in_revoked_at := Some now, in_updated_at := now\<rparr>"
  have r1: "relay_ok r1"
    using revoked relay_step_ok assms(1) s_revoke s_active by metis
  have "?i \<in> set (revoke_where now p (r_instances r))" if "p i" for p
    using that in_update_whereI[OF assms(2), of "\<lambda>i. p i \<and> in_revoked_at i = None"
        "\<lambda>i. i\<lparr>in_revoked_at := Some now, in_updated_at := now\<rparr>"] assms(3)
    by (simp add: revoke_where_def)
  moreover have "\<exists>p. p i \<and> r_instances r1 = revoke_where now p (r_instances r)"
    using revoked
  proof
    assume "revoke_instance K now token r = (b, r1)"
    then show ?thesis using assms(4)
      by (intro exI[of _ "\<lambda>i. in_credential_hash i = rk_hash K token"]) (auto simp: revoke_instance_def Let_def)
  next
    assume "set_installation_active now (in_installation i) False True r = (True, r1)"
    then show ?thesis
      by (intro exI[of _ "\<lambda>j. in_installation j = in_installation i"])
         (auto simp: set_installation_active_def Let_def split: if_splits)
  qed
  ultimately have "?i \<in> set (r_instances r1)" by metis
  from revoked_row_stays_out[OF r1 this _ runs] have "?i \<in> set (r_instances r2)" "relay_ok r2" by simp_all
  from revoked_hash_refused[OF this(2,1)] have out: "authenticate_instance K now' nonce token r2 = Inr (None, r2)"
    "instance_status K token r2 = None" using assms(4) by simp_all
  then show ?thesis by (simp add: events_pull_def instance_from_authorization_def startswith_def)
qed

text \<open>A signature header outside ASCII is not answered with 401: the comparison raises.\<close>

lemma nonascii_webhook_signature_raises:
  assumes "signature \<noteq> []" "\<not> is_ascii signature" "length body \<le> MAX_WEBHOOK_BYTES"
  shows "github_webhook hmac sha ft fint key now body event delivery signature r = (Raised, r)"
  using assms by (simp add: github_webhook_def verify_github_signature_def)

section \<open>Instances\<close>

definition sample_exchange :: "string \<Rightarrow> identity option" where
  "sample_exchange given = (if given = ''ok'' then Some (1, ''me'', [\<lparr>ci_id = 7, ci_account_login = ''me'', ci_account_type = ''User''\<rparr>]) else None)"

definition sample_controls :: "int \<Rightarrow> int set" where
  "sample_controls user = (if user = 1 then {7} else {})"

lemma instances_belong_to_owners_witness:
  "\<exists>r. requests sample_keys sample_exchange empty_relay r \<and> r_codes r \<noteq> [] \<and> relay_ok r \<and>
     (\<forall>c \<in> set (r_codes r). \<exists>l \<in> set (r_installations r). il_id l = ec_installation c \<and> il_id l \<in> sample_controls (il_user_id l))"
proof -
  have honest: "honest sample_controls sample_exchange"
    by (auto simp: honest_def sample_exchange_def sample_controls_def)
  let ?r1 = "snd (github_setup sample_keys 1 ''st'' [] 7 empty_relay)"
  let ?r2 = "snd (github_callback sample_keys 2 sample_fresh ([], []) ''code'' sample_exchange ''ok'' ''st'' ?r1)"
  have "request sample_keys sample_exchange empty_relay ?r1" by (rule q_setup[OF prod.collapse[symmetric]])
  moreover have "request sample_keys sample_exchange ?r1 ?r2" by (rule q_callback[OF prod.collapse[symmetric]])
  ultimately have runs: "requests sample_keys sample_exchange empty_relay ?r2" unfolding requests_def by simp
  have "r_codes ?r2 \<noteq> []" by code_simp
  then show ?thesis using instances_belong_to_owners[OF runs honest] runs by blast
qed

lemma revoked_credentials_stay_out_witness:
  "\<exists>r1. revoke_instance sample_keys 9 ''token'' enrolled_relay = (True, r1) \<and>
     authenticate_instance sample_keys 10 [] ''token'' r1 = Inr (None, r1)"
proof -
  have "fst (revoke_instance sample_keys 9 ''token'' enrolled_relay)" by code_simp
  then obtain r1 where r1: "revoke_instance sample_keys 9 ''token'' enrolled_relay = (True, r1)"
    by (metis (full_types) prod.collapse)
  let ?i = "hd (r_instances enrolled_relay)"
  have i: "?i \<in> set (r_instances enrolled_relay)" "in_revoked_at ?i = None"
    "in_credential_hash ?i = rk_hash sample_keys ''token''"
    by (simp_all add: enrolled_relay_def sample_keys_def)
  have "relay_runs sample_keys r1 r1" by (simp add: relay_runs_def)
  from revoked_credentials_stay_out[OF enrolled_relay_ok i disjI1[OF r1] this, of 10 "[]"] show ?thesis using r1 by blast
qed

end
