(* ===== verification/Artifact.thy ===== *)
theory Artifact
  imports Json
begin

unbundle bit_operations_syntax

text \<open>
  Source artifacts (\<open>diffuse_protocol/artifact.py\<close>): a tar archive is checked member by member, given a
  manifest, and written into an empty directory of the agent's workspace.  The tar reader is a
  parameter: \<open>read_tar payload\<close> are the members it yields and whether it ends without raising.  A member
  carries the bytes \<open>extractfile\<close> reads for it; bytes are strings.  A file system lists what is below the
  destination, by the components of the path from it; the destination itself is \<open>[]\<close>.  Nobody else
  writes to it meanwhile, the process may search every directory, and the disk is not full; the
  system refuses names of more than 255 bytes and paths of 4096 bytes, so \<open>base\<close>, the bytes of the
  destination's own path, is an argument of what creates names.
\<close>

section \<open>Data\<close>

datatype artifact_error =
    Invalid_limits | Invalid_digest | Archive_too_large | Unreadable_archive
  | Empty_path | Unsafe_path | Non_canonical_path | Path_too_long | Traversal_path
  | Too_many_entries | Unsupported_member | Unsafe_mode | Duplicate_path | Collides_with_file
  | Collides_with_child | File_too_large | Workspace_too_large | Truncated_file | Oversized_file
  | Inconsistent_manifest | No_real_directory | Destination_not_empty | Manifest_mismatch
  | Changed_meanwhile | Digest_changed | Cannot_write
  | Source_not_directory | Source_symlink | Source_special

record workspace_limits =
  max_archive_bytes :: int
  max_workspace_bytes :: int
  max_entries :: int
  max_file_bytes :: int
  max_path_bytes :: int

definition DEFAULT_WORKSPACE_LIMITS :: workspace_limits where
  "DEFAULT_WORKSPACE_LIMITS =
     \<lparr>max_archive_bytes = 16 * 1024 * 1024, max_workspace_bytes = 128 * 1024 * 1024, max_entries = 20000,
      max_file_bytes = 16 * 1024 * 1024, max_path_bytes = 4096\<rparr>"

definition make_limits :: "workspace_limits \<Rightarrow> artifact_error + workspace_limits" where
  "make_limits l =
     (if list_ex (\<lambda>n. n \<le> 0)
           [max_archive_bytes l, max_workspace_bytes l, max_entries l, max_file_bytes l, max_path_bytes l]
      then Inl Invalid_limits
      else if max_file_bytes l > max_workspace_bytes l then Inl Invalid_limits
      else Inr l)"

record source_artifact =
  sa_archive :: string
  sa_manifest_digest :: "string option"

definition make_source_artifact :: "string \<Rightarrow> string option \<Rightarrow> artifact_error + source_artifact" where
  "make_source_artifact archive digest =
     (if (case digest of None \<Rightarrow> False | Some d \<Rightarrow> \<not> (length d = 64 \<and> list_all is_hex_lower d))
      then Inl Invalid_digest
      else Inr \<lparr>sa_archive = archive, sa_manifest_digest = digest\<rparr>)"

datatype entry_kind = Directory_entry | File_entry

record workspace_entry =
  en_path :: string
  en_kind :: entry_kind
  en_mode :: int
  en_size :: nat
  en_sha256 :: "string option"

record workspace_manifest =
  mf_entries :: "workspace_entry list"
  mf_file_count :: nat
  mf_total_bytes :: nat

definition entry_as_dict :: "workspace_entry \<Rightarrow> json" where
  "entry_as_dict e =
     JObj ([(''path'', JStr (en_path e)),
            (''kind'', JStr (case en_kind e of Directory_entry \<Rightarrow> ''directory'' | File_entry \<Rightarrow> ''file'')),
            (''mode'', JInt (en_mode e)), (''size'', JInt (int (en_size e)))] @
           (case en_sha256 e of None \<Rightarrow> [] | Some sha \<Rightarrow> [(''sha256'', JStr sha)]))"

definition manifest_as_dict :: "workspace_manifest \<Rightarrow> json" where
  "manifest_as_dict m =
     JObj [(''version'', JInt 1), (''entries'', JArr (map entry_as_dict (mf_entries m))),
           (''file_count'', JInt (int (mf_file_count m))), (''total_bytes'', JInt (int (mf_total_bytes m)))]"

definition manifest_digest :: "(string \<Rightarrow> string) \<Rightarrow> workspace_manifest \<Rightarrow> string" where
  "manifest_digest sha256 m = sha256 (json_dumps (manifest_as_dict m))"

definition make_manifest :: "workspace_entry list \<Rightarrow> nat \<Rightarrow> nat \<Rightarrow> artifact_error + workspace_manifest" where
  "make_manifest entries file_count total_bytes =
     (let files = filter (\<lambda>e. en_kind e = File_entry) entries in
      if file_count \<noteq> length files \<or> total_bytes \<noteq> sum_list (map en_size files) then Inl Inconsistent_manifest
      else if sort_key en_path entries \<noteq> entries then Inl Inconsistent_manifest
      else Inr \<lparr>mf_entries = entries, mf_file_count = file_count, mf_total_bytes = total_bytes\<rparr>)"

record validated_file =
  vf_path :: string
  vf_size :: nat
  vf_sha256 :: string
  vf_executable :: bool

record validated_archive =
  va_files :: "validated_file list"
  va_directories :: "string set"
  va_manifest :: workspace_manifest

datatype member_kind = Tar_directory | Tar_regular | Tar_sparse | Tar_other

record tar_member =
  tm_name :: string
  tm_kind :: member_kind
  tm_mode :: int
  tm_size :: nat
  tm_content :: string

type_synonym tar_reader = "string \<Rightarrow> tar_member list \<times> bool"

definition is_dir :: "tar_member \<Rightarrow> bool" where
  "is_dir m \<longleftrightarrow> tm_kind m = Tar_directory"

section \<open>Validation\<close>

definition canonical_member_path :: "workspace_limits \<Rightarrow> string \<Rightarrow> artifact_error + string" where
  "canonical_member_path limits name =
     (if name = [] then Inl Empty_path
      else if char_of (0 :: nat) \<in> set name \<or> char_of (92 :: nat) \<in> set name \<or> startswith name ''/''
        then Inl Unsafe_path
      else
        (let core = (if endswith name ''/'' then butlast name else name) in
         if core = [] \<or> endswith core ''/'' \<or> contains_str ''//'' core then Inl Non_canonical_path
         else if int (utf8_length core) > max_path_bytes limits then Inl Path_too_long
         else if list_ex (\<lambda>part. part \<in> {[], ''.'', ''..''}) (split_on (CHR ''/'') core) then Inl Traversal_path
         else Inr core))"

text \<open>The write bits, set-uid, set-gid and sticky; a mode's execute bits.\<close>

definition unsafe_bits :: int where "unsafe_bits = 3730"
definition execute_bits :: int where "execute_bits = 73"

definition reject_unsafe_member :: "tar_member \<Rightarrow> artifact_error unit_result" where
  "reject_unsafe_member m =
     (if tm_kind m \<notin> {Tar_directory, Tar_regular} then Inl Unsupported_member
      else if \<not> is_dir m \<and> endswith (tm_name m) ''/'' then Inl Non_canonical_path
      else if (tm_mode m AND 4095) AND unsafe_bits \<noteq> 0 then Inl Unsafe_mode
      else Inr ())"

definition parent_paths :: "string \<Rightarrow> string list" where
  "parent_paths path =
     (let parts = split_on (CHR ''/'') path in
      map (\<lambda>index. join ''/'' (take index parts)) [1..<length parts])"

definition reject_collision :: "string \<Rightarrow> bool \<Rightarrow> string set \<Rightarrow> string set \<Rightarrow> artifact_error unit_result" where
  "reject_collision path is_directory declared_paths file_paths =
     (if path \<in> declared_paths then Inl Duplicate_path
      else if list_ex (\<lambda>parent. parent \<in> file_paths) (parent_paths path) then Inl Collides_with_file
      else if \<not> is_directory \<and> (\<exists>existing \<in> declared_paths. startswith existing (path @ ''/''))
        then Inl Collides_with_child
      else Inr ())"

text \<open>The loop of \<open>_hash_member\<close> and \<open>_copy_member\<close>: the bytes read, and what is left in the source.\<close>

definition COPY_CHUNK_BYTES :: nat where "COPY_CHUNK_BYTES = 128 * 1024"

function copy_loop :: "nat \<Rightarrow> string \<Rightarrow> string \<Rightarrow> (string \<times> string) option" where
  "copy_loop remaining source output =
     (if remaining = 0 then Some (output, source)
      else
        (let chunk = take (min COPY_CHUNK_BYTES remaining) source in
         if chunk = [] then None
         else copy_loop (remaining - length chunk) (drop (length chunk) source) (output @ chunk)))"
  by auto
termination
  by (relation "measure fst") (auto simp: COPY_CHUNK_BYTES_def)

declare copy_loop.simps [simp del]

definition read_exactly :: "nat \<Rightarrow> string \<Rightarrow> artifact_error + string" where
  "read_exactly n source =
     (case copy_loop n source [] of
        None \<Rightarrow> Inl Truncated_file
      | Some (output, rest) \<Rightarrow> if rest \<noteq> [] then Inl Oversized_file else Inr output)"

definition hash_member :: "(string \<Rightarrow> string) \<Rightarrow> tar_member \<Rightarrow> artifact_error + string" where
  "hash_member sha256 m = bind_result (read_exactly (tm_size m) (tm_content m)) (\<lambda>bytes. Inr (sha256 bytes))"

record archive_scan =
  sc_files :: "validated_file list"
  sc_directories :: "string set"
  sc_paths :: "string set"
  sc_file_paths :: "string set"
  sc_entries :: nat
  sc_total_bytes :: nat

definition empty_scan :: archive_scan where
  "empty_scan =
     \<lparr>sc_files = [], sc_directories = {}, sc_paths = {}, sc_file_paths = {}, sc_entries = 0, sc_total_bytes = 0\<rparr>"

definition validated_of :: "(string \<Rightarrow> string) \<Rightarrow> string \<Rightarrow> tar_member \<Rightarrow> string \<Rightarrow> validated_file" where
  "validated_of sha256 path m digest =
     \<lparr>vf_path = path, vf_size = tm_size m, vf_sha256 = digest, vf_executable = (tm_mode m AND execute_bits \<noteq> 0)\<rparr>"

definition scan_member ::
    "workspace_limits \<Rightarrow> (string \<Rightarrow> string) \<Rightarrow> tar_member \<Rightarrow> archive_scan \<Rightarrow> artifact_error + archive_scan" where
  "scan_member limits sha256 m s =
     bind_result (canonical_member_path limits (tm_name m)) (\<lambda>path.
       if int (sc_entries s + 1) > max_entries limits then Inl Too_many_entries
       else
         bind_result (reject_unsafe_member m) (\<lambda>_.
         bind_result (reject_collision path (is_dir m) (sc_paths s) (sc_file_paths s)) (\<lambda>_.
         (let s = s\<lparr>sc_entries := sc_entries s + 1, sc_paths := insert path (sc_paths s)\<rparr> in
          if is_dir m then Inr (s\<lparr>sc_directories := insert path (sc_directories s)\<rparr>)
          else if int (tm_size m) > max_file_bytes limits then Inl File_too_large
          else if int (sc_total_bytes s + tm_size m) > max_workspace_bytes limits then Inl Workspace_too_large
          else
            bind_result (hash_member sha256 m) (\<lambda>digest.
              Inr (s\<lparr>sc_total_bytes := sc_total_bytes s + tm_size m,
                     sc_files := sc_files s @ [validated_of sha256 path m digest],
                     sc_file_paths := insert path (sc_file_paths s)\<rparr>))))))"

fun scan_members ::
    "workspace_limits \<Rightarrow> (string \<Rightarrow> string) \<Rightarrow> tar_member list \<Rightarrow> archive_scan \<Rightarrow> artifact_error + archive_scan" where
  "scan_members limits sha256 [] s = Inr s"
| "scan_members limits sha256 (m # ms) s =
     bind_result (scan_member limits sha256 m s) (scan_members limits sha256 ms)"

definition all_directories :: "string set \<Rightarrow> string list \<Rightarrow> string set" where
  "all_directories declared file_paths =
     declared \<union> (\<Union>path \<in> declared \<union> set file_paths. set (parent_paths path))"

definition file_mode :: "bool \<Rightarrow> int" where
  "file_mode executable = (if executable then 365 else 292)"

definition DIRECTORY_MODE :: int where "DIRECTORY_MODE = 365"

definition directory_entry :: "string \<Rightarrow> workspace_entry" where
  "directory_entry path =
     \<lparr>en_path = path, en_kind = Directory_entry, en_mode = DIRECTORY_MODE, en_size = 0, en_sha256 = None\<rparr>"

definition file_entry :: "validated_file \<Rightarrow> workspace_entry" where
  "file_entry f =
     \<lparr>en_path = vf_path f, en_kind = File_entry, en_mode = file_mode (vf_executable f), en_size = vf_size f,
      en_sha256 = Some (vf_sha256 f)\<rparr>"

definition archive_of_scan :: "archive_scan \<Rightarrow> artifact_error + validated_archive" where
  "archive_of_scan s =
     (let directories = all_directories (sc_directories s) (map vf_path (sc_files s));
          files = sort_key vf_path (sc_files s);
          entries = map directory_entry (sorted_list_of_set directories) @ map file_entry files in
      bind_result (make_manifest (sort_key en_path entries) (length (sc_files s)) (sc_total_bytes s)) (\<lambda>manifest.
        Inr \<lparr>va_files = files, va_directories = directories, va_manifest = manifest\<rparr>))"

definition validate_archive ::
    "tar_reader \<Rightarrow> (string \<Rightarrow> string) \<Rightarrow> workspace_limits \<Rightarrow> string \<Rightarrow> artifact_error + validated_archive" where
  "validate_archive read_tar sha256 limits payload =
     bind_result (scan_members limits sha256 (fst (read_tar payload)) empty_scan) (\<lambda>s.
       if \<not> snd (read_tar payload) then Inl Unreadable_archive else archive_of_scan s)"

section \<open>Materialisation\<close>

datatype fs_node = Fs_dir int | Fs_file int string | Fs_link | Fs_special

type_synonym fs = "(string list \<times> fs_node) list"

definition parts :: "string \<Rightarrow> string list" where
  "parts path = split_on (CHR ''/'') path"

text \<open>A name is created in a directory that exists and can be written to, where nothing has it yet - the
  names \<open>.\<close> and \<open>..\<close> are always taken, and none is empty - when the name has at most 255 bytes
  (\<open>NAME_MAX\<close>) and the whole path, \<open>destination / path\<close> in the code, less than 4096 (\<open>PATH_MAX\<close>).\<close>

definition name_fits :: "string \<Rightarrow> bool" where
  "name_fits name \<longleftrightarrow> utf8_length name \<le> 255"

definition path_fits :: "nat \<Rightarrow> string list \<Rightarrow> bool" where
  "path_fits base path \<longleftrightarrow> base + 1 + utf8_length (join ''/'' path) < 4096"

definition can_create :: "nat \<Rightarrow> string list \<Rightarrow> fs \<Rightarrow> bool" where
  "can_create base path files \<longleftrightarrow>
     path \<noteq> [] \<and> last path \<notin> {[], ''.'', ''..''} \<and> name_fits (last path) \<and> path_fits base path \<and>
     map_of files path = None \<and>
     (case map_of files (butlast path) of Some (Fs_dir mode) \<Rightarrow> mode AND 128 \<noteq> 0 | _ \<Rightarrow> False)"

definition fs_mkdir :: "nat \<Rightarrow> int \<Rightarrow> string list \<Rightarrow> fs \<Rightarrow> artifact_error + fs" where
  "fs_mkdir base mode path files =
     (if can_create base path files then Inr (AList.update path (Fs_dir mode) files) else Inl Cannot_write)"

definition fs_chmod :: "int \<Rightarrow> string list \<Rightarrow> fs \<Rightarrow> artifact_error + fs" where
  "fs_chmod mode path files =
     (case map_of files path of
        Some (Fs_dir _) \<Rightarrow> Inr (AList.update path (Fs_dir mode) files)
      | Some (Fs_file _ content) \<Rightarrow> Inr (AList.update path (Fs_file mode content) files)
      | _ \<Rightarrow> Inl Cannot_write)"

definition copy_member ::
    "nat \<Rightarrow> (string \<Rightarrow> string) \<Rightarrow> tar_member \<Rightarrow> string list \<Rightarrow> validated_file \<Rightarrow> fs \<Rightarrow> artifact_error + fs" where
  "copy_member base sha256 m destination expected files =
     (if \<not> can_create base destination files then Inl Cannot_write
      else
        bind_result (read_exactly (vf_size expected) (tm_content m)) (\<lambda>bytes.
          if sha256 bytes \<noteq> vf_sha256 expected then Inl Digest_changed
          else Inr (AList.update destination (Fs_file (file_mode (vf_executable expected)) bytes) files)))"

definition write_member ::
    "nat \<Rightarrow> workspace_limits \<Rightarrow> (string \<Rightarrow> string) \<Rightarrow> validated_archive \<Rightarrow> tar_member \<Rightarrow> fs \<Rightarrow> artifact_error + fs" where
  "write_member base limits sha256 validated m files =
     (if is_dir m then Inr files
      else
        bind_result (canonical_member_path limits (tm_name m)) (\<lambda>path.
          (case find (\<lambda>f. vf_path f = path) (va_files validated) of
             None \<Rightarrow> Inl Changed_meanwhile
           | Some expected \<Rightarrow> copy_member base sha256 m (parts path) expected files)))"

definition directory_order :: "string \<Rightarrow> nat \<times> string" where
  "directory_order path = (count_char (CHR ''/'') path, path)"

definition write_validated_archive ::
    "nat \<Rightarrow> tar_reader \<Rightarrow> (string \<Rightarrow> string) \<Rightarrow> workspace_limits \<Rightarrow> string \<Rightarrow> validated_archive \<Rightarrow> fs \<Rightarrow> artifact_error + fs" where
  "write_validated_archive base read_tar sha256 limits payload validated files =
     bind_result
       (fold_result (\<lambda>path. fs_mkdir base 448 (parts path))
          (sort_key directory_order (sorted_list_of_set (va_directories validated))) files) (\<lambda>files.
     bind_result (fold_result (write_member base limits sha256 validated) (fst (read_tar payload)) files) (\<lambda>files.
       if \<not> snd (read_tar payload) then Inl Unreadable_archive else Inr files))"

text \<open>\<open>sorted(\<dots>, reverse=True)\<close> keeps the order of equal keys.\<close>

definition make_tree_read_only :: "workspace_entry list \<Rightarrow> fs \<Rightarrow> artifact_error + fs" where
  "make_tree_read_only entries files =
     (let directories = map en_path (filter (\<lambda>e. en_kind e = Directory_entry) entries);
          deepest_first = rev (sort_key (count_char (CHR ''/'')) (rev directories)) in
      bind_result (fold_result (\<lambda>path. fs_chmod DIRECTORY_MODE (parts path)) deepest_first files) (\<lambda>files.
        fs_chmod DIRECTORY_MODE [] files))"

definition require_empty_real_directory :: "fs \<Rightarrow> artifact_error unit_result" where
  "require_empty_real_directory files =
     (case map_of files [] of
        Some (Fs_dir _) \<Rightarrow> if list_ex (\<lambda>(path, _). length path = 1) files then Inl Destination_not_empty else Inr ()
      | _ \<Rightarrow> Inl No_real_directory)"

definition materialize_source_artifact ::
    "nat \<Rightarrow> tar_reader \<Rightarrow> (string \<Rightarrow> string) \<Rightarrow> workspace_limits \<Rightarrow> source_artifact \<Rightarrow> fs \<Rightarrow>
     artifact_error + workspace_manifest \<times> fs" where
  "materialize_source_artifact base read_tar sha256 limits artifact files =
     (if int (length (sa_archive artifact)) > max_archive_bytes limits then Inl Archive_too_large
      else
        bind_result (require_empty_real_directory files) (\<lambda>_.
        bind_result (validate_archive read_tar sha256 limits (sa_archive artifact)) (\<lambda>validated.
          if (case sa_manifest_digest artifact of
                None \<Rightarrow> False | Some d \<Rightarrow> d \<noteq> manifest_digest sha256 (va_manifest validated))
          then Inl Manifest_mismatch
          else
            bind_result (write_validated_archive base read_tar sha256 limits (sa_archive artifact) validated files) (\<lambda>files.
            bind_result (make_tree_read_only (mf_entries (va_manifest validated)) files) (\<lambda>files.
              Inr (va_manifest validated, files))))))"

section \<open>Building\<close>

text \<open>
  A checkout as \<open>lstat\<close> and \<open>scandir\<close> show it: the permission bits and bytes of a file, the children of a
  directory in any order.  It does not change while it is read, so the identity checks of the descriptors
  hold.  \<open>tell\<close> is the size of the archive with the given members written, \<open>write_tar\<close> the finished archive.
\<close>

datatype source_node = Src_dir "(string \<times> source_node) list" | Src_file int string | Src_link | Src_special

record build_state =
  bs_entries :: nat
  bs_total_bytes :: nat
  bs_members :: "tar_member list"

definition add_entry :: "workspace_limits \<Rightarrow> string \<Rightarrow> build_state \<Rightarrow> artifact_error + build_state" where
  "add_entry limits path st =
     (if int (bs_entries st + 1) > max_entries limits then Inl Too_many_entries
      else
        bind_result (canonical_member_path limits path) (\<lambda>_. Inr (st\<lparr>bs_entries := bs_entries st + 1\<rparr>)))"

definition add_file :: "workspace_limits \<Rightarrow> nat \<Rightarrow> build_state \<Rightarrow> artifact_error + build_state" where
  "add_file limits bytes st =
     (if int bytes > max_file_bytes limits then Inl File_too_large
      else if int (bs_total_bytes st + bytes) > max_workspace_bytes limits then Inl Workspace_too_large
      else Inr (st\<lparr>bs_total_bytes := bs_total_bytes st + bytes\<rparr>))"

definition check_archive_size :: "workspace_limits \<Rightarrow> nat \<Rightarrow> artifact_error unit_result" where
  "check_archive_size limits bytes = (if int bytes > max_archive_bytes limits then Inl Archive_too_large else Inr ())"

definition directory_member :: "string \<Rightarrow> tar_member" where
  "directory_member path =
     \<lparr>tm_name = path @ ''/'', tm_kind = Tar_directory, tm_mode = 365, tm_size = 0, tm_content = []\<rparr>"

definition file_member :: "string \<Rightarrow> int \<Rightarrow> string \<Rightarrow> tar_member" where
  "file_member path mode content =
     \<lparr>tm_name = path, tm_kind = Tar_regular, tm_mode = (if mode AND 73 \<noteq> 0 then 365 else 292),
      tm_size = length content, tm_content = content\<rparr>"

definition child_path :: "string \<Rightarrow> string \<Rightarrow> string" where
  "child_path relative name = (if relative = [] then name else relative @ ''/'' @ name)"

definition written :: "tar_member \<Rightarrow> build_state \<Rightarrow> build_state" where
  "written m st = st\<lparr>bs_members := bs_members st @ [m]\<rparr>"

lemma size_list_sort_key: "size_list f (sort_key k xs) = size_list f xs"
proof -
  have "size_list f (insort_key k x xs) = Suc (f x + size_list f xs)" for x xs
    by (induction xs) auto
  then show ?thesis by (induction xs) auto
qed

text \<open>\<open>_add_source_directory\<close> on the sorted children of the directory \<open>relative\<close>.\<close>

function add_children ::
    "(tar_member list \<Rightarrow> nat) \<Rightarrow> workspace_limits \<Rightarrow> string \<Rightarrow> (string \<times> source_node) list \<Rightarrow> build_state \<Rightarrow>
     artifact_error + build_state" where
  "add_children tell limits relative [] st = Inr st"
| "add_children tell limits relative ((name, node) # rest) st =
     (if relative = [] \<and> name = ''.git'' then add_children tell limits relative rest st
      else
        bind_result (canonical_member_path limits (child_path relative name)) (\<lambda>path.
        bind_result
          (case node of
             Src_link \<Rightarrow> Inl Source_symlink
           | Src_dir children \<Rightarrow>
               bind_result (add_entry limits path st) (\<lambda>st.
               bind_result (check_archive_size limits (tell (bs_members (written (directory_member path) st)))) (\<lambda>_.
                 add_children tell limits path (sort_key fst children) (written (directory_member path) st)))
           | Src_file mode content \<Rightarrow>
               bind_result (add_entry limits path st) (\<lambda>st.
               bind_result (add_file limits (length content) st) (\<lambda>st.
               bind_result (check_archive_size limits (tell (bs_members (written (file_member path mode content) st)))) (\<lambda>_.
                 Inr (written (file_member path mode content) st))))
           | Src_special \<Rightarrow> Inl Source_special)
          (add_children tell limits relative rest)))"
  by pat_completeness auto
termination
  by (relation "measure (\<lambda>(tell, limits, relative, children, st). size_list (size_prod (\<lambda>_. 0) size) children)")
     (auto simp: size_list_sort_key)

definition empty_build :: build_state where
  "empty_build = \<lparr>bs_entries = 0, bs_total_bytes = 0, bs_members = []\<rparr>"

definition build_source_artifact ::
    "tar_reader \<Rightarrow> (tar_member list \<Rightarrow> string) \<Rightarrow> (tar_member list \<Rightarrow> nat) \<Rightarrow> (string \<Rightarrow> string) \<Rightarrow> workspace_limits \<Rightarrow>
     source_node \<Rightarrow> artifact_error + source_artifact" where
  "build_source_artifact read_tar write_tar tell sha256 limits source_root =
     (case source_root of
        Src_dir children \<Rightarrow>
          bind_result (add_children tell limits [] (sort_key fst children) empty_build) (\<lambda>st.
          bind_result (check_archive_size limits (tell (bs_members st))) (\<lambda>_.
            (let payload = write_tar (bs_members st) in
             if int (length payload) > max_archive_bytes limits then Inl Archive_too_large
             else
               bind_result (validate_archive read_tar sha256 limits payload) (\<lambda>validated.
                 make_source_artifact payload (Some (manifest_digest sha256 (va_manifest validated)))))))
      | _ \<Rightarrow> Inl Source_not_directory)"

end
