(* ===== verification/Artifact_Scan.thy ===== *)
theory Artifact_Scan
  imports Artifact "HOL-Library.Multiset"
begin

text \<open>
  What validation accepts, said without the order of the members: \<open>safe_members\<close>.  The scan of an archive
  succeeds exactly on safe members and then holds \<open>scan_of\<close> them.
\<close>

section \<open>Paths\<close>

lemma split_on_append:
  "split_on sep (p @ sep # s) = split_on sep p @ split_on sep s"
proof (induction p)
  case (Cons c cs)
  then show ?case by (cases "split_on sep cs") auto
qed simp

lemma parts_ne [simp]: "parts p \<noteq> []"
  by (simp add: parts_def)

lemma join_parts [simp]: "join ''/'' (parts p) = p"
  by (simp add: parts_def join_split_on)

lemma parts_inj [simp]: "parts p = parts q \<longleftrightarrow> p = q"
  by (metis join_parts)

lemma parts_no_slash: "x \<in> set (parts p) \<Longrightarrow> CHR ''/'' \<notin> set x"
  by (auto simp: parts_def dest: split_on_no_sep)

lemma parts_join: "ps \<noteq> [] \<Longrightarrow> \<forall>x \<in> set ps. CHR ''/'' \<notin> set x \<Longrightarrow> parts (join ''/'' ps) = ps"
  by (simp add: parts_def split_on_join)

lemma parts_join_take:
  "0 < i \<Longrightarrow> parts (join ''/'' (take i (parts p))) = take i (parts p)"
  by (rule parts_join) (auto dest: in_set_takeD parts_no_slash)

lemma join_append_ne:
  "ps \<noteq> [] \<Longrightarrow> qs \<noteq> [] \<Longrightarrow> join sep (ps @ qs) = join sep ps @ sep @ join sep qs"
proof (induction sep ps rule: join.induct)
  case (2 sep x)
  then show ?case by (cases qs) auto
qed auto

lemma startswith_slash_iff: "startswith q (p @ ''/'') \<longleftrightarrow> strict_prefix (parts p) (parts q)"
proof
  assume "startswith q (p @ ''/'')"
  then obtain t where "q = p @ CHR ''/'' # t" by (auto simp: startswith_iff)
  then have "parts q = parts p @ parts t" by (simp add: parts_def split_on_append)
  then show "strict_prefix (parts p) (parts q)" by (simp add: strict_prefix_def prefix_def)
next
  assume "strict_prefix (parts p) (parts q)"
  then obtain z zs where "parts q = parts p @ z # zs" by (rule strict_prefixE')
  then obtain r where r: "parts q = parts p @ r" "r \<noteq> []" by simp
  have "q = join ''/'' (parts p @ r)" using r(1) by (metis join_parts)
  then have "q = p @ ''/'' @ join ''/'' r" using r(2) by (simp add: join_append_ne)
  then show "startswith q (p @ ''/'')" by (auto simp: startswith_iff)
qed

lemma parent_paths_iff: "d \<in> set (parent_paths p) \<longleftrightarrow> strict_prefix (parts d) (parts p)"
proof -
  have "d \<in> set (parent_paths p) \<longleftrightarrow> (\<exists>i. 1 \<le> i \<and> i < length (parts p) \<and> d = join ''/'' (take i (parts p)))"
    by (auto simp: parent_paths_def parts_def[symmetric] Let_def)
  also have "\<dots> \<longleftrightarrow> (\<exists>i. 1 \<le> i \<and> i < length (parts p) \<and> parts d = take i (parts p))"
    using parts_join_take by (metis join_parts less_le_trans zero_less_one)
  also have "\<dots> \<longleftrightarrow> strict_prefix (parts d) (parts p)"
  proof
    assume "\<exists>i. 1 \<le> i \<and> i < length (parts p) \<and> parts d = take i (parts p)"
    then show "strict_prefix (parts d) (parts p)"
      by (metis length_take min_less_iff_conj nat_less_le order_less_irrefl strict_prefix_def take_is_prefix)
  next
    assume "strict_prefix (parts d) (parts p)"
    then obtain z zs where "parts p = parts d @ z # zs" by (rule strict_prefixE')
    then obtain r where r: "parts p = parts d @ r" "r \<noteq> []" by simp
    then show "\<exists>i. 1 \<le> i \<and> i < length (parts p) \<and> parts d = take i (parts p)"
      by (intro exI[of _ "length (parts d)"]) (simp add: Suc_le_eq)
  qed
  finally show ?thesis .
qed

text \<open>A canonical path, by its components: none of them empty, a step in place or upwards, or with a
  slash, a backslash or a NUL in it.\<close>

definition canonical_parts :: "string list \<Rightarrow> bool" where
  "canonical_parts ps \<longleftrightarrow>
     ps \<noteq> [] \<and>
     (\<forall>part \<in> set ps. part \<noteq> [] \<and> part \<noteq> ''.'' \<and> part \<noteq> ''..'' \<and>
        CHR ''/'' \<notin> set part \<and> CHR 0x5C \<notin> set part \<and> CHR 0x00 \<notin> set part)"

text \<open>A name without the slash that may end it.\<close>

definition without_slash :: "string \<Rightarrow> string" where
  "without_slash name = (if name \<noteq> [] \<and> last name = CHR ''/'' then butlast name else name)"

lemma without_slash_cases: "name = without_slash name \<or> name = without_slash name @ ''/''"
  by (auto simp: without_slash_def) (metis append_butlast_last_id)

lemma endswith_slash: "endswith name ''/'' \<longleftrightarrow> name \<noteq> [] \<and> last name = CHR ''/''"
  by (auto simp: endswith_iff) (metis append_butlast_last_id)

lemma set_join_parts: "c \<noteq> CHR ''/'' \<Longrightarrow> c \<in> set p \<longleftrightarrow> (\<exists>part \<in> set (parts p). c \<in> set part)"
proof (induction p)
  case (Cons x p)
  then show ?case by (cases "split_on (CHR ''/'') p") (auto simp: parts_def)
qed (simp add: parts_def)

lemma empty_part:
  "startswith p ''/'' \<Longrightarrow> [] \<in> set (parts p)" "endswith p ''/'' \<Longrightarrow> [] \<in> set (parts p)"
  "contains_str ''//'' p \<Longrightarrow> [] \<in> set (parts p)" "p = [] \<Longrightarrow> [] \<in> set (parts p)"
proof -
  have at: "parts (a @ CHR ''/'' # b) = parts a @ parts b" for a b by (simp add: parts_def split_on_append)
  have nil: "parts [] = [[]]" by (simp add: parts_def)
  show "startswith p ''/'' \<Longrightarrow> [] \<in> set (parts p)" using at[of "[]"] nil by (auto simp: startswith_iff)
  show "endswith p ''/'' \<Longrightarrow> [] \<in> set (parts p)" using at[of _ "[]"] nil by (auto simp: endswith_iff)
  show "contains_str ''//'' p \<Longrightarrow> [] \<in> set (parts p)"
  proof -
    assume "contains_str ''//'' p"
    then obtain a b where "p = a @ CHR ''/'' # ([] @ CHR ''/'' # b)" by (auto simp: contains_str_iff)
    then show ?thesis using at[of a "[] @ CHR ''/'' # b"] at[of "[]" b] nil by simp
  qed
  show "p = [] \<Longrightarrow> [] \<in> set (parts p)" using nil by simp
qed

lemma nul_char: "char_of (0 :: nat) = CHR 0x00" "char_of (92 :: nat) = CHR 0x5C"
  by code_simp+

lemma canonical_path_iff:
  "canonical_member_path limits name = Inr path \<longleftrightarrow>
     path = without_slash name \<and> canonical_parts (parts path) \<and> int (utf8_length path) \<le> max_path_bytes limits"
proof
  have core: "(if endswith name ''/'' then butlast name else name) = without_slash name"
    by (simp add: endswith_slash without_slash_def)
  {
    assume h: "canonical_member_path limits name = Inr path"
    then have c: "path = without_slash name" "CHR 0x00 \<notin> set name" "CHR 0x5C \<notin> set name"
      "int (utf8_length path) \<le> max_path_bytes limits"
      "\<not> list_ex (\<lambda>part. part \<in> {[], ''.'', ''..''}) (parts path)"
      unfolding canonical_member_path_def core Let_def guard_Inr nul_char parts_def sum.inject by (elim conjE, simp add: not_less)+
    from c(5) have c5: "\<forall>part \<in> set (parts path). part \<notin> {[], ''.'', ''..''}" by (simp only: list_ex_iff) blast
    have sub: "set path \<subseteq> set name" unfolding c(1) by (auto simp: without_slash_def dest: in_set_butlastD)
    then have free: "CHR 0x00 \<notin> set path" "CHR 0x5C \<notin> set path" using c(2,3) by blast+
    have "canonical_parts (parts path)"
      unfolding canonical_parts_def
    proof (intro conjI parts_ne ballI)
      fix part assume part: "part \<in> set (parts path)"
      show "part \<noteq> []" "part \<noteq> ''.''" "part \<noteq> ''..''" using c5 part by blast+
      show "CHR ''/'' \<notin> set part" using part by (rule parts_no_slash)
      have "CHR 0x5C \<noteq> CHR ''/''" "CHR 0x00 \<noteq> CHR ''/''" by simp_all
      then show "CHR 0x5C \<notin> set part" "CHR 0x00 \<notin> set part"
        using free part set_join_parts by blast+
    qed
    then show "path = without_slash name \<and> canonical_parts (parts path) \<and> int (utf8_length path) \<le> max_path_bytes limits"
      using c(1,4) by blast
  }
  assume h: "path = without_slash name \<and> canonical_parts (parts path) \<and> int (utf8_length path) \<le> max_path_bytes limits"
  then have p: "path = without_slash name" "[] \<notin> set (parts path)" by (auto simp: canonical_parts_def)
  have len: "int (utf8_length path) \<le> max_path_bytes limits" using h by blast
  have free: "CHR 0x00 \<notin> set path" "CHR 0x5C \<notin> set path"
    using h set_join_parts[of "CHR 0x00" path] set_join_parts[of "CHR 0x5C" path] unfolding canonical_parts_def
    by auto
  have e: "path \<noteq> []" "\<not> startswith path ''/''" "\<not> endswith path ''/''" "\<not> contains_str ''//'' path"
    using empty_part p(2) by blast+
  have "\<not> startswith name ''/''" "name \<noteq> []" "CHR 0x00 \<notin> set name" "CHR 0x5C \<notin> set name"
    proof -
    consider "name = path" | "name = path @ ''/''" using without_slash_cases[of name] p(1) by blast
    note cases = this
    obtain c cs where path: "path = c # cs" using e(1) by (cases path) auto
    have c: "c \<noteq> CHR ''/''" using e(2) unfolding path by (simp add: startswith_def)
    obtain ds where name: "name = c # ds" using cases unfolding path by (metis append_Cons)
    then show "name \<noteq> []" "\<not> startswith name ''/''" using c by (simp_all add: startswith_def)
    show "CHR 0x00 \<notin> set name" by (rule cases) (use free in simp_all)
    show "CHR 0x5C \<notin> set name" by (rule cases) (use free in simp_all)
  qed
  moreover have "\<not> list_ex (\<lambda>part. part \<in> {[], ''.'', ''..''}) (split_on (CHR ''/'') path)"
    using h by (auto simp: canonical_parts_def list_ex_iff parts_def)
  ultimately show "canonical_member_path limits name = Inr path"
    unfolding canonical_member_path_def core Let_def p(1)[symmetric] nul_char using e len by (simp add: not_less)
qed

lemma canonical_pathD:
  assumes "canonical_member_path limits name = Inr path"
  shows "canonical_parts (parts path)" "int (utf8_length path) \<le> max_path_bytes limits"
    "path = name \<or> name = path @ ''/''"
  using assms without_slash_cases[of name] by (auto simp: canonical_path_iff)

section \<open>Modes\<close>

text \<open>The bits no member may have: writing by others, by the group and by the owner, sticky, set-gid and
  set-uid.\<close>

definition unsafe_mode_bits :: "nat list" where
  "unsafe_mode_bits = [1, 4, 7, 9, 10, 11]"

lemma unsafe_mode_iff: "(mode AND 4095) AND unsafe_bits \<noteq> 0 \<longleftrightarrow> (\<exists>i \<in> set unsafe_mode_bits. bit mode i)" for mode :: int
proof -
  have "bit (3730 :: int) i \<longleftrightarrow> i \<in> set unsafe_mode_bits" for i
  proof -
    have "(3730 :: int) = 2 ^ 1 OR 2 ^ 4 OR 2 ^ 7 OR 2 ^ 9 OR 2 ^ 10 OR 2 ^ 11" by simp
    then show ?thesis by (simp only: bit_or_iff bit_exp_iff) (auto simp: unsafe_mode_bits_def)
  qed
  moreover have "(4095 :: int) AND 3730 = 3730" by simp
  then have "(mode AND 4095) AND unsafe_bits = mode AND 3730" by (simp add: unsafe_bits_def and.assoc)
  ultimately show ?thesis by (auto simp: bit_eq_iff bit_and_iff)
qed

section \<open>Reading\<close>

lemma copy_loop_spec:
  "copy_loop n given acc = (if length given < n then None else Some (acc @ take n given, drop n given))"
proof (induction n given acc rule: copy_loop.induct)
  case (1 n given acc)
  let ?chunk = "take (min COPY_CHUNK_BYTES n) given"
  show ?case
  proof (cases "n = 0 \<or> given = []")
    case True
    then show ?thesis by (auto simp: copy_loop.simps[of n])
  next
    case False
    then have ne: "?chunk \<noteq> []" by (simp add: COPY_CHUNK_BYTES_def)
    let ?k = "length ?chunk"
    have k: "?k \<le> n" "?k \<le> length given" by auto
    have "?chunk = take ?k given" by (metis append_eq_conv_conj append_take_drop_id)
    note k = k this
    have split: "take n given = ?chunk @ take (n - ?k) (drop ?k given)"
      using k by (metis le_add_diff_inverse take_add)
    have step: "copy_loop n given acc = copy_loop (n - ?k) (drop ?k given) (acc @ ?chunk)"
      using False ne by (subst copy_loop.simps) (simp add: Let_def del: take_eq_Nil take_eq_Nil2)
    have "copy_loop (n - ?k) (drop ?k given) (acc @ ?chunk) =
      (if length (drop ?k given) < n - ?k then None
       else Some ((acc @ ?chunk) @ take (n - ?k) (drop ?k given), drop (n - ?k) (drop ?k given)))"
      using 1 False ne by (simp add: Let_def)
    moreover have "length (drop ?k given) < n - ?k \<longleftrightarrow> length given < n" using k(1,2) by (simp del: length_take) linarith
    moreover have "drop (n - ?k) (drop ?k given) = drop n given" using k(1) by (simp del: length_take)
    moreover have "(acc @ ?chunk) @ take (n - ?k) (drop ?k given) = acc @ take n given" by (simp only: split append_assoc)
    ultimately show ?thesis using step by (simp only: if_distrib)
  qed
qed

text \<open>Reading succeeds exactly when the source has the declared size.\<close>

lemma read_exactly_spec:
  "read_exactly n source = (if length source < n then Inl Truncated_file else if n < length source then Inl Oversized_file
     else Inr source)"
  by (auto simp: read_exactly_def copy_loop_spec)

declare read_exactly_spec [code]

section \<open>The members of an accepted archive\<close>

text \<open>Said of a member by itself: its path is canonical and not too long; it is an ordinary file or a
  directory, without a write bit or a special bit, only a directory's name may end in a slash; and a
  file is within its size and as long as it says.\<close>

definition member_path :: "tar_member \<Rightarrow> string" where
  "member_path m = without_slash (tm_name m)"

definition member_ok :: "workspace_limits \<Rightarrow> tar_member \<Rightarrow> bool" where
  "member_ok limits m \<longleftrightarrow>
     canonical_parts (parts (member_path m)) \<and> int (utf8_length (member_path m)) \<le> max_path_bytes limits \<and>
     tm_kind m \<in> {Tar_directory, Tar_regular} \<and> (\<forall>i \<in> set unsafe_mode_bits. \<not> bit (tm_mode m) i) \<and>
     (is_dir m \<or> last (tm_name m) \<noteq> CHR ''/'' \<and>
        int (tm_size m) \<le> max_file_bytes limits \<and> length (tm_content m) = tm_size m)"

lemma reject_unsafe_iff:
  assumes "tm_name m \<noteq> []"
  shows "reject_unsafe_member m = Inr () \<longleftrightarrow>
    tm_kind m \<in> {Tar_directory, Tar_regular} \<and> (\<forall>i \<in> set unsafe_mode_bits. \<not> bit (tm_mode m) i) \<and>
    (is_dir m \<or> last (tm_name m) \<noteq> CHR ''/'')"
  using assms unfolding reject_unsafe_member_def unsafe_mode_iff endswith_slash by auto

lemma member_ok_iff:
  "member_ok limits m \<longleftrightarrow>
     canonical_member_path limits (tm_name m) = Inr (member_path m) \<and> reject_unsafe_member m = Inr () \<and>
     (is_dir m \<or> int (tm_size m) \<le> max_file_bytes limits \<and> length (tm_content m) = tm_size m)"
proof -
  have "tm_name m = [] \<Longrightarrow> \<not> canonical_parts (parts (member_path m))"
    by (simp add: member_path_def without_slash_def canonical_parts_def parts_def)
  then show ?thesis
    unfolding member_ok_def canonical_path_iff member_path_def[symmetric]
    using reject_unsafe_iff[of m] by auto
qed

definition file_members :: "tar_member list \<Rightarrow> tar_member list" where
  "file_members ms = filter (\<lambda>m. \<not> is_dir m) ms"

definition safe_members :: "workspace_limits \<Rightarrow> tar_member list \<Rightarrow> bool" where
  "safe_members limits ms \<longleftrightarrow>
     (\<forall>m \<in> set ms. member_ok limits m) \<and>
     int (length ms) \<le> max_entries limits \<and>
     int (sum_list (map tm_size (file_members ms))) \<le> max_workspace_bytes limits \<and>
     distinct (map (member_path) ms) \<and>
     (\<forall>m \<in> set ms. \<forall>q \<in> set ms. \<not> is_dir m \<longrightarrow>
        \<not> strict_prefix (parts (member_path m)) (parts (member_path q)))"

definition file_of :: "(string \<Rightarrow> string) \<Rightarrow> tar_member \<Rightarrow> validated_file" where
  "file_of sha256 m = validated_of sha256 (member_path m) m (sha256 (tm_content m))"

definition scan_of :: "(string \<Rightarrow> string) \<Rightarrow> tar_member list \<Rightarrow> archive_scan" where
  "scan_of sha256 ms =
     \<lparr>sc_files = map (file_of sha256) (file_members ms),
      sc_directories = member_path ` set (filter is_dir ms),
      sc_paths = member_path ` set ms,
      sc_file_paths = member_path ` set (file_members ms),
      sc_entries = length ms,
      sc_total_bytes = sum_list (map tm_size (file_members ms))\<rparr>"

lemma scan_members_append:
  "scan_members limits sha256 (xs @ ys) s = bind_result (scan_members limits sha256 xs s) (scan_members limits sha256 ys)"
  by (induction xs arbitrary: s) (auto simp: bind_result_def split: sum.splits)

lemma safe_members_prefix: "safe_members limits (ms @ [m]) \<Longrightarrow> safe_members limits ms"
  by (auto simp: safe_members_def file_members_def)

lemma reject_collision_iff:
  assumes "p = member_path m"
  shows "reject_collision p (is_dir m) (member_path ` set ms) (member_path ` set (file_members ms)) = Inr () \<longleftrightarrow>
    p \<notin> member_path ` set ms \<and>
    (\<forall>q \<in> set ms. \<not> is_dir q \<longrightarrow> \<not> strict_prefix (parts (member_path q)) (parts p)) \<and>
    (\<not> is_dir m \<longrightarrow> (\<forall>q \<in> set ms. \<not> strict_prefix (parts p) (parts (member_path q))))"
  by (auto simp: reject_collision_def guard_Inr list_ex_iff parent_paths_iff startswith_slash_iff file_members_def)

lemma hash_member_iff:
  "hash_member sha256 m = Inr d \<longleftrightarrow> length (tm_content m) = tm_size m \<and> d = sha256 (tm_content m)"
  by (auto simp: hash_member_def read_exactly_spec bind_result_Inr_iff)

lemma member_path_eq: "canonical_member_path limits (tm_name m) = Inr path \<Longrightarrow> member_path m = path"
  by (simp add: member_path_def canonical_path_iff)

lemma scan_member_iff:
  assumes "make_limits limits = Inr limits" "safe_members limits ms"
  shows "scan_member limits sha256 m (scan_of sha256 ms) = Inr s \<longleftrightarrow>
    safe_members limits (ms @ [m]) \<and> s = scan_of sha256 (ms @ [m])"
proof (cases "canonical_member_path limits (tm_name m) = Inr (member_path m)")
  case False
  then have "\<not> member_ok limits m" by (simp add: member_ok_iff)
  moreover have "canonical_member_path limits (tm_name m) \<noteq> Inr path" for path
    using False member_path_eq by metis
  ultimately show ?thesis by (auto simp: scan_member_def safe_members_def bind_result_Inr_iff)
next
  case True
  let ?p = "member_path m"
  let ?clear = "reject_collision ?p (is_dir m) (member_path ` set ms) (member_path ` set (file_members ms)) = Inr ()"
  have safe: "safe_members limits (ms @ [m]) \<longleftrightarrow> member_ok limits m \<and> int (length ms + 1) \<le> max_entries limits \<and>
      (is_dir m \<or> int (sum_list (map tm_size (file_members ms)) + tm_size m) \<le> max_workspace_bytes limits) \<and> ?clear"
    using assms(2) unfolding reject_collision_iff[OF refl] safe_members_def
    by (auto simp: file_members_def)
  show ?thesis unfolding safe
    by (cases "is_dir m")
       (auto simp: scan_member_def scan_of_def True bind_result_Inr_iff guard_Inr Let_def member_ok_iff hash_member_iff
          file_of_def file_members_def not_less)
qed

lemma scan_members_iff:
  assumes "make_limits limits = Inr limits"
  shows "scan_members limits sha256 ms empty_scan = Inr s \<longleftrightarrow> safe_members limits ms \<and> s = scan_of sha256 ms"
proof (induction ms arbitrary: s rule: rev_induct)
  case Nil
  have "0 \<le> max_entries limits \<and> 0 \<le> max_workspace_bytes limits"
    using assms by (simp add: make_limits_def split: if_splits)
  then show ?case by (auto simp: safe_members_def scan_of_def file_members_def empty_scan_def)
next
  case (snoc m ms)
  have "scan_members limits sha256 (ms @ [m]) empty_scan = Inr s \<longleftrightarrow>
    safe_members limits ms \<and> scan_member limits sha256 m (scan_of sha256 ms) = Inr s"
    unfolding scan_members_append by (auto simp: bind_result_Inr_iff snoc.IH)
  then show ?case using scan_member_iff[OF assms] safe_members_prefix by blast
qed

section \<open>The manifest\<close>

definition archive_of :: "(string \<Rightarrow> string) \<Rightarrow> tar_member list \<Rightarrow> validated_archive" where
  "archive_of sha256 ms =
     (let files = map (file_of sha256) (file_members ms);
          directories = all_directories (member_path ` set (filter is_dir ms)) (map vf_path files);
          entries = map directory_entry (sorted_list_of_set directories) @ map file_entry (sort_key vf_path files) in
      \<lparr>va_files = sort_key vf_path files, va_directories = directories,
       va_manifest = \<lparr>mf_entries = sort_key en_path entries, mf_file_count = length files,
         mf_total_bytes = sum_list (map vf_size files)\<rparr>\<rparr>)"

lemma sum_list_sort_key: "sum_list (map g (sort_key f xs)) = (sum_list (map g xs) :: nat)"
  by (metis mset_map mset_sort sum_mset_sum_list)

lemma files_of_entries:
  "filter (\<lambda>e. en_kind e = File_entry) (sort_key en_path (map directory_entry ds @ map file_entry fs)) =
   sort_key en_path (map file_entry fs)"
  by (simp add: filter_sort directory_entry_def file_entry_def comp_def)

lemma archive_of_scan_total:
  "archive_of_scan (scan_of sha256 ms) = Inr (archive_of sha256 ms)"
proof -
  have sizes: "map en_size (map file_entry fs) = map vf_size fs" for fs by (simp add: file_entry_def)
  have "map vf_size (map (file_of sha256) fs) = map tm_size fs" for fs
    by (simp add: file_of_def validated_of_def)
  then show ?thesis
    unfolding archive_of_scan_def archive_of_def scan_of_def make_manifest_def Let_def files_of_entries
    by (simp add: sum_list_sort_key sizes sort_key_id_if_sorted del: map_map)
qed

text \<open>C35: Validation accepts exactly the safe archives, whatever the order of their members: every path is
canonical - relative, within its length, no component empty or a dot or two, no backslash and no NUL - and
every member an ordinary file or a directory with none of the write, set-uid, set-gid and sticky bits; no two
paths are equal and no file's is a proper prefix of another; each file has its declared size and is within
its limit; and the numbers of entries and bytes are within theirs.\<close>

theorem archive_accepted_iff_safe:
  assumes "make_limits limits = Inr limits"
  shows "(\<exists>va. validate_archive read_tar sha256 limits payload = Inr va) \<longleftrightarrow>
    snd (read_tar payload) \<and> safe_members limits (fst (read_tar payload))"
  using scan_members_iff[OF assms] by (auto simp: validate_archive_def bind_result_Inr_iff archive_of_scan_total)

lemma validate_archive_iff:
  assumes "make_limits limits = Inr limits"
  shows "validate_archive read_tar sha256 limits payload = Inr va \<longleftrightarrow>
    snd (read_tar payload) \<and> safe_members limits (fst (read_tar payload)) \<and>
    va = archive_of sha256 (fst (read_tar payload))"
  using scan_members_iff[OF assms] by (auto simp: validate_archive_def bind_result_Inr_iff archive_of_scan_total)

end
