(* ===== verification/Artifact_Tree.thy ===== *)
theory Artifact_Tree
  imports Artifact_Scan
begin

text \<open>
  Materialisation: after validation nothing can fail, and the tree written is the one the manifest
  describes, without a write bit.
\<close>

section \<open>Directories of an archive\<close>

lemma count_slash: "count_char (CHR ''/'') p = length (parts p) - 1"
proof -
  have "length (split_on c p) = count_char c p + 1" for c
    by (induction p) (auto simp: count_char_def split: list.splits)
  then show ?thesis by (simp add: parts_def)
qed

definition directories_of :: "tar_member list \<Rightarrow> string set" where
  "directories_of ms =
     all_directories (member_path ` set (filter is_dir ms)) (map (member_path) (file_members ms))"

lemma directories_iff:
  "d \<in> directories_of ms \<longleftrightarrow>
     (\<exists>m \<in> set ms. is_dir m \<and> d = member_path m \<or> strict_prefix (parts d) (parts (member_path m)))"
  by (auto simp: directories_of_def all_directories_def parent_paths_iff file_members_def)

lemma finite_directories [simp]: "finite (directories_of ms)"
  by (simp add: directories_of_def all_directories_def)

lemma directories_closed:
  "d \<in> directories_of ms \<Longrightarrow> strict_prefix (parts d') (parts d) \<Longrightarrow> d' \<in> directories_of ms"
  by (auto simp: directories_iff dest: prefix_order.less_trans)

lemma file_is_no_directory:
  assumes "safe_members limits ms" "m \<in> set ms" "\<not> is_dir m"
  shows "member_path m \<notin> directories_of ms"
proof
  assume "member_path m \<in> directories_of ms"
  then obtain q where q: "q \<in> set ms"
    "is_dir q \<and> member_path m = member_path q \<or>
     strict_prefix (parts (member_path m)) (parts (member_path q))"
    by (auto simp: directories_iff)
  have "distinct (map (member_path) ms)" using assms(1) by (simp add: safe_members_def)
  then have "member_path m = member_path q \<Longrightarrow> m = q"
    using assms(2) q(1) by (auto simp: distinct_map dest: inj_onD)
  then show False using q assms by (auto simp: safe_members_def)
qed

lemma parent_in_directories:
  assumes "d \<in> directories_of ms \<or> d \<in> member_path ` set ms" "butlast (parts d) \<noteq> []"
  shows "\<exists>d' \<in> directories_of ms. parts d' = butlast (parts d)"
proof -
  let ?d' = "join ''/'' (butlast (parts d))"
  have eq: "parts ?d' = butlast (parts d)"
    using assms(2) by (intro parts_join) (auto dest: in_set_butlastD parts_no_slash)
  then have below: "strict_prefix (parts ?d') (parts d)"
    by (metis append_butlast_last_id parts_ne strict_prefixI' snoc_eq_iff_butlast)
  have "?d' \<in> directories_of ms"
    using assms(1)
  proof
    assume "d \<in> directories_of ms"
    then show ?thesis using below by (rule directories_closed)
  next
    assume "d \<in> member_path ` set ms"
    then show ?thesis using below by (auto simp: directories_iff)
  qed
  then show ?thesis using eq by blast
qed

section \<open>Steps on the file system\<close>

definition writable_dir :: "fs_node option \<Rightarrow> bool" where
  "writable_dir x \<longleftrightarrow> (case x of Some (Fs_dir mode) \<Rightarrow> mode AND 128 \<noteq> 0 | _ \<Rightarrow> False)"

definition nameable :: "nat \<Rightarrow> string list \<Rightarrow> bool" where
  "nameable base ps \<longleftrightarrow>
     ps \<noteq> [] \<and> last ps \<notin> {[], ''.'', ''..''} \<and> name_fits (last ps) \<and> path_fits base ps"

lemma can_create_iff:
  "can_create base ps files \<longleftrightarrow> nameable base ps \<and> map_of files ps = None \<and> writable_dir (map_of files (butlast ps))"
  by (auto simp: can_create_def writable_dir_def nameable_def)

lemma canonical_last: "canonical_parts ps \<Longrightarrow> ps \<noteq> [] \<and> last ps \<notin> {[], ''.'', ''..''}"
  by (simp add: canonical_parts_def)

lemma canonical_prefix: "canonical_parts ps \<Longrightarrow> strict_prefix qs ps \<Longrightarrow> qs \<noteq> [] \<Longrightarrow> canonical_parts qs"
  unfolding canonical_parts_def by (meson set_mono_prefix strict_prefix_def subsetD)

text \<open>What the system refuses by its length alone.\<close>

definition fits :: "nat \<Rightarrow> string \<Rightarrow> bool" where
  "fits base path \<longleftrightarrow>
     list_all (\<lambda>name. utf8_length name \<le> 255) (parts path) \<and> base + 1 + utf8_length path < 4096"

lemma fits_nameable: "canonical_parts (parts p) \<Longrightarrow> fits base p \<Longrightarrow> nameable base (parts p)"
  using canonical_last[of "parts p"]
  by (auto simp: nameable_def fits_def name_fits_def path_fits_def list_all_iff)

lemma directory_canonical:
  assumes "safe_members limits ms" "d \<in> directories_of ms"
  shows "canonical_parts (parts d)"
proof -
  have c: "canonical_parts (parts (member_path m))" if "m \<in> set ms" for m
    using assms(1) that by (simp add: safe_members_def member_ok_def)
  obtain m where "m \<in> set ms" "d = member_path m \<or> strict_prefix (parts d) (parts (member_path m))"
    using assms(2) by (auto simp: directories_iff)
  then show ?thesis using c[of m] canonical_prefix by auto
qed

lemma file_canonical:
  "safe_members limits ms \<Longrightarrow> m \<in> set (file_members ms) \<Longrightarrow> canonical_parts (parts (member_path m))"
  by (auto simp: safe_members_def member_ok_def file_members_def)

lemma writable_created [simp]: "writable_dir (Some (Fs_dir 448))"
  by (simp add: writable_dir_def)

lemma mkdirs:
  assumes "distinct ds" "\<forall>d \<in> set ds. map_of files (parts d) = None \<and> nameable base (parts d)" "writable_dir (map_of files [])"
    and "\<And>pre d post. ds = pre @ d # post \<Longrightarrow> butlast (parts d) = [] \<or> butlast (parts d) \<in> parts ` set pre"
  shows "\<exists>files'. fold_result (\<lambda>d. fs_mkdir base 448 (parts d)) ds files = Inr files' \<and>
    map_of files' = (\<lambda>ps. if ps \<in> parts ` set ds then Some (Fs_dir 448) else map_of files ps)"
  using assms
proof (induction ds rule: rev_induct)
  case (snoc d ds)
  have "butlast (parts e) = [] \<or> butlast (parts e) \<in> parts ` set pre" if "ds = pre @ e # post" for pre e post
    using snoc.prems(4)[of pre e "post @ [d]"] that by simp
  then obtain f where f: "fold_result (\<lambda>d. fs_mkdir base 448 (parts d)) ds files = Inr f"
    "map_of f = (\<lambda>ps. if ps \<in> parts ` set ds then Some (Fs_dir 448) else map_of files ps)"
    using snoc by auto
  have "writable_dir (map_of f (butlast (parts d)))"
    using snoc.prems(4)[of ds d "[]"] snoc.prems(3) by (auto simp: f(2))
  moreover have "map_of f (parts d) = None" "nameable base (parts d)" using snoc.prems(1,2) by (auto simp: f(2))
  ultimately have "fs_mkdir base 448 (parts d) f = Inr (AList.update (parts d) (Fs_dir 448) f)"
    by (simp add: fs_mkdir_def can_create_iff)
  then show ?case using f by (auto simp: fold_result_append fun_eq_iff)
qed auto

lemma chmods:
  "\<forall>d \<in> set ds. \<exists>m. map_of files (parts d) = Some (Fs_dir m) \<Longrightarrow>
   \<exists>files'. fold_result (\<lambda>d. fs_chmod mode (parts d)) ds files = Inr files' \<and>
     map_of files' = (\<lambda>ps. if ps \<in> parts ` set ds then Some (Fs_dir mode) else map_of files ps)"
proof (induction ds arbitrary: files)
  case (Cons d ds)
  let ?f = "AList.update (parts d) (Fs_dir mode) files"
  have step: "fs_chmod mode (parts d) files = Inr ?f" using Cons.prems by (auto simp: fs_chmod_def)
  have "\<forall>d \<in> set ds. \<exists>m. map_of ?f (parts d) = Some (Fs_dir m)" using Cons.prems by auto
  then obtain g where g: "fold_result (\<lambda>d. fs_chmod mode (parts d)) ds ?f = Inr g"
    "map_of g = (\<lambda>ps. if ps \<in> parts ` set ds then Some (Fs_dir mode) else map_of ?f ps)"
    using Cons.IH by blast
  have "fold_result (\<lambda>d. fs_chmod mode (parts d)) (d # ds) files = Inr g" by (simp add: step g(1))
  moreover have "map_of g = (\<lambda>ps. if ps \<in> parts ` set (d # ds) then Some (Fs_dir mode) else map_of files ps)"
    by (rule ext) (simp add: g(2))
  ultimately show ?case by blast
qed auto

lemma find_unique: "x \<in> set xs \<Longrightarrow> P x \<Longrightarrow> \<forall>y \<in> set xs. P y \<longrightarrow> y = x \<Longrightarrow> find P xs = Some x"
  by (metis (no_types, lifting) find_None_iff find_Some_iff not_None_eq nth_mem)

lemma find_validated:
  assumes "safe_members limits ms" "m \<in> set (file_members ms)"
  shows "find (\<lambda>f. vf_path f = member_path m) (va_files (archive_of sha256 ms)) = Some (file_of sha256 m)"
proof (rule find_unique)
  show "\<forall>f \<in> set (va_files (archive_of sha256 ms)). vf_path f = member_path m \<longrightarrow> f = file_of sha256 m"
  proof (intro ballI impI)
    fix f assume "f \<in> set (va_files (archive_of sha256 ms))" "vf_path f = member_path m"
    then obtain q where q: "q \<in> set (file_members ms)" "f = file_of sha256 q" "member_path q = member_path m"
      by (auto simp: archive_of_def Let_def file_of_def validated_of_def)
    have "distinct (map (member_path) ms)" using assms(1) by (simp add: safe_members_def)
    then have "q = m" using q(1,3) assms(2) by (auto simp: distinct_map file_members_def dest: inj_onD)
    then show "f = file_of sha256 m" using q(2) by simp
  qed
qed (use assms(2) in \<open>auto simp: archive_of_def Let_def file_of_def validated_of_def\<close>)

definition node_of :: "tar_member \<Rightarrow> fs_node" where
  "node_of m = Fs_file (file_mode (tm_mode m AND execute_bits \<noteq> 0)) (tm_content m)"

lemma write_member_file:
  assumes "safe_members limits ms" "m \<in> set ms" "\<not> is_dir m" "can_create base (parts (member_path m)) files"
  shows "write_member base limits sha256 (archive_of sha256 ms) m files =
    Inr (AList.update (parts (member_path m)) (node_of m) files)"
proof -
  have ok: "member_ok limits m" using assms(1,2) by (simp add: safe_members_def)
  have "m \<in> set (file_members ms)" using assms(2,3) by (simp add: file_members_def)
  from find_validated[OF assms(1) this] ok show ?thesis
    using assms(3,4)
    by (simp add: write_member_def copy_member_def member_ok_iff read_exactly_spec file_of_def validated_of_def node_of_def)
qed

lemma write_members:
  assumes "safe_members limits ms" "set xs \<subseteq> set ms" "distinct (map (member_path) xs)"
    and "\<forall>m \<in> set (file_members ms). map_of files (parts (member_path m)) = None \<and>
      nameable base (parts (member_path m)) \<and> writable_dir (map_of files (butlast (parts (member_path m))))"
  shows "\<exists>files'. fold_result (write_member base limits sha256 (archive_of sha256 ms)) xs files = Inr files' \<and>
    (\<forall>m \<in> set (file_members xs). map_of files' (parts (member_path m)) = Some (node_of m)) \<and>
    (\<forall>ps. ps \<notin> (\<lambda>m. parts (member_path m)) ` set (file_members xs) \<longrightarrow> map_of files' ps = map_of files ps)"
  using assms(2,3)
proof (induction xs rule: rev_induct)
  case (snoc m xs)
  then obtain f where f: "fold_result (write_member base limits sha256 (archive_of sha256 ms)) xs files = Inr f"
    "\<forall>m \<in> set (file_members xs). map_of f (parts (member_path m)) = Some (node_of m)"
    "\<forall>ps. ps \<notin> (\<lambda>m. parts (member_path m)) ` set (file_members xs) \<longrightarrow> map_of f ps = map_of files ps"
    by auto
  show ?case
  proof (cases "is_dir m")
    case True
    then have "write_member base limits sha256 (archive_of sha256 ms) m f = Inr f" by (simp add: write_member_def)
    then show ?thesis using f True by (intro exI[of _ f]) (simp add: fold_result_append file_members_def)
  next
    case False
    let ?ps = "parts (member_path m)"
    have mem: "m \<in> set ms" "m \<in> set (file_members ms)" using snoc.prems False by (auto simp: file_members_def)
    have new: "q \<in> set (file_members xs) \<Longrightarrow> parts (member_path q) \<noteq> ?ps" for q
    proof
      assume "q \<in> set (file_members xs)" "parts (member_path q) = ?ps"
      then have "member_path m \<in> member_path ` set xs" by (auto simp: file_members_def intro: rev_image_eqI)
      then show False using snoc.prems(2) by simp
    qed
    have parent: "q \<in> set (file_members xs) \<Longrightarrow> parts (member_path q) \<noteq> butlast ?ps" for q
    proof
      assume q: "q \<in> set (file_members xs)" "parts (member_path q) = butlast ?ps"
      then have "q \<in> set ms" "\<not> is_dir q" using snoc.prems(1) by (auto simp: file_members_def)
      moreover have "strict_prefix (parts (member_path q)) ?ps"
        unfolding q(2) by (metis append_butlast_last_id parts_ne strict_prefixI')
      ultimately show False using assms(1) mem(1) by (auto simp: safe_members_def)
    qed
    have "map_of f ?ps = map_of files ?ps" "map_of f (butlast ?ps) = map_of files (butlast ?ps)"
      using f(3) new parent by (metis (no_types, lifting) imageE)+
    then have "can_create base ?ps f" using assms(4) mem(2) by (simp add: can_create_iff)
    from write_member_file[OF assms(1) mem(1) False this] f new show ?thesis
      by (auto simp: fold_result_append file_members_def False)
  qed
qed (auto simp: file_members_def)

section \<open>The whole tree\<close>

lemma parents_come_first:
  assumes "sort_key directory_order (sorted_list_of_set (directories_of ms)) = pre @ d # post" "butlast (parts d) \<noteq> []"
  shows "butlast (parts d) \<in> parts ` set pre"
proof -
  let ?ds = "sort_key directory_order (sorted_list_of_set (directories_of ms))"
  have mem: "set ?ds = directories_of ms" by simp
  then have "d \<in> directories_of ms" using assms(1) by auto
  then obtain p where p: "p \<in> directories_of ms" "parts p = butlast (parts d)"
    using parent_in_directories assms(2) by blast
  have "length (parts p) < length (parts d)" using p(2) by (simp add: length_greater_0_conv[THEN iffD2])
  then have "length (parts p) - 1 < length (parts d) - 1" by (cases "parts p") auto
  then have less: "directory_order p < directory_order d"
    by (simp add: directory_order_def count_slash)
  have "sorted (map directory_order (pre @ d # post))" using sorted_sort_key assms(1) by metis
  then have "\<forall>x \<in> set (d # post). directory_order d \<le> directory_order x" by (auto simp: sorted_append)
  then have "p \<notin> set (d # post)" using less by (meson not_less)
  moreover have "p \<in> set (pre @ d # post)" using p(1) mem assms(1) by metis
  ultimately show ?thesis using p(2) by (auto intro: rev_image_eqI)
qed

text \<open>A file system in which only directories have children.\<close>

definition tree_shaped :: "fs \<Rightarrow> bool" where
  "tree_shaped files \<longleftrightarrow>
     list_all (\<lambda>(path, _). path = [] \<or> (case map_of files (butlast path) of Some (Fs_dir _) \<Rightarrow> True | _ \<Rightarrow> False)) files"

lemma tree_shapedD:
  assumes "tree_shaped files" "map_of files (ps @ [x]) = Some node"
  shows "\<exists>m. map_of files ps = Some (Fs_dir m)"
  using assms(1) map_of_SomeD[OF assms(2)]
  by (fastforce simp: tree_shaped_def list_all_iff split: option.splits fs_node.splits)

lemma empty_tree:
  assumes "tree_shaped files" "require_empty_real_directory files = Inr ()"
  shows "ps \<noteq> [] \<Longrightarrow> map_of files ps = None"
proof (induction ps rule: rev_induct)
  case (snoc x ps)
  have top: "map_of files [y] = None" for y
    using assms(2) by (auto simp: require_empty_real_directory_def list_ex_iff map_of_eq_None_iff split: option.splits fs_node.splits if_splits) force
  show ?case
  proof (cases ps)
    case Nil
    then show ?thesis using top by simp
  next
    case (Cons a b)
    then have "map_of files ps = None" using snoc by simp
    then show ?thesis using tree_shapedD[OF assms(1)] by (metis not_None_eq)
  qed
qed simp

text \<open>What a manifest says of a tree.\<close>

definition describes :: "(string \<Rightarrow> string) \<Rightarrow> workspace_manifest \<Rightarrow> fs \<Rightarrow> bool" where
  "describes sha256 manifest files \<longleftrightarrow>
     (\<forall>ps. case map_of files ps of
        None \<Rightarrow> ps \<noteq> [] \<and> ps \<notin> (parts \<circ> en_path) ` set (mf_entries manifest)
      | Some (Fs_dir mode) \<Rightarrow> mode = DIRECTORY_MODE \<and>
          (ps = [] \<or> (\<exists>e \<in> set (mf_entries manifest). en_kind e = Directory_entry \<and> parts (en_path e) = ps \<and> en_mode e = mode))
      | Some (Fs_file mode content) \<Rightarrow>
          (\<exists>e \<in> set (mf_entries manifest). en_kind e = File_entry \<and> parts (en_path e) = ps \<and> en_mode e = mode \<and>
             en_size e = length content \<and> en_sha256 e = Some (sha256 content))
      | _ \<Rightarrow> False)"

lemma archive_of_parts:
  "va_directories (archive_of sha256 ms) = directories_of ms"
  "set (mf_entries (va_manifest (archive_of sha256 ms))) =
     directory_entry ` directories_of ms \<union> file_entry ` file_of sha256 ` set (file_members ms)"
proof -
  have "map vf_path (map (file_of sha256) (file_members ms)) = map (member_path) (file_members ms)"
    by (simp add: file_of_def validated_of_def)
  then show d: "va_directories (archive_of sha256 ms) = directories_of ms"
    by (simp add: archive_of_def Let_def directories_of_def del: map_map)
  show "set (mf_entries (va_manifest (archive_of sha256 ms))) =
     directory_entry ` directories_of ms \<union> file_entry ` file_of sha256 ` set (file_members ms)"
    using d by (simp add: archive_of_def Let_def)
qed

lemma entry_paths:
  "(\<forall>e \<in> set (mf_entries (va_manifest (archive_of sha256 ms))). P (en_path e)) \<longleftrightarrow>
   (\<forall>d \<in> directories_of ms. P d) \<and> (\<forall>m \<in> set (file_members ms). P (member_path m))"
  unfolding archive_of_parts(2) ball_Un
  by (simp add: directory_entry_def file_entry_def file_of_def validated_of_def)

lemma directories_of_manifest:
  "set (map en_path (filter (\<lambda>e. en_kind e = Directory_entry) (mf_entries (va_manifest (archive_of sha256 ms))))) =
   directories_of ms"
  unfolding set_map set_filter archive_of_parts(2) by (force simp: directory_entry_def file_entry_def)

lemma archive_written:
  assumes safe: "safe_members limits (fst (read_tar payload))" "snd (read_tar payload)"
    and empty: "\<forall>ps. ps \<noteq> [] \<longrightarrow> map_of files ps = None" "writable_dir (map_of files [])"
    and va: "va = archive_of sha256 (fst (read_tar payload))"
    and room: "\<forall>d \<in> directories_of (fst (read_tar payload)). fits base d"
      "\<forall>m \<in> set (file_members (fst (read_tar payload))). fits base (member_path m)"
  shows "\<exists>files'. write_validated_archive base read_tar sha256 limits payload va files = Inr files' \<and>
    (\<forall>m \<in> set (file_members (fst (read_tar payload))). map_of files' (parts (member_path m)) = Some (node_of m)) \<and>
    (\<forall>ps. ps \<notin> (\<lambda>m. parts (member_path m)) ` set (file_members (fst (read_tar payload))) \<longrightarrow>
       map_of files' ps = (if ps \<in> parts ` directories_of (fst (read_tar payload)) then Some (Fs_dir 448) else map_of files ps))"
proof -
  let ?ms = "fst (read_tar payload)"
  let ?ds = "sort_key directory_order (sorted_list_of_set (directories_of ?ms))"
  have set_ds: "set ?ds = directories_of ?ms" by simp
  have none: "map_of files (parts p) = None" for p using empty(1) by simp
  have first: "butlast (parts d) = [] \<or> butlast (parts d) \<in> parts ` set pre" if "?ds = pre @ d # post" for pre d post
    using parents_come_first[OF that] by blast
  have "\<exists>f. fold_result (\<lambda>d. fs_mkdir base 448 (parts d)) ?ds files = Inr f \<and>
    map_of f = (\<lambda>ps. if ps \<in> parts ` set ?ds then Some (Fs_dir 448) else map_of files ps)"
    by (rule mkdirs[OF _ _ empty(2) first])
       (use none room(1) directory_canonical[OF safe(1)] in \<open>auto intro: fits_nameable\<close>)
  then obtain f where f: "fold_result (\<lambda>d. fs_mkdir base 448 (parts d)) ?ds files = Inr f"
    "map_of f = (\<lambda>ps. if ps \<in> parts ` directories_of ?ms then Some (Fs_dir 448) else map_of files ps)"
    unfolding set_ds by blast
  have "map_of f (parts (member_path m)) = None \<and> nameable base (parts (member_path m)) \<and>
      writable_dir (map_of f (butlast (parts (member_path m))))"
    if "m \<in> set (file_members ?ms)" for m
  proof -
    have m: "m \<in> set ?ms" "\<not> is_dir m" using that by (auto simp: file_members_def)
    have "parts (member_path m) \<notin> parts ` directories_of ?ms"
      using file_is_no_directory[OF safe(1) m] by auto
    moreover have "butlast (parts (member_path m)) = [] \<or>
      butlast (parts (member_path m)) \<in> parts ` directories_of ?ms"
      using parent_in_directories[OF disjI2[OF imageI[OF m(1)]]] by (metis imageI)
    moreover have "nameable base (parts (member_path m))"
      using file_canonical[OF safe(1) that] room(2) that by (blast intro: fits_nameable)
    ultimately show ?thesis using none empty(2) by (auto simp: f(2))
  qed
  then obtain g where g: "fold_result (write_member base limits sha256 va) ?ms f = Inr g"
    "\<forall>m \<in> set (file_members ?ms). map_of g (parts (member_path m)) = Some (node_of m)"
    "\<forall>ps. ps \<notin> (\<lambda>m. parts (member_path m)) ` set (file_members ?ms) \<longrightarrow> map_of g ps = map_of f ps"
    using write_members[OF safe(1) subset_refl, of f base sha256] safe(1) unfolding va by (auto simp: safe_members_def)
  have "write_validated_archive base read_tar sha256 limits payload va files = Inr g"
    using f(1) g(1) safe(2) va by (simp add: write_validated_archive_def archive_of_parts(1))
  then show ?thesis using g(2,3) by (intro exI[of _ g]) (simp add: f(2))
qed

lemma tree_read_only:
  assumes "\<forall>d \<in> directories_of ms. map_of files (parts d) = Some (Fs_dir 448)" "map_of files [] = Some (Fs_dir m)"
  shows "\<exists>files'. make_tree_read_only (mf_entries (va_manifest (archive_of sha256 ms))) files = Inr files' \<and>
    map_of files' = (\<lambda>ps. if ps = [] \<or> ps \<in> parts ` directories_of ms then Some (Fs_dir DIRECTORY_MODE) else map_of files ps)"
proof -
  let ?ds = "rev (sort_key (count_char (CHR ''/'')) (rev (map en_path
    (filter (\<lambda>e. en_kind e = Directory_entry) (mf_entries (va_manifest (archive_of sha256 ms)))))))"
  have set_ds: "set ?ds = directories_of ms"
    using directories_of_manifest[of sha256 ms] by (simp del: set_map set_filter)
  have "\<forall>d \<in> set ?ds. \<exists>m. map_of files (parts d) = Some (Fs_dir m)" unfolding set_ds using assms(1) by blast
  from chmods[OF this, of DIRECTORY_MODE] obtain f where
    f: "fold_result (\<lambda>d. fs_chmod DIRECTORY_MODE (parts d)) ?ds files = Inr f"
    "map_of f = (\<lambda>ps. if ps \<in> parts ` directories_of ms then Some (Fs_dir DIRECTORY_MODE) else map_of files ps)"
    unfolding set_ds by blast
  have "map_of f [] = Some (Fs_dir m)" using assms(2) by (auto simp: f(2) dest: sym[of "[]"])
  then have "fs_chmod DIRECTORY_MODE [] f = Inr (AList.update [] (Fs_dir DIRECTORY_MODE) f)" by (simp add: fs_chmod_def)
  then have "make_tree_read_only (mf_entries (va_manifest (archive_of sha256 ms))) files =
      Inr (AList.update [] (Fs_dir DIRECTORY_MODE) f)"
    using f(1) by (simp add: make_tree_read_only_def Let_def)
  then show ?thesis by (intro exI conjI, assumption) (auto simp: f(2) fun_eq_iff)
qed

lemma described_tree:
  assumes safe: "safe_members limits ms"
    and files: "\<forall>m \<in> set (file_members ms). map_of files (parts (member_path m)) = Some (node_of m)"
    and rest: "\<forall>ps. ps \<notin> (\<lambda>m. parts (member_path m)) ` set (file_members ms) \<longrightarrow>
      map_of files ps = (if ps = [] \<or> ps \<in> parts ` directories_of ms then Some (Fs_dir DIRECTORY_MODE) else None)"
  shows "describes sha256 (va_manifest (archive_of sha256 ms)) files"
proof -
  let ?entries = "set (mf_entries (va_manifest (archive_of sha256 ms)))"
  have entries: "?entries = directory_entry ` directories_of ms \<union> file_entry ` file_of sha256 ` set (file_members ms)"
    by (rule archive_of_parts(2))
  have "case map_of files ps of
        None \<Rightarrow> ps \<noteq> [] \<and> ps \<notin> (parts \<circ> en_path) ` ?entries
      | Some (Fs_dir mode) \<Rightarrow> mode = DIRECTORY_MODE \<and>
          (ps = [] \<or> (\<exists>e \<in> ?entries. en_kind e = Directory_entry \<and> parts (en_path e) = ps \<and> en_mode e = mode))
      | Some (Fs_file mode content) \<Rightarrow>
          (\<exists>e \<in> ?entries. en_kind e = File_entry \<and> parts (en_path e) = ps \<and> en_mode e = mode \<and>
             en_size e = length content \<and> en_sha256 e = Some (sha256 content))
      | _ \<Rightarrow> False" for ps
  proof (cases "ps \<in> (\<lambda>m. parts (member_path m)) ` set (file_members ms)")
    case True
    then obtain m where m: "m \<in> set (file_members ms)" "ps = parts (member_path m)" by blast
    then have len: "length (tm_content m) = tm_size m"
      using safe by (auto simp: safe_members_def member_ok_def file_members_def)
    let ?e = "file_entry (file_of sha256 m)"
    have "?e \<in> ?entries" unfolding entries using m(1) by blast
    moreover have "en_kind ?e = File_entry" "parts (en_path ?e) = ps" "en_size ?e = length (tm_content m)"
      "en_mode ?e = file_mode (tm_mode m AND execute_bits \<noteq> 0)" "en_sha256 ?e = Some (sha256 (tm_content m))"
      using len m(2) by (simp_all add: file_entry_def file_of_def validated_of_def)
    moreover have "map_of files ps = Some (node_of m)" using files m by blast
    ultimately show ?thesis by (auto simp: node_of_def)
  next
    case False
    then have ps: "map_of files ps = (if ps = [] \<or> ps \<in> parts ` directories_of ms then Some (Fs_dir DIRECTORY_MODE) else None)"
      using rest by blast
    show ?thesis
    proof (cases "ps = [] \<or> ps \<in> parts ` directories_of ms")
      case True
      have "\<exists>e \<in> ?entries. en_kind e = Directory_entry \<and> parts (en_path e) = ps \<and> en_mode e = DIRECTORY_MODE"
        if "ps = parts d" "d \<in> directories_of ms" for d
        by (rule bexI[of _ "directory_entry d"]) (use that entries in \<open>auto simp: directory_entry_def\<close>)
      then have "ps = [] \<or> (\<exists>e \<in> ?entries. en_kind e = Directory_entry \<and> parts (en_path e) = ps \<and> en_mode e = DIRECTORY_MODE)"
        using True by blast
      moreover have "map_of files ps = Some (Fs_dir DIRECTORY_MODE)" using ps True by (simp only: if_True)
      ultimately show ?thesis by (simp only: option.case fs_node.case simp_thms)
    next
      case no_dir: False
      then show ?thesis using False unfolding ps entries
        by (auto simp: directory_entry_def file_entry_def file_of_def validated_of_def image_iff)
    qed
  qed
  then show ?thesis unfolding describes_def by blast
qed

lemma materialized:
  assumes limits: "make_limits limits = Inr limits"
    and valid: "validate_archive read_tar sha256 limits (sa_archive artifact) = Inr va"
    and bound: "int (length (sa_archive artifact)) \<le> max_archive_bytes limits"
      "sa_manifest_digest artifact \<in> {None, Some (manifest_digest sha256 (va_manifest va))}"
    and destination: "require_empty_real_directory files = Inr ()" "tree_shaped files"
      "map_of files [] = Some (Fs_dir mode)" "mode AND 128 \<noteq> 0"
    and room: "\<forall>e \<in> set (mf_entries (va_manifest va)). fits base (en_path e)"
  defines "ms \<equiv> fst (read_tar (sa_archive artifact))"
  shows "\<exists>files'. materialize_source_artifact base read_tar sha256 limits artifact files = Inr (va_manifest va, files') \<and>
    (\<forall>m \<in> set (file_members ms). map_of files' (parts (member_path m)) = Some (node_of m)) \<and>
    (\<forall>ps. ps \<notin> (\<lambda>m. parts (member_path m)) ` set (file_members ms) \<longrightarrow>
      map_of files' ps = (if ps = [] \<or> ps \<in> parts ` directories_of ms then Some (Fs_dir DIRECTORY_MODE) else None))"
proof -
  have safe: "safe_members limits ms" "snd (read_tar (sa_archive artifact))" "va = archive_of sha256 ms"
    using valid by (simp_all add: validate_archive_iff[OF limits] ms_def)
  have space: "\<forall>d \<in> directories_of ms. fits base d" "\<forall>m \<in> set (file_members ms). fits base (member_path m)"
    using room unfolding safe(3) entry_paths by blast+
  have "writable_dir (map_of files [])" using destination(3,4) by (simp add: writable_dir_def)
  moreover have "\<forall>ps. ps \<noteq> [] \<longrightarrow> map_of files ps = None" using empty_tree[OF destination(2,1)] by blast
  ultimately obtain f where
    f: "write_validated_archive base read_tar sha256 limits (sa_archive artifact) va files = Inr f"
    "\<forall>m \<in> set (file_members ms). map_of f (parts (member_path m)) = Some (node_of m)"
    "\<forall>ps. ps \<notin> (\<lambda>m. parts (member_path m)) ` set (file_members ms) \<longrightarrow>
       map_of f ps = (if ps \<in> parts ` directories_of ms then Some (Fs_dir 448) else map_of files ps)"
    using archive_written[of limits read_tar "sa_archive artifact" files va sha256 base] safe space unfolding ms_def by blast
  have file_parts: "parts (member_path m) \<notin> parts ` directories_of ms" if "m \<in> set (file_members ms)" for m
    using that file_is_no_directory[OF safe(1)] by (auto simp: file_members_def)
  have "\<forall>d \<in> directories_of ms. map_of f (parts d) = Some (Fs_dir 448)"
    using f(3) file_parts by (metis (no_types, lifting) image_eqI imageE)
  moreover have "[] \<notin> (\<lambda>m. parts (member_path m)) ` set (file_members ms)" by (auto dest: sym[of "[]"])
  then have "map_of f [] = Some (Fs_dir mode)" using f(3) destination(3) by (auto dest: sym[of "[]"])
  ultimately obtain g where g: "make_tree_read_only (mf_entries (va_manifest va)) f = Inr g"
    "map_of g = (\<lambda>ps. if ps = [] \<or> ps \<in> parts ` directories_of ms then Some (Fs_dir DIRECTORY_MODE) else map_of f ps)"
    using tree_read_only safe(3) by blast
  have "\<forall>m \<in> set (file_members ms). map_of g (parts (member_path m)) = Some (node_of m)"
    using f(2) file_parts by (simp add: g(2))
  moreover have "\<forall>ps. ps \<notin> (\<lambda>m. parts (member_path m)) ` set (file_members ms) \<longrightarrow>
      map_of g ps = (if ps = [] \<or> ps \<in> parts ` directories_of ms then Some (Fs_dir DIRECTORY_MODE) else None)"
    using f(3) empty_tree[OF destination(2,1)] by (simp add: g(2))
  moreover have "materialize_source_artifact base read_tar sha256 limits artifact files = Inr (va_manifest va, g)"
    using bound destination(1) valid f(1) g(1) by (auto simp: materialize_source_artifact_def)
  ultimately show ?thesis by blast
qed

text \<open>What is too long for the system makes the call fail, and nothing else can.\<close>

lemma fold_result_fails:
  "x \<in> set xs \<Longrightarrow> (\<And>s. f x s = Inl e) \<Longrightarrow> (\<And>y s e'. y \<in> set xs \<Longrightarrow> f y s = Inl e' \<Longrightarrow> e' = e) \<Longrightarrow>
   fold_result f xs s = Inl e"
proof (induction xs arbitrary: s)
  case (Cons y ys)
  show ?case
  proof (cases "f y s")
    case (Inl e')
    then show ?thesis using Cons.prems(3)[of y s e'] by simp
  next
    case (Inr s')
    have "y \<noteq> x" using Cons.prems(2)[of s] Inr by force
    then have "x \<in> set ys" using Cons.prems(1) by simp
    moreover have "e'' = e" if "z \<in> set ys" "f z t = Inl e''" for z t e''
      using Cons.prems(3)[of z t e''] that by simp
    ultimately have "fold_result f ys s' = Inl e" using Cons.prems(2) by (intro Cons.IH)
    then show ?thesis using Inr by simp
  qed
qed simp

lemma write_member_error:
  assumes "safe_members limits ms" "m \<in> set ms"
    and "write_member base limits sha256 (archive_of sha256 ms) m files = Inl e"
  shows "e = Cannot_write"
proof -
  have "\<not> is_dir m" using assms(3) by (auto simp: write_member_def)
  moreover have "member_ok limits m" using assms(1,2) by (simp add: safe_members_def)
  ultimately show ?thesis
    using find_validated[OF assms(1), of m sha256] assms(2,3)
    by (auto simp: write_member_def copy_member_def member_ok_iff file_members_def read_exactly_spec file_of_def
        validated_of_def split: if_splits)
qed

lemma unfit_name:
  assumes "safe_members limits ms" "p \<in> directories_of ms \<union> member_path ` set (file_members ms)" "\<not> fits base p"
  shows "\<exists>q \<in> directories_of ms \<union> member_path ` set (file_members ms). \<not> nameable base (parts q)"
proof (cases "base + 1 + utf8_length p < 4096")
  case False
  then have "\<not> nameable base (parts p)" by (simp add: nameable_def path_fits_def)
  then show ?thesis using assms(2) by blast
next
  case True
  then obtain name where name: "name \<in> set (parts p)" "\<not> name_fits name"
    using assms(3) by (auto simp: fits_def name_fits_def list_all_iff)
  then obtain qs rs where split: "parts p = (qs @ [name]) @ rs" by (metis append.assoc append_Cons append_Nil split_list)
  show ?thesis
  proof (cases rs)
    case Nil
    then have "\<not> nameable base (parts p)" using split name(2) by (simp add: nameable_def)
    then show ?thesis using assms(2) by blast
  next
    case (Cons r rest)
    let ?q = "join ''/'' (qs @ [name])"
    have "\<forall>x \<in> set (parts p). CHR ''/'' \<notin> set x" using parts_no_slash by blast
    then have q: "parts ?q = qs @ [name]" using split by (intro parts_join) auto
    have below: "strict_prefix (parts ?q) (parts p)" unfolding q split Cons by (rule strict_prefixI') simp
    have "?q \<in> directories_of ms"
      using assms(2)
    proof
      assume "p \<in> directories_of ms"
      then show ?thesis using below by (rule directories_closed)
    next
      assume "p \<in> member_path ` set (file_members ms)"
      then show ?thesis using below by (auto simp: directories_iff file_members_def)
    qed
    moreover have "\<not> nameable base (parts ?q)" using name(2) by (simp add: q nameable_def)
    ultimately show ?thesis by blast
  qed
qed

lemma cannot_write:
  assumes safe: "safe_members limits (fst (read_tar payload))"
    and va: "va = archive_of sha256 (fst (read_tar payload))"
    and unfit: "\<exists>e \<in> set (mf_entries (va_manifest va)). \<not> fits base (en_path e)"
  shows "write_validated_archive base read_tar sha256 limits payload va files = Inl Cannot_write"
proof -
  let ?ms = "fst (read_tar payload)"
  let ?mkdir = "\<lambda>d. fs_mkdir base 448 (parts d)"
  let ?ds = "sort_key directory_order (sorted_list_of_set (va_directories va))"
  have set_ds: "set ?ds = directories_of ?ms" by (simp add: va archive_of_parts(1))
  have mkdir_error: "e = Cannot_write" if "?mkdir d f = Inl e" for d f e
    using that by (auto simp: fs_mkdir_def split: if_splits)
  have "\<exists>p \<in> directories_of ?ms \<union> member_path ` set (file_members ?ms). \<not> fits base p"
    using unfit entry_paths[of sha256 ?ms "fits base"] unfolding va by blast
  then obtain q where q: "q \<in> directories_of ?ms \<union> member_path ` set (file_members ?ms)"
    "\<not> nameable base (parts q)"
    using unfit_name[OF safe] by blast
  show ?thesis
  proof (cases "q \<in> directories_of ?ms")
    case True
    have "fold_result ?mkdir ?ds files = Inl Cannot_write"
      by (rule fold_result_fails[of q]) (use True q(2) set_ds mkdir_error in \<open>auto simp: fs_mkdir_def can_create_iff\<close>)
    then show ?thesis by (simp add: write_validated_archive_def)
  next
    case False
    then obtain m where m: "m \<in> set ?ms" "\<not> is_dir m" "q = member_path m"
      using q(1) by (auto simp: file_members_def)
    have "fold_result (write_member base limits sha256 va) ?ms f = Inl Cannot_write" for f
    proof (rule fold_result_fails[OF m(1)])
      fix g
      have "member_ok limits m" using safe m(1) by (simp add: safe_members_def)
      then show "write_member base limits sha256 va m g = Inl Cannot_write"
        using find_validated[OF safe, of m sha256] m q(2) unfolding va
        by (simp add: write_member_def copy_member_def member_ok_iff file_members_def can_create_iff)
    qed (use write_member_error[OF safe] va in blast)
    moreover have "fold_result ?mkdir ?ds files = Inl e \<Longrightarrow> e = Cannot_write" for e
    proof -
      have "fold_result ?mkdir ds f = Inl e \<Longrightarrow> e = Cannot_write" for ds f
        by (induction ds arbitrary: f) (auto simp: bind_result_def mkdir_error split: sum.splits)
      then show "fold_result ?mkdir ?ds files = Inl e \<Longrightarrow> e = Cannot_write" .
    qed
    ultimately show ?thesis
      by (cases "fold_result ?mkdir ?ds files") (simp_all add: write_validated_archive_def)
  qed
qed

lemma cannot_materialize:
  assumes limits: "make_limits limits = Inr limits"
    and valid: "validate_archive read_tar sha256 limits (sa_archive artifact) = Inr va"
    and bound: "int (length (sa_archive artifact)) \<le> max_archive_bytes limits"
      "sa_manifest_digest artifact \<in> {None, Some (manifest_digest sha256 (va_manifest va))}"
    and destination: "require_empty_real_directory files = Inr ()"
    and unfit: "\<exists>e \<in> set (mf_entries (va_manifest va)). \<not> fits base (en_path e)"
  shows "materialize_source_artifact base read_tar sha256 limits artifact files = Inl Cannot_write"
proof -
  have "safe_members limits (fst (read_tar (sa_archive artifact)))"
    "va = archive_of sha256 (fst (read_tar (sa_archive artifact)))"
    using valid by (simp_all add: validate_archive_iff[OF limits])
  from cannot_write[where read_tar = read_tar and payload = "sa_archive artifact", OF this unfit] show ?thesis
    using bound destination valid by (auto simp: materialize_source_artifact_def)
qed


end
