(* ===== verification/Artifact_Build.thy ===== *)
theory Artifact_Build
  imports Artifact_Tree
begin

text \<open>
  From a checkout to the workspace of an agent: what \<open>build_source_artifact\<close> archives,
  \<open>materialize_source_artifact\<close> writes back.
\<close>

section \<open>Checkouts\<close>

fun source_at :: "source_node \<Rightarrow> string list \<Rightarrow> source_node option" where
  "source_at node [] = Some node"
| "source_at (Src_dir children) (name # names) =
     (case map_of children name of None \<Rightarrow> None | Some child \<Rightarrow> source_at child names)"
| "source_at _ (name # names) = None"

definition name_valid :: "string \<Rightarrow> bool" where
  "name_valid name \<longleftrightarrow> name \<noteq> [] \<and> CHR ''/'' \<notin> set name"

text \<open>What a file system guarantees of directories: valid, distinct names.\<close>

fun source_ok :: "source_node \<Rightarrow> bool" where
  "source_ok (Src_dir children) \<longleftrightarrow>
     distinct (map fst children) \<and> list_all (\<lambda>(name, node). name_valid name \<and> source_ok node) children"
| "source_ok _ \<longleftrightarrow> True"

definition visible :: "string \<Rightarrow> (string \<times> source_node) list \<Rightarrow> (string \<times> source_node) list" where
  "visible relative children = (if relative = [] then filter (\<lambda>(name, _). name \<noteq> ''.git'') children else children)"

inductive source_reaches :: "(string \<times> source_node) list \<Rightarrow> string list \<Rightarrow> source_node \<Rightarrow> bool" where
  here: "(name, x) \<in> set children \<Longrightarrow> source_reaches children [name] x"
| below: "(name, Src_dir ds) \<in> set children \<Longrightarrow> source_reaches ds ps x \<Longrightarrow> source_reaches children (name # ps) x"

inductive_cases source_reachesE: "source_reaches children ps x"

lemma reaches_ne: "source_reaches cs ps x \<Longrightarrow> ps \<noteq> []"
  by (auto elim: source_reachesE)

lemma reaches_iff:
  "source_reaches cs ps x \<longleftrightarrow> (\<exists>(name, y) \<in> set cs. ps = [name] \<and> x = y \<or> (\<exists>ds qs. y = Src_dir ds \<and> ps = name # qs \<and> source_reaches ds qs x))"
  by (subst source_reaches.simps) blast

lemma reaches_set: "set cs = set ds \<Longrightarrow> source_reaches cs ps x \<longleftrightarrow> source_reaches ds ps x"
  by (simp add: reaches_iff[of cs] reaches_iff[of ds])

lemma reaches_prefix:
  "source_reaches cs (ps @ qs) x \<Longrightarrow> ps \<noteq> [] \<Longrightarrow> qs \<noteq> [] \<Longrightarrow> \<exists>ds. source_reaches cs ps (Src_dir ds)"
proof (induction ps arbitrary: cs)
  case (Cons p ps)
  then obtain ds where ds: "(p, Src_dir ds) \<in> set cs" "source_reaches ds (ps @ qs) x"
    by (auto elim: source_reachesE)
  show ?case
  proof (cases ps)
    case Nil
    then show ?thesis using ds(1) by (auto intro: here)
  next
    case (Cons a b)
    then show ?thesis using Cons.IH[OF ds(2)] Cons.prems(3) ds(1) by (auto intro: below)
  qed
qed simp

lemma reaches_names:
  "source_reaches cs ps x \<Longrightarrow> source_ok (Src_dir cs) \<Longrightarrow> \<forall>name \<in> set ps. name_valid name"
  by (induction rule: source_reaches.induct) (fastforce simp: list_all_iff)+

lemma source_at_iff:
  "source_ok (Src_dir cs) \<Longrightarrow> ps \<noteq> [] \<Longrightarrow> source_at (Src_dir cs) ps = Some x \<longleftrightarrow> source_reaches cs ps x"
proof (induction ps arbitrary: cs)
  case (Cons p ps)
  have unique: "map_of cs p = Some y \<longleftrightarrow> (p, y) \<in> set cs" for y using Cons.prems(1) by simp
  have deeper: "source_at y ps = Some x \<longleftrightarrow> (\<exists>ds. y = Src_dir ds \<and> source_reaches ds ps x)" if "(p, y) \<in> set cs" "ps \<noteq> []" for y
  proof (cases y)
    case (Src_dir ds)
    have "source_ok y" using Cons.prems(1) that(1) by (auto simp: list_all_iff)
    then show ?thesis using Cons.IH[of ds] that(2) Src_dir by simp
  qed (use that(2) in \<open>cases ps; simp\<close>)+
  have "source_at (Src_dir cs) (p # ps) = Some x \<longleftrightarrow> (\<exists>y. (p, y) \<in> set cs \<and> source_at y ps = Some x)"
    using unique by (auto split: option.splits) (metis option.distinct(1) option.inject)+
  also have "\<dots> \<longleftrightarrow> source_reaches cs (p # ps) x"
  proof (cases "ps = []")
    case True
    then show ?thesis by (auto simp: reaches_iff[of cs] dest: reaches_ne)
  next
    case False
    then show ?thesis using deeper by (fastforce simp: reaches_iff[of cs])
  qed
  finally show ?case .
qed simp

section \<open>What is archived\<close>

definition member_of :: "string list \<Rightarrow> source_node \<Rightarrow> tar_member" where
  "member_of ps node =
     (case node of
        Src_file mode content \<Rightarrow> file_member (join ''/'' ps) mode content
      | _ \<Rightarrow> directory_member (join ''/'' ps))"

definition ordinary :: "source_node \<Rightarrow> bool" where
  "ordinary node \<longleftrightarrow> (case node of Src_dir _ \<Rightarrow> True | Src_file _ _ \<Rightarrow> True | _ \<Rightarrow> False)"

definition base_parts :: "string \<Rightarrow> string list" where
  "base_parts relative = (if relative = [] then [] else parts relative)"

definition archived :: "string \<Rightarrow> (string \<times> source_node) list \<Rightarrow> tar_member set" where
  "archived relative children = {member_of (base_parts relative @ ps) x | ps x. source_reaches (visible relative children) ps x}"

lemma parts_child: "name_valid name \<Longrightarrow> parts (child_path relative name) = base_parts relative @ [name]"
  by (simp add: name_valid_def child_path_def base_parts_def parts_def split_on_append split_on_no_sep_id)

lemma child_path_join: "name_valid name \<Longrightarrow> join ''/'' (base_parts relative @ [name]) = child_path relative name"
  by (metis join_parts parts_child)

lemma child_path_canonical:
  assumes "name_valid name" "canonical_member_path limits (child_path relative name) = Inr path"
  shows "path = child_path relative name" "path \<noteq> []" "base_parts path = base_parts relative @ [name]"
proof -
  have "child_path relative name \<noteq> path @ ''/''"
  proof
    assume "child_path relative name = path @ ''/''"
    then have "CHR ''/'' = last (child_path relative name)" by simp
    also have "\<dots> = last name" using assms(1) by (simp add: child_path_def name_valid_def)
    finally show False using assms(1) last_in_set by (fastforce simp: name_valid_def)
  qed
  then show eq: "path = child_path relative name" using canonical_pathD(3)[OF assms(2)] by auto
  then show ne: "path \<noteq> []" using assms(1) by (auto simp: child_path_def name_valid_def)
  show "base_parts path = base_parts relative @ [name]"
    using ne parts_child[OF assms(1)] by (simp add: base_parts_def eq)
qed

lemma archived_Nil [simp]: "archived relative [] = {}"
  by (auto simp: archived_def visible_def elim: source_reachesE)

lemma archived_hidden: "archived [] ((''.git'', node) # rest) = archived [] rest"
  by (simp add: archived_def visible_def)

lemma archived_Cons:
  assumes "\<not> (relative = [] \<and> name = ''.git'')" "path \<noteq> []" "base_parts path = base_parts relative @ [name]"
  shows "archived relative ((name, node) # rest) =
    insert (member_of (base_parts path) node) ((case node of Src_dir ds \<Rightarrow> archived path ds | _ \<Rightarrow> {}) \<union> archived relative rest)"
proof -
  have "visible relative ((name, node) # rest) = (name, node) # visible relative rest"
    using assms(1) by (auto simp: visible_def)
  then have "source_reaches (visible relative ((name, node) # rest)) ps x \<longleftrightarrow>
      ps = [name] \<and> x = node \<or> (\<exists>ds qs. node = Src_dir ds \<and> ps = name # qs \<and> source_reaches ds qs x) \<or>
      source_reaches (visible relative rest) ps x" for ps x
    by (simp add: reaches_iff[of "(name, node) # visible relative rest"] reaches_iff[of "visible relative rest"])
  moreover have "visible path ds = ds" for ds using assms(2) by (simp add: visible_def)
  ultimately show ?thesis
    by (auto simp: archived_def assms(3) split: source_node.splits)
qed

lemma add_entry_members: "add_entry limits path st = Inr st' \<Longrightarrow> bs_members st' = bs_members st"
  by (auto simp: add_entry_def bind_result_Inr_iff split: if_splits)

lemma add_file_members: "add_file limits n st = Inr st' \<Longrightarrow> bs_members st' = bs_members st"
  by (auto simp: add_file_def split: if_splits)

lemma archived_sort [simp]: "archived relative (sort_key fst cs) = archived relative cs"
proof -
  have "source_reaches (visible relative (sort_key fst cs)) ps x \<longleftrightarrow> source_reaches (visible relative cs) ps x" for ps x
    by (rule reaches_set) (simp add: visible_def)
  then show ?thesis by (simp add: archived_def)
qed

definition ordinary_below :: "string \<Rightarrow> (string \<times> source_node) list \<Rightarrow> bool" where
  "ordinary_below relative cs \<longleftrightarrow> (\<forall>ps x. source_reaches (visible relative cs) ps x \<longrightarrow> ordinary x)"

lemma ordinary_below_Cons:
  assumes "\<not> (relative = [] \<and> name = ''.git'')" "path \<noteq> []"
  shows "ordinary_below relative ((name, node) # rest) \<longleftrightarrow>
    ordinary node \<and> (case node of Src_dir ds \<Rightarrow> ordinary_below path ds | _ \<Rightarrow> True) \<and> ordinary_below relative rest"
proof -
  have "visible relative ((name, node) # rest) = (name, node) # visible relative rest"
    using assms(1) by (auto simp: visible_def)
  then have step: "source_reaches (visible relative ((name, node) # rest)) ps x \<longleftrightarrow>
      ps = [name] \<and> x = node \<or> (\<exists>ds qs. node = Src_dir ds \<and> ps = name # qs \<and> source_reaches ds qs x) \<or>
      source_reaches (visible relative rest) ps x" for ps x
    by (simp add: reaches_iff[of "(name, node) # visible relative rest"] reaches_iff[of "visible relative rest"])
  have "ordinary_below relative ((name, node) # rest) \<longleftrightarrow>
      ordinary node \<and> (\<forall>ds qs x. node = Src_dir ds \<and> source_reaches ds qs x \<longrightarrow> ordinary x) \<and> ordinary_below relative rest"
    unfolding ordinary_below_def step by blast
  moreover have "visible path ds = ds" for ds using assms(2) by (simp add: visible_def)
  ultimately show ?thesis by (cases node) (simp_all only: ordinary_below_def[of path] source_node.case source_node.inject source_node.distinct simp_thms, blast+)
qed

lemma ordinary_below_sort [simp]: "ordinary_below relative (sort_key fst cs) = ordinary_below relative cs"
proof -
  have "source_reaches (visible relative (sort_key fst cs)) ps x \<longleftrightarrow> source_reaches (visible relative cs) ps x" for ps x
    by (rule reaches_set) (simp add: visible_def)
  then show ?thesis by (simp add: ordinary_below_def)
qed

lemma source_ok_sort: "source_ok (Src_dir cs) \<Longrightarrow> source_ok (Src_dir (sort_key fst cs))"
  by (simp add: list_all_iff distinct_map)

text \<open>Everything archived is a file or a directory below the root, and all of those are.\<close>

lemma add_children_archives:
  assumes "add_children tell limits relative cs st = Inr st'" "source_ok (Src_dir cs)"
  shows "(\<exists>new. bs_members st' = bs_members st @ new \<and> set new = archived relative cs) \<and> ordinary_below relative cs"
  using assms
proof (induction tell limits relative cs st arbitrary: st' rule: add_children.induct)
  case (1 tell limits relative st)
  then show ?case by (auto simp: visible_def ordinary_below_def elim: source_reachesE)
next
  case (2 tell limits relative name node rest st)
  have ok: "name_valid name" "source_ok node" "source_ok (Src_dir rest)" using "2.prems"(2) by simp_all
  show ?case
  proof (cases "relative = [] \<and> name = ''.git''")
    case True
    then show ?thesis using "2.IH"(1) "2.prems"(1) ok(3)
      by (simp add: archived_hidden) (simp add: ordinary_below_def visible_def)
  next
    case False
    then obtain path where path: "canonical_member_path limits (child_path relative name) = Inr path"
      using "2.prems"(1) by (auto simp: bind_result_Inr_iff simp del: not_Cons_self)
    note base = child_path_canonical[OF ok(1) path]
    note below = archived_Cons[OF False base(2,3), of node rest] ordinary_below_Cons[OF False base(2), of node rest]
    have join: "join ''/'' (base_parts path) = path" using base(2) by (simp add: base_parts_def)
    have rest: "(\<exists>new. bs_members st' = bs_members s @ new \<and> set new = archived relative rest) \<and> ordinary_below relative rest"
      if "add_children tell limits relative rest s = Inr st'" for s
      using "2.IH"(3)[OF False that ok(3)] .
    show ?thesis
    proof (cases node)
      case (Src_dir ds)
      then obtain s1 s2 where s: "add_entry limits path st = Inr s1"
        "add_children tell limits path (sort_key fst ds) (written (directory_member path) s1) = Inr s2"
        "add_children tell limits relative rest s2 = Inr st'"
        using "2.prems"(1) False path by (auto simp: bind_result_Inr_iff)
      have "(\<exists>new. bs_members s2 = bs_members (written (directory_member path) s1) @ new \<and>
          set new = archived path (sort_key fst ds)) \<and> ordinary_below path (sort_key fst ds)"
        using "2.IH"(2)[OF False Src_dir s(2)] source_ok_sort ok(2) Src_dir by simp
      moreover have "member_of (base_parts path) node = directory_member path" by (simp add: member_of_def Src_dir join)
      ultimately show ?thesis using rest[OF s(3)] add_entry_members[OF s(1)] unfolding below
        by (auto simp: Src_dir ordinary_def written_def)
    next
      case (Src_file mode content)
      then obtain s1 s2 where s: "add_entry limits path st = Inr s1" "add_file limits (length content) s1 = Inr s2"
        "add_children tell limits relative rest (written (file_member path mode content) s2) = Inr st'"
        using "2.prems"(1) False path by (auto simp: bind_result_Inr_iff)
      have "member_of (base_parts path) node = file_member path mode content" by (simp add: member_of_def Src_file join)
      then show ?thesis using rest[OF s(3)] add_entry_members[OF s(1)] add_file_members[OF s(2)] unfolding below
        by (auto simp: Src_file ordinary_def written_def)
    qed (use "2.prems"(1) False path in \<open>simp_all\<close>)
  qed
qed

section \<open>And what is read back\<close>

text \<open>\<open>tarfile\<close> reads a member as it was written, without the slashes that end the name of a directory.\<close>

definition read_back :: "tar_member \<Rightarrow> tar_member" where
  "read_back m =
     (if is_dir m then m\<lparr>tm_name := rev (dropWhile (\<lambda>c. c = CHR ''/'') (rev (tm_name m)))\<rparr> else m)"

definition reads_back :: "tar_reader \<Rightarrow> (tar_member list \<Rightarrow> string) \<Rightarrow> string \<Rightarrow> bool" where
  "reads_back read_tar write_tar payload \<longleftrightarrow>
     (\<forall>ms. write_tar ms = payload \<longrightarrow> read_tar payload = (map read_back ms, True))"

definition workspace_node :: "source_node \<Rightarrow> fs_node option" where
  "workspace_node node =
     (case node of
        Src_dir _ \<Rightarrow> Some (Fs_dir DIRECTORY_MODE)
      | Src_file mode content \<Rightarrow> Some (Fs_file (file_mode (mode AND execute_bits \<noteq> 0)) content)
      | _ \<Rightarrow> None)"

lemma join_last:
  assumes "ps \<noteq> []" "\<forall>name \<in> set ps. name_valid name"
  shows "parts (join ''/'' ps) = ps" "join ''/'' ps \<noteq> []" "last (join ''/'' ps) \<noteq> CHR ''/''"
proof -
  show eq: "parts (join ''/'' ps) = ps" using assms by (intro parts_join) (auto simp: name_valid_def)
  have name: "name_valid (last ps)" using assms by simp
  obtain relative where "join ''/'' ps = child_path relative (last ps)"
  proof (cases "butlast ps")
    case Nil
    then have "ps = [last ps]" using assms(1) by (metis append_butlast_last_id append_Nil)
    then have "join ''/'' ps = child_path [] (last ps)" by (metis child_path_def join.simps(2))
    then show ?thesis by (rule that)
  next
    case (Cons a b)
    have "ps = butlast ps @ [last ps]" using assms(1) by simp
    then have join: "join ''/'' ps = join ''/'' (butlast ps) @ ''/'' @ last ps"
      using Cons by (metis join_append_ne join.simps(2) list.distinct(1))
    have "a \<in> set ps" by (rule in_set_butlastD) (simp add: Cons)
    then have "name_valid a" using assms(2) by (rule bspec[rotated])
    then have "join ''/'' (butlast ps) \<noteq> []" unfolding Cons by (cases b) (auto simp: name_valid_def)
    then have "join ''/'' ps = child_path (join ''/'' (butlast ps)) (last ps)" using join by (simp add: child_path_def)
    then show ?thesis by (rule that)
  qed
  moreover have "last (last ps) \<noteq> CHR ''/''" using name last_in_set unfolding name_valid_def by metis
  ultimately show "join ''/'' ps \<noteq> []" "last (join ''/'' ps) \<noteq> CHR ''/''"
    using name by (auto simp: child_path_def name_valid_def)
qed

lemma read_back_member:
  assumes "ps \<noteq> []" "\<forall>name \<in> set ps. name_valid name" "ordinary x"
  shows "tm_name (read_back (member_of ps x)) = join ''/'' ps"
    "is_dir (read_back (member_of ps x)) \<longleftrightarrow> (\<exists>ds. x = Src_dir ds)"
    "\<not> is_dir (read_back (member_of ps x)) \<Longrightarrow> workspace_node x = Some (node_of (read_back (member_of ps x)))"
proof -
  let ?p = "join ''/'' ps"
  have "hd (rev ?p) \<noteq> CHR ''/''" "rev ?p \<noteq> []" using join_last[OF assms(1,2)] by (simp_all add: hd_rev)
  then have drop: "dropWhile (\<lambda>c. c = CHR ''/'') (rev ?p) = rev ?p" by (cases "rev ?p") auto
  show "tm_name (read_back (member_of ps x)) = ?p"
    using assms(3)
    by (cases x) (simp_all add: ordinary_def member_of_def read_back_def directory_member_def file_member_def is_dir_def drop)
  show "is_dir (read_back (member_of ps x)) \<longleftrightarrow> (\<exists>ds. x = Src_dir ds)"
    using assms(3) by (cases x) (simp_all add: ordinary_def member_of_def read_back_def directory_member_def file_member_def is_dir_def)
  have "(if mode AND 73 \<noteq> 0 then 365 else 292 :: int) AND 73 \<noteq> 0 \<longleftrightarrow> mode AND 73 \<noteq> 0" for mode :: int by simp
  then show "\<not> is_dir (read_back (member_of ps x)) \<Longrightarrow> workspace_node x = Some (node_of (read_back (member_of ps x)))"
    using assms(3)
    by (cases x) (auto simp: ordinary_def member_of_def read_back_def directory_member_def file_member_def is_dir_def
      workspace_node_def node_of_def execute_bits_def)
qed

lemma member_path_named:
  assumes "member_ok limits m" "tm_name m = p" "last p \<noteq> CHR ''/''"
  shows "member_path m = p"
  using assms canonical_pathD(3)[of limits "tm_name m" "member_path m"] by (auto simp: member_ok_iff)

lemma built_archive:
  assumes "make_limits limits = Inr limits" "source_ok (Src_dir children)"
    and built: "build_source_artifact read_tar write_tar tell sha256 limits (Src_dir children) = Inr artifact"
    and reads: "reads_back read_tar write_tar (sa_archive artifact)"
  defines "ms \<equiv> fst (read_tar (sa_archive artifact))"
  shows "int (length (sa_archive artifact)) \<le> max_archive_bytes limits"
    "\<exists>va. validate_archive read_tar sha256 limits (sa_archive artifact) = Inr va \<and>
       sa_manifest_digest artifact = Some (manifest_digest sha256 (va_manifest va))"
    "set ms = {read_back (member_of ps x) | ps x. source_reaches (visible [] children) ps x}"
    "ordinary_below [] children"
proof -
  obtain st va where st: "add_children tell limits [] (sort_key fst children) empty_build = Inr st"
    "\<not> int (length (write_tar (bs_members st))) > max_archive_bytes limits"
    "validate_archive read_tar sha256 limits (write_tar (bs_members st)) = Inr va"
    "make_source_artifact (write_tar (bs_members st)) (Some (manifest_digest sha256 (va_manifest va))) = Inr artifact"
    using built by (auto simp: build_source_artifact_def bind_result_Inr_iff guard_Inr Let_def)
  then have artifact: "sa_archive artifact = write_tar (bs_members st)"
    "sa_manifest_digest artifact = Some (manifest_digest sha256 (va_manifest va))"
    by (auto simp: make_source_artifact_def split: if_splits)
  show "int (length (sa_archive artifact)) \<le> max_archive_bytes limits" using st(2) artifact(1) by simp
  show "\<exists>va. validate_archive read_tar sha256 limits (sa_archive artifact) = Inr va \<and>
       sa_manifest_digest artifact = Some (manifest_digest sha256 (va_manifest va))"
    using st(3) artifact by auto
  have new: "set (bs_members st) = archived [] children" "ordinary_below [] children"
    using add_children_archives[OF st(1) source_ok_sort[OF assms(2)]] by (auto simp: empty_build_def)
  then show "ordinary_below [] children" by blast
  have "ms = map read_back (bs_members st)" using reads artifact(1) by (simp add: reads_back_def ms_def)
  then show "set ms = {read_back (member_of ps x) | ps x. source_reaches (visible [] children) ps x}"
    using new(1) by (auto simp: archived_def base_parts_def)
qed

lemma visible_ok: "source_ok (Src_dir cs) \<Longrightarrow> source_ok (Src_dir (visible relative cs))"
  by (auto simp: visible_def list_all_iff distinct_map_filter)

text \<open>The members read back from the archive of a checkout, and the tree written from them.\<close>

definition checkout_members :: "workspace_limits \<Rightarrow> (string \<times> source_node) list \<Rightarrow> tar_member list \<Rightarrow> bool" where
  "checkout_members limits cs ms \<longleftrightarrow>
     safe_members limits ms \<and> source_ok (Src_dir cs) \<and>
     set ms = {read_back (member_of ps x) | ps x. source_reaches cs ps x} \<and> (\<forall>ps x. source_reaches cs ps x \<longrightarrow> ordinary x)"

lemma checkout_member:
  assumes "checkout_members limits cs ms" "source_reaches cs ps x"
  defines "m \<equiv> read_back (member_of ps x)"
  shows "m \<in> set ms" "parts (member_path m) = ps" "is_dir m \<longleftrightarrow> (\<exists>ds. x = Src_dir ds)"
    "\<not> is_dir m \<Longrightarrow> workspace_node x = Some (node_of m)" "ordinary x"
proof -
  show m: "m \<in> set ms" using assms by (auto simp: checkout_members_def)
  show o: "ordinary x" using assms by (auto simp: checkout_members_def)
  have ps: "ps \<noteq> []" "\<forall>name \<in> set ps. name_valid name"
    using assms(1,2) reaches_ne reaches_names by (auto simp: checkout_members_def)
  have "member_ok limits m" using assms(1) m by (simp add: checkout_members_def safe_members_def)
  then show "parts (member_path m) = ps"
    using member_path_named read_back_member(1)[OF ps o] join_last[OF ps] unfolding m_def by metis
  show "is_dir m \<longleftrightarrow> (\<exists>ds. x = Src_dir ds)" unfolding m_def by (rule read_back_member(2)[OF ps o])
  show "\<not> is_dir m \<Longrightarrow> workspace_node x = Some (node_of m)" unfolding m_def by (rule read_back_member(3)[OF ps o])
qed

lemma checkout_memberE:
  assumes "checkout_members limits cs ms" "m \<in> set ms"
  obtains ps x where "source_reaches cs ps x" "m = read_back (member_of ps x)"
  using assms by (auto simp: checkout_members_def)

lemma checkout_directories:
  assumes "checkout_members limits cs ms" "ps \<noteq> []"
  shows "ps \<in> parts ` directories_of ms \<longleftrightarrow> (\<exists>ds. source_reaches cs ps (Src_dir ds))"
proof
  assume "ps \<in> parts ` directories_of ms"
  then obtain d m where d: "ps = parts d" "m \<in> set ms"
    "is_dir m \<and> d = member_path m \<or> strict_prefix (parts d) (parts (member_path m))"
    by (auto simp: directories_iff)
  from checkout_memberE[OF assms(1) d(2)] obtain qs x where x: "source_reaches cs qs x" "m = read_back (member_of qs x)" .
  note member = checkout_member[OF assms(1) x(1), folded x(2)]
  from d(3) show "\<exists>ds. source_reaches cs ps (Src_dir ds)"
  proof
    assume "is_dir m \<and> d = member_path m"
    then show ?thesis using member(2,3) d(1) x(1) by auto
  next
    assume "strict_prefix (parts d) (parts (member_path m))"
    then have "strict_prefix ps qs" using member(2) d(1) by simp
    then obtain z zs where "qs = ps @ z # zs" by (rule strict_prefixE')
    then show ?thesis using reaches_prefix x(1) assms(2) by blast
  qed
next
  assume "\<exists>ds. source_reaches cs ps (Src_dir ds)"
  then obtain ds where ds: "source_reaches cs ps (Src_dir ds)" by blast
  note member = checkout_member[OF assms(1) ds]
  have "member_path (read_back (member_of ps (Src_dir ds))) \<in> directories_of ms"
    using member(1,3) by (auto simp: directories_iff)
  then show "ps \<in> parts ` directories_of ms" using member(2) by (metis imageI)
qed

lemma checkout_files:
  assumes "checkout_members limits cs ms" "ps \<in> (\<lambda>m. parts (member_path m)) ` set (file_members ms)"
  shows "\<exists>x. source_reaches cs ps x \<and> (\<nexists>ds. x = Src_dir ds)"
proof -
  obtain m where m: "m \<in> set ms" "\<not> is_dir m" "ps = parts (member_path m)"
    using assms(2) by (auto simp: file_members_def)
  from checkout_memberE[OF assms(1) m(1)] obtain qs x where x: "source_reaches cs qs x" "m = read_back (member_of qs x)" .
  then show ?thesis using checkout_member(2,3)[OF assms(1) x(1), folded x(2)] m(2,3) by auto
qed

lemma checkout_tree:
  assumes cm: "checkout_members limits cs ms"
    and files: "\<forall>m \<in> set (file_members ms). map_of f (parts (member_path m)) = Some (node_of m)"
    and rest: "\<forall>ps. ps \<notin> (\<lambda>m. parts (member_path m)) ` set (file_members ms) \<longrightarrow>
      map_of f ps = (if ps = [] \<or> ps \<in> parts ` directories_of ms then Some (Fs_dir DIRECTORY_MODE) else None)"
  shows "map_of f ps = Option.bind (source_at (Src_dir cs) ps) workspace_node"
proof (cases "ps = []")
  case True
  have "[] \<notin> (\<lambda>m. parts (member_path m)) ` set (file_members ms)" by (auto dest: sym[of "[]"])
  then show ?thesis using rest True by (simp add: workspace_node_def)
next
  case False
  have at: "source_at (Src_dir cs) ps = Some x \<longleftrightarrow> source_reaches cs ps x" for x
    using cm source_at_iff False by (simp add: checkout_members_def)
  show ?thesis
  proof (cases "source_at (Src_dir cs) ps")
    case None
    then have none: "\<not> source_reaches cs ps x" for x using at[of x] by simp
    then have "ps \<notin> (\<lambda>m. parts (member_path m)) ` set (file_members ms)" using checkout_files[OF cm] by blast
    moreover have "ps \<notin> parts ` directories_of ms" using checkout_directories[OF cm False] none by blast
    ultimately show ?thesis using rest None False by simp
  next
    case (Some x)
    then have x: "source_reaches cs ps x" using at by blast
    show ?thesis
    proof (cases "\<exists>ds. x = Src_dir ds")
      case True
      have "y = x" if "source_reaches cs ps y" for y using at[of y] that Some by simp
      then have "ps \<notin> (\<lambda>m. parts (member_path m)) ` set (file_members ms)"
        using checkout_files[OF cm] True by metis
      moreover have "ps \<in> parts ` directories_of ms" using checkout_directories[OF cm False] x True by blast
      ultimately show ?thesis using rest True Some by (auto simp: workspace_node_def)
    next
      case no_dir: False
      note member = checkout_member[OF cm x]
      have "read_back (member_of ps x) \<in> set (file_members ms)" using member(1,3) no_dir by (simp add: file_members_def)
      then have "map_of f ps = Some (node_of (read_back (member_of ps x)))" using files member(2) by auto
      then show ?thesis using member(3,4) no_dir Some by simp
    qed
  qed
qed

lemma checkout_fits:
  assumes "checkout_members limits cs ms"
  shows "(\<forall>e \<in> set (mf_entries (va_manifest (archive_of sha256 ms))). fits base (en_path e)) \<longleftrightarrow>
    (\<forall>ps x. source_reaches cs ps x \<longrightarrow> fits base (join ''/'' ps))"
  unfolding entry_paths
proof (intro iffI conjI ballI allI impI)
  fix ps x
  assume all: "(\<forall>d \<in> directories_of ms. fits base d) \<and> (\<forall>m \<in> set (file_members ms). fits base (member_path m))"
    and x: "source_reaches cs ps x"
  note member = checkout_member[OF assms x]
  show "fits base (join ''/'' ps)"
  proof (cases "\<exists>ds. x = Src_dir ds")
    case True
    then have "ps \<in> parts ` directories_of ms" using checkout_directories[OF assms reaches_ne[OF x]] x by blast
    then show ?thesis using all by auto
  next
    case False
    then have "read_back (member_of ps x) \<in> set (file_members ms)" using member(1,3) by (simp add: file_members_def)
    then have "fits base (join ''/'' (parts (member_path (read_back (member_of ps x)))))" using all by simp
    then show ?thesis unfolding member(2) .
  qed
next
  assume all: "\<forall>ps x. source_reaches cs ps x \<longrightarrow> fits base (join ''/'' ps)"
  show "fits base d" if "d \<in> directories_of ms" for d
  proof -
    obtain ds where "source_reaches cs (parts d) (Src_dir ds)"
      using checkout_directories[OF assms parts_ne, of d] \<open>d \<in> directories_of ms\<close> by blast
    then have "fits base (join ''/'' (parts d))" using all by blast
    then show ?thesis by simp
  qed
  show "fits base (member_path m)" if "m \<in> set (file_members ms)" for m
  proof -
    obtain x where "source_reaches cs (parts (member_path m)) x"
      using checkout_files[OF assms, of "parts (member_path m)"] \<open>m \<in> set (file_members ms)\<close> by blast
    then have "fits base (join ''/'' (parts (member_path m)))" using all by blast
    then show ?thesis by simp
  qed
qed

text \<open>C33: An agent sees exactly the checkout. Where the tar reader reads back what was written, a checkout
that could be archived is materialised in every empty writable directory: below it every directory and every
file of the checkout, at its path, with its bytes and its executable bit, is there, and nothing else but
those; only the control file .git at the root is left out, and nothing can be written to. In particular the
bound manifest digest is accepted. The one exception is a directory so deep in its own file system that a
path of the checkout below it is too long for the system (a path of 4096 bytes, or a name of more than 255
bytes, which the checkout's own file system would have refused too): then the call fails.\<close>

theorem workspace_is_the_checkout:
  assumes limits: "make_limits limits = Inr limits" and source: "source_ok (Src_dir children)"
    and built: "build_source_artifact read_tar write_tar tell sha256 limits (Src_dir children) = Inr artifact"
    and reads: "reads_back read_tar write_tar (sa_archive artifact)"
    and destination: "require_empty_real_directory files = Inr ()" "tree_shaped files"
      "map_of files [] = Some (Fs_dir mode)" "mode AND 128 \<noteq> 0"
  shows "if \<forall>ps x. source_reaches (visible [] children) ps x \<longrightarrow> fits base (join ''/'' ps)
    then \<exists>manifest files'. materialize_source_artifact base read_tar sha256 limits artifact files = Inr (manifest, files') \<and>
      (\<forall>ps. map_of files' ps = Option.bind (source_at (Src_dir (visible [] children)) ps) workspace_node)
    else materialize_source_artifact base read_tar sha256 limits artifact files = Inl Cannot_write"
proof -
  let ?ms = "fst (read_tar (sa_archive artifact))"
  note archive = built_archive[OF limits source built reads]
  obtain va where va: "validate_archive read_tar sha256 limits (sa_archive artifact) = Inr va"
    "sa_manifest_digest artifact = Some (manifest_digest sha256 (va_manifest va))"
    using archive(2) by blast
  then have safe: "safe_members limits ?ms" "va = archive_of sha256 ?ms" using validate_archive_iff[OF limits] by blast+
  then have cm: "checkout_members limits (visible [] children) ?ms"
    unfolding checkout_members_def using archive(3,4)[unfolded ordinary_below_def] visible_ok[OF source] by (intro conjI)
  have bound: "sa_manifest_digest artifact \<in> {None, Some (manifest_digest sha256 (va_manifest va))}" using va(2) by simp
  note room = checkout_fits[OF cm, of sha256 base, folded safe(2)]
  show ?thesis
  proof (cases "\<forall>ps x. source_reaches (visible [] children) ps x \<longrightarrow> fits base (join ''/'' ps)")
    case True
    from materialized[OF limits va(1) archive(1) bound destination room[THEN iffD2, OF True]] obtain f where
      f: "materialize_source_artifact base read_tar sha256 limits artifact files = Inr (va_manifest va, f)"
      "\<forall>m \<in> set (file_members ?ms). map_of f (parts (member_path m)) = Some (node_of m)"
      "\<forall>ps. ps \<notin> (\<lambda>m. parts (member_path m)) ` set (file_members ?ms) \<longrightarrow>
        map_of f ps = (if ps = [] \<or> ps \<in> parts ` directories_of ?ms then Some (Fs_dir DIRECTORY_MODE) else None)"
      by (elim exE conjE)
    have "\<forall>ps. map_of f ps = Option.bind (source_at (Src_dir (visible [] children)) ps) workspace_node"
      using checkout_tree[OF cm f(2,3)] by (rule allI)
    with f(1) show ?thesis unfolding if_P[OF True] by (intro exI conjI)
  next
    case False
    then have "\<exists>e \<in> set (mf_entries (va_manifest va)). \<not> fits base (en_path e)" using room by blast
    from cannot_materialize[OF limits va(1) archive(1) bound destination(1) this]
    show ?thesis unfolding if_not_P[OF False] .
  qed
qed

section \<open>Instances\<close>

definition sample_tree :: "(string \<times> source_node) list" where
  "sample_tree =
     [(''src'', Src_dir [(''b.sh'', Src_file 493 ''run''), (''a.py'', Src_file 420 ''x = 1'')]),
      (''.git'', Src_file 420 ''gitdir: /private'')]"

definition sample_members :: "tar_member list" where
  "sample_members =
     [directory_member ''src'', file_member ''src/a.py'' 420 ''x = 1'', file_member ''src/b.sh'' 493 ''run'']"

definition sample_write :: "tar_member list \<Rightarrow> string" where
  "sample_write ms = (if ms = sample_members then ''tar'' else [])"

definition sample_read :: tar_reader where
  "sample_read payload = (if payload = ''tar'' then (map read_back sample_members, True) else ([], False))"

definition sample_tell :: "tar_member list \<Rightarrow> nat" where "sample_tell ms = 512 * length ms"
definition sample_hash :: "string \<Rightarrow> string" where "sample_hash s = replicate 64 (CHR ''a'')"
definition sample_workspace :: fs where "sample_workspace = [([], Fs_dir 448)]"

lemma sample_limits: "make_limits DEFAULT_WORKSPACE_LIMITS = Inr DEFAULT_WORKSPACE_LIMITS"
  by (simp add: make_limits_def DEFAULT_WORKSPACE_LIMITS_def)

lemma sample_destination:
  "require_empty_real_directory sample_workspace = Inr ()" "tree_shaped sample_workspace"
  "map_of sample_workspace [] = Some (Fs_dir 448)" "(448 :: int) AND 128 \<noteq> 0"
  by (simp_all add: require_empty_real_directory_def sample_workspace_def tree_shaped_def)

lemma sample_fits:
  "\<forall>ps x. source_reaches (visible [] sample_tree) ps x \<longrightarrow> fits 20 (join ''/'' ps)"
proof (intro allI impI)
  fix ps x
  assume "source_reaches (visible [] sample_tree) ps x"
  moreover have "visible [] sample_tree =
      [(''src'', Src_dir [(''b.sh'', Src_file 493 ''run''), (''a.py'', Src_file 420 ''x = 1'')])]" by code_simp
  ultimately have "ps = [''src''] \<or> (\<exists>qs. ps = ''src'' # qs \<and>
      source_reaches [(''b.sh'', Src_file 493 ''run''), (''a.py'', Src_file 420 ''x = 1'')] qs x)"
    by (auto simp: reaches_iff[of "[(''src'', y)]" for y])
  then have "ps \<in> {[''src''], [''src'', ''b.sh''], [''src'', ''a.py'']}"
    by (auto simp: reaches_iff[of "[(''b.sh'', y), (''a.py'', z)]" for y z])
  moreover have "fits 20 (join ''/'' [''src''])" "fits 20 (join ''/'' [''src'', ''b.sh''])"
    "fits 20 (join ''/'' [''src'', ''a.py''])" by code_simp+
  ultimately show "fits 20 (join ''/'' ps)" by blast
qed

lemma sample_built:
  "\<exists>artifact. build_source_artifact sample_read sample_write sample_tell sample_hash DEFAULT_WORKSPACE_LIMITS
     (Src_dir sample_tree) = Inr artifact \<and> sa_archive artifact = ''tar''"
proof -
  have "case build_source_artifact sample_read sample_write sample_tell sample_hash DEFAULT_WORKSPACE_LIMITS
     (Src_dir sample_tree) of Inl _ \<Rightarrow> False | Inr artifact \<Rightarrow> sa_archive artifact = ''tar''"
    by code_simp
  then show ?thesis by (auto split: sum.splits)
qed

lemma workspace_is_the_checkout_witness:
  "\<exists>artifact manifest files.
     build_source_artifact sample_read sample_write sample_tell sample_hash DEFAULT_WORKSPACE_LIMITS
       (Src_dir sample_tree) = Inr artifact \<and>
     materialize_source_artifact 20 sample_read sample_hash DEFAULT_WORKSPACE_LIMITS artifact sample_workspace = Inr (manifest, files) \<and>
     map_of files [''src'', ''b.sh''] = Some (Fs_file 365 ''run'') \<and> map_of files [''.git''] = None"
proof -
  obtain artifact where built: "build_source_artifact sample_read sample_write sample_tell sample_hash
      DEFAULT_WORKSPACE_LIMITS (Src_dir sample_tree) = Inr artifact" "sa_archive artifact = ''tar''"
    using sample_built by blast
  have reads: "reads_back sample_read sample_write (sa_archive artifact)"
    by (auto simp: reads_back_def sample_write_def sample_read_def built(2))
  have "source_ok (Src_dir sample_tree)" by (simp add: sample_tree_def name_valid_def)
  from workspace_is_the_checkout[OF sample_limits this built(1) reads sample_destination, of 20, unfolded if_P[OF sample_fits]]
  obtain m f where
    f: "materialize_source_artifact 20 sample_read sample_hash DEFAULT_WORKSPACE_LIMITS artifact sample_workspace = Inr (m, f)"
    "\<forall>ps. map_of f ps = Option.bind (source_at (Src_dir (visible [] sample_tree)) ps) workspace_node"
    by (elim exE conjE)
  have "map_of f [''src'', ''b.sh''] = Some (Fs_file 365 ''run'')" "map_of f [''.git''] = None"
    by (simp_all add: f(2) visible_def sample_tree_def workspace_node_def execute_bits_def file_mode_def)
  then show ?thesis using built(1) f(1) by (intro exI conjI)
qed

lemma archive_accepted_iff_safe_witness:
  "\<exists>va. validate_archive sample_read sample_hash DEFAULT_WORKSPACE_LIMITS ''tar'' = Inr va"
proof -
  have "safe_members DEFAULT_WORKSPACE_LIMITS (map read_back sample_members)" by code_simp
  then show ?thesis using archive_accepted_iff_safe[OF sample_limits, of sample_read sample_hash "''tar''"]
    by (simp add: sample_read_def)
qed


text \<open>Validation, and the archiving of a checkout before it, bound only whole paths: a name of 300 bytes
  passes, and the workspace cannot be written.\<close>

definition long_name :: string where "long_name = replicate 300 (CHR ''a'')"

lemma long_name_is_valid_but_not_written:
  "canonical_member_path DEFAULT_WORKSPACE_LIMITS long_name = Inr long_name \<and>
   \<not> can_create base [long_name] files"
proof -
  have "canonical_member_path DEFAULT_WORKSPACE_LIMITS long_name = Inr long_name" by code_simp
  moreover have "\<not> name_fits long_name" by code_simp
  ultimately show ?thesis by (simp add: can_create_def)
qed

end
