(* ===== verification/Agent_Result.thy ===== *)
theory Agent_Result
  imports Access Review_Models
begin

text \<open>
  The structured results of agent sessions (\<open>diffuse_protocol/result.py\<close>): their bounds, the binding of a
  result to its session and runtime, and the binding of a verification to the candidate it verifies.
  \<open>AgentFinding\<close> has the fields and the validator of \<open>CandidateFinding\<close>.  pydantic's reading of a dictionary
  is a parameter: \<open>decode\<close> gives the typed fields, stripped, or the type of its first error; the bounds of the
  fields, in the order of the fields, and the validators are modelled.
\<close>

datatype failure_code =
    Invalid_json | Not_an_object | Unsupported_version | Missing_field | Extra_field | Wrong_type
  | Constraint_violation | Empty_findings_without_summary | Schema_mismatch | Result_too_large
  | Audit_reference_mismatch | Candidate_digest_mismatch | Unknown_decision_id | Duplicate_decision_id

definition RESULT_ENVELOPE_KEYS :: "string list" where
  "RESULT_ENVELOPE_KEYS = [''session_id'', ''capability_id'', ''prompt_tokens'', ''completion_tokens'']"

record investigation_result =
  ar_runtime :: string
  ar_summary :: string
  ar_risk_score :: real
  ar_findings :: "candidate_finding list"
  ar_audit_reference :: string
  ar_coverage_caveat :: "string option"

record verification_result =
  vr_runtime :: string
  vr_summary :: string
  vr_risk_score :: real
  vr_decisions :: "verification_decision list"
  vr_candidate_digest :: string
  vr_audit_reference :: string
  vr_coverage_caveat :: "string option"

type_synonym 'r decoder = "(string \<times> json) list \<Rightarrow> string + 'r"

section \<open>The models\<close>

definition is_result_digest :: "string \<Rightarrow> bool" where
  "is_result_digest s \<longleftrightarrow> length s = 64 \<and> list_all is_hex_lower s"

fun accept_findings :: "('a \<Rightarrow> 'a option) \<Rightarrow> 'a list \<Rightarrow> 'a list option" where
  "accept_findings f [] = Some []"
| "accept_findings f (x # xs) =
     (case f x of None \<Rightarrow> None | Some y \<Rightarrow> map_option ((#) y) (accept_findings f xs))"

definition accept_investigation :: "investigation_result \<Rightarrow> failure_code + investigation_result" where
  "accept_investigation r =
     (if \<not> text_between 1 4000 (ar_summary r) \<or> \<not> (0 \<le> ar_risk_score r \<and> ar_risk_score r \<le> 10) \<or>
         80 < length (ar_findings r) \<or> \<not> text_between 1 200 (ar_audit_reference r) \<or>
         \<not> opt_text 2000 (ar_coverage_caveat r)
      then Inl Constraint_violation
      else
        (case accept_findings accept_candidate (ar_findings r) of
           None \<Rightarrow> Inl Constraint_violation
         | Some findings \<Rightarrow> Inr (r\<lparr>ar_findings := findings\<rparr>)))"

text \<open>A pattern that does not match is a schema mismatch; so is the id of a decision.\<close>

definition decision_error :: "verification_decision \<Rightarrow> failure_code option" where
  "decision_error d =
     (if \<not> is_candidate_id (vd_candidate_id d) then Some Schema_mismatch
      else if \<not> accept_decision d then Some Constraint_violation
      else None)"

definition accept_verification :: "verification_result \<Rightarrow> failure_code + verification_result" where
  "accept_verification r =
     (if \<not> text_between 1 4000 (vr_summary r) \<or> \<not> (0 \<le> vr_risk_score r \<and> vr_risk_score r \<le> 10)
      then Inl Constraint_violation
      else
        (case List.find (\<lambda>d. decision_error d \<noteq> None) (vr_decisions r) of
           Some d \<Rightarrow> Inl (the (decision_error d))
         | None \<Rightarrow>
             if 80 < length (vr_decisions r) then Inl Constraint_violation
             else if \<not> is_result_digest (vr_candidate_digest r) then Inl Schema_mismatch
             else if \<not> text_between 1 200 (vr_audit_reference r) \<or> \<not> opt_text 2000 (vr_coverage_caveat r)
             then Inl Constraint_violation
             else Inr r))"

section \<open>Validation\<close>

definition classify_pydantic_error :: "string \<Rightarrow> failure_code" where
  "classify_pydantic_error error_type =
     (if error_type = ''missing'' then Missing_field
      else if error_type \<in> {''extra_forbidden'', ''unexpected_keyword_argument''} then Extra_field
      else if endswith error_type ''_type'' \<or> endswith error_type ''_parsing'' \<or>
        error_type \<in> {''literal_error'', ''enum''} then Wrong_type
      else if error_type \<in> {''greater_than'', ''greater_than_equal'', ''less_than'', ''less_than_equal'',
        ''string_too_short'', ''string_too_long'', ''too_short'', ''too_long'', ''value_error''} then Constraint_violation
      else Schema_mismatch)"

definition loaded_result_text :: "(string \<Rightarrow> string) \<Rightarrow> string \<Rightarrow> failure_code + (string \<times> json) list" where
  "loaded_result_text ft text =
     (case json_loads ft text of
        None \<Rightarrow> Inl Invalid_json
      | Some (JObj kvs) \<Rightarrow> Inr kvs
      | Some _ \<Rightarrow> Inl Not_an_object)"

definition validate_result_model ::
    "'r decoder \<Rightarrow> ('r \<Rightarrow> failure_code + 'r) \<Rightarrow> (string \<times> json) list \<Rightarrow> failure_code + 'r" where
  "validate_result_model decode accept loaded =
     (if (case map_of loaded ''schema_version'' of
            None \<Rightarrow> False | Some v \<Rightarrow> v \<noteq> JNull \<and> \<not> is_version v) then Inl Unsupported_version
      else
        (case decode loaded of
           Inl error_type \<Rightarrow> Inl (classify_pydantic_error error_type)
         | Inr r \<Rightarrow> accept r))"

definition validate_agent_investigation_result ::
    "investigation_result decoder \<Rightarrow> (string \<times> json) list \<Rightarrow> failure_code + investigation_result" where
  "validate_agent_investigation_result decode loaded =
     bind_result (validate_result_model decode accept_investigation loaded) (\<lambda>r.
       if ar_findings r = [] \<and> strip (ar_summary r) = [] then Inl Empty_findings_without_summary else Inr r)"

definition validate_agent_verification_result ::
    "verification_result decoder \<Rightarrow> (string \<times> json) list \<Rightarrow> failure_code + verification_result" where
  "validate_agent_verification_result decode loaded = validate_result_model decode accept_verification loaded"

section \<open>Binding\<close>

definition canonical_result_payload_bytes :: "(string \<times> json) list \<Rightarrow> string" where
  "canonical_result_payload_bytes payload = json_dumps (JObj payload)"

definition canonical_result_payload_digest :: "(string \<Rightarrow> string) \<Rightarrow> (string \<times> json) list \<Rightarrow> string" where
  "canonical_result_payload_digest sha256 payload = sha256 (canonical_result_payload_bytes payload)"

definition accept_bound_result ::
    "((string \<times> json) list \<Rightarrow> failure_code + 'r) \<Rightarrow> ('r \<Rightarrow> string) \<Rightarrow> ('r \<Rightarrow> string) \<Rightarrow> string \<Rightarrow> string \<Rightarrow> int \<Rightarrow>
     (string \<times> json) list \<Rightarrow> failure_code + 'r" where
  "accept_bound_result validator runtime_of audit_of session_id runtime max_result_bytes payload =
     (if int (length (canonical_result_payload_bytes payload)) > max_result_bytes then Inl Result_too_large
      else
        bind_result (validator (filter (\<lambda>(key, _). key \<notin> set RESULT_ENVELOPE_KEYS) payload)) (\<lambda>r.
          if runtime_of r \<noteq> runtime then Inl Constraint_violation
          else if audit_of r \<noteq> session_id then Inl Audit_reference_mismatch
          else Inr r))"

definition accept_bound_agent_investigation_result ::
    "investigation_result decoder \<Rightarrow> string \<Rightarrow> string \<Rightarrow> int \<Rightarrow> (string \<times> json) list \<Rightarrow>
     failure_code + investigation_result" where
  "accept_bound_agent_investigation_result decode =
     accept_bound_result (validate_agent_investigation_result decode) ar_runtime ar_audit_reference"

definition accept_candidate_result_input ::
    "investigation_result decoder \<Rightarrow> (string \<Rightarrow> string) \<Rightarrow> string option \<Rightarrow> int \<Rightarrow> (string \<times> json) list \<Rightarrow>
     failure_code + investigation_result \<times> string" where
  "accept_candidate_result_input decode sha256 expected_digest max_result_bytes payload =
     (case (map_of payload ''session_id'', map_of payload ''runtime'') of
        (Some (JStr session_id), Some (JStr runtime)) \<Rightarrow>
          bind_result (accept_bound_agent_investigation_result decode session_id runtime max_result_bytes payload) (\<lambda>r.
            (let digest = canonical_result_payload_digest sha256 payload in
             if differs expected_digest digest then Inl Candidate_digest_mismatch else Inr (r, digest)))
      | _ \<Rightarrow> Inl Missing_field)"

fun check_decisions :: "string set \<Rightarrow> string set \<Rightarrow> verification_decision list \<Rightarrow> failure_code unit_result" where
  "check_decisions allowed seen [] = Inr ()"
| "check_decisions allowed seen (d # ds) =
     (if vd_candidate_id d \<notin> allowed then Inl Unknown_decision_id
      else if vd_candidate_id d \<in> seen then Inl Duplicate_decision_id
      else check_decisions allowed (insert (vd_candidate_id d) seen) ds)"

definition accept_bound_agent_verification_result ::
    "verification_result decoder \<Rightarrow> string \<Rightarrow> string \<Rightarrow> string \<Rightarrow> string set \<Rightarrow> int \<Rightarrow> (string \<times> json) list \<Rightarrow>
     failure_code + verification_result" where
  "accept_bound_agent_verification_result decode session_id runtime candidate_digest allowed max_result_bytes payload =
     bind_result
       (accept_bound_result (validate_agent_verification_result decode) vr_runtime vr_audit_reference
          session_id runtime max_result_bytes payload) (\<lambda>r.
       if vr_candidate_digest r \<noteq> candidate_digest then Inl Candidate_digest_mismatch
       else bind_result (check_decisions allowed {} (vr_decisions r)) (\<lambda>_. Inr r))"

section \<open>What an accepted result is\<close>

lemma accept_findings_Some: "accept_findings f xs = Some ys \<longleftrightarrow> list_all2 (\<lambda>x y. f x = Some y) xs ys"
  by (induction xs arbitrary: ys) (auto split: option.splits simp: list_all2_Cons1)

lemma check_decisions_iff:
  "check_decisions allowed seen ds = Inr () \<longleftrightarrow>
     distinct (map vd_candidate_id ds) \<and> (\<forall>d \<in> set ds. vd_candidate_id d \<in> allowed - seen)"
  by (induction allowed seen ds rule: check_decisions.induct) (auto simp: image_iff)

lemma accept_bound_result_Inr:
  "accept_bound_result validator runtime_of audit_of session_id runtime limit payload = Inr r \<longleftrightarrow>
     int (length (canonical_result_payload_bytes payload)) \<le> limit \<and>
     validator (filter (\<lambda>(key, _). key \<notin> set RESULT_ENVELOPE_KEYS) payload) = Inr r \<and>
     runtime_of r = runtime \<and> audit_of r = session_id"
  by (auto simp: accept_bound_result_def bind_result_Inr_iff)

lemma list_all2_right: "list_all2 P xs ys \<Longrightarrow> y \<in> set ys \<Longrightarrow> \<exists>x. P x y"
  by (induction xs ys rule: list_all2_induct) auto

lemma accept_investigation_Inr:
  assumes "accept_investigation r = Inr r'"
  shows "text_between 1 4000 (ar_summary r')" "0 \<le> ar_risk_score r' \<and> ar_risk_score r' \<le> 10"
    "length (ar_findings r') \<le> 80" "\<forall>c \<in> set (ar_findings r'). cd_classification c \<noteq> None \<longleftrightarrow> cd_category c = Cat_security"
    "\<forall>c \<in> set (ar_findings r'). 0 < cd_line c \<and> text_between 1 1024 (cd_file_path c)"
proof -
  obtain findings where f: "r' = r\<lparr>ar_findings := findings\<rparr>" "list_all2 (\<lambda>x y. accept_candidate x = Some y) (ar_findings r) findings"
    "text_between 1 4000 (ar_summary r)" "0 \<le> ar_risk_score r \<and> ar_risk_score r \<le> 10" "length (ar_findings r) \<le> 80"
    using assms by (auto simp: accept_investigation_def accept_findings_Some split: if_splits option.splits)
  show "text_between 1 4000 (ar_summary r')" "0 \<le> ar_risk_score r' \<and> ar_risk_score r' \<le> 10" using f by simp_all
  show "length (ar_findings r') \<le> 80" using f(1,2,5) list_all2_lengthD by fastforce
  have one: "(cd_classification y \<noteq> None \<longleftrightarrow> cd_category y = Cat_security) \<and> 0 < cd_line y \<and> text_between 1 1024 (cd_file_path y)"
    if "accept_candidate x = Some y" for x y
    using that by (auto simp: accept_candidate_def classification_for_def split: if_splits)
  have every: "(cd_classification y \<noteq> None \<longleftrightarrow> cd_category y = Cat_security) \<and> 0 < cd_line y \<and> text_between 1 1024 (cd_file_path y)"
    if "y \<in> set (ar_findings r')" for y
  proof -
    have "y \<in> set findings" using that f(1) by simp
    then obtain x where "accept_candidate x = Some y" using list_all2_right[OF f(2)] by blast
    then show ?thesis by (rule one)
  qed
  then show "\<forall>c \<in> set (ar_findings r'). cd_classification c \<noteq> None \<longleftrightarrow> cd_category c = Cat_security" by simp
  show "\<forall>c \<in> set (ar_findings r'). 0 < cd_line c \<and> text_between 1 1024 (cd_file_path c)" using every by simp
qed

text \<open>An accepted verification answers for its own session and candidate, and judges each candidate at most once.\<close>

lemma accepted_verification:
  assumes "accept_bound_agent_verification_result decode session_id runtime digest allowed limit payload = Inr r"
  shows "vr_audit_reference r = session_id \<and> vr_runtime r = runtime \<and> vr_candidate_digest r = digest \<and>
    int (length (canonical_result_payload_bytes payload)) \<le> limit \<and>
    distinct (map vd_candidate_id (vr_decisions r)) \<and> (\<forall>d \<in> set (vr_decisions r). vd_candidate_id d \<in> allowed \<and> accept_decision d)"
proof -
  have parts: "accept_bound_result (validate_agent_verification_result decode) vr_runtime vr_audit_reference
      session_id runtime limit payload = Inr r" "vr_candidate_digest r = digest"
    "check_decisions allowed {} (vr_decisions r) = Inr ()"
    using assms by (auto simp: accept_bound_agent_verification_result_def bind_result_Inr_iff split: if_splits)
  have "accept_verification r' = Inr r \<Longrightarrow> \<forall>d \<in> set (vr_decisions r). accept_decision d" for r'
    by (auto simp: accept_verification_def decision_error_def find_None_iff split: if_splits option.splits)
  then have "\<forall>d \<in> set (vr_decisions r). accept_decision d"
    using parts(1) by (auto simp: accept_bound_result_Inr validate_agent_verification_result_def validate_result_model_def
      split: if_splits sum.splits)
  then show ?thesis using parts by (simp add: accept_bound_result_Inr check_decisions_iff)
qed

end
