(* ===== verification/Dispatch.thy ===== *)
theory Dispatch
  imports Agent_Result Artifact Secret
begin

text \<open>
  Signed dispatches (\<open>diffuse_protocol/dispatch.py\<close> and \<open>transport.py\<close>): what the control plane signs for the
  isolated runner, and what the runner accepts.  \<open>dispatch_keys\<close> holds the parameters: Ed25519
  (\<open>dk_sign\<close> of the body's bytes, \<open>dk_verify\<close> of a signature and a body), the shared transport keys and the
  cipher of the sealed capability, SHA-256, what Python does with floats, \<open>str\<close> of a list or an object, and
  pydantic's reading of a candidate result.
\<close>

record dispatch_keys =
  dk_sign :: "string \<Rightarrow> string"
  dk_verify :: "string \<Rightarrow> string \<Rightarrow> bool"
  dk_keks :: "string list"
  dk_close :: closer
  dk_open :: opener
  dk_sha256 :: "string \<Rightarrow> string"
  dk_float_text :: "string \<Rightarrow> string"
  dk_float_int :: "string \<Rightarrow> py_error + int"
  dk_float_time :: "string \<Rightarrow> py_error + time"
  dk_repr :: "json \<Rightarrow> string"
  dk_decode :: "investigation_result decoder"

record dispatch_envelope =
  dp_session_id :: string
  dp_runtime :: string
  dp_repository_id :: int
  dp_pull_request_id :: int
  dp_snapshot_id :: int
  dp_base_sha :: string
  dp_head_sha :: string
  dp_capability :: string
  dp_capability_id :: string
  dp_plan_fingerprint :: string
  dp_role :: investigation_role
  dp_turn_budget :: int
  dp_timeout_seconds :: int
  dp_max_result_bytes :: int
  dp_diff_text :: string
  dp_source :: source_artifact
  dp_expires_at :: time
  dp_input_result :: "(string \<times> json) list option"
  dp_input_digest :: "string option"

datatype dispatch_error =
    Bad_dispatch string
  | Dispatch_too_large
  | Dispatch_malformed
  | Dispatch_invalid
  | Dispatch_expired
  | Dispatch_escapes py_error

definition MAX_DISPATCH_DIFF_CHARS :: int where "MAX_DISPATCH_DIFF_CHARS = 400000"
definition MAX_DISPATCH_ENVELOPE_CHARS :: int where "MAX_DISPATCH_ENVELOPE_CHARS = 32 * 1024 * 1024"
definition CAPABILITY_AAD :: string where "CAPABILITY_AAD = ''review_agent.dispatch.capability''"

section \<open>Checks\<close>

definition is_hex_text :: "nat \<Rightarrow> string \<Rightarrow> bool" where
  "is_hex_text n value \<longleftrightarrow> length (lower (strip value)) = n \<and> list_all is_hex_lower (lower (strip value))"

definition validated_input_result :: "dispatch_keys \<Rightarrow> dispatch_envelope \<Rightarrow> dispatch_error unit_result" where
  "validated_input_result K e =
     (case (dp_input_result e, dp_input_digest e) of
        (None, _) \<Rightarrow> Inl (Bad_dispatch ''input_result'')
      | (Some _, None) \<Rightarrow> Inl (Bad_dispatch ''input_result_digest'')
      | (Some payload, Some digest) \<Rightarrow>
          if \<not> is_hex_text 64 digest then Inl (Bad_dispatch ''input_result_digest'')
          else
            (case accept_candidate_result_input (dk_decode K) (dk_sha256 K) (Some digest) (dp_max_result_bytes e) payload of
               Inl _ \<Rightarrow> Inl (Bad_dispatch ''input_result'')
             | Inr _ \<Rightarrow> Inr ()))"

text \<open>
  The accepted digest is the dispatched one, so the verifier branch gives the envelope back as it is.
\<close>

definition validate_envelope :: "dispatch_keys \<Rightarrow> dispatch_envelope \<Rightarrow> dispatch_error + dispatch_envelope" where
  "validate_envelope K e =
     (if dp_repository_id e \<le> 0 then Inl (Bad_dispatch ''repository_id'')
      else if dp_pull_request_id e \<le> 0 then Inl (Bad_dispatch ''pull_request_id'')
      else if dp_snapshot_id e \<le> 0 then Inl (Bad_dispatch ''snapshot_id'')
      else if dp_session_id e = [] then Inl (Bad_dispatch ''session_id'')
      else if dp_capability e = [] then Inl (Bad_dispatch ''capability'')
      else if dp_capability_id e = [] then Inl (Bad_dispatch ''capability_id'')
      else if dp_runtime e \<notin> {''claude'', ''codex''} then Inl (Bad_dispatch ''runtime'')
      else if int (length (dp_diff_text e)) > MAX_DISPATCH_DIFF_CHARS then Inl (Bad_dispatch ''diff'')
      else if int (length (sa_archive (dp_source e))) > max_archive_bytes DEFAULT_WORKSPACE_LIMITS
        then Inl (Bad_dispatch ''source archive'')
      else if sa_manifest_digest (dp_source e) = None then Inl (Bad_dispatch ''manifest digest'')
      else if dp_turn_budget e \<le> 0 then Inl (Bad_dispatch ''turn_budget'')
      else if dp_timeout_seconds e \<le> 0 then Inl (Bad_dispatch ''timeout_seconds'')
      else if dp_max_result_bytes e \<le> 0 then Inl (Bad_dispatch ''max_result_bytes'')
      else if \<not> is_hex_text 40 (dp_base_sha e) then Inl (Bad_dispatch ''base_sha'')
      else if \<not> is_hex_text 40 (dp_head_sha e) then Inl (Bad_dispatch ''head_sha'')
      else if \<not> is_hex_text 64 (dp_plan_fingerprint e) then Inl (Bad_dispatch ''context_plan_fingerprint'')
      else if \<not> is_hex_text 64 (dk_sha256 K (sa_archive (dp_source e))) then Inl (Bad_dispatch ''source archive digest'')
      else if \<not> is_hex_text 64 (the (sa_manifest_digest (dp_source e))) then Inl (Bad_dispatch ''source manifest digest'')
      else
        (case dp_role e of
           Candidate \<Rightarrow>
             if dp_input_result e \<noteq> None \<or> dp_input_digest e \<noteq> None then Inl (Bad_dispatch ''input_result'') else Inr e
         | Verifier \<Rightarrow> bind_result (validated_input_result K e) (\<lambda>_. Inr e)))"

section \<open>Signing\<close>

definition role_value :: "investigation_role \<Rightarrow> string" where
  "role_value r = (case r of Candidate \<Rightarrow> ''candidate'' | Verifier \<Rightarrow> ''verifier'')"

definition wrap_capability :: "dispatch_keys \<Rightarrow> string \<Rightarrow> string \<Rightarrow> dispatch_error + string" where
  "wrap_capability K nonce capability =
     (case seal (dk_close K) (dk_sha256 K) nonce capability (hd (dk_keks K)) CAPABILITY_AAD of
        Inl _ \<Rightarrow> Inl (Dispatch_escapes Value_error)
      | Inr sealed \<Rightarrow> Inr sealed)"

definition dispatch_payload :: "dispatch_keys \<Rightarrow> string \<Rightarrow> dispatch_envelope \<Rightarrow> (string \<times> json) list" where
  "dispatch_payload K wrapped e =
     [(''session_id'', JStr (dp_session_id e)),
      (''runtime'', JStr (dp_runtime e)),
      (''repository_id'', JInt (dp_repository_id e)),
      (''pull_request_id'', JInt (dp_pull_request_id e)),
      (''snapshot_id'', JInt (dp_snapshot_id e)),
      (''base_sha'', JStr (dp_base_sha e)),
      (''head_sha'', JStr (dp_head_sha e)),
      (''capability'', JStr wrapped),
      (''capability_id'', JStr (dp_capability_id e)),
      (''context_plan_fingerprint'', JStr (dp_plan_fingerprint e)),
      (''role'', JStr (role_value (dp_role e))),
      (''turn_budget'', JInt (dp_turn_budget e)),
      (''timeout_seconds'', JInt (dp_timeout_seconds e)),
      (''max_result_bytes'', JInt (dp_max_result_bytes e)),
      (''diff_text'', JStr (dp_diff_text e)),
      (''source_archive'', JStr (b64url_encode (sa_archive (dp_source e)))),
      (''source_archive_digest'', JStr (dk_sha256 K (sa_archive (dp_source e)))),
      (''source_manifest_digest'', JOptStr (sa_manifest_digest (dp_source e))),
      (''input_result'', case dp_input_result e of None \<Rightarrow> JNull | Some kvs \<Rightarrow> JObj kvs),
      (''input_result_digest'', JOptStr (dp_input_digest e)),
      (''exp'', JInt (whole_seconds (dp_expires_at e)))]"

definition dispatch_body :: "dispatch_keys \<Rightarrow> string \<Rightarrow> dispatch_envelope \<Rightarrow> string" where
  "dispatch_body K wrapped e = b64url_encode (json_dumps (JObj (dispatch_payload K wrapped e)))"

definition dispatch_token :: "dispatch_keys \<Rightarrow> string \<Rightarrow> string" where
  "dispatch_token K body = ''diffuse-dispatch.'' @ body @ ''.'' @ b64url_encode (dk_sign K body)"

definition sign_dispatch :: "dispatch_keys \<Rightarrow> string \<Rightarrow> dispatch_envelope \<Rightarrow> dispatch_error + string" where
  "sign_dispatch K nonce envelope =
     bind_result (validate_envelope K envelope) (\<lambda>e.
     bind_result (wrap_capability K nonce (dp_capability e)) (\<lambda>wrapped.
       (let token = dispatch_token K (dispatch_body K wrapped e) in
        if int (length token) > MAX_DISPATCH_ENVELOPE_CHARS then Inl Dispatch_too_large else Inr token)))"

section \<open>Verifying\<close>

text \<open>A \<open>KeyError\<close>, like an invalid signature, is caught as the other exceptions are: \<open>Value_error\<close>.\<close>

definition item :: "(string \<times> json) list \<Rightarrow> string \<Rightarrow> py_error + json" where
  "item kvs k = (case map_of kvs k of None \<Rightarrow> Inl Value_error | Some v \<Rightarrow> Inr v)"

definition str_item :: "dispatch_keys \<Rightarrow> (string \<times> json) list \<Rightarrow> string \<Rightarrow> py_error + string" where
  "str_item K kvs k =
     bind_result (item kvs k) (\<lambda>v.
       Inr (case v of JArr _ \<Rightarrow> dk_repr K v | JObj _ \<Rightarrow> dk_repr K v | _ \<Rightarrow> text_of v))"

definition int_item :: "dispatch_keys \<Rightarrow> (string \<times> json) list \<Rightarrow> string \<Rightarrow> py_error + int" where
  "int_item K kvs k = bind_result (item kvs k) (int_of (dk_float_int K))"

definition unwrap_capability :: "dispatch_keys \<Rightarrow> string \<Rightarrow> py_error + string" where
  "unwrap_capability K value =
     (case unseal (dk_open K) (dk_sha256 K) value (dk_keks K) CAPABILITY_AAD False of
        Inl _ \<Rightarrow> Inl Value_error
      | Inr capability \<Rightarrow> Inr capability)"

definition payload_source :: "dispatch_keys \<Rightarrow> (string \<times> json) list \<Rightarrow> py_error + source_artifact" where
  "payload_source K kvs =
     bind_result (item kvs ''source_archive'') (\<lambda>archive.
       (case archive of
          JStr encoded \<Rightarrow>
            if int (length encoded) > 4 * ((max_archive_bytes DEFAULT_WORKSPACE_LIMITS + 2) div 3) then Inl Value_error
            else
              bind_result (item kvs ''source_manifest_digest'') (\<lambda>manifest.
                (case (manifest, b64url_decode encoded) of
                   (JStr digest, Some raw) \<Rightarrow>
                     (case make_source_artifact raw (Some digest) of
                        Inl _ \<Rightarrow> Inl Value_error
                      | Inr source \<Rightarrow>
                          bind_result (item kvs ''source_archive_digest'') (\<lambda>d.
                            if d \<noteq> JStr (dk_sha256 K (sa_archive source)) then Inl Value_error else Inr source))
                 | _ \<Rightarrow> Inl Value_error))
        | _ \<Rightarrow> Inl Value_error))"

definition payload_input_result :: "(string \<times> json) list \<Rightarrow> py_error + (string \<times> json) list option" where
  "payload_input_result kvs =
     (case map_of kvs ''input_result'' of
        None \<Rightarrow> Inr None
      | Some JNull \<Rightarrow> Inr None
      | Some (JObj payload) \<Rightarrow> Inr (Some payload)
      | Some _ \<Rightarrow> Inl Value_error)"

definition payload_input_digest :: "(string \<times> json) list \<Rightarrow> py_error + string option" where
  "payload_input_digest kvs =
     (case map_of kvs ''input_result_digest'' of
        None \<Rightarrow> Inr None
      | Some JNull \<Rightarrow> Inr None
      | Some (JStr digest) \<Rightarrow> Inr (Some digest)
      | Some _ \<Rightarrow> Inl Value_error)"

definition payload_envelope :: "dispatch_keys \<Rightarrow> (string \<times> json) list \<Rightarrow> py_error + dispatch_envelope" where
  "payload_envelope K kvs =
     bind_result (payload_source K kvs) (\<lambda>source.
     bind_result (int_item K kvs ''exp'') (\<lambda>seconds.
     bind_result (from_timestamp (dk_float_time K) (JInt seconds)) (\<lambda>expires_at.
     bind_result (str_item K kvs ''capability'') (\<lambda>sealed.
       if \<not> is_sealed sealed then Inl Value_error
       else
     bind_result (payload_input_result kvs) (\<lambda>input_result.
     bind_result (payload_input_digest kvs) (\<lambda>input_digest.
     bind_result (str_item K kvs ''session_id'') (\<lambda>session_id.
     bind_result (str_item K kvs ''runtime'') (\<lambda>runtime.
     bind_result (int_item K kvs ''repository_id'') (\<lambda>repository_id.
     bind_result (int_item K kvs ''pull_request_id'') (\<lambda>pull_request_id.
     bind_result (int_item K kvs ''snapshot_id'') (\<lambda>snapshot_id.
     bind_result (str_item K kvs ''base_sha'') (\<lambda>base_sha.
     bind_result (str_item K kvs ''head_sha'') (\<lambda>head_sha.
     bind_result (unwrap_capability K sealed) (\<lambda>capability.
     bind_result (str_item K kvs ''capability_id'') (\<lambda>capability_id.
     bind_result (str_item K kvs ''context_plan_fingerprint'') (\<lambda>fingerprint.
     bind_result (str_item K kvs ''role'') (\<lambda>role_text.
       (case parse_agent_investigation_role role_text of
          None \<Rightarrow> Inl Value_error
        | Some role \<Rightarrow>
     bind_result (int_item K kvs ''turn_budget'') (\<lambda>turn_budget.
     bind_result (int_item K kvs ''timeout_seconds'') (\<lambda>timeout_seconds.
     bind_result (int_item K kvs ''max_result_bytes'') (\<lambda>max_result_bytes.
     bind_result (str_item K kvs ''diff_text'') (\<lambda>diff_text.
       Inr \<lparr>dp_session_id = session_id, dp_runtime = runtime, dp_repository_id = repository_id,
            dp_pull_request_id = pull_request_id, dp_snapshot_id = snapshot_id, dp_base_sha = base_sha,
            dp_head_sha = head_sha, dp_capability = capability, dp_capability_id = capability_id,
            dp_plan_fingerprint = fingerprint, dp_role = role, dp_turn_budget = turn_budget,
            dp_timeout_seconds = timeout_seconds, dp_max_result_bytes = max_result_bytes,
            dp_diff_text = diff_text, dp_source = source, dp_expires_at = expires_at,
            dp_input_result = input_result, dp_input_digest = input_digest\<rparr>))))))))))))))))))))))"

definition open_body :: "dispatch_keys \<Rightarrow> string \<Rightarrow> string \<Rightarrow> py_error + dispatch_envelope" where
  "open_body K body signature =
     (case b64url_decode signature of
        None \<Rightarrow> Inl Value_error
      | Some raw \<Rightarrow>
          if \<not> is_ascii body \<or> \<not> dk_verify K raw body then Inl Value_error
          else
            (case Option.bind (b64url_decode body) (json_loads_bytes (dk_float_text K)) of
               None \<Rightarrow> Inl Value_error
             | Some (JObj kvs) \<Rightarrow> payload_envelope K kvs
             | Some _ \<Rightarrow> Inl Type_error))"

definition verify_dispatch :: "dispatch_keys \<Rightarrow> string \<Rightarrow> time \<Rightarrow> dispatch_error + dispatch_envelope" where
  "verify_dispatch K token now =
     (if int (length token) > MAX_DISPATCH_ENVELOPE_CHARS then Inl Dispatch_too_large
      else
        (case split_on (CHR ''.'') token of
           [lead, body, signature] \<Rightarrow>
             if lead \<noteq> ''diffuse-dispatch'' then Inl Dispatch_malformed
             else
               (case open_body K body signature of
                  Inl e \<Rightarrow> Inl (if e = Type_error \<or> e = Value_error then Dispatch_invalid else Dispatch_escapes e)
                | Inr e \<Rightarrow>
                    if dp_expires_at e \<le> now then Inl Dispatch_expired else validate_envelope K e)
         | _ \<Rightarrow> Inl Dispatch_malformed))"

end
