(* ===== verification/Dispatch_Props.thy ===== *)
theory Dispatch_Props
  imports Dispatch Access_Props
begin

text \<open>
  What the runner accepts is what the control plane signed: round trip and authenticity of dispatches.
\<close>

section \<open>Canonical dictionaries\<close>

definition canon_entries :: "(string \<times> json) list \<Rightarrow> (string \<times> json) list" where
  "canon_entries kvs = sort_key fst (map (\<lambda>(k, v). (k, json_canon v)) kvs)"

lemma canon_entries_object: "json_canon (JObj kvs) = JObj (canon_entries kvs)"
  by (simp add: canon_entries_def)

lemma canon_entries_sorted: "canon_entries kvs = map (\<lambda>(k, v). (k, json_canon v)) (sort_key fst kvs)"
  by (simp add: canon_entries_def sort_key_map case_prod_beta)

lemma canon_entries_lookup:
  "distinct (map fst kvs) \<Longrightarrow> map_of (canon_entries kvs) k = map_option json_canon (map_of kvs k)"
  using canon_lookup[of kvs k] by (simp add: canon_entries_sorted case_prod_beta')

lemma canon_entries_filter:
  "filter (\<lambda>(k, _). P k) (canon_entries kvs) = canon_entries (filter (\<lambda>(k, _). P k) kvs)"
proof -
  have "filter (\<lambda>(k, _). P k) (map (\<lambda>(k, v). (k, json_canon v)) kvs) =
      map (\<lambda>(k, v). (k, json_canon v)) (filter (\<lambda>(k, _). P k) kvs)"
    by (induction kvs) auto
  then show ?thesis by (simp add: canon_entries_def filter_sort)
qed

text \<open>Writing sorts anyway, so a canonical value is written like the value itself.\<close>

lemma dumps_canon: "json_dumps (json_canon j) = json_dumps j"
proof (induction j rule: json_dumps.induct)
  case (6 xs)
  then show ?case by (simp cong: map_cong)
next
  case (7 kvs)
  let ?h = "\<lambda>(k, v). (k, json_quote k @ '':'' @ json_dumps v)"
  have "map ?h (canon_entries kvs) = map ?h (sort_key fst kvs)"
    using 7 by (auto simp: canon_entries_sorted)
  also have "\<dots> = sort_key fst (map ?h kvs)" by (simp add: sort_key_map case_prod_beta)
  finally have "sort_key fst (map ?h (canon_entries kvs)) = sort_key fst (map ?h kvs)"
    by (simp add: sort_key_id_if_sorted)
  then show ?case by (simp add: canon_entries_object del: json_canon.simps)
qed simp_all

text \<open>pydantic reads a dictionary by its keys, whatever their order.\<close>

definition order_free :: "'r decoder \<Rightarrow> bool" where
  "order_free decode \<longleftrightarrow> (\<forall>kvs. distinct (map fst kvs) \<longrightarrow> decode (canon_entries kvs) = decode kvs)"

lemma json_canon_atoms [simp]:
  "json_canon v = JNull \<longleftrightarrow> v = JNull" "json_canon v = JStr s \<longleftrightarrow> v = JStr s"
  by (cases v; simp)+

lemma is_version_canon [simp]: "is_version (json_canon v) = is_version v"
  by (cases v) (simp_all add: is_version_def)

lemma validate_canon:
  assumes "order_free decode" "distinct (map fst kvs)"
  shows "validate_agent_investigation_result decode (canon_entries kvs) = validate_agent_investigation_result decode kvs"
  using assms
  by (simp add: validate_agent_investigation_result_def validate_result_model_def order_free_def
      canon_entries_lookup option.case_distrib option.map_comp split: option.split)

lemma accept_canon:
  assumes "order_free decode" "distinct (map fst kvs)"
  shows "accept_candidate_result_input decode sha256 digest limit (canon_entries kvs) =
    accept_candidate_result_input decode sha256 digest limit kvs"
proof -
  let ?f = "filter (\<lambda>(key, _). key \<notin> set RESULT_ENVELOPE_KEYS)"
  have "distinct (map fst (?f kvs))" using assms(2) by (simp add: distinct_map_filter)
  then have v: "validate_agent_investigation_result decode (?f (canon_entries kvs)) =
      validate_agent_investigation_result decode (?f kvs)"
    using validate_canon[OF assms(1)] by (simp add: canon_entries_filter)
  have bytes: "canonical_result_payload_bytes (canon_entries kvs) = canonical_result_payload_bytes kvs"
    using dumps_canon[of "JObj kvs"] by (simp add: canonical_result_payload_bytes_def canon_entries_object del: json_dumps.simps json_canon.simps)
  have bound: "accept_bound_agent_investigation_result decode session_id runtime limit (canon_entries kvs) =
      accept_bound_agent_investigation_result decode session_id runtime limit kvs" for session_id runtime
    by (simp add: accept_bound_agent_investigation_result_def accept_bound_result_def bytes v)
  show ?thesis
    unfolding accept_candidate_result_input_def canon_entries_lookup[OF assms(2)] bound
      canonical_result_payload_digest_def bytes
    by (cases "map_of kvs ''session_id''"; cases "map_of kvs ''runtime''")
       (auto split: json.splits)
qed

section \<open>The payload\<close>

lemma b64url_length: "length (b64url_encode raw) \<le> 4 * ((length raw + 2) div 3)"
proof -
  have "length (urlsafe_b64encode raw) \<le> 4 * ((length raw + 2) div 3)"
  proof (induction raw rule: urlsafe_b64encode.induct)
    case (4 a b c raw)
    have "(length raw + 5) div 3 = (length raw + 2) div 3 + 1" by presburger
    then show ?case using 4 by (simp add: add.commute)
  qed auto
  moreover have "length (rstrip_eq s) \<le> length s" for s
    by (metis length_dropWhile_le length_rev rstrip_eq_def)
  ultimately show ?thesis unfolding b64url_encode_def using order_trans by blast
qed

definition canonical_envelope :: "dispatch_envelope \<Rightarrow> dispatch_envelope" where
  "canonical_envelope e =
     e\<lparr>dp_expires_at := whole_seconds (dp_expires_at e) * 1000000,
       dp_input_result := map_option canon_entries (dp_input_result e)\<rparr>"

lemma canonical_fields [simp]:
  "dp_session_id (canonical_envelope e) = dp_session_id e" "dp_runtime (canonical_envelope e) = dp_runtime e"
  "dp_repository_id (canonical_envelope e) = dp_repository_id e"
  "dp_pull_request_id (canonical_envelope e) = dp_pull_request_id e"
  "dp_snapshot_id (canonical_envelope e) = dp_snapshot_id e" "dp_base_sha (canonical_envelope e) = dp_base_sha e"
  "dp_head_sha (canonical_envelope e) = dp_head_sha e" "dp_capability (canonical_envelope e) = dp_capability e"
  "dp_capability_id (canonical_envelope e) = dp_capability_id e"
  "dp_plan_fingerprint (canonical_envelope e) = dp_plan_fingerprint e" "dp_role (canonical_envelope e) = dp_role e"
  "dp_turn_budget (canonical_envelope e) = dp_turn_budget e"
  "dp_timeout_seconds (canonical_envelope e) = dp_timeout_seconds e"
  "dp_max_result_bytes (canonical_envelope e) = dp_max_result_bytes e"
  "dp_diff_text (canonical_envelope e) = dp_diff_text e" "dp_source (canonical_envelope e) = dp_source e"
  "dp_input_digest (canonical_envelope e) = dp_input_digest e"
  "dp_input_result (canonical_envelope e) = map_option canon_entries (dp_input_result e)"
  "dp_expires_at (canonical_envelope e) = whole_seconds (dp_expires_at e) * 1000000"
  by (simp_all add: canonical_envelope_def)

definition keys_work :: "dispatch_keys \<Rightarrow> bool" where
  "keys_work K \<longleftrightarrow>
     dk_keks K \<noteq> [] \<and>
     (\<forall>k n p a. dk_close K k n p a \<noteq> [] \<and> dk_open K k n (dk_close K k n p a) a = Some p) \<and>
     (\<forall>s. is_result_digest (dk_sha256 K s)) \<and> order_free (dk_decode K)"

text \<open>An envelope as the control plane builds it.\<close>

definition envelope_built :: "dispatch_envelope \<Rightarrow> bool" where
  "envelope_built e \<longleftrightarrow>
     make_source_artifact (sa_archive (dp_source e)) (sa_manifest_digest (dp_source e)) = Inr (dp_source e) \<and>
     list_all (\<lambda>i. i < 2 ^ 63) [dp_repository_id e, dp_pull_request_id e, dp_snapshot_id e, dp_turn_budget e,
       dp_timeout_seconds e, dp_max_result_bytes e] \<and>
     0 \<le> dp_expires_at e \<and> dp_expires_at e \<le> last_moment \<and>
     (case dp_input_result e of None \<Rightarrow> True | Some kvs \<Rightarrow> json_plain (JObj kvs))"

lemma validate_envelope_id: "validate_envelope K e = Inr e' \<Longrightarrow> e' = e"
  by (auto simp: validate_envelope_def bind_result_Inr_iff split: if_splits investigation_role.splits)

lemma validate_envelope_fields:
  assumes "validate_envelope K e = Inr e"
  shows "0 < dp_repository_id e" "0 < dp_pull_request_id e" "0 < dp_snapshot_id e" "0 < dp_turn_budget e"
    "0 < dp_timeout_seconds e" "0 < dp_max_result_bytes e"
    "int (length (sa_archive (dp_source e))) \<le> max_archive_bytes DEFAULT_WORKSPACE_LIMITS"
    "\<exists>d. sa_manifest_digest (dp_source e) = Some d"
  using assms by (auto simp: validate_envelope_def not_le split: if_splits)

lemma validate_canonical:
  assumes "keys_work K" "envelope_built e" "validate_envelope K e = Inr e"
  shows "validate_envelope K (canonical_envelope e) = Inr (canonical_envelope e)"
proof -
  have input: "validated_input_result K (canonical_envelope e) = validated_input_result K e"
  proof (cases "dp_input_result e")
    case (Some kvs)
    then have "distinct (map fst kvs)" using assms(2) by (simp add: envelope_built_def)
    then show ?thesis using assms(1) Some
      by (simp add: validated_input_result_def keys_work_def accept_canon split: option.splits)
  qed (simp add: validated_input_result_def split: option.splits)
  show ?thesis
    using assms(3) by (auto simp: validate_envelope_def input bind_result_Inr_iff split: investigation_role.splits if_splits)
qed

section \<open>Reading a payload back\<close>

lemma payload_distinct: "distinct (map fst (dispatch_payload K wrapped e))"
  by (simp add: dispatch_payload_def)

lemma payload_plain:
  assumes "envelope_built e" "validate_envelope K e = Inr e"
  shows "json_plain (JObj (dispatch_payload K wrapped e))"
proof -
  note w = whole_seconds_bounds[of "dp_expires_at e"]
  have "json_plain (JOptStr m)" for m by (cases m) (simp_all add: JOptStr_def)
  moreover have "length (str_of_int (whole_seconds (dp_expires_at e))) \<le> 4300"
    using assms(1) w by (intro bigint_digits) (auto simp: envelope_built_def)
  ultimately show ?thesis
    using assms(1) validate_envelope_fields[OF assms(2)]
    by (auto simp: dispatch_payload_def envelope_built_def bigint_digits less_imp_le split: option.splits)
qed

lemma result_digest_no_dot: "is_result_digest s \<Longrightarrow> CHR ''.'' \<notin> set s"
  by (auto simp: is_result_digest_def list_all_iff is_hex_lower_def is_digit_def code_def dest!: bspec)

lemma unwrap_wrapped:
  assumes "keys_work K" "length nonce = NONCE_BYTES" "wrap_capability K nonce capability = Inr wrapped"
  shows "unwrap_capability K wrapped = Inr capability" "is_sealed wrapped"
proof -
  let ?kek = "hd (dk_keks K)"
  have sealed: "seal (dk_close K) (dk_sha256 K) nonce capability ?kek CAPABILITY_AAD = Inr wrapped"
    using assms(3) by (auto simp: wrap_capability_def split: sum.splits)
  have "CHR ''.'' \<notin> set (dk_sha256 K ?kek)" using assms(1) result_digest_no_dot by (simp add: keys_work_def)
  then have "CHR ''.'' \<notin> set (key_id_for (dk_sha256 K) ?kek)" by (auto simp: key_id_for_def dest: in_set_takeD)
  moreover have "find (\<lambda>k. key_id_for (dk_sha256 K) k = key_id_for (dk_sha256 K) ?kek) (dk_keks K) = Some ?kek"
    using assms(1) by (cases "dk_keks K") (auto simp: keys_work_def)
  moreover have "dk_close K ?kek nonce capability CAPABILITY_AAD \<noteq> []"
    "dk_open K ?kek nonce (dk_close K ?kek nonce capability CAPABILITY_AAD) CAPABILITY_AAD = Some capability"
    using assms(1) unfolding keys_work_def by blast+
  ultimately show "unwrap_capability K wrapped = Inr capability"
    using unseal_seal[OF sealed assms(2)] by (simp add: unwrap_capability_def)
  show "is_sealed wrapped" using sealed by (auto simp: seal_def is_sealed_def startswith_iff split: if_splits)
qed

lemma role_value_parses: "parse_agent_investigation_role (role_value r) = Some r"
proof (cases r)
  case Candidate
  show ?thesis unfolding Candidate by code_simp
next
  case Verifier
  show ?thesis unfolding Verifier by code_simp
qed

lemma payload_reads_back:
  assumes keys: "keys_work K" and nonce: "length nonce = NONCE_BYTES" and built: "envelope_built e"
    and valid: "validate_envelope K e = Inr e" and wrap: "wrap_capability K nonce (dp_capability e) = Inr wrapped"
  shows "payload_envelope K (canon_entries (dispatch_payload K wrapped e)) = Inr (canonical_envelope e)"
proof -
  have look: "map_of (canon_entries (dispatch_payload K wrapped e)) k =
      map_option json_canon (map_of (dispatch_payload K wrapped e) k)" for k
    by (rule canon_entries_lookup[OF payload_distinct])
  have item: "item (canon_entries (dispatch_payload K wrapped e)) k =
      (case map_of (dispatch_payload K wrapped e) k of None \<Rightarrow> Inl Value_error | Some v \<Rightarrow> Inr (json_canon v))" for k
    by (simp add: item_def look option.case_distrib split: option.split)
  obtain d where d: "sa_manifest_digest (dp_source e) = Some d" using validate_envelope_fields(8)[OF valid] ..
  have "int (length (sa_archive (dp_source e))) \<le> max_archive_bytes DEFAULT_WORKSPACE_LIMITS"
    by (rule validate_envelope_fields(7)[OF valid])
  then have "int ((length (sa_archive (dp_source e)) + 2) div 3) \<le> (max_archive_bytes DEFAULT_WORKSPACE_LIMITS + 2) div 3"
    by (simp add: zdiv_int zdiv_mono1)
  then have size: "\<not> int (length (b64url_encode (sa_archive (dp_source e)))) >
      4 * ((max_archive_bytes DEFAULT_WORKSPACE_LIMITS + 2) div 3)"
    using b64url_length[of "sa_archive (dp_source e)"] by linarith
  have "make_source_artifact (sa_archive (dp_source e)) (Some d) = Inr (dp_source e)"
    using built d by (simp add: envelope_built_def)
  moreover have
    "item (canon_entries (dispatch_payload K wrapped e)) ''source_archive'' =
       Inr (JStr (b64url_encode (sa_archive (dp_source e))))"
    "item (canon_entries (dispatch_payload K wrapped e)) ''source_manifest_digest'' = Inr (JStr d)"
    "item (canon_entries (dispatch_payload K wrapped e)) ''source_archive_digest'' =
       Inr (JStr (dk_sha256 K (sa_archive (dp_source e))))"
    unfolding item by (simp_all add: dispatch_payload_def JOptStr_def d)
  ultimately have source: "payload_source K (canon_entries (dispatch_payload K wrapped e)) = Inr (dp_source e)"
    using size by (simp add: payload_source_def b64url_roundtrip)
  have expiry: "from_timestamp (dk_float_time K) (JInt (whole_seconds (dp_expires_at e))) =
      Inr (whole_seconds (dp_expires_at e) * 1000000)"
    using built whole_seconds_bounds[of "dp_expires_at e"] by (simp add: envelope_built_def from_timestamp_def)
  have input: "payload_input_result (canon_entries (dispatch_payload K wrapped e)) =
      Inr (map_option canon_entries (dp_input_result e))"
    by (simp add: payload_input_result_def look) (simp add: dispatch_payload_def canon_entries_object split: option.split del: json_canon.simps(2))
  have digest: "payload_input_digest (canon_entries (dispatch_payload K wrapped e)) = Inr (dp_input_digest e)"
    by (simp add: payload_input_digest_def look) (simp add: dispatch_payload_def JOptStr_def split: option.split)
  have strs:
    "str_item K (canon_entries (dispatch_payload K wrapped e)) ''session_id'' = Inr (dp_session_id e)"
    "str_item K (canon_entries (dispatch_payload K wrapped e)) ''runtime'' = Inr (dp_runtime e)"
    "str_item K (canon_entries (dispatch_payload K wrapped e)) ''base_sha'' = Inr (dp_base_sha e)"
    "str_item K (canon_entries (dispatch_payload K wrapped e)) ''head_sha'' = Inr (dp_head_sha e)"
    "str_item K (canon_entries (dispatch_payload K wrapped e)) ''capability'' = Inr (wrapped)"
    "str_item K (canon_entries (dispatch_payload K wrapped e)) ''capability_id'' = Inr (dp_capability_id e)"
    "str_item K (canon_entries (dispatch_payload K wrapped e)) ''context_plan_fingerprint'' = Inr (dp_plan_fingerprint e)"
    "str_item K (canon_entries (dispatch_payload K wrapped e)) ''role'' = Inr (role_value (dp_role e))"
    "str_item K (canon_entries (dispatch_payload K wrapped e)) ''diff_text'' = Inr (dp_diff_text e)"
    unfolding str_item_def item by (simp_all add: dispatch_payload_def text_of_def)
  have ints:
    "int_item K (canon_entries (dispatch_payload K wrapped e)) ''repository_id'' = Inr (dp_repository_id e)"
    "int_item K (canon_entries (dispatch_payload K wrapped e)) ''pull_request_id'' = Inr (dp_pull_request_id e)"
    "int_item K (canon_entries (dispatch_payload K wrapped e)) ''snapshot_id'' = Inr (dp_snapshot_id e)"
    "int_item K (canon_entries (dispatch_payload K wrapped e)) ''turn_budget'' = Inr (dp_turn_budget e)"
    "int_item K (canon_entries (dispatch_payload K wrapped e)) ''timeout_seconds'' = Inr (dp_timeout_seconds e)"
    "int_item K (canon_entries (dispatch_payload K wrapped e)) ''max_result_bytes'' = Inr (dp_max_result_bytes e)"
    "int_item K (canon_entries (dispatch_payload K wrapped e)) ''exp'' = Inr (whole_seconds (dp_expires_at e))"
    unfolding int_item_def item by (simp_all add: dispatch_payload_def int_of_def)
  show ?thesis
    unfolding payload_envelope_def source input digest strs ints expiry bind_result_simps
    by (simp add: unwrap_wrapped[OF keys nonce wrap] role_value_parses canonical_envelope_def)
qed


section \<open>Tokens\<close>

lemma dispatch_token_parts:
  "split_on (CHR ''.'') (dispatch_token K (b64url_encode raw)) =
    [''diffuse-dispatch'', b64url_encode raw, b64url_encode (dk_sign K (b64url_encode raw))]"
proof -
  have "split_on (CHR ''.'') (''diffuse-dispatch'' @ CHR ''.'' # a @ CHR ''.'' # b) = [''diffuse-dispatch'', a, b]"
    if "CHR ''.'' \<notin> set a" "CHR ''.'' \<notin> set b" for a b
    using that by (subst split_on_append_sep) (simp_all add: split_on_append_sep split_on_no_sep_id)
  from this[OF b64url_encode_no_dot b64url_encode_no_dot] show ?thesis by (simp add: dispatch_token_def)
qed

lemma dispatch_body_ascii: "is_ascii (dispatch_body K wrapped e)"
  unfolding dispatch_body_def by (rule b64url_ascii)

lemma sign_dispatch_result:
  assumes "sign_dispatch K nonce e = Inr token"
  obtains wrapped where "validate_envelope K e = Inr e" "wrap_capability K nonce (dp_capability e) = Inr wrapped"
    "token = dispatch_token K (dispatch_body K wrapped e)" "int (length token) \<le> MAX_DISPATCH_ENVELOPE_CHARS"
  using assms validate_envelope_id
  by (fastforce simp: sign_dispatch_def bind_result_Inr_iff Let_def split: if_splits)

text \<open>A body of an issued dispatch opens, under any signature that verifies, to the canonical envelope.\<close>

lemma open_signed_body:
  assumes keys: "keys_work K" and nonce: "length nonce = NONCE_BYTES" and built: "envelope_built e"
    and valid: "validate_envelope K e = Inr e" and wrap: "wrap_capability K nonce (dp_capability e) = Inr wrapped"
  shows "(case Option.bind (b64url_decode (dispatch_body K wrapped e)) (json_loads_bytes (dk_float_text K)) of
      None \<Rightarrow> Inl Value_error
    | Some (JObj kvs) \<Rightarrow> payload_envelope K kvs
    | Some _ \<Rightarrow> Inl Type_error) = Inr (canonical_envelope e)"
proof -
  have "json_loads_bytes (dk_float_text K) (json_dumps (JObj (dispatch_payload K wrapped e))) =
      Some (JObj (canon_entries (dispatch_payload K wrapped e)))"
    using json_bytes_roundtrip[OF payload_plain[OF built valid]] canon_entries_object by simp
  then show ?thesis using payload_reads_back[OF assms]
    by (simp add: b64url_roundtrip dispatch_body_def del: json_dumps.simps)
qed

lemma signed_reads_back:
  assumes keys: "keys_work K" and nonce: "length nonce = NONCE_BYTES" and built: "envelope_built e"
    and signed: "sign_dispatch K nonce e = Inr token"
    and verifies: "\<And>wrapped. wrap_capability K nonce (dp_capability e) = Inr wrapped \<Longrightarrow>
      dk_verify K (dk_sign K (dispatch_body K wrapped e)) (dispatch_body K wrapped e)"
  shows "verify_dispatch K token now =
    (if whole_seconds (dp_expires_at e) * 1000000 \<le> now then Inl Dispatch_expired else Inr (canonical_envelope e))"
proof -
  obtain wrapped where w: "validate_envelope K e = Inr e" "wrap_capability K nonce (dp_capability e) = Inr wrapped"
    "token = dispatch_token K (dispatch_body K wrapped e)" "int (length token) \<le> MAX_DISPATCH_ENVELOPE_CHARS"
    by (rule sign_dispatch_result[OF signed])
  have "open_body K (dispatch_body K wrapped e) (b64url_encode (dk_sign K (dispatch_body K wrapped e))) =
      Inr (canonical_envelope e)"
    using verifies[OF w(2)] open_signed_body[OF keys nonce built w(1,2)]
    by (simp add: open_body_def b64url_roundtrip[of "dk_sign K _"] dispatch_body_ascii)
  then show ?thesis
    using w(4) validate_canonical[OF keys built w(1)]
    unfolding w(3) by (simp add: verify_dispatch_def dispatch_body_def dispatch_token_parts del: json_dumps.simps)
qed


lemma verify_dispatch_result:
  assumes "verify_dispatch K token now = Inr e"
  obtains body signature raw where
    "token = ''diffuse-dispatch.'' @ body @ ''.'' @ signature" "b64url_decode signature = Some raw"
    "dk_verify K raw body" "now < dp_expires_at e" "validate_envelope K e = Inr e"
    "open_body K body signature = Inr e" "CHR ''.'' \<notin> set body" "CHR ''.'' \<notin> set signature"
proof -
  obtain lead body signature where parts: "split_on (CHR ''.'') token = [lead, body, signature]"
    "lead = ''diffuse-dispatch''" "open_body K body signature = Inr e" "now < dp_expires_at e"
    "validate_envelope K e = Inr e"
    using assms validate_envelope_id
    by (fastforce simp: verify_dispatch_def split: list.splits if_splits sum.splits)
  have "token = join ''.'' (split_on (CHR ''.'') token)" by (simp add: join_split_on)
  then have token: "token = ''diffuse-dispatch.'' @ body @ ''.'' @ signature" unfolding parts by auto
  obtain raw where "b64url_decode signature = Some raw" "dk_verify K raw body"
    using parts(3) by (auto simp: open_body_def split: option.splits if_splits)
  moreover have "CHR ''.'' \<notin> set p" if "p \<in> set (split_on (CHR ''.'') token)" for p
    using that split_on_no_sep by metis
  ultimately show ?thesis using that token parts by simp
qed


section \<open>Authenticity\<close>

text \<open>The dispatches the control plane issued: the nonce of the sealed capability and the envelope.\<close>

type_synonym issued_dispatches = "(string \<times> dispatch_envelope) set"

text \<open>Ed25519: only the bodies of issued dispatches verify under the public key.\<close>

definition only_issued_verify :: "dispatch_keys \<Rightarrow> issued_dispatches \<Rightarrow> bool" where
  "only_issued_verify K issued \<longleftrightarrow>
     (\<forall>raw body. dk_verify K raw body \<longrightarrow>
        (\<exists>(nonce, e) \<in> issued. \<exists>wrapped. wrap_capability K nonce (dp_capability e) = Inr wrapped \<and>
           body = dispatch_body K wrapped e))"

definition issued_properly :: "dispatch_keys \<Rightarrow> issued_dispatches \<Rightarrow> bool" where
  "issued_properly K issued \<longleftrightarrow>
     (\<forall>(nonce, e) \<in> issued. length nonce = NONCE_BYTES \<and> envelope_built e \<and> validate_envelope K e = Inr e)"

lemma digest_bound:
  assumes "accept_candidate_result_input decode sha256 (Some digest) limit payload = Inr a"
  shows "canonical_result_payload_digest sha256 payload = digest"
    "int (length (canonical_result_payload_bytes payload)) \<le> limit"
  using assms
  by (auto simp: accept_candidate_result_input_def bind_result_Inr_iff Let_def differs_def
      accept_bound_agent_investigation_result_def accept_bound_result_Inr split: option.splits json.splits if_splits)

lemma admitted_input:
  assumes "validate_envelope K e = Inr e"
  shows "case dp_role e of
      Candidate \<Rightarrow> dp_input_result e = None \<and> dp_input_digest e = None
    | Verifier \<Rightarrow> (\<exists>payload. dp_input_result e = Some payload \<and>
        dp_input_digest e = Some (canonical_result_payload_digest (dk_sha256 K) payload) \<and>
        int (length (canonical_result_payload_bytes payload)) \<le> dp_max_result_bytes e)"
proof (cases "dp_role e")
  case Candidate
  then show ?thesis using assms by (auto simp: validate_envelope_def split: if_splits)
next
  case Verifier
  then have "validated_input_result K e = Inr ()"
    using assms by (auto simp: validate_envelope_def bind_result_Inr_iff split: if_splits)
  then show ?thesis using Verifier digest_bound
    by (fastforce simp: validated_input_result_def split: option.splits if_splits sum.splits)
qed



section \<open>Witnesses\<close>

definition sample_dispatch_keys :: dispatch_keys where
  "sample_dispatch_keys = \<lparr>dk_sign = (\<lambda>body. ''s'' @ body), dk_verify = (\<lambda>raw body. raw = ''s'' @ body),
     dk_keks = [replicate 32 (CHR ''k'')], dk_close = (\<lambda>k n p a. ''c'' @ p), dk_open = (\<lambda>k n c a. Some (tl c)),
     dk_sha256 = (\<lambda>s. replicate 64 (CHR ''a'')), dk_float_text = (\<lambda>s. s), dk_float_int = (\<lambda>s. Inl Value_error),
     dk_float_time = (\<lambda>s. Inl Value_error), dk_repr = (\<lambda>j. []), dk_decode = (\<lambda>kvs. Inl ''missing'')\<rparr>"

definition sample_envelope :: dispatch_envelope where
  "sample_envelope = \<lparr>dp_session_id = ''s'', dp_runtime = ''claude'', dp_repository_id = 3, dp_pull_request_id = 5,
     dp_snapshot_id = 7, dp_base_sha = replicate 40 (CHR ''a''), dp_head_sha = replicate 40 (CHR ''b''),
     dp_capability = ''cap'', dp_capability_id = ''id'', dp_plan_fingerprint = replicate 64 (CHR ''c''),
     dp_role = Candidate, dp_turn_budget = 10, dp_timeout_seconds = 60, dp_max_result_bytes = 1000,
     dp_diff_text = ''d'', dp_source = \<lparr>sa_archive = ''tar'', sa_manifest_digest = Some (replicate 64 (CHR ''d''))\<rparr>,
     dp_expires_at = 5000000, dp_input_result = None, dp_input_digest = None\<rparr>"

lemma sample_dispatch_keys_work: "keys_work sample_dispatch_keys"
  by (simp add: keys_work_def sample_dispatch_keys_def order_free_def is_result_digest_def is_hex_lower_def code_def list_all_iff)

lemma sample_dispatch_built: "envelope_built sample_envelope"
  by (simp add: envelope_built_def sample_envelope_def make_source_artifact_def is_hex_lower_def code_def list_all_iff last_moment_def)

lemma sample_dispatch_valid: "validate_envelope sample_dispatch_keys sample_envelope = Inr sample_envelope"
  by code_simp

definition sample_dispatch_sealed :: string where
  "sample_dispatch_sealed = ''diffuse-secret.v1.aaaaaaaa.'' @ b64url_encode ''nnnnnnnnnnnnccap''"

lemma sample_wrapped: "wrap_capability sample_dispatch_keys (replicate 12 (CHR ''n'')) ''cap'' = Inr sample_dispatch_sealed"
  by code_simp

lemma sample_dumps: "length (json_dumps (JObj (dispatch_payload sample_dispatch_keys sample_dispatch_sealed sample_envelope))) < 2000"
  by code_simp


abbreviation with_signature :: "(string \<Rightarrow> string) \<Rightarrow> (string \<Rightarrow> string \<Rightarrow> bool) \<Rightarrow> dispatch_keys" where
  "with_signature sign verify \<equiv> sample_dispatch_keys\<lparr>dk_sign := sign, dk_verify := verify\<rparr>"

lemma with_signature_same:
  "validate_envelope (with_signature sign verify) e = validate_envelope sample_dispatch_keys e"
  "wrap_capability (with_signature sign verify) nonce capability = wrap_capability sample_dispatch_keys nonce capability"
  "dispatch_body (with_signature sign verify) wrapped e = dispatch_body sample_dispatch_keys wrapped e"
proof -
  have f: "dk_sha256 (with_signature sign verify) = dk_sha256 sample_dispatch_keys"
    "dk_decode (with_signature sign verify) = dk_decode sample_dispatch_keys" by simp_all
  have "validated_input_result (with_signature sign verify) e = validated_input_result sample_dispatch_keys e"
    unfolding validated_input_result_def f ..
  then show "validate_envelope (with_signature sign verify) e = validate_envelope sample_dispatch_keys e"
    unfolding validate_envelope_def by (simp only: f)
  show "wrap_capability (with_signature sign verify) nonce capability = wrap_capability sample_dispatch_keys nonce capability"
    by (simp add: wrap_capability_def)
  show "dispatch_body (with_signature sign verify) wrapped e = dispatch_body sample_dispatch_keys wrapped e"
    by (simp add: dispatch_body_def dispatch_payload_def del: json_dumps.simps)
qed

lemma with_signature_keys: "keys_work (with_signature sign verify)"
  using sample_dispatch_keys_work by (simp add: keys_work_def)

lemma sample_signed:
  assumes "\<And>body. length (sign body) \<le> length body + 1"
  shows "\<exists>token. sign_dispatch (with_signature sign verify) (replicate 12 (CHR ''n'')) sample_envelope = Inr token"
proof -
  let ?body = "dispatch_body sample_dispatch_keys sample_dispatch_sealed sample_envelope"
  have quarter: "length (b64url_encode raw) \<le> 2 * length raw + 4" for raw
    using b64url_length[of raw] by linarith
  have b: "length ?body \<le> 5000"
    using quarter[of "json_dumps (JObj (dispatch_payload sample_dispatch_keys sample_dispatch_sealed sample_envelope))"] sample_dumps
    unfolding dispatch_body_def by linarith
  have "length (b64url_encode (sign ?body)) \<le> 20000"
    using quarter[of "sign ?body"] assms[of ?body] b by linarith
  then have "int (length (dispatch_token (with_signature sign verify) ?body)) \<le> MAX_DISPATCH_ENVELOPE_CHARS"
    using b by (simp add: dispatch_token_def MAX_DISPATCH_ENVELOPE_CHARS_def)
  moreover have "dp_capability sample_envelope = ''cap''" by (simp add: sample_envelope_def)
  ultimately show ?thesis
    by (simp add: sign_dispatch_def with_signature_same sample_dispatch_valid sample_wrapped Let_def)
qed


text \<open>A signature scheme under which one dispatch has been issued.\<close>

definition one_dispatch_keys :: dispatch_keys where
  "one_dispatch_keys = with_signature (\<lambda>body. ''s'')
     (\<lambda>raw body. raw = ''s'' \<and> body = dispatch_body sample_dispatch_keys sample_dispatch_sealed sample_envelope)"


end
