(* ===== verification/Spec2Isabelle.thy ===== *)
theory Spec2Isabelle
  imports Redelivery Diff_Roundtrip Glob_Lang Policy_Prompt Discovery_Props Report_Props Lineage_Props Investigation_Props Access_Props
    Chunker_Props Relay_Access Artifact_Build Dispatch_Props
begin

text \<open>
  A verification development for Diffuse.
\<close>

end
